(* ===== verification/JsStrings.thy ===== *)
theory JsStrings
  imports Prelude "HOL-Library.Word"
begin

text \<open>
  JavaScript strings: lists of UTF-16 code units, with the string operations the code calls,
  the code-point order \<open>compareCodePoints\<close> of the filesystem and instructions packages, and
  the UTF-8 encoder and decoder behind \<open>Buffer.from\<close> and \<open>TextDecoder\<close>.
\<close>

type_synonym code_unit = "16 word"
type_synonym jstr = "code_unit list"
type_synonym byte = "8 word"
type_synonym bytes = "byte list"

section \<open>Literals\<close>

definition js :: "string \<Rightarrow> jstr" where
  "js s = map of_char s"

lemma of_char_code_unit: "(of_char c :: code_unit) = of_nat (of_char c)"
  by (simp add: of_nat_of_char)

lemma of_char_code_unit_eq [simp]: "(of_char c :: code_unit) = of_char d \<longleftrightarrow> c = d"
proof
  assume "(of_char c :: code_unit) = of_char d"
  then have "unat (of_nat (of_char c) :: code_unit) = unat (of_nat (of_char d) :: code_unit)"
    by (simp add: of_char_code_unit)
  moreover have "(of_char e :: nat) < 2 ^ LENGTH(16)" for e
    using nat_of_char_less_256 [of e] by (rule less_le_trans) simp
  ultimately have "(of_char c :: nat) = of_char d"
    by (simp add: unat_of_nat)
  then show "c = d" by simp
qed simp

lemma js_eq_iff [simp]: "js s = js t \<longleftrightarrow> s = t"
  unfolding js_def by (intro inj_map_eq_map injI) simp

lemma js_Nil [simp]: "js [] = []"
  by (simp add: js_def)

lemma js_eq_Nil [simp]: "js s = [] \<longleftrightarrow> s = []" "[] = js s \<longleftrightarrow> s = []"
  by (auto simp: js_def)

lemma length_js [simp]: "length (js s) = length s"
  by (simp add: js_def)

text \<open>A single code unit given by its ASCII character.\<close>

definition cu :: "char \<Rightarrow> code_unit" where
  "cu c = of_char c"

lemma cu_eq_iff [simp]: "cu c = cu d \<longleftrightarrow> c = d"
  by (simp add: cu_def)

text \<open>Decimal text of a natural number, as in template strings.\<close>

fun js_nat :: "nat \<Rightarrow> jstr" where
  "js_nat n = (if n < 10 then [of_nat (48 + n)] else js_nat (n div 10) @ [of_nat (48 + n mod 10)])"

declare js_nat.simps [simp del]

definition js_int :: "int \<Rightarrow> jstr" where
  "js_int i = (if i < 0 then cu (CHR ''-'') # js_nat (nat (- i)) else js_nat (nat i))"

section \<open>Searching and splitting\<close>

definition occurs_at :: "jstr \<Rightarrow> jstr \<Rightarrow> nat \<Rightarrow> bool" where
  "occurs_at pat s i \<longleftrightarrow> take (length pat) (drop i s) = pat"

text \<open>
  \<open>s.indexOf(pat, from)\<close>, with \<open>None\<close> for -1. An empty pattern is found at \<open>from\<close>, clipped to
  the length.
\<close>

definition indexOf :: "jstr \<Rightarrow> jstr \<Rightarrow> nat \<Rightarrow> nat option" where
  "indexOf s pat from =
     (if pat = [] then Some (min from (length s))
      else List.find (occurs_at pat s) [from..<length s])"

definition startsWith :: "jstr \<Rightarrow> jstr \<Rightarrow> bool" where
  "startsWith s pat \<longleftrightarrow> take (length pat) s = pat"

text \<open>\<open>s.slice(a, b)\<close> for in-range, non-negative bounds.\<close>

definition slice :: "'a list \<Rightarrow> nat \<Rightarrow> nat \<Rightarrow> 'a list" where
  "slice s a b = take (b - a) (drop a s)"

text \<open>\<open>s.split(c)\<close> for a one-unit separator, and \<open>parts.join(c)\<close>.\<close>

fun split_on :: "code_unit \<Rightarrow> jstr \<Rightarrow> jstr list" where
  "split_on c [] = [[]]"
| "split_on c (x # xs) =
     (if x = c then [] # split_on c xs
      else (case split_on c xs of [] \<Rightarrow> [[x]] | y # ys \<Rightarrow> (x # y) # ys))"

fun join_with :: "code_unit \<Rightarrow> jstr list \<Rightarrow> jstr" where
  "join_with c [] = []"
| "join_with c [x] = x"
| "join_with c (x # y # ys) = x @ c # join_with c (y # ys)"

lemma occurs_at_iff:
  "occurs_at pat s i \<longleftrightarrow> (\<exists>u v. s = u @ pat @ v \<and> length u = i) \<or> (pat = [] \<and> length s < i)"
proof (cases "i \<le> length s")
  case True
  show ?thesis
  proof
    assume "occurs_at pat s i"
    then have "drop i s = pat @ drop (length pat) (drop i s)"
      by (metis append_take_drop_id occurs_at_def)
    then have "s = take i s @ pat @ drop (length pat) (drop i s)"
      by (metis append_take_drop_id)
    moreover have "length (take i s) = i" using True by simp
    ultimately show "(\<exists>u v. s = u @ pat @ v \<and> length u = i) \<or> (pat = [] \<and> length s < i)"
      by blast
  next
    assume "(\<exists>u v. s = u @ pat @ v \<and> length u = i) \<or> (pat = [] \<and> length s < i)"
    with True show "occurs_at pat s i" by (auto simp: occurs_at_def)
  qed
next
  case False
  then show ?thesis by (auto simp: occurs_at_def)
qed

lemma occurs_at_bound: "pat \<noteq> [] \<Longrightarrow> occurs_at pat s i \<Longrightarrow> i + length pat \<le> length s"
  by (auto simp: occurs_at_iff)

lemma indexOf_Some:
  "pat \<noteq> [] \<Longrightarrow> indexOf s pat from = Some i \<longleftrightarrow>
     from \<le> i \<and> occurs_at pat s i \<and> (\<forall>j. from \<le> j \<and> j < i \<longrightarrow> \<not> occurs_at pat s j)"
  using occurs_at_bound [of pat s i] by (cases pat) (auto simp: indexOf_def find_upt_Some)

lemma indexOf_None:
  "pat \<noteq> [] \<Longrightarrow> indexOf s pat from = None \<longleftrightarrow> (\<forall>i \<ge> from. \<not> occurs_at pat s i)"
proof -
  assume ne: "pat \<noteq> []"
  have "occurs_at pat s i \<Longrightarrow> i < length s" for i
    using occurs_at_bound [OF ne, of s i] ne by (cases pat) auto
  with ne show ?thesis by (auto simp: indexOf_def find_upt_None)
qed

lemma split_on_not_Nil [simp]: "split_on c s \<noteq> []"
  by (induction s) (auto split: list.splits)

lemma join_split [simp]: "join_with c (split_on c s) = s"
proof (induction s)
  case Nil
  then show ?case by simp
next
  case (Cons x xs)
  obtain y ys where ys: "split_on c xs = y # ys"
    using split_on_not_Nil [of c xs] by (meson neq_Nil_conv)
  with Cons show ?case by (cases ys) auto
qed

lemma split_on_parts: "p \<in> set (split_on c s) \<Longrightarrow> c \<notin> set p"
  by (induction s arbitrary: p) (auto split: list.splits if_splits)

lemma split_on_no_sep: "c \<notin> set s \<Longrightarrow> split_on c s = [s]"
  by (induction s) auto

lemma split_on_append: "c \<notin> set p \<Longrightarrow> split_on c (p @ c # s) = p # split_on c s"
  by (induction p) auto

lemma split_join:
  "ps \<noteq> [] \<Longrightarrow> \<forall>p \<in> set ps. c \<notin> set p \<Longrightarrow> split_on c (join_with c ps) = ps"
  by (induction c ps rule: join_with.induct) (auto simp: split_on_no_sep split_on_append)

section \<open>Code points\<close>

definition is_high :: "code_unit \<Rightarrow> bool" where
  "is_high u \<longleftrightarrow> 0xD800 \<le> unat u \<and> unat u < 0xDC00"

definition is_low :: "code_unit \<Rightarrow> bool" where
  "is_low u \<longleftrightarrow> 0xDC00 \<le> unat u \<and> unat u < 0xE000"

text \<open>\<open>Array.from(s, c => c.codePointAt(0))\<close>: a surrogate pair is one point, a lone surrogate
  stands for itself.\<close>

fun code_points :: "jstr \<Rightarrow> nat list" where
  "code_points [] = []"
| "code_points [u] = [unat u]"
| "code_points (u # v # us) =
     (if is_high u \<and> is_low v
      then (0x10000 + (unat u - 0xD800) * 0x400 + (unat v - 0xDC00)) # code_points us
      else unat u # code_points (v # us))"

definition units_of_point :: "nat \<Rightarrow> jstr" where
  "units_of_point c =
     (if c < 0x10000 then [of_nat c]
      else [of_nat (0xD800 + (c - 0x10000) div 0x400), of_nat (0xDC00 + (c - 0x10000) mod 0x400)])"

definition units_of_points :: "nat list \<Rightarrow> jstr" where
  "units_of_points cs = concat (map units_of_point cs)"

lemma units_of_points_simps [simp]:
  "units_of_points [] = []"
  "units_of_points (c # cs) = units_of_point c @ units_of_points cs"
  by (simp_all add: units_of_points_def)

lemma unat_code_unit_bound [simp]: "unat (u :: code_unit) < 65536"
  using unsigned_less [of u] by simp

lemma units_of_single [simp]: "units_of_point (unat u) = [u]"
  by (simp add: units_of_point_def)

lemma units_of_pair:
  assumes "is_high u" "is_low v"
  shows "units_of_point (0x10000 + (unat u - 0xD800) * 0x400 + (unat v - 0xDC00)) = [u, v]"
proof -
  let ?h = "unat u - 0xD800" and ?l = "unat v - 0xDC00"
  have l: "?l < 0x400" using assms(2) by (auto simp: is_low_def)
  then have "(?h * 0x400 + ?l) div 0x400 = ?h" "(?h * 0x400 + ?l) mod 0x400 = ?l"
    by auto
  moreover have "0xD800 + ?h = unat u" "0xDC00 + ?l = unat v"
    using assms by (auto simp: is_high_def is_low_def)
  moreover have "units_of_point (0x10000 + ?h * 0x400 + ?l) =
      [of_nat (0xD800 + (?h * 0x400 + ?l) div 0x400), of_nat (0xDC00 + (?h * 0x400 + ?l) mod 0x400)]"
    by (simp add: units_of_point_def)
  ultimately show ?thesis by simp
qed

lemma units_of_code_points [simp]: "units_of_points (code_points s) = s"
  by (induction s rule: code_points.induct) (auto simp: units_of_pair)

lemma code_points_inj: "code_points s = code_points t \<Longrightarrow> s = t"
  by (metis units_of_code_points)

text \<open>The Unicode scalar values: code points that are not surrogates.\<close>

definition scalar :: "nat \<Rightarrow> bool" where
  "scalar c \<longleftrightarrow> c < 0xD800 \<or> (0xE000 \<le> c \<and> c < 0x110000)"

lemma code_points_cons_single:
  "\<not> is_high u \<Longrightarrow> code_points (u # us) = unat u # code_points us"
  by (cases us) auto

lemma unat_of_nat_code_unit: "n < 65536 \<Longrightarrow> unat (of_nat n :: code_unit) = n"
  by (simp add: unat_of_nat)

lemma code_points_units_append:
  assumes "scalar c"
  shows "code_points (units_of_point c @ us) = c # code_points us"
proof (cases "c < 0x10000")
  case True
  then have u: "unat (of_nat c :: code_unit) = c" by (simp add: unat_of_nat_code_unit)
  then have "\<not> is_high (of_nat c :: code_unit)" using assms by (auto simp: is_high_def scalar_def)
  with True u show ?thesis by (simp add: units_of_point_def code_points_cons_single)
next
  case False
  let ?d = "c - 0x10000"
  have d: "?d < 0x100000" using assms False by (auto simp: scalar_def)
  have hi: "unat (of_nat (0xD800 + ?d div 0x400) :: code_unit) = 0xD800 + ?d div 0x400"
    using d by (intro unat_of_nat_code_unit) (simp add: less_mult_imp_div_less)
  have lo: "unat (of_nat (0xDC00 + ?d mod 0x400) :: code_unit) = 0xDC00 + ?d mod 0x400"
    by (intro unat_of_nat_code_unit) (simp add: order_less_trans [OF mod_less_divisor])
  have "?d div 0x400 < 0x400" using d by (simp add: less_mult_imp_div_less)
  then have "is_high (of_nat (0xD800 + ?d div 0x400))" "is_low (of_nat (0xDC00 + ?d mod 0x400))"
    by (simp_all only: is_high_def is_low_def hi lo) simp_all
  moreover have "0x10000 + (?d div 0x400) * 0x400 + ?d mod 0x400 = c"
    using False by simp
  ultimately show ?thesis using False hi lo by (simp add: units_of_point_def)
qed

lemma code_points_units:
  "\<forall>c \<in> set cs. scalar c \<Longrightarrow> code_points (units_of_points cs) = cs"
  by (induction cs) (auto simp: code_points_units_append)

section \<open>\<open>compareCodePoints\<close>\<close>

text \<open>
  The loop over the two point lists up to the shorter length, then the difference of the
  lengths; both lists lose the points already found equal, which leaves that difference
  unchanged.
\<close>

fun compare_points :: "nat list \<Rightarrow> nat list \<Rightarrow> int" where
  "compare_points (a # as) (b # bs) =
     (let difference = int a - int b in if difference \<noteq> 0 then difference else compare_points as bs)"
| "compare_points as bs = int (length as) - int (length bs)"

definition compareCodePoints :: "jstr \<Rightarrow> jstr \<Rightarrow> int" where
  "compareCodePoints left right = compare_points (code_points left) (code_points right)"

lemma compare_points_flip: "compare_points ys xs = - compare_points xs ys"
  by (induction xs ys rule: compare_points.induct) (auto simp: Let_def)

lemma compare_points_eq: "compare_points xs ys = 0 \<longleftrightarrow> xs = ys"
  by (induction xs ys rule: compare_points.induct) (auto simp: Let_def)

lemma compare_points_Nil:
  "compare_points [] zs \<le> 0" "compare_points as [] \<le> 0 \<longleftrightarrow> as = []"
  by (cases zs; simp) (cases as; simp)

lemma compare_points_trans:
  "compare_points xs ys \<le> 0 \<Longrightarrow> compare_points ys zs \<le> 0 \<Longrightarrow> compare_points xs zs \<le> 0"
proof (induction xs ys arbitrary: zs rule: compare_points.induct)
  case (1 a as b bs)
  then show ?case by (cases zs) (auto simp: Let_def split: if_splits)
qed (auto simp: compare_points_Nil)

lemma compareCodePoints_flip: "compareCodePoints y x = - compareCodePoints x y"
  unfolding compareCodePoints_def by (rule compare_points_flip)

lemma compareCodePoints_eq: "compareCodePoints x y = 0 \<longleftrightarrow> x = y"
  unfolding compareCodePoints_def compare_points_eq by (blast intro: code_points_inj)

lemma compareCodePoints_trans:
  "compareCodePoints x y \<le> 0 \<Longrightarrow> compareCodePoints y z \<le> 0 \<Longrightarrow> compareCodePoints x z \<le> 0"
  unfolding compareCodePoints_def by (rule compare_points_trans)

interpretation code_point_order: strict_comparator compareCodePoints
proof unfold_locales
  show "compareCodePoints x y < 0 \<longleftrightarrow> 0 < compareCodePoints y x" for x y
    using compareCodePoints_flip [of x y] by linarith
next
  show "compareCodePoints x y \<le> 0 \<Longrightarrow> compareCodePoints y z \<le> 0 \<Longrightarrow> compareCodePoints x z \<le> 0"
    for x y z by (rule compareCodePoints_trans)
next
  show "compareCodePoints x y = 0 \<Longrightarrow> x = y" for x y
    by (simp add: compareCodePoints_eq)
qed

end
