(* ===== verification/Utf8.thy ===== *)
theory Utf8
  imports JsStrings
begin

text \<open>
  UTF-8 as \<open>Buffer.from(s, 'utf8')\<close> writes it and \<open>new TextDecoder('utf-8', { fatal: true })\<close>
  reads it: the encoder replaces lone surrogates by U+FFFD, the decoder rejects every malformed
  sequence and drops one leading byte order mark.
\<close>

section \<open>Encoding\<close>

definition utf8_point :: "nat \<Rightarrow> bytes" where
  "utf8_point c =
     (if c < 0x80 then [of_nat c]
      else if c < 0x800 then [of_nat (0xC0 + c div 64), of_nat (0x80 + c mod 64)]
      else if c < 0x10000 then
        [of_nat (0xE0 + c div 4096), of_nat (0x80 + (c div 64) mod 64), of_nat (0x80 + c mod 64)]
      else
        [of_nat (0xF0 + c div 262144), of_nat (0x80 + (c div 4096) mod 64),
         of_nat (0x80 + (c div 64) mod 64), of_nat (0x80 + c mod 64)])"

definition utf8_of_points :: "nat list \<Rightarrow> bytes" where
  "utf8_of_points cs = concat (map utf8_point cs)"

definition replace_lone :: "nat \<Rightarrow> nat" where
  "replace_lone c = (if scalar c then c else 0xFFFD)"

definition utf8_encode :: "jstr \<Rightarrow> bytes" where
  "utf8_encode s = utf8_of_points (map replace_lone (code_points s))"

definition byteLength :: "jstr \<Rightarrow> nat" where
  "byteLength s = length (utf8_encode s)"

section \<open>Decoding\<close>

definition byte_in :: "nat \<Rightarrow> nat \<Rightarrow> byte \<Rightarrow> bool" where
  "byte_in lo hi b \<longleftrightarrow> lo \<le> unat b \<and> unat b \<le> hi"

definition cont :: "byte \<Rightarrow> nat" where
  "cont b = unat b - 0x80"

text \<open>The first continuation byte is restricted so that no point is encoded in more bytes than
  needed, none is a surrogate and none exceeds U+10FFFF.\<close>

definition second_lo :: "nat \<Rightarrow> nat" where
  "second_lo lead = (if lead = 0xE0 then 0xA0 else if lead = 0xF0 then 0x90 else 0x80)"

definition second_hi :: "nat \<Rightarrow> nat" where
  "second_hi lead = (if lead = 0xED then 0x9F else if lead = 0xF4 then 0x8F else 0xBF)"

fun utf8_points :: "bytes \<Rightarrow> nat list option" where
  "utf8_points [] = Some []"
| "utf8_points (b # bs) =
     (let lead = unat b in
      if lead < 0x80 then map_option ((#) lead) (utf8_points bs)
      else if 0xC2 \<le> lead \<and> lead \<le> 0xDF then
        (case bs of
           c1 # bs' \<Rightarrow>
             if byte_in 0x80 0xBF c1
             then map_option ((#) ((lead - 0xC0) * 64 + cont c1)) (utf8_points bs')
             else None
         | _ \<Rightarrow> None)
      else if 0xE0 \<le> lead \<and> lead \<le> 0xEF then
        (case bs of
           c1 # c2 # bs' \<Rightarrow>
             if byte_in (second_lo lead) (second_hi lead) c1 \<and> byte_in 0x80 0xBF c2
             then map_option ((#) ((lead - 0xE0) * 4096 + cont c1 * 64 + cont c2)) (utf8_points bs')
             else None
         | _ \<Rightarrow> None)
      else if 0xF0 \<le> lead \<and> lead \<le> 0xF4 then
        (case bs of
           c1 # c2 # c3 # bs' \<Rightarrow>
             if byte_in (second_lo lead) (second_hi lead) c1 \<and> byte_in 0x80 0xBF c2 \<and> byte_in 0x80 0xBF c3
             then map_option ((#) ((lead - 0xF0) * 262144 + cont c1 * 4096 + cont c2 * 64 + cont c3))
                    (utf8_points bs')
             else None
         | _ \<Rightarrow> None)
      else None)"

declare utf8_points.simps(2) [simp del]

fun strip_bom :: "nat list \<Rightarrow> nat list" where
  "strip_bom [] = []"
| "strip_bom (c # cs) = (if c = 0xFEFF then cs else c # cs)"

text \<open>\<open>new TextDecoder('utf-8', { fatal: true }).decode(buffer)\<close>; \<open>None\<close> for the TypeError.\<close>

definition utf8_decode :: "bytes \<Rightarrow> jstr option" where
  "utf8_decode bs = map_option (units_of_points \<circ> strip_bom) (utf8_points bs)"

section \<open>Decoding inverts encoding\<close>

lemma unat_byte_bound [simp]: "unat (b :: byte) < 256"
  using unsigned_less [of b] by simp

lemma unat_of_nat_byte: "n < 256 \<Longrightarrow> unat (of_nat n :: byte) = n"
  by (simp add: unat_of_nat)

lemma utf8_points_1:
  "unat b < 0x80 \<Longrightarrow> utf8_points (b # bs) = map_option ((#) (unat b)) (utf8_points bs)"
  by (simp add: utf8_points.simps(2))

lemma utf8_points_2:
  "0xC2 \<le> unat b \<Longrightarrow> unat b \<le> 0xDF \<Longrightarrow> byte_in 0x80 0xBF c1 \<Longrightarrow>
   utf8_points (b # c1 # bs) = map_option ((#) ((unat b - 0xC0) * 64 + cont c1)) (utf8_points bs)"
  by (simp add: utf8_points.simps(2) [of b])

lemma utf8_points_3:
  "0xE0 \<le> unat b \<Longrightarrow> unat b \<le> 0xEF \<Longrightarrow> byte_in (second_lo (unat b)) (second_hi (unat b)) c1 \<Longrightarrow>
   byte_in 0x80 0xBF c2 \<Longrightarrow>
   utf8_points (b # c1 # c2 # bs) =
     map_option ((#) ((unat b - 0xE0) * 4096 + cont c1 * 64 + cont c2)) (utf8_points bs)"
  by (simp add: utf8_points.simps(2) [of b])

lemma utf8_points_4:
  "0xF0 \<le> unat b \<Longrightarrow> unat b \<le> 0xF4 \<Longrightarrow> byte_in (second_lo (unat b)) (second_hi (unat b)) c1 \<Longrightarrow>
   byte_in 0x80 0xBF c2 \<Longrightarrow> byte_in 0x80 0xBF c3 \<Longrightarrow>
   utf8_points (b # c1 # c2 # c3 # bs) =
     map_option ((#) ((unat b - 0xF0) * 262144 + cont c1 * 4096 + cont c2 * 64 + cont c3))
       (utf8_points bs)"
  by (simp add: utf8_points.simps(2) [of b])

lemma base64_2:
  "(z :: nat) < 64 \<Longrightarrow> (y * 64 + z) div 64 = y \<and> (y * 64 + z) mod 64 = z"
  by simp

lemma base64_3:
  assumes "(y :: nat) < 64" "z < 64"
  shows "(x * 4096 + y * 64 + z) div 4096 = x" "(x * 4096 + y * 64 + z) div 64 mod 64 = y"
    "(x * 4096 + y * 64 + z) mod 64 = z"
proof -
  have e: "x * 4096 + y * 64 + z = (x * 64 + y) * 64 + z" by simp
  have d: "((x * 64 + y) * 64 + z) div 64 = x * 64 + y" using assms base64_2 by blast
  have "((x * 64 + y) * 64 + z) div (64 * 64) = x"
    unfolding div_mult2_eq d using assms base64_2 by blast
  then show "(x * 4096 + y * 64 + z) div 4096 = x" unfolding e by simp
  show "(x * 4096 + y * 64 + z) div 64 mod 64 = y"
    unfolding e d using assms base64_2 by blast
  show "(x * 4096 + y * 64 + z) mod 64 = z"
    unfolding e using assms base64_2 by blast
qed

lemma base64_4:
  assumes "(y :: nat) < 64" "z < 64" "u < 64"
  shows "(x * 262144 + y * 4096 + z * 64 + u) div 262144 = x"
    "(x * 262144 + y * 4096 + z * 64 + u) div 4096 mod 64 = y"
    "(x * 262144 + y * 4096 + z * 64 + u) div 64 mod 64 = z"
    "(x * 262144 + y * 4096 + z * 64 + u) mod 64 = u"
proof -
  have e: "x * 262144 + y * 4096 + z * 64 + u = (x * 64 + y) * 4096 + z * 64 + u" by simp
  note b = base64_3 [OF assms(2,3), of "x * 64 + y"]
  have "((x * 64 + y) * 4096 + z * 64 + u) div (4096 * 64) = x"
    unfolding div_mult2_eq b using assms base64_2 by blast
  then show "(x * 262144 + y * 4096 + z * 64 + u) div 262144 = x" unfolding e by simp
  show "(x * 262144 + y * 4096 + z * 64 + u) div 4096 mod 64 = y"
    unfolding e b using assms base64_2 by blast
  show "(x * 262144 + y * 4096 + z * 64 + u) div 64 mod 64 = z"
    "(x * 262144 + y * 4096 + z * 64 + u) mod 64 = u"
    unfolding e b by simp_all
qed

lemma digits64_2: "(c :: nat) = c div 64 * 64 + c mod 64" "c mod 64 < 64"
  by simp_all

lemma digits64_3: "(c :: nat) = c div 4096 * 4096 + c div 64 mod 64 * 64 + c mod 64"
proof -
  have "c div 4096 = c div 64 div 64" by (simp add: div_mult2_eq [symmetric])
  moreover have "c div 64 = c div 64 div 64 * 64 + c div 64 mod 64" by simp
  moreover have "c = c div 64 * 64 + c mod 64" by simp
  ultimately show ?thesis by linarith
qed

lemma digits64_4:
  "(c :: nat) = c div 262144 * 262144 + c div 4096 mod 64 * 4096 + c div 64 mod 64 * 64 + c mod 64"
proof -
  have "c div 262144 = c div 4096 div 64" by (simp add: div_mult2_eq [symmetric])
  moreover have "c div 4096 = c div 4096 div 64 * 64 + c div 4096 mod 64" by simp
  moreover note digits64_3 [of c]
  ultimately show ?thesis by linarith
qed

lemma byte_of_nat:
  assumes "n < 256"
  obtains b :: byte where "of_nat n = b" "unat b = n"
  using assms by (metis unat_of_nat_byte)

lemma byte_in_iff: "unat b = n \<Longrightarrow> byte_in lo hi b \<longleftrightarrow> lo \<le> n \<and> n \<le> hi"
  by (simp add: byte_in_def)

lemma utf8_point_decode1:
  assumes "c < 0x80"
  shows "utf8_points (utf8_point c @ bs) = map_option ((#) c) (utf8_points bs)"
proof -
  obtain b :: byte where b: "of_nat c = b" "unat b = c"
    using byte_of_nat [of c] assms by auto
  then have "utf8_point c @ bs = b # bs" using assms by (simp add: utf8_point_def)
  with b assms show ?thesis by (simp add: utf8_points_1)
qed

lemma utf8_point_decode2:
  assumes "0x80 \<le> c" "c < 0x800"
  shows "utf8_points (utf8_point c @ bs) = map_option ((#) c) (utf8_points bs)"
proof -
  define x y where "x = c div 64" and "y = c mod 64"
  have xy: "c = x * 64 + y" "2 \<le> x" "x < 32" "y < 64"
    using assms digits64_2 [of c] unfolding x_def y_def by simp_all
  obtain b1 :: byte where b1: "of_nat (0xC0 + x) = b1" "unat b1 = 0xC0 + x"
    using byte_of_nat [of "0xC0 + x"] xy by auto
  obtain b2 :: byte where b2: "of_nat (0x80 + y) = b2" "unat b2 = 0x80 + y"
    using byte_of_nat [of "0x80 + y"] xy by auto
  have "utf8_point c = [of_nat (0xC0 + x), of_nat (0x80 + y)]"
    using assms unfolding x_def y_def utf8_point_def by (simp del: of_nat_add)
  then have "utf8_point c = [b1, b2]" unfolding b1(1) b2(1) .
  then show ?thesis using xy b1 b2 by (simp add: utf8_points_2 byte_in_iff [OF b2(2)] cont_def)
qed

lemma utf8_point_decode3:
  assumes "0x800 \<le> c" "c < 0x10000" "scalar c"
  shows "utf8_points (utf8_point c @ bs) = map_option ((#) c) (utf8_points bs)"
proof -
  define x y z where "x = c div 4096" and "y = c div 64 mod 64" and "z = c mod 64"
  have c: "c = x * 4096 + y * 64 + z" "x < 16" "y < 64" "z < 64"
    using digits64_3 [of c] assms(2) unfolding x_def y_def z_def
    by (simp_all add: less_mult_imp_div_less)
  have lo: "x = 0 \<Longrightarrow> 32 \<le> y" using assms(1) c by simp
  have hi: "x = 13 \<Longrightarrow> y < 32" using assms(3) c by (auto simp: scalar_def)
  obtain b1 :: byte where b1: "of_nat (0xE0 + x) = b1" "unat b1 = 0xE0 + x"
    using byte_of_nat [of "0xE0 + x"] c by auto
  obtain b2 :: byte where b2: "of_nat (0x80 + y) = b2" "unat b2 = 0x80 + y"
    using byte_of_nat [of "0x80 + y"] c by auto
  obtain b3 :: byte where b3: "of_nat (0x80 + z) = b3" "unat b3 = 0x80 + z"
    using byte_of_nat [of "0x80 + z"] c by auto
  have "\<not> c < 0x80" "\<not> c < 0x800" using assms(1) by auto
  then have "utf8_point c = [of_nat (0xE0 + x), of_nat (0x80 + y), of_nat (0x80 + z)]"
    using assms(2) unfolding x_def y_def z_def utf8_point_def by (simp only: if_False if_True)
  then have "utf8_point c = [b1, b2, b3]" unfolding b1(1) b2(1) b3(1) .
  moreover have "byte_in (second_lo (unat b1)) (second_hi (unat b1)) b2"
    unfolding byte_in_iff [OF b2(2)] b1(2) using c lo hi by (auto simp: second_lo_def second_hi_def)
  ultimately show ?thesis using c b1(2) b2(2) b3(2)
    by (simp add: utf8_points_3 byte_in_iff [OF b3(2)] cont_def)
qed

lemma utf8_point_decode4:
  assumes "0x10000 \<le> c" "c < 0x110000"
  shows "utf8_points (utf8_point c @ bs) = map_option ((#) c) (utf8_points bs)"
proof -
  define x y z u where "x = c div 262144" and "y = c div 4096 mod 64" and "z = c div 64 mod 64"
    and "u = c mod 64"
  have c: "c = x * 262144 + y * 4096 + z * 64 + u" "x < 5" "y < 64" "z < 64" "u < 64"
    using digits64_4 [of c] assms(2) unfolding x_def y_def z_def u_def
    by (simp_all add: less_mult_imp_div_less)
  have lo: "x = 0 \<Longrightarrow> 16 \<le> y" using assms(1) c by simp
  have hi: "x = 4 \<Longrightarrow> y < 16" using assms(2) c by auto
  obtain b1 :: byte where b1: "of_nat (0xF0 + x) = b1" "unat b1 = 0xF0 + x"
    using byte_of_nat [of "0xF0 + x"] c by auto
  obtain b2 :: byte where b2: "of_nat (0x80 + y) = b2" "unat b2 = 0x80 + y"
    using byte_of_nat [of "0x80 + y"] c by auto
  obtain b3 :: byte where b3: "of_nat (0x80 + z) = b3" "unat b3 = 0x80 + z"
    using byte_of_nat [of "0x80 + z"] c by auto
  obtain b4 :: byte where b4: "of_nat (0x80 + u) = b4" "unat b4 = 0x80 + u"
    using byte_of_nat [of "0x80 + u"] c by auto
  have "\<not> c < 0x80" "\<not> c < 0x800" "\<not> c < 0x10000" using assms(1) by auto
  then have "utf8_point c = [of_nat (0xF0 + x), of_nat (0x80 + y), of_nat (0x80 + z), of_nat (0x80 + u)]"
    unfolding x_def y_def z_def u_def utf8_point_def by (simp only: if_False)
  then have "utf8_point c = [b1, b2, b3, b4]" unfolding b1(1) b2(1) b3(1) b4(1) .
  moreover have "byte_in (second_lo (unat b1)) (second_hi (unat b1)) b2"
    unfolding byte_in_iff [OF b2(2)] b1(2) using c lo hi by (auto simp: second_lo_def second_hi_def)
  ultimately show ?thesis using c b1(2) b2(2) b3(2) b4(2)
    by (simp add: utf8_points_4 byte_in_iff [OF b3(2)] byte_in_iff [OF b4(2)] cont_def)
qed

lemma utf8_point_decode:
  assumes "scalar c"
  shows "utf8_points (utf8_point c @ bs) = map_option ((#) c) (utf8_points bs)"
proof -
  consider "c < 0x80" | "0x80 \<le> c" "c < 0x800" | "0x800 \<le> c" "c < 0x10000"
    | "0x10000 \<le> c" "c < 0x110000"
    using assms unfolding scalar_def by linarith
  then show ?thesis
    by cases (auto simp: assms utf8_point_decode1 utf8_point_decode2 utf8_point_decode3
        utf8_point_decode4)
qed

lemma utf8_points_of_points:
  "\<forall>c \<in> set cs. scalar c \<Longrightarrow> utf8_points (utf8_of_points cs) = Some cs"
  by (induction cs) (auto simp: utf8_of_points_def utf8_point_decode)

section \<open>Encoding inverts decoding\<close>

lemma of_nat_unat_byte: "n = unat (b :: byte) \<Longrightarrow> of_nat n = b"
  by simp

lemma decoded1:
  "unat b < 0x80 \<Longrightarrow> scalar (unat b) \<and> utf8_point (unat b) = [b]"
  by (simp add: scalar_def utf8_point_def)

lemma decoded2:
  assumes "0xC2 \<le> unat b" "unat b \<le> 0xDF" "byte_in 0x80 0xBF c1"
  shows "scalar ((unat b - 0xC0) * 64 + cont c1) \<and> utf8_point ((unat b - 0xC0) * 64 + cont c1) = [b, c1]"
proof -
  obtain x y where x: "unat b = 0xC0 + x" "2 \<le> x" "x < 32" and y: "unat c1 = 0x80 + y" "y < 64"
    using assms that [of "unat b - 0xC0" "unat c1 - 0x80"] by (auto simp: byte_in_def)
  have "utf8_point (x * 64 + y) = [of_nat (0xC0 + x), of_nat (0x80 + y)]"
    using x y by (simp add: utf8_point_def)
  also have "\<dots> = [b, c1]" unfolding x(1) [symmetric] y(1) [symmetric] by simp
  finally show ?thesis using x y by (simp add: cont_def scalar_def)
qed

lemma decoded3:
  assumes "0xE0 \<le> unat b" "unat b \<le> 0xEF"
    and "byte_in (second_lo (unat b)) (second_hi (unat b)) c1" "byte_in 0x80 0xBF c2"
  shows "scalar ((unat b - 0xE0) * 4096 + cont c1 * 64 + cont c2)
    \<and> utf8_point ((unat b - 0xE0) * 4096 + cont c1 * 64 + cont c2) = [b, c1, c2]"
proof -
  obtain x y z where x: "unat b = 0xE0 + x" "x < 16" and y: "unat c1 = 0x80 + y" "y < 64"
      and z: "unat c2 = 0x80 + z" "z < 64"
    using assms that [of "unat b - 0xE0" "unat c1 - 0x80" "unat c2 - 0x80"]
    by (auto simp: byte_in_def second_lo_def second_hi_def split: if_splits)
  have lo: "x = 0 \<Longrightarrow> 32 \<le> y" and hi: "x = 13 \<Longrightarrow> y < 32"
    using assms(3) x y by (auto simp: byte_in_def second_lo_def second_hi_def)
  let ?c = "x * 4096 + y * 64 + z"
  have r: "0x800 \<le> ?c" "?c < 0x10000" using x y z lo by (cases "x = 0"; simp)+
  have dm: "?c div 4096 = x" "?c div 64 mod 64 = y" "?c mod 64 = z"
    by (rule base64_3 [OF y(2) z(2)])+
  have "utf8_point ?c = [of_nat (0xE0 + x), of_nat (0x80 + y), of_nat (0x80 + z)]"
    using r unfolding utf8_point_def dm by simp
  also have "\<dots> = [b, c1, c2]" unfolding x(1) [symmetric] y(1) [symmetric] z(1) [symmetric] by simp
  finally have "utf8_point ?c = [b, c1, c2]" .
  moreover have "scalar ?c" using x y z hi unfolding scalar_def by (cases "x < 13"; cases "x = 13"; simp)
  ultimately show ?thesis using x y z by (simp add: cont_def)
qed

lemma decoded4:
  assumes "0xF0 \<le> unat b" "unat b \<le> 0xF4"
    and "byte_in (second_lo (unat b)) (second_hi (unat b)) c1" "byte_in 0x80 0xBF c2" "byte_in 0x80 0xBF c3"
  shows "scalar ((unat b - 0xF0) * 262144 + cont c1 * 4096 + cont c2 * 64 + cont c3)
    \<and> utf8_point ((unat b - 0xF0) * 262144 + cont c1 * 4096 + cont c2 * 64 + cont c3) = [b, c1, c2, c3]"
proof -
  obtain x y z u where x: "unat b = 0xF0 + x" "x < 5" and y: "unat c1 = 0x80 + y" "y < 64"
      and z: "unat c2 = 0x80 + z" "z < 64" and u: "unat c3 = 0x80 + u" "u < 64"
    using assms that [of "unat b - 0xF0" "unat c1 - 0x80" "unat c2 - 0x80" "unat c3 - 0x80"]
    by (auto simp: byte_in_def second_lo_def second_hi_def split: if_splits)
  have lo: "x = 0 \<Longrightarrow> 16 \<le> y" and hi: "x = 4 \<Longrightarrow> y < 16"
    using assms(3) x y by (auto simp: byte_in_def second_lo_def second_hi_def)
  let ?c = "x * 262144 + y * 4096 + z * 64 + u"
  have r: "0x10000 \<le> ?c" using x y z u lo by (cases "x = 0"; simp)
  have r': "?c < 0x110000" using x y z u hi by (cases "x = 4"; simp)
  have dm: "?c div 262144 = x" "?c div 4096 mod 64 = y" "?c div 64 mod 64 = z" "?c mod 64 = u"
    by (rule base64_4 [OF y(2) z(2) u(2)])+
  have "utf8_point ?c =
      [of_nat (0xF0 + x), of_nat (0x80 + y), of_nat (0x80 + z), of_nat (0x80 + u)]"
    using r unfolding utf8_point_def dm by simp
  also have "\<dots> = [b, c1, c2, c3]"
    unfolding x(1) [symmetric] y(1) [symmetric] z(1) [symmetric] u(1) [symmetric] by simp
  finally have "utf8_point ?c = [b, c1, c2, c3]" .
  moreover have "scalar ?c" using r r' unfolding scalar_def by simp
  ultimately show ?thesis using x y z u by (simp add: cont_def)
qed

lemma utf8_points_sound:
  "utf8_points bs = Some cs \<Longrightarrow> (\<forall>c \<in> set cs. scalar c) \<and> utf8_of_points cs = bs"
proof (induction bs arbitrary: cs rule: utf8_points.induct)
  case 1
  then show ?case by (simp add: utf8_of_points_def)
next
  case (2 b bs)
  note eq = "2.prems" [unfolded utf8_points.simps(2) Let_def]
  consider (one) "unat b < 0x80"
    | (two) "\<not> unat b < 0x80" "0xC2 \<le> unat b \<and> unat b \<le> 0xDF"
    | (three) "\<not> unat b < 0x80" "\<not> (0xC2 \<le> unat b \<and> unat b \<le> 0xDF)" "0xE0 \<le> unat b \<and> unat b \<le> 0xEF"
    | (four) "\<not> unat b < 0x80" "\<not> (0xC2 \<le> unat b \<and> unat b \<le> 0xDF)"
        "\<not> (0xE0 \<le> unat b \<and> unat b \<le> 0xEF)" "0xF0 \<le> unat b \<and> unat b \<le> 0xF4"
    | (bad) "\<not> unat b < 0x80" "\<not> (0xC2 \<le> unat b \<and> unat b \<le> 0xDF)"
        "\<not> (0xE0 \<le> unat b \<and> unat b \<le> 0xEF)" "\<not> (0xF0 \<le> unat b \<and> unat b \<le> 0xF4)"
    by blast
  then show ?case
  proof cases
    case one
    with eq obtain cs' where "utf8_points bs = Some cs'" "cs = unat b # cs'" by auto
    with one "2.IH"(1) decoded1 [of b] show ?thesis by (simp add: utf8_of_points_def)
  next
    case two
    from eq obtain c1 bs' cs' where c: "bs = c1 # bs'" "byte_in 0x80 0xBF c1"
        "utf8_points bs' = Some cs'" "cs = ((unat b - 0xC0) * 64 + cont c1) # cs'"
      unfolding if_not_P [OF two(1)] if_P [OF two(2)] by (auto split: list.splits if_splits)
    with "2.IH"(2) [OF refl two _ c(2)] two(2) decoded2 [of b c1] show ?thesis
      by (simp add: utf8_of_points_def)
  next
    case three
    from eq obtain c1 c2 bs' cs' where c: "bs = c1 # c2 # bs'"
        "byte_in (second_lo (unat b)) (second_hi (unat b)) c1 \<and> byte_in 0x80 0xBF c2"
        "utf8_points bs' = Some cs'" "cs = ((unat b - 0xE0) * 4096 + cont c1 * 64 + cont c2) # cs'"
      unfolding if_not_P [OF three(1)] if_not_P [OF three(2)] if_P [OF three(3)]
      by (auto split: list.splits if_splits)
    with "2.IH"(3) [OF refl three _ _ c(2)] three(3) decoded3 [of b c1 c2] show ?thesis
      by (simp add: utf8_of_points_def)
  next
    case four
    from eq obtain c1 c2 c3 bs' cs' where c: "bs = c1 # c2 # c3 # bs'"
        "byte_in (second_lo (unat b)) (second_hi (unat b)) c1 \<and> byte_in 0x80 0xBF c2 \<and> byte_in 0x80 0xBF c3"
        "utf8_points bs' = Some cs'"
        "cs = ((unat b - 0xF0) * 262144 + cont c1 * 4096 + cont c2 * 64 + cont c3) # cs'"
      unfolding if_not_P [OF four(1)] if_not_P [OF four(2)] if_not_P [OF four(3)] if_P [OF four(4)]
      by (auto split: list.splits if_splits)
    with "2.IH"(4) [OF refl four _ _ _ c(2)] four(4) decoded4 [of b c1 c2 c3] show ?thesis
      by (simp add: utf8_of_points_def)
  next
    case bad
    from eq have False
      unfolding if_not_P [OF bad(1)] if_not_P [OF bad(2)] if_not_P [OF bad(3)] if_not_P [OF bad(4)] by simp
    then show ?thesis ..
  qed
qed

section \<open>Text round trips\<close>

lemma utf8_encode_scalar:
  "\<forall>c \<in> set cs. scalar c \<Longrightarrow> utf8_encode (units_of_points cs) = utf8_of_points cs"
  by (simp add: utf8_encode_def code_points_units replace_lone_def map_idI)

definition bom :: bytes where
  "bom = [0xEF, 0xBB, 0xBF]"

lemma utf8_point_bom: "utf8_point 0xFEFF = bom"
  by (simp add: utf8_point_def bom_def)

text \<open>Text that decodes is written back byte for byte, but for a byte order mark.\<close>

lemma utf8_encode_decode:
  assumes "utf8_decode bs = Some s"
  shows "bs = utf8_encode s \<or> bs = bom @ utf8_encode s"
proof -
  obtain cs where cs: "utf8_points bs = Some cs" "s = units_of_points (strip_bom cs)"
    using assms by (auto simp: utf8_decode_def)
  note sound = utf8_points_sound [OF cs(1)]
  show ?thesis
  proof (cases cs)
    case Nil
    with sound cs show ?thesis by (simp add: utf8_encode_def utf8_of_points_def)
  next
    case (Cons c cs')
    show ?thesis
    proof (cases "c = 0xFEFF")
      case True
      with sound Cons have "bs = bom @ utf8_of_points cs'"
        by (auto simp: utf8_of_points_def utf8_point_bom)
      moreover have "utf8_encode s = utf8_of_points cs'"
        using True Cons cs sound by (simp add: utf8_encode_scalar)
      ultimately show ?thesis by simp
    next
      case False
      with Cons cs sound have "utf8_encode s = utf8_of_points cs"
        using utf8_encode_scalar [of cs] by simp
      with sound show ?thesis by simp
    qed
  qed
qed

lemma utf8_encode_decode_no_bom:
  "utf8_decode bs = Some s \<Longrightarrow> take 3 bs \<noteq> bom \<Longrightarrow> utf8_encode s = bs"
  using utf8_encode_decode [of bs s] by (auto simp: bom_def)

text \<open>Strings without lone surrogates and without a leading U+FEFF survive the round trip.\<close>

definition well_formed :: "jstr \<Rightarrow> bool" where
  "well_formed s \<longleftrightarrow> list_all scalar (code_points s)"

lemma utf8_decode_encode:
  assumes "well_formed s" "take 1 (code_points s) \<noteq> [0xFEFF]"
  shows "utf8_decode (utf8_encode s) = Some s"
proof -
  have sc: "\<forall>c \<in> set (code_points s). scalar c"
    using assms(1) by (simp add: well_formed_def list_all_iff)
  then have "utf8_encode s = utf8_of_points (code_points s)"
    using utf8_encode_scalar [OF sc] by simp
  moreover have "strip_bom (code_points s) = code_points s"
    using assms(2) by (cases "code_points s") auto
  ultimately show ?thesis by (simp add: utf8_decode_def utf8_points_of_points [OF sc])
qed

lemma utf8_decode_well_formed: "utf8_decode bs = Some s \<Longrightarrow> well_formed s"
proof -
  assume "utf8_decode bs = Some s"
  then obtain cs where cs: "utf8_points bs = Some cs" "s = units_of_points (strip_bom cs)"
    by (auto simp: utf8_decode_def)
  have "\<forall>c \<in> set (strip_bom cs). scalar c"
    using utf8_points_sound [OF cs(1)] by (cases cs) auto
  with cs show ?thesis by (simp add: well_formed_def code_points_units list_all_iff)
qed

end
