(* ===== verification/Json.thy ===== *)
theory Json
  imports Utf8
begin

text \<open>
  JSON values and their text: \<open>JSON.stringify\<close> and \<open>JSON.parse\<close>. The journal, the directory
  cursor and the RPC messages go through this text. Numbers are integers, or other finite numbers
  given by the text \<open>Number::toString\<close> prints for them (no code computes with those).
\<close>

datatype jsnum = JInt int | JDec jstr

datatype json =
    JNull
  | JBool bool
  | JNum jsnum
  | JStr jstr
  | JArr "json list"
  | JObj "(jstr \<times> json) list"

text \<open>Property lookup \<open>value[key]\<close>; \<open>None\<close> when the key is absent.\<close>

fun json_get :: "jstr \<Rightarrow> json \<Rightarrow> json option" where
  "json_get k (JObj kvs) = map_of kvs k"
| "json_get k v = None"

section \<open>Numbers\<close>

definition is_digit :: "code_unit \<Rightarrow> bool" where
  "is_digit u \<longleftrightarrow> 48 \<le> unat u \<and> unat u \<le> 57"

definition digit_value :: "code_unit \<Rightarrow> nat" where
  "digit_value u = unat u - 48"

definition digits_value :: "jstr \<Rightarrow> nat" where
  "digits_value ds = foldl (\<lambda>n d. 10 * n + digit_value d) 0 ds"

text \<open>The fraction and the exponent of a numeral: the scanned part and the rest.\<close>

definition scan_frac :: "jstr \<Rightarrow> (jstr \<times> jstr) option" where
  "scan_frac s =
     (case s of
        u # us \<Rightarrow>
          if u = cu CHR ''.'' then
            (if takeWhile is_digit us = [] then None
             else Some (u # takeWhile is_digit us, dropWhile is_digit us))
          else Some ([], s)
      | [] \<Rightarrow> Some ([], []))"

definition scan_exp :: "jstr \<Rightarrow> (jstr \<times> jstr) option" where
  "scan_exp s =
     (case s of
        u # us \<Rightarrow>
          if u = cu CHR ''e'' \<or> u = cu CHR ''E'' then
            (let sign = (case us of v # _ \<Rightarrow> if v = cu CHR ''+'' \<or> v = cu CHR ''-'' then [v] else [] | [] \<Rightarrow> []);
                 vs = drop (length sign) us
             in if takeWhile is_digit vs = [] then None
                else Some (u # sign @ takeWhile is_digit vs, dropWhile is_digit vs))
          else Some ([], s)
      | [] \<Rightarrow> Some ([], []))"

definition scan_number :: "jstr \<Rightarrow> (jsnum \<times> jstr) option" where
  "scan_number s =
     (let minus = (case s of u # _ \<Rightarrow> u = cu CHR ''-'' | [] \<Rightarrow> False);
          body = (if minus then tl s else s);
          ds = takeWhile is_digit body;
          rest = dropWhile is_digit body
      in if ds = [] \<or> (hd ds = cu CHR ''0'' \<and> tl ds \<noteq> []) then None
         else (case scan_frac rest of
             None \<Rightarrow> None
           | Some (f, rest1) \<Rightarrow>
               (case scan_exp rest1 of
                  None \<Rightarrow> None
                | Some (e, rest2) \<Rightarrow>
                    if f = [] \<and> e = []
                    then Some (JInt (if minus then - int (digits_value ds) else int (digits_value ds)), rest2)
                    else Some (JDec (take (length s - length rest2) s), rest2))))"

section \<open>Strings\<close>

definition hex_digit :: "nat \<Rightarrow> code_unit" where
  "hex_digit n = (if n < 10 then of_nat (48 + n) else of_nat (87 + n))"

definition hex_value :: "code_unit \<Rightarrow> nat option" where
  "hex_value u =
     (if is_digit u then Some (unat u - 48)
      else if 97 \<le> unat u \<and> unat u \<le> 102 then Some (unat u - 87)
      else if 65 \<le> unat u \<and> unat u \<le> 70 then Some (unat u - 55)
      else None)"

definition hex4 :: "code_unit \<Rightarrow> jstr" where
  "hex4 u = (let n = unat u in
     [hex_digit (n div 4096), hex_digit (n div 256 mod 16), hex_digit (n div 16 mod 16), hex_digit (n mod 16)])"

definition backslash :: code_unit where "backslash = 0x5C"
definition dquote :: code_unit where "dquote = 0x22"

definition escape_unit :: "code_unit \<Rightarrow> jstr" where
  "escape_unit u =
     (if u = dquote then [backslash, dquote]
      else if u = backslash then [backslash, backslash]
      else if u = 8 then [backslash, cu CHR ''b'']
      else if u = 12 then [backslash, cu CHR ''f'']
      else if u = 10 then [backslash, cu CHR ''n'']
      else if u = 13 then [backslash, cu CHR ''r'']
      else if u = 9 then [backslash, cu CHR ''t'']
      else if unat u < 32 \<or> is_high u \<or> is_low u then backslash # cu CHR ''u'' # hex4 u
      else [u])"

fun quote_units :: "jstr \<Rightarrow> jstr" where
  "quote_units [] = []"
| "quote_units [u] = escape_unit u"
| "quote_units (u # v # us) =
     (if is_high u \<and> is_low v then u # v # quote_units us
      else escape_unit u @ quote_units (v # us))"

definition unescape :: "code_unit \<Rightarrow> code_unit option" where
  "unescape u =
     (if u = dquote \<or> u = backslash \<or> u = cu CHR ''/'' then Some u
      else if u = cu CHR ''b'' then Some 8
      else if u = cu CHR ''f'' then Some 12
      else if u = cu CHR ''n'' then Some 10
      else if u = cu CHR ''r'' then Some 13
      else if u = cu CHR ''t'' then Some 9
      else None)"

fun hex4_value :: "jstr \<Rightarrow> code_unit option" where
  "hex4_value [a, b, c, d] =
     (case (hex_value a, hex_value b, hex_value c, hex_value d) of
        (Some w, Some x, Some y, Some z) \<Rightarrow> Some (of_nat (w * 4096 + x * 256 + y * 16 + z))
      | _ \<Rightarrow> None)"
| "hex4_value _ = None"

text \<open>The characters after an opening quote: the string and the text after the closing quote.\<close>

fun parse_chars :: "nat \<Rightarrow> jstr \<Rightarrow> (jstr \<times> jstr) option" where
  "parse_chars 0 s = None"
| "parse_chars (Suc n) [] = None"
| "parse_chars (Suc n) (u # us) =
     (if u = dquote then Some ([], us)
      else if u = backslash then
        (case us of
           [] \<Rightarrow> None
         | v # vs \<Rightarrow>
             if v = cu CHR ''u'' then
               (case hex4_value (take 4 vs) of
                  None \<Rightarrow> None
                | Some w \<Rightarrow> map_option (\<lambda>(s, rest). (w # s, rest)) (parse_chars n (drop 4 vs)))
             else
               (case unescape v of
                  None \<Rightarrow> None
                | Some w \<Rightarrow> map_option (\<lambda>(s, rest). (w # s, rest)) (parse_chars n vs)))
      else if unat u < 32 then None
      else map_option (\<lambda>(s, rest). (u # s, rest)) (parse_chars n us))"

definition parse_string :: "jstr \<Rightarrow> (jstr \<times> jstr) option" where
  "parse_string s = parse_chars (Suc (length s)) s"

section \<open>\<open>JSON.stringify\<close>\<close>

definition json_string :: "jstr \<Rightarrow> jstr" where
  "json_string s = dquote # quote_units s @ [dquote]"

fun json_num :: "jsnum \<Rightarrow> jstr" where
  "json_num (JInt i) = js_int i"
| "json_num (JDec t) = t"

fun JSON_stringify :: "json \<Rightarrow> jstr"
  and json_elems :: "json list \<Rightarrow> jstr"
  and json_members :: "(jstr \<times> json) list \<Rightarrow> jstr" where
  "JSON_stringify JNull = js ''null''"
| "JSON_stringify (JBool b) = (if b then js ''true'' else js ''false'')"
| "JSON_stringify (JNum n) = json_num n"
| "JSON_stringify (JStr s) = json_string s"
| "JSON_stringify (JArr vs) = cu CHR ''['' # json_elems vs"
| "JSON_stringify (JObj kvs) = cu CHR ''{'' # json_members kvs"
| "json_elems [] = [cu CHR '']'']"
| "json_elems [v] = JSON_stringify v @ [cu CHR '']'']"
| "json_elems (v # w # vs) = JSON_stringify v @ cu CHR '','' # json_elems (w # vs)"
| "json_members [] = [cu CHR ''}'']"
| "json_members [kv] = json_string (fst kv) @ cu CHR '':'' # JSON_stringify (snd kv) @ [cu CHR ''}'']"
| "json_members (kv # kw # kvs) =
     json_string (fst kv) @ cu CHR '':'' # JSON_stringify (snd kv) @ cu CHR '','' # json_members (kw # kvs)"

section \<open>\<open>JSON.parse\<close>\<close>

definition is_ws :: "code_unit \<Rightarrow> bool" where
  "is_ws u \<longleftrightarrow> u = 32 \<or> u = 9 \<or> u = 10 \<or> u = 13"

definition skip_ws :: "jstr \<Rightarrow> jstr" where
  "skip_ws s = dropWhile is_ws s"

text \<open>
  Recursive descent; the first argument bounds the recursion and the length of the text is
  enough of it. A repeated key keeps its place and takes the last value.
\<close>

fun put_key :: "jstr \<Rightarrow> json \<Rightarrow> (jstr \<times> json) list \<Rightarrow> (jstr \<times> json) list" where
  "put_key k v kvs =
     (case map_of kvs k of
        None \<Rightarrow> (k, v) # kvs
      | Some w \<Rightarrow> (k, w) # filter (\<lambda>kv. fst kv \<noteq> k) kvs)"

fun parse_value :: "nat \<Rightarrow> jstr \<Rightarrow> (json \<times> jstr) option"
  and parse_elems :: "nat \<Rightarrow> jstr \<Rightarrow> (json list \<times> jstr) option"
  and parse_members :: "nat \<Rightarrow> jstr \<Rightarrow> ((jstr \<times> json) list \<times> jstr) option" where
  "parse_value 0 s = None"
| "parse_value (Suc n) s =
     (case skip_ws s of
        [] \<Rightarrow> None
      | u # us \<Rightarrow>
          if u = dquote then map_option (\<lambda>(t, rest). (JStr t, rest)) (parse_string us)
          else if u = cu CHR ''['' then
            (case skip_ws us of
               v # vs \<Rightarrow> if v = cu CHR '']'' then Some (JArr [], vs)
                 else map_option (\<lambda>(xs, rest). (JArr xs, rest)) (parse_elems n (v # vs))
             | [] \<Rightarrow> None)
          else if u = cu CHR ''{'' then
            (case skip_ws us of
               v # vs \<Rightarrow> if v = cu CHR ''}'' then Some (JObj [], vs)
                 else map_option (\<lambda>(kvs, rest). (JObj kvs, rest)) (parse_members n (v # vs))
             | [] \<Rightarrow> None)
          else if startsWith (u # us) (js ''null'') then Some (JNull, drop 4 (u # us))
          else if startsWith (u # us) (js ''true'') then Some (JBool True, drop 4 (u # us))
          else if startsWith (u # us) (js ''false'') then Some (JBool False, drop 5 (u # us))
          else map_option (\<lambda>(m, rest). (JNum m, rest)) (scan_number (u # us)))"
| "parse_elems 0 s = None"
| "parse_elems (Suc n) s =
     (case parse_value n s of
        None \<Rightarrow> None
      | Some (x, rest) \<Rightarrow>
          (case skip_ws rest of
             u # us \<Rightarrow>
               if u = cu CHR '']'' then Some ([x], us)
               else if u = cu CHR '','' then
                 map_option (\<lambda>(xs, rest'). (x # xs, rest')) (parse_elems n us)
               else None
           | [] \<Rightarrow> None))"
| "parse_members 0 s = None"
| "parse_members (Suc n) s =
     (case skip_ws s of
        q # us \<Rightarrow>
          if q \<noteq> dquote then None
          else (case parse_string us of
              None \<Rightarrow> None
            | Some (k, rest) \<Rightarrow>
                (case skip_ws rest of
                   c # cs \<Rightarrow>
                     if c \<noteq> cu CHR '':'' then None
                     else (case parse_value n cs of
                         None \<Rightarrow> None
                       | Some (x, rest1) \<Rightarrow>
                           (case skip_ws rest1 of
                              u # us' \<Rightarrow>
                                if u = cu CHR ''}'' then Some ([(k, x)], us')
                                else if u = cu CHR '','' then
                                  map_option (\<lambda>(kvs, rest'). (put_key k x kvs, rest')) (parse_members n us')
                                else None
                            | [] \<Rightarrow> None))
                 | [] \<Rightarrow> None))
      | [] \<Rightarrow> None)"

definition JSON_parse :: "jstr \<Rightarrow> json option" where
  "JSON_parse s =
     (case parse_value (Suc (length s)) s of
        Some (v, rest) \<Rightarrow> if skip_ws rest = [] then Some v else None
      | None \<Rightarrow> None)"

end
