(* ===== verification/JsonRoundtrip.thy ===== *)
theory JsonRoundtrip
  imports Json
begin

text \<open>
  \<open>JSON_parse (JSON_stringify v) = Some v\<close> for every value whose objects have distinct keys: what the
  journal's \<open>result_json\<close> column and the list cursor rely on.
\<close>

section \<open>Text that ends a number\<close>

definition num_end :: "jstr \<Rightarrow> bool" where
  "num_end s \<longleftrightarrow> (case s of [] \<Rightarrow> True
     | u # _ \<Rightarrow> \<not> is_digit u \<and> u \<noteq> cu CHR ''.'' \<and> u \<noteq> cu CHR ''e'' \<and> u \<noteq> cu CHR ''E'')"

lemma takeWhile_end [simp]: "num_end s \<Longrightarrow> takeWhile is_digit (xs @ s) = takeWhile is_digit xs"
  by (induction xs) (auto simp: num_end_def split: list.splits)

lemma dropWhile_end [simp]: "num_end s \<Longrightarrow> dropWhile is_digit (xs @ s) = dropWhile is_digit xs @ s"
  by (induction xs) (auto simp: num_end_def split: list.splits)

lemma scan_frac_end:
  "num_end s \<Longrightarrow> scan_frac xs = Some (f, r) \<Longrightarrow> scan_frac (xs @ s) = Some (f, r @ s)"
  by (cases xs; cases s) (auto simp: scan_frac_def num_end_def split: if_splits list.splits)

lemma scan_frac_length: "scan_frac xs = Some (f, r) \<Longrightarrow> xs = f @ r"
  by (auto simp: scan_frac_def split: if_splits list.splits)

lemma scan_exp_length: "scan_exp xs = Some (f, r) \<Longrightarrow> xs = f @ r"
  by (auto simp: scan_exp_def Let_def split: if_splits list.splits)

lemma scan_exp_end:
  assumes "num_end s" "scan_exp xs = Some (f, r)"
  shows "scan_exp (xs @ s) = Some (f, r @ s)"
proof (cases xs)
  case Nil
  with assms show ?thesis by (cases s) (auto simp: scan_exp_def num_end_def)
next
  case (Cons u us)
  show ?thesis
  proof (cases "u = cu CHR ''e'' \<or> u = cu CHR ''E''")
    case False
    with Cons assms show ?thesis by (auto simp: scan_exp_def)
  next
    case True
    define sign :: jstr where
      "sign = (case us of v # _ \<Rightarrow> if v = cu CHR ''+'' \<or> v = cu CHR ''-'' then [v] else [] | [] \<Rightarrow> [])"
    have ds: "takeWhile is_digit (drop (length sign) us) \<noteq> []"
      and f: "f = u # sign @ takeWhile is_digit (drop (length sign) us)"
      and r: "r = dropWhile is_digit (drop (length sign) us)"
      using assms(2) Cons True by (auto simp: scan_exp_def Let_def sign_def split: if_splits)
    from ds have ne: "us \<noteq> []" by auto
    then have sg: "(case us @ s of v # _ \<Rightarrow> if v = cu CHR ''+'' \<or> v = cu CHR ''-'' then [v] else [] | [] \<Rightarrow> []) = sign"
      by (cases us) (auto simp: sign_def)
    have "length sign \<le> length us" using ne by (cases us) (auto simp: sign_def)
    with Cons True ds f r sg assms(1) show ?thesis by (auto simp: scan_exp_def Let_def)
  qed
qed

lemma scan_number_end:
  assumes "num_end s" "scan_number t = Some (m, [])"
  shows "scan_number (t @ s) = Some (m, s)"
proof -
  define minus where "minus = (case t of u # _ \<Rightarrow> u = cu CHR ''-'' | [] \<Rightarrow> False)"
  define body where "body = (if minus then tl t else t)"
  obtain f r1 e where ds: "\<not> (takeWhile is_digit body = [] \<or>
        (hd (takeWhile is_digit body) = cu CHR ''0'' \<and> tl (takeWhile is_digit body) \<noteq> []))"
      and f: "scan_frac (dropWhile is_digit body) = Some (f, r1)" and e: "scan_exp r1 = Some (e, [])"
      and m: "m = (if f = [] \<and> e = [] then JInt (if minus then - int (digits_value (takeWhile is_digit body))
                    else int (digits_value (takeWhile is_digit body))) else JDec t)"
    using assms(2) unfolding scan_number_def minus_def [symmetric] body_def [symmetric] Let_def
    by (auto split: if_splits option.splits prod.splits)
  from ds have "body \<noteq> []" by auto
  then have t: "t \<noteq> []" by (auto simp: body_def split: if_splits)
  then have mi: "(case t @ s of u # _ \<Rightarrow> u = cu CHR ''-'' | [] \<Rightarrow> False) = minus"
    by (cases t) (auto simp: minus_def)
  have bo: "(if minus then tl (t @ s) else t @ s) = body @ s"
    using t by (auto simp: body_def)
  show ?thesis
    unfolding scan_number_def mi bo Let_def
    using ds m scan_frac_end [OF assms(1) f] scan_exp_end [OF assms(1) e] assms(1) by auto
qed

section \<open>Decimal text of integers\<close>

lemma is_digit_of_nat: "n < 10 \<Longrightarrow> is_digit (of_nat (48 + n)) \<and> digit_value (of_nat (48 + n)) = n"
  by (simp add: is_digit_def digit_value_def unat_of_nat_code_unit del: of_nat_add)

lemma digits_value_snoc: "digits_value (ds @ [d]) = 10 * digits_value ds + digit_value d"
  by (simp add: digits_value_def)

lemma js_nat_digits: "(\<forall>d \<in> set (js_nat n). is_digit d) \<and> digits_value (js_nat n) = n \<and> js_nat n \<noteq> []"
proof (induction n rule: js_nat.induct)
  case (1 n)
  show ?case
  proof (cases "n < 10")
    case True
    then show ?thesis using is_digit_of_nat [of n]
      by (simp add: js_nat.simps [of n] digits_value_def del: of_nat_add)
  next
    case False
    have "n mod 10 < 10" by simp
    note d = is_digit_of_nat [OF this]
    have "digits_value (js_nat n) = 10 * digits_value (js_nat (n div 10)) + n mod 10"
      using d False by (simp add: js_nat.simps [of n] digits_value_snoc del: of_nat_add)
    with "1.IH" False d show ?thesis
      by (auto simp: js_nat.simps [of n] simp del: of_nat_add)
  qed
qed

lemma cu_unat: "unat (cu c) = of_char c"
proof -
  have "(of_char c :: nat) < 2 ^ LENGTH(16)"
    using nat_of_char_less_256 [of c] by (rule less_le_trans) simp
  then show ?thesis by (simp add: cu_def of_char_code_unit unat_of_nat)
qed

lemma js_nat_no_leading_zero: "hd (js_nat n) = cu CHR ''0'' \<Longrightarrow> n = 0"
proof (induction n rule: js_nat.induct)
  case (1 n)
  show ?case
  proof (cases "n < 10")
    case True
    with "1.prems" have "of_nat (48 + n) = cu CHR ''0''"
      by (simp add: js_nat.simps [of n] del: of_nat_add)
    then have "unat (of_nat (48 + n) :: code_unit) = 48"
      by (simp add: cu_unat del: of_nat_add)
    with True show ?thesis by (simp add: unat_of_nat_code_unit del: of_nat_add)
  next
    case False
    have "js_nat (n div 10) \<noteq> []" using js_nat_digits by blast
    with False "1.prems" have "hd (js_nat (n div 10)) = cu CHR ''0''"
      by (simp add: js_nat.simps [of n] del: of_nat_add)
    with False "1.IH" show ?thesis by simp
  qed
qed

lemma js_nat_zero: "js_nat 0 = [48]"
  by (simp add: js_nat.simps)

lemma num_end_Nil: "num_end []"
  by (simp add: num_end_def)

lemma num_end_while: "num_end s \<Longrightarrow> takeWhile is_digit s = [] \<and> dropWhile is_digit s = s"
  by (cases s) (auto simp: num_end_def)

lemma scan_nat_body:
  assumes "num_end s"
  shows "takeWhile is_digit (js_nat n @ s) = js_nat n" "dropWhile is_digit (js_nat n @ s) = s"
  using js_nat_digits [of n] num_end_while [OF assms] by auto

lemma js_nat_ok: "\<not> (js_nat n = [] \<or> (hd (js_nat n) = cu CHR ''0'' \<and> tl (js_nat n) \<noteq> []))"
  using js_nat_digits [of n] js_nat_no_leading_zero [of n] by (auto simp: js_nat_zero)

lemma minus_not_digit: "\<not> is_digit (cu CHR ''-'')"
  by (simp add: is_digit_def cu_unat)

lemma scan_js_int: "num_end s \<Longrightarrow> scan_number (js_int i @ s) = Some (JInt i, s)"
proof -
  assume s: "num_end s"
  have fe: "scan_frac s = Some ([], s)" "scan_exp s = Some ([], s)"
    using s by (auto simp: scan_frac_def scan_exp_def num_end_def split: list.splits)
  show ?thesis
  proof (cases "i < 0")
    case True
    then show ?thesis
      unfolding scan_number_def js_int_def
      using scan_nat_body [OF s] js_nat_ok [of "nat (- i)"] fe js_nat_digits [of "nat (- i)"]
      by (simp add: Let_def)
  next
    case False
    have h: "\<exists>d ds. js_nat (nat i) = d # ds \<and> d \<noteq> cu CHR ''-''"
      using js_nat_digits [of "nat i"] minus_not_digit by (cases "js_nat (nat i)") auto
    then have "(case js_nat (nat i) @ s of u # _ \<Rightarrow> u = cu CHR ''-'' | [] \<Rightarrow> False) = False"
      by auto
    with False show ?thesis
      unfolding scan_number_def js_int_def
      using scan_nat_body [OF s] js_nat_ok [of "nat i"] fe js_nat_digits [of "nat i"]
      by (simp add: Let_def)
  qed
qed

section \<open>Strings\<close>

lemma hex_value_digit: "n < 16 \<Longrightarrow> hex_value (hex_digit n) = Some n"
  by (auto simp: hex_value_def hex_digit_def is_digit_def unat_of_nat_code_unit simp del: of_nat_add)

lemma hex4_value_hex4: "hex4_value (hex4 u) = Some u"
proof -
  let ?n = "unat u"
  have b: "?n div 4096 < 16" "?n div 256 mod 16 < 16" "?n div 16 mod 16 < 16" "?n mod 16 < 16"
    by (simp_all add: less_mult_imp_div_less)
  have "?n div 256 = ?n div 4096 * 16 + ?n div 256 mod 16"
    using div_mult2_eq [of ?n 256 16] by simp
  moreover have "?n div 16 = ?n div 256 * 16 + ?n div 16 mod 16"
    using div_mult2_eq [of ?n 16 16] by simp
  moreover have "?n = ?n div 16 * 16 + ?n mod 16" by simp
  ultimately have e: "?n div 4096 * 4096 + ?n div 256 mod 16 * 256 + ?n div 16 mod 16 * 16 + ?n mod 16 = ?n"
    by linarith
  have "hex4_value (hex4 u) = Some (of_nat (?n div 4096 * 4096 + ?n div 256 mod 16 * 256
      + ?n div 16 mod 16 * 16 + ?n mod 16))"
    by (simp add: hex4_def Let_def hex_value_digit [OF b(1)] hex_value_digit [OF b(2)]
        hex_value_digit [OF b(3)] hex_value_digit [OF b(4)] del: of_nat_add of_nat_mult)
  then show ?thesis unfolding e by simp
qed

lemma length_hex4 [simp]: "length (hex4 u) = 4"
  by (simp add: hex4_def Let_def)

lemma take_hex4 [simp]: "take 4 (hex4 u @ s) = hex4 u" "drop 4 (hex4 u @ s) = s"
  by simp_all

lemma cu_num: "cu CHR ''b'' = 98" "cu CHR ''f'' = 102" "cu CHR ''n'' = 110" "cu CHR ''r'' = 114"
  "cu CHR ''t'' = 116" "cu CHR ''u'' = 117" "cu CHR ''/'' = 47"
  by (simp_all add: cu_def)

lemma parse_escape:
  "parse_chars (Suc n) (escape_unit u @ s) = map_option (\<lambda>(t, rest). (u # t, rest)) (parse_chars n s)"
  by (simp add: escape_unit_def unescape_def dquote_def backslash_def cu_num hex4_value_hex4)

lemma parse_raw:
  "\<not> unat u < 32 \<Longrightarrow> u \<noteq> dquote \<Longrightarrow> u \<noteq> backslash \<Longrightarrow>
   parse_chars (Suc n) (u # s) = map_option (\<lambda>(t, rest). (u # t, rest)) (parse_chars n s)"
  by simp

lemma surrogate_raw: "is_high u \<or> is_low u \<Longrightarrow> \<not> unat u < 32 \<and> u \<noteq> dquote \<and> u \<noteq> backslash"
  by (auto simp: is_high_def is_low_def dquote_def backslash_def)

lemma parse_chars_quote:
  "length s < n \<Longrightarrow> parse_chars n (quote_units s @ dquote # rest) = Some (s, rest)"
proof (induction s arbitrary: n rule: quote_units.induct)
  case 1
  then show ?case by (cases n) auto
next
  case (2 u)
  then obtain m where m: "n = Suc (Suc m)" by (cases n; cases "n - 1") auto
  show ?case unfolding m by (simp add: parse_escape del: parse_chars.simps(3)) simp
next
  case (3 u v us)
  then obtain m where m: "n = Suc (Suc m)" by (cases n; cases "n - 1") auto
  show ?case
  proof (cases "is_high u \<and> is_low v")
    case True
    with "3.IH"(1) "3.prems" m have "parse_chars m (quote_units us @ dquote # rest) = Some (us, rest)"
      by simp
    with True surrogate_raw [of u] surrogate_raw [of v] show ?thesis
      unfolding m by (simp add: parse_raw del: parse_chars.simps(3))
  next
    case False
    with "3.IH"(2) "3.prems" m
    have "parse_chars (Suc m) (quote_units (v # us) @ dquote # rest) = Some (v # us, rest)" by simp
    moreover have "quote_units (u # v # us) = escape_unit u @ quote_units (v # us)"
      using False by auto
    ultimately show ?thesis unfolding m by (simp only: append_assoc parse_escape) simp
  qed
qed

lemma length_escape: "0 < length (escape_unit u)"
  by (simp add: escape_unit_def)

lemma length_quote: "length s \<le> length (quote_units s)"
proof (induction s rule: quote_units.induct)
  case (3 u v us)
  then show ?case using length_escape [of u] by (cases "is_high u \<and> is_low v") (auto simp del: length_greater_0_conv)
qed (use length_escape in \<open>auto simp: Suc_le_eq\<close>)

lemma parse_string_quote: "parse_string (quote_units s @ dquote # rest) = Some (s, rest)"
  unfolding parse_string_def using length_quote [of s] by (intro parse_chars_quote) simp

section \<open>Values\<close>

fun wf_json :: "json \<Rightarrow> bool" where
  "wf_json (JNum (JDec t)) \<longleftrightarrow> scan_number t = Some (JDec t, []) \<and> t \<noteq> []"
| "wf_json (JArr vs) \<longleftrightarrow> list_all wf_json vs"
| "wf_json (JObj kvs) \<longleftrightarrow> distinct (map fst kvs) \<and> list_all (\<lambda>kv. wf_json (snd kv)) kvs"
| "wf_json _ \<longleftrightarrow> True"

text \<open>The first unit of a value's text.\<close>

definition value_start :: "code_unit \<Rightarrow> bool" where
  "value_start u \<longleftrightarrow> u = dquote \<or> u = cu CHR ''['' \<or> u = cu CHR ''{'' \<or> u = cu CHR ''n'' \<or> u = cu CHR ''t''
     \<or> u = cu CHR ''f'' \<or> u = cu CHR ''-'' \<or> is_digit u"

lemma cu_num_more: "cu CHR ''['' = 91" "cu CHR ''{'' = 123" "cu CHR ''-'' = 45" "cu CHR '']'' = 93"
  "cu CHR ''}'' = 125" "cu CHR '','' = 44" "cu CHR '':'' = 58" "cu CHR ''.'' = 46" "cu CHR ''e'' = 101"
  "cu CHR ''E'' = 69"
  by (simp_all add: cu_def)

lemma value_start_not: "value_start u \<Longrightarrow> \<not> is_ws u \<and> u \<noteq> cu CHR '']'' \<and> u \<noteq> cu CHR ''}''"
  by (auto simp: value_start_def is_ws_def dquote_def cu_num cu_num_more is_digit_def)

lemma scan_number_start:
  "scan_number s = Some r \<Longrightarrow> \<exists>u us. s = u # us \<and> (u = cu CHR ''-'' \<or> is_digit u)"
  by (cases s) (auto simp: scan_number_def Let_def split: if_splits)

lemma js_int_start: "\<exists>u us. js_int i = u # us \<and> (u = cu CHR ''-'' \<or> is_digit u)"
  using scan_js_int [OF num_end_Nil, of i] by (intro scan_number_start) simp

lemma js_cons: "js (c # cs) = cu c # js cs"
  by (simp add: js_def cu_def)

lemma stringify_start: "wf_json v \<Longrightarrow> \<exists>u us. JSON_stringify v = u # us \<and> value_start u"
proof (cases v)
  case (JNum n)
  assume "wf_json v"
  with JNum show ?thesis
    using js_int_start scan_number_start by (cases n) (fastforce simp: value_start_def)+
qed (auto simp: value_start_def json_string_def js_cons)

lemma skip_ws_start: "value_start u \<Longrightarrow> skip_ws (u # us) = u # us"
  by (simp add: skip_ws_def value_start_not)

lemma parse_value_num:
  assumes "scan_number s = Some (m, rest)"
  shows "parse_value (Suc n) s = Some (JNum m, rest)"
proof -
  obtain u us where s: "s = u # us" and u: "u = cu CHR ''-'' \<or> is_digit u"
    using scan_number_start [OF assms] by blast
  have "value_start u" using u by (auto simp: value_start_def)
  moreover have "u \<noteq> dquote \<and> u \<noteq> cu CHR ''['' \<and> u \<noteq> cu CHR ''{'' \<and> u \<noteq> cu CHR ''n'' \<and> u \<noteq> cu CHR ''t'' \<and> u \<noteq> cu CHR ''f''"
    using u by (auto simp: dquote_def cu_num cu_num_more is_digit_def)
  ultimately show ?thesis
    using assms unfolding s by (simp add: skip_ws_start startsWith_def js_cons)
qed

lemma skip_ws_punct [simp]:
  "skip_ws (cu CHR '']'' # s) = cu CHR '']'' # s" "skip_ws (cu CHR ''}'' # s) = cu CHR ''}'' # s"
  "skip_ws (cu CHR '','' # s) = cu CHR '','' # s" "skip_ws (cu CHR '':'' # s) = cu CHR '':'' # s"
  "skip_ws (dquote # s) = dquote # s"
  by (simp_all add: skip_ws_def is_ws_def cu_num_more dquote_def)

lemma num_end_punct [simp]:
  "num_end (cu CHR '']'' # s)" "num_end (cu CHR ''}'' # s)" "num_end (cu CHR '','' # s)"
  by (simp_all add: num_end_def is_digit_def cu_num_more)

lemma json_elems_start:
  "vs \<noteq> [] \<Longrightarrow> list_all wf_json vs \<Longrightarrow> \<exists>u us. json_elems vs = u # us \<and> value_start u"
  by (cases vs; cases "tl vs") (auto dest: stringify_start)

lemma json_members_start: "kvs \<noteq> [] \<Longrightarrow> \<exists>us. json_members kvs = dquote # us"
  by (cases kvs; cases "tl kvs") (auto simp: json_string_def)

lemma parse_arr:
  assumes "vs \<noteq> []" "list_all wf_json vs" "parse_elems n (json_elems vs @ rest) = Some (vs, rest)"
  shows "parse_value (Suc n) (cu CHR ''['' # json_elems vs @ rest) = Some (JArr vs, rest)"
proof -
  obtain u us where u: "json_elems vs = u # us" "value_start u"
    using json_elems_start assms(1,2) by blast
  have "skip_ws (cu CHR ''['' # json_elems vs @ rest) = cu CHR ''['' # json_elems vs @ rest"
    by (simp add: skip_ws_def is_ws_def cu_num_more)
  moreover have "cu CHR ''['' \<noteq> dquote" by (simp add: cu_num_more dquote_def)
  ultimately show ?thesis
    using assms(3) u value_start_not [OF u(2)] by (simp add: skip_ws_start)
qed

lemma parse_obj:
  assumes "kvs \<noteq> []" "parse_members n (json_members kvs @ rest) = Some (kvs, rest)"
  shows "parse_value (Suc n) (cu CHR ''{'' # json_members kvs @ rest) = Some (JObj kvs, rest)"
proof -
  obtain us where u: "json_members kvs = dquote # us"
    using json_members_start assms(1) by blast
  have "skip_ws (cu CHR ''{'' # json_members kvs @ rest) = cu CHR ''{'' # json_members kvs @ rest"
    by (simp add: skip_ws_def is_ws_def cu_num_more)
  moreover have "cu CHR ''{'' \<noteq> dquote" "dquote \<noteq> cu CHR ''}''" by (simp_all add: cu_num_more dquote_def)
  ultimately show ?thesis using assms(2) u by simp
qed

definition parses_value :: "json \<Rightarrow> bool" where
  "parses_value v \<longleftrightarrow> (wf_json v \<longrightarrow> (\<forall>n rest. length (JSON_stringify v) \<le> n \<longrightarrow> num_end rest \<longrightarrow>
     parse_value n (JSON_stringify v @ rest) = Some (v, rest)))"

definition parses_elems :: "json list \<Rightarrow> bool" where
  "parses_elems vs \<longleftrightarrow> (vs \<noteq> [] \<longrightarrow> list_all wf_json vs \<longrightarrow> (\<forall>n rest. length (json_elems vs) \<le> n \<longrightarrow>
     parse_elems n (json_elems vs @ rest) = Some (vs, rest)))"

definition parses_members :: "(jstr \<times> json) list \<Rightarrow> bool" where
  "parses_members kvs \<longleftrightarrow> (kvs \<noteq> [] \<longrightarrow> distinct (map fst kvs) \<longrightarrow> list_all (\<lambda>kv. wf_json (snd kv)) kvs \<longrightarrow>
     (\<forall>n rest. length (json_members kvs) \<le> n \<longrightarrow>
        parse_members n (json_members kvs @ rest) = Some (kvs, rest)))"

lemma parses_valueD:
  "parses_value v \<Longrightarrow> wf_json v \<Longrightarrow> length (JSON_stringify v) \<le> n \<Longrightarrow> num_end rest \<Longrightarrow>
   parse_value n (JSON_stringify v @ rest) = Some (v, rest)"
  by (simp add: parses_value_def)

lemma parses_scalar:
  "parses_value JNull" "parses_value (JBool b)" "parses_value (JStr s)"
proof -
  have Suc: "0 < k \<Longrightarrow> k \<le> n \<Longrightarrow> \<exists>m. n = Suc m" for k n :: nat by (cases n) auto
  have lit: "skip_ws (cu CHR ''n'' # t) = cu CHR ''n'' # t" "skip_ws (cu CHR ''t'' # t) = cu CHR ''t'' # t"
    "skip_ws (cu CHR ''f'' # t) = cu CHR ''f'' # t" for t
    by (simp_all add: skip_ws_def is_ws_def cu_num)
  have ne: "cu CHR ''n'' \<noteq> dquote" "cu CHR ''t'' \<noteq> dquote" "cu CHR ''f'' \<noteq> dquote"
    by (simp_all add: cu_num dquote_def)
  show "parses_value JNull" "parses_value (JBool b)"
    by (auto simp: parses_value_def js_cons lit ne startsWith_def dest!: Suc [rotated])
  show "parses_value (JStr s)"
    by (auto simp: parses_value_def json_string_def parse_string_quote dest!: Suc [rotated])
qed

lemma parses_num: "parses_value (JNum m)"
proof (cases m)
  case (JInt i)
  have "length (js_int i) \<noteq> 0" using js_int_start [of i] by auto
  then show ?thesis using JInt
    unfolding parses_value_def
    by (metis JSON_stringify.simps(3) Suc_le_D gr0_conv_Suc json_num.simps(1) neq0_conv parse_value_num scan_js_int)
next
  case (JDec t)
  show ?thesis
    unfolding parses_value_def
  proof (intro impI allI)
    fix n rest
    assume "wf_json (JNum m)" "length (JSON_stringify (JNum m)) \<le> n" "num_end rest"
    with JDec scan_number_end [of rest t "JDec t"]
    have "scan_number (t @ rest) = Some (JDec t, rest)" and "t \<noteq> [] \<and> length t \<le> n" by auto
    moreover from this have "n \<noteq> 0" by (cases t) auto
    ultimately have "scan_number (t @ rest) = Some (JDec t, rest)" "n \<noteq> 0" by auto
    with JDec show "parse_value n (JSON_stringify (JNum m) @ rest) = Some (JNum m, rest)"
      by (cases n) (simp_all add: parse_value_num del: parse_value.simps)
  qed
qed

lemma parses_elems_cons:
  assumes "parses_value v" "ws \<noteq> [] \<Longrightarrow> parses_elems ws"
  shows "parses_elems (v # ws)"
  unfolding parses_elems_def
proof (intro impI allI)
  fix n rest
  assume wf: "list_all wf_json (v # ws)" and len: "length (json_elems (v # ws)) \<le> n"
  then obtain k where n: "n = Suc k" by (cases n; cases ws) auto
  show "parse_elems n (json_elems (v # ws) @ rest) = Some (v # ws, rest)"
  proof (cases ws)
    case Nil
    with wf len n parses_valueD [OF assms(1), of k "cu CHR '']'' # rest"] show ?thesis by simp
  next
    case (Cons w ws')
    have "parse_value k (JSON_stringify v @ cu CHR '','' # json_elems ws @ rest)
        = Some (v, cu CHR '','' # json_elems ws @ rest)"
      using wf len n Cons by (intro parses_valueD [OF assms(1)]) auto
    moreover have "parse_elems k (json_elems ws @ rest) = Some (ws, rest)"
      using assms(2) wf len n Cons by (simp add: parses_elems_def)
    ultimately show ?thesis using Cons n by simp
  qed
qed

lemma parses_members_cons:
  assumes "parses_value (snd kv)" "kvs \<noteq> [] \<Longrightarrow> parses_members kvs"
  shows "parses_members (kv # kvs)"
  unfolding parses_members_def
proof (intro impI allI)
  fix n rest
  assume d: "distinct (map fst (kv # kvs))" and wf: "list_all (\<lambda>kv. wf_json (snd kv)) (kv # kvs)"
    and len: "length (json_members (kv # kvs)) \<le> n"
  then obtain k where n: "n = Suc k" by (cases n; cases kvs) auto
  obtain key v where kv: "kv = (key, v)" by (cases kv)
  show "parse_members n (json_members (kv # kvs) @ rest) = Some (kv # kvs, rest)"
  proof (cases kvs)
    case Nil
    with wf len n kv parses_valueD [OF assms(1), of k "cu CHR ''}'' # rest"] show ?thesis
      by (simp add: json_string_def parse_string_quote)
  next
    case (Cons w ws)
    have "parse_value k (JSON_stringify v @ cu CHR '','' # json_members kvs @ rest)
        = Some (v, cu CHR '','' # json_members kvs @ rest)"
      using wf len n kv Cons assms(1) by (intro parses_valueD) auto
    moreover have "parse_members k (json_members kvs @ rest) = Some (kvs, rest)"
      using assms(2) wf d len n Cons by (simp add: parses_members_def)
    moreover have "map_of kvs key = None"
      using d kv by (simp add: map_of_eq_None_iff)
    ultimately show ?thesis using Cons n kv
      by (simp add: json_string_def parse_string_quote)
  qed
qed

lemma parses_all: "parses_value v" and "parses_elems vs" and "parses_members kvs"
proof (induction v and vs and kvs rule: JSON_stringify_json_elems_json_members.induct)
  case (5 vs)
  show ?case
    unfolding parses_value_def
  proof (intro impI allI)
    fix n rest
    assume wf: "wf_json (JArr vs)" and len: "length (JSON_stringify (JArr vs)) \<le> n"
    then obtain k where n: "n = Suc k" by (cases n) auto
    show "parse_value n (JSON_stringify (JArr vs) @ rest) = Some (JArr vs, rest)"
    proof (cases "vs = []")
      case True
      then show ?thesis unfolding n by (simp add: skip_ws_def is_ws_def cu_num_more dquote_def)
    next
      case False
      with 5 wf len n have "parse_elems k (json_elems vs @ rest) = Some (vs, rest)"
        by (simp add: parses_elems_def)
      with False wf show ?thesis unfolding n by (simp add: parse_arr del: parse_value.simps)
    qed
  qed
next
  case (6 kvs)
  show ?case
    unfolding parses_value_def
  proof (intro impI allI)
    fix n rest
    assume wf: "wf_json (JObj kvs)" and len: "length (JSON_stringify (JObj kvs)) \<le> n"
    then obtain k where n: "n = Suc k" by (cases n) auto
    show "parse_value n (JSON_stringify (JObj kvs) @ rest) = Some (JObj kvs, rest)"
    proof (cases "kvs = []")
      case True
      then show ?thesis unfolding n by (simp add: skip_ws_def is_ws_def cu_num_more dquote_def)
    next
      case False
      with 6 wf len n have "parse_members k (json_members kvs @ rest) = Some (kvs, rest)"
        by (simp add: parses_members_def)
      with False show ?thesis unfolding n by (simp add: parse_obj del: parse_value.simps)
    qed
  qed
next
  case 7
  show ?case by (simp add: parses_elems_def)
next
  case (8 v)
  then show ?case by (rule parses_elems_cons) auto
next
  case (9 v w vs)
  then show ?case by (rule parses_elems_cons)
next
  case 10
  show ?case by (simp add: parses_members_def)
next
  case (11 kv)
  then show ?case by (rule parses_members_cons) simp
next
  case (12 kv kw kvs)
  then show ?case by (rule parses_members_cons)
qed (rule parses_scalar parses_num)+

lemma JSON_parse_stringify: "wf_json v \<Longrightarrow> JSON_parse (JSON_stringify v) = Some v"
  using parses_valueD [OF parses_all, of v "Suc (length (JSON_stringify v))" "[]"]
  by (simp add: JSON_parse_def num_end_Nil skip_ws_def)

end
