(* ===== verification/Errors.thy ===== *)
theory Errors
  imports Json
begin

text \<open>
  What the code throws: plain \<open>Error\<close> and \<open>TypeError\<close> objects, system errors with an errno code, and
  the error classes of the packages with the fields their constructors store. A throwing
  computation returns \<open>Inl\<close> of one of these.
\<close>

datatype errno = ENOENT | ENOTDIR | EACCES | EPERM | EEXIST | EISDIR | ELOOP | EOther jstr

text \<open>\<open>RpcError\<close> of the contracts: what an RPC answers instead of a result.\<close>

record RpcError =
  rpc_code :: jstr
  rpc_message :: jstr
  rpc_retryable :: bool
  rpc_details :: "json option"

datatype thrown =
    PlainError jstr jstr                                   \<comment> \<open>name, message\<close>
  | SysError errno jstr                                    \<comment> \<open>code, message\<close>
  | FilesystemError jstr "jstr option" jstr "json option"  \<comment> \<open>code, path, message, details\<close>
  | InstructionsError jstr "jstr option" jstr              \<comment> \<open>code, path, message\<close>
  | WorkspaceRegistryError jstr jstr jstr                  \<comment> \<open>code, path, message\<close>
  | GitWorktreeError jstr jstr jstr                        \<comment> \<open>code, message, stderr\<close>
  | OperationConflictError jstr                            \<comment> \<open>message\<close>
  | DispatchError RpcError
  | RpcCallError RpcError
  | DaemonStartError jstr jstr                           \<comment> \<open>code, message\<close>
  | NotAnError jstr                                        \<comment> \<open>a thrown non-\<open>Error\<close> value \<open>v\<close>, as \<open>String(v)\<close>\<close>

definition TypeError :: "jstr \<Rightarrow> thrown" where
  "TypeError m = PlainError (js ''TypeError'') m"

definition JsError :: "jstr \<Rightarrow> thrown" where
  "JsError m = PlainError (js ''Error'') m"

text \<open>\<open>error instanceof Error\<close>, \<open>error.name\<close>, \<open>error.message\<close>.\<close>

fun is_error :: "thrown \<Rightarrow> bool" where
  "is_error (NotAnError _) = False"
| "is_error _ = True"

fun error_name :: "thrown \<Rightarrow> jstr" where
  "error_name (PlainError n _) = n"
| "error_name (SysError _ _) = js ''Error''"
| "error_name (FilesystemError _ _ _ _) = js ''FilesystemError''"
| "error_name (InstructionsError _ _ _) = js ''InstructionsError''"
| "error_name (WorkspaceRegistryError _ _ _) = js ''WorkspaceRegistryError''"
| "error_name (GitWorktreeError _ _ _) = js ''GitWorktreeError''"
| "error_name (OperationConflictError _) = js ''OperationConflictError''"
| "error_name (DispatchError _) = js ''DispatchError''"
| "error_name (RpcCallError _) = js ''RpcCallError''"
| "error_name (DaemonStartError _ _) = js ''DaemonStartError''"
| "error_name (NotAnError _) = []"

fun error_message :: "thrown \<Rightarrow> jstr" where
  "error_message (PlainError _ m) = m"
| "error_message (SysError _ m) = m"
| "error_message (FilesystemError _ _ m _) = m"
| "error_message (InstructionsError _ _ m) = m"
| "error_message (WorkspaceRegistryError _ _ m) = m"
| "error_message (GitWorktreeError _ m _) = m"
| "error_message (OperationConflictError m) = m"
| "error_message (DispatchError e) = rpc_message e"
| "error_message (RpcCallError e) = rpc_message e"
| "error_message (DaemonStartError _ m) = m"
| "error_message (NotAnError s) = s"

text \<open>\<open>hasErrnoCode(error, code)\<close>, in the filesystem package and, under the name \<open>isErrnoCode\<close>,
  in the instructions and daemon packages.\<close>

fun hasErrnoCode :: "thrown \<Rightarrow> errno \<Rightarrow> bool" where
  "hasErrnoCode (SysError e _) code \<longleftrightarrow> e = code"
| "hasErrnoCode _ code \<longleftrightarrow> False"

type_synonym 'a result = "thrown + 'a"

end
