(* ===== verification/Contracts.thy ===== *)
theory Contracts
  imports Errors
begin

text \<open>
  \<open>packages/contracts/src\<close>: entity ids, the TypeBox schemas of the wire contracts, the JSON-value
  guard \<open>isJsonValue\<close> over JavaScript object graphs, and the \<open>parse*\<close> functions. TypeBox's
  \<open>Value.Check\<close> is not part of the repository: it is the parameter \<open>chk\<close> of every parser, and
  \<open>checks_schemas\<close> states the documented meaning of the schema constructors used here.
\<close>

section \<open>Entity ids (\<open>ids.ts\<close>)\<close>

datatype DurableEntityKind =
    Artifact | Operation | Plugin | PluginInstance | Process | Task | TerminalSession | Workspace

fun kind_text :: "DurableEntityKind \<Rightarrow> jstr" where
  "kind_text Artifact = js ''artifact''"
| "kind_text Operation = js ''operation''"
| "kind_text Plugin = js ''plugin''"
| "kind_text PluginInstance = js ''plugin-instance''"
| "kind_text Process = js ''process''"
| "kind_text Task = js ''task''"
| "kind_text TerminalSession = js ''terminal-session''"
| "kind_text Workspace = js ''workspace''"

definition parseEntityId :: "DurableEntityKind \<Rightarrow> jstr \<Rightarrow> jstr result" where
  "parseEntityId kind value =
     (if length value = 0 then Inl (TypeError (kind_text kind @ js '' id must not be empty''))
      else Inr value)"

section \<open>Enumerations\<close>

datatype OperationState =
    Accepted | Running | Committed | Failed | UnknownNeedsReconcile | RolledBack

fun operation_state_text :: "OperationState \<Rightarrow> jstr" where
  "operation_state_text Accepted = js ''accepted''"
| "operation_state_text Running = js ''running''"
| "operation_state_text Committed = js ''committed''"
| "operation_state_text Failed = js ''failed''"
| "operation_state_text UnknownNeedsReconcile = js ''unknown-needs-reconcile''"
| "operation_state_text RolledBack = js ''rolled_back''"

lemma operation_state_text_eq [simp]: "operation_state_text a = operation_state_text b \<longleftrightarrow> a = b"
  by (cases a; cases b) simp_all

datatype WorkspaceMode = Checkout | Worktree

datatype WorkspaceStatus = Available | Missing | Inaccessible | Invalid

fun workspace_status_text :: "WorkspaceStatus \<Rightarrow> jstr" where
  "workspace_status_text Available = js ''available''"
| "workspace_status_text Missing = js ''missing''"
| "workspace_status_text Inaccessible = js ''inaccessible''"
| "workspace_status_text Invalid = js ''invalid''"

record WorkspaceRecord =
  workspaceId :: jstr
  canonicalPath :: jstr
  requestedPath :: jstr
  mode :: WorkspaceMode
  repoRoot :: "jstr option"
  worktreePath :: "jstr option"
  baseRef :: "jstr option"
  branch :: "jstr option"
  createdAt :: jstr
  lastUsedAt :: jstr
  ownerInstance :: "jstr option"
  status :: WorkspaceStatus
  metadataVersion :: nat

section \<open>Schemas\<close>

text \<open>The TypeBox constructors the contracts use; \<open>TObject\<close> lists name, optionality and schema of each
  property and always has \<open>additionalProperties: false\<close>.\<close>

datatype schema =
    TUnion "schema list"
  | TLitString jstr
  | TLitNumber int
  | TLitBool bool
  | TString nat "nat option"          \<comment> \<open>\<open>minLength\<close>, \<open>maxLength\<close>\<close>
  | TNull
  | TInteger int                      \<comment> \<open>\<open>minimum\<close>\<close>
  | TBoolean
  | TUnknown
  | TUniqueArray schema
  | TObject "(jstr \<times> bool \<times> schema) list"

definition req :: "string \<Rightarrow> schema \<Rightarrow> jstr \<times> bool \<times> schema" where
  "req k s = (js k, False, s)"

definition opt :: "string \<Rightarrow> schema \<Rightarrow> jstr \<times> bool \<times> schema" where
  "opt k s = (js k, True, s)"

definition nullable_string :: schema where
  "nullable_string = TUnion [TString 1 None, TNull]"

definition HealthStateSchema :: schema where
  "HealthStateSchema = TUnion (map (TLitString \<circ> js)
     [''starting'', ''healthy'', ''degraded'', ''unhealthy'', ''unknown'', ''stopping''])"

definition OperationStateSchema :: schema where
  "OperationStateSchema = TUnion (map (TLitString \<circ> js)
     [''accepted'', ''running'', ''committed'', ''failed'', ''unknown-needs-reconcile'', ''rolled_back''])"

definition WorkspaceModeSchema :: schema where
  "WorkspaceModeSchema = TUnion [TLitString (js ''checkout''), TLitString (js ''worktree'')]"

definition WorkspaceStatusSchema :: schema where
  "WorkspaceStatusSchema = TUnion (map (TLitString \<circ> js)
     [''available'', ''missing'', ''inaccessible'', ''invalid''])"

definition WorkspaceRecordSchema :: schema where
  "WorkspaceRecordSchema = TObject
     [req ''workspaceId'' (TString 1 (Some 256)),
      req ''canonicalPath'' (TString 1 None),
      req ''requestedPath'' (TString 1 None),
      req ''mode'' WorkspaceModeSchema,
      req ''repoRoot'' nullable_string,
      req ''worktreePath'' nullable_string,
      req ''baseRef'' nullable_string,
      req ''branch'' nullable_string,
      req ''createdAt'' (TString 1 None),
      req ''lastUsedAt'' (TString 1 None),
      req ''ownerInstance'' nullable_string,
      req ''status'' WorkspaceStatusSchema,
      req ''metadataVersion'' (TInteger 1)]"

definition RPC_SCHEMA_VERSION :: int where
  "RPC_SCHEMA_VERSION = 1"

definition RpcErrorSchema :: schema where
  "RpcErrorSchema = TObject
     [req ''code'' (TString 1 (Some 128)),
      req ''message'' (TString 1 None),
      req ''retryable'' TBoolean,
      opt ''details'' TUnknown]"

definition RpcRequestSchema :: schema where
  "RpcRequestSchema = TObject
     [req ''schemaVersion'' (TLitNumber RPC_SCHEMA_VERSION),
      req ''requestId'' (TString 1 (Some 128)),
      req ''method'' (TString 1 (Some 128)),
      req ''params'' TUnknown,
      opt ''operationId'' (TString 1 (Some 256)),
      opt ''deadlineUnixMs'' (TInteger 0)]"

definition RpcSuccessResponseSchema :: schema where
  "RpcSuccessResponseSchema = TObject
     [req ''schemaVersion'' (TLitNumber RPC_SCHEMA_VERSION),
      req ''requestId'' (TString 1 (Some 128)),
      req ''ok'' (TLitBool True),
      req ''result'' TUnknown]"

definition RpcFailureResponseSchema :: schema where
  "RpcFailureResponseSchema = TObject
     [req ''schemaVersion'' (TLitNumber RPC_SCHEMA_VERSION),
      req ''requestId'' (TString 1 (Some 128)),
      req ''ok'' (TLitBool False),
      req ''error'' RpcErrorSchema]"

definition RpcResponseSchema :: schema where
  "RpcResponseSchema = TUnion [RpcSuccessResponseSchema, RpcFailureResponseSchema]"

definition EntityVersionSchema :: schema where
  "EntityVersionSchema = TInteger 0"

definition CapabilityDescriptorSchema :: schema where
  "CapabilityDescriptorSchema = TObject
     [req ''capability'' (TString 1 (Some 128)),
      req ''provider'' (TString 1 (Some 256)),
      req ''providerVersion'' (TString 1 (Some 128)),
      req ''health'' HealthStateSchema,
      req ''features'' (TUniqueArray (TString 1 (Some 128)))]"

definition MutationMetadataSchema :: schema where
  "MutationMetadataSchema = TObject
     [req ''readOnly'' TBoolean, req ''idempotent'' TBoolean, req ''dangerous'' TBoolean,
      req ''requiresOperationId'' TBoolean]"

definition ErrorEnvelopeSchema :: schema where
  "ErrorEnvelopeSchema = TObject
     [req ''ok'' (TLitBool False),
      req ''error'' (TObject
        [req ''code'' (TString 1 (Some 128)),
         req ''message'' (TString 1 None),
         req ''retryable'' TBoolean,
         opt ''details'' TUnknown]),
      opt ''requestId'' (TString 1 (Some 256)),
      opt ''operationId'' (TString 1 (Some 256))]"

definition ResultEnvelopeSchema :: schema where
  "ResultEnvelopeSchema = TObject
     [req ''ok'' (TLitBool True), req ''result'' TUnknown,
      opt ''requestId'' (TString 1 (Some 256))]"

type_synonym checker = "schema \<Rightarrow> json \<Rightarrow> bool"

text \<open>
  What the documentation of JSON Schema and TypeBox says of these constructors. How a string's
  length is counted is left open but for the empty string, and for counting at most one per
  code unit.
\<close>

definition checks_object :: "checker \<Rightarrow> (jstr \<times> bool \<times> schema) list \<Rightarrow> json \<Rightarrow> bool" where
  "checks_object chk ps v \<longleftrightarrow>
     (\<exists>kvs. v = JObj kvs \<and> fst ` set kvs \<subseteq> fst ` set ps
        \<and> (\<forall>(k, optional, s) \<in> set ps.
             case map_of kvs k of None \<Rightarrow> optional | Some w \<Rightarrow> chk s w))"

definition checks_schemas :: "(jstr \<Rightarrow> nat) \<Rightarrow> checker \<Rightarrow> bool" where
  "checks_schemas str_len chk \<longleftrightarrow>
     (\<forall>s. str_len s \<le> length s \<and> (str_len s = 0 \<longleftrightarrow> s = [])) \<and>
     (\<forall>ss v. chk (TUnion ss) v \<longleftrightarrow> (\<exists>s \<in> set ss. chk s v)) \<and>
     (\<forall>t v. chk (TLitString t) v \<longleftrightarrow> v = JStr t) \<and>
     (\<forall>i j. chk (TLitNumber i) (JNum (JInt j)) \<longleftrightarrow> j = i) \<and>
     (\<forall>i v. chk (TLitNumber i) v \<longrightarrow> (\<exists>n. v = JNum n)) \<and>
     (\<forall>b v. chk (TLitBool b) v \<longleftrightarrow> v = JBool b) \<and>
     (\<forall>mn mx v. chk (TString mn mx) v \<longleftrightarrow>
        (\<exists>t. v = JStr t \<and> mn \<le> str_len t \<and> (case mx of None \<Rightarrow> True | Some m \<Rightarrow> str_len t \<le> m))) \<and>
     (\<forall>v. chk TNull v \<longleftrightarrow> v = JNull) \<and>
     (\<forall>mn i. chk (TInteger mn) (JNum (JInt i)) \<longleftrightarrow> mn \<le> i) \<and>
     (\<forall>mn v. chk (TInteger mn) v \<longrightarrow> (\<exists>n. v = JNum n)) \<and>
     (\<forall>v. chk TBoolean v \<longleftrightarrow> (\<exists>b. v = JBool b)) \<and>
     (\<forall>v. chk TUnknown v) \<and>
     (\<forall>s v. chk (TUniqueArray s) v \<longleftrightarrow> (\<exists>vs. v = JArr vs \<and> distinct vs \<and> (\<forall>w \<in> set vs. chk s w))) \<and>
     (\<forall>ps v. chk (TObject ps) v \<longleftrightarrow> checks_object chk ps v)"

section \<open>JavaScript values and \<open>isJsonValue\<close>\<close>

text \<open>
  A value of type \<open>unknown\<close>: objects are references into a heap, so that an object graph may share
  nodes or be cyclic. An \<open>ArrayObject\<close> is whatever \<open>Array.isArray\<close> accepts, instances of subclasses of
  \<open>Array\<close> included; an item \<open>None\<close> is a hole. Of the other objects a \<open>PlainObject\<close> has \<open>Object.prototype\<close> or
  \<open>null\<close> as its prototype and any other is a \<open>ClassInstance\<close>. Properties are data properties: there are no
  accessors and no proxies, and arrays have the \<open>every\<close> of \<open>Array.prototype\<close> and no \<open>toJSON\<close>.
  \<open>VOther\<close> stands for bigints, symbols and functions.
\<close>

datatype jsval =
    VUndefined
  | VNull
  | VBool bool
  | VNumber jsnum
  | VNonFinite                         \<comment> \<open>\<open>NaN\<close> and the infinities\<close>
  | VString jstr
  | VRef nat
  | VOther

datatype jsobject =
    ArrayObject "jsval option list"
  | PlainObject "(jstr \<times> jsval) list"
  | ClassInstance

type_synonym jsheap = "(nat \<times> jsobject) list"

text \<open>The items \<open>every\<close> visits: it skips the holes.\<close>

definition visited :: "jsval option list \<Rightarrow> jsval list" where
  "visited items = concat (map (\<lambda>item. case item of None \<Rightarrow> [] | Some v \<Rightarrow> [v]) items)"

lemma set_visited [simp]: "set (visited items) = {v. Some v \<in> set items}"
  by (force simp: visited_def split: option.splits)

text \<open>
  \<open>seen\<close> holds the objects on the path from the root: \<open>seen.add\<close> before the items are visited,
  \<open>seen.delete\<close> after, so a node may be shared but not contain itself.
\<close>

function isJsonValue :: "jsheap \<Rightarrow> nat list \<Rightarrow> jsval \<Rightarrow> bool" where
  "isJsonValue h seen v =
     (case v of
        VNull \<Rightarrow> True
      | VString _ \<Rightarrow> True
      | VBool _ \<Rightarrow> True
      | VNumber _ \<Rightarrow> True
      | VNonFinite \<Rightarrow> False
      | VUndefined \<Rightarrow> False
      | VOther \<Rightarrow> False
      | VRef a \<Rightarrow>
          if a \<in> set seen then False
          else (case map_of h a of
              Some (ArrayObject items) \<Rightarrow> list_all (isJsonValue h (a # seen)) (visited items)
            | Some (PlainObject props) \<Rightarrow> list_all (isJsonValue h (a # seen)) (map snd props)
            | _ \<Rightarrow> False))"
  by pat_completeness auto

text \<open>Every object entered leaves one fewer outside \<open>seen\<close>.\<close>

lemma filter_seen_less:
  assumes "map_of h a = Some ob" "a \<notin> set seen"
  shows "length (filter (\<lambda>p. fst p \<noteq> a \<and> fst p \<notin> set seen) h) < length (filter (\<lambda>p. fst p \<notin> set seen) h)"
proof -
  have "(a, ob) \<in> set h" using assms(1) by (rule map_of_SomeD)
  then show ?thesis using assms(2)
  proof (induction h)
    case (Cons p h)
    have le: "length (filter (\<lambda>p. fst p \<noteq> a \<and> fst p \<notin> set seen) h) \<le> length (filter (\<lambda>p. fst p \<notin> set seen) h)"
      by (induction h) auto
    show ?case
    proof (cases "p = (a, ob)")
      case True
      with Cons.prems le show ?thesis by (simp add: less_Suc_eq_le)
    next
      case False
      with Cons show ?thesis by auto
    qed
  qed simp
qed

termination isJsonValue
  by (relation "measure (\<lambda>(h, seen, v). length (filter (\<lambda>p. fst p \<notin> set seen) h))")
    (auto simp: filter_seen_less)

declare isJsonValue.simps [simp del]

lemma isJsonValue_ref:
  "isJsonValue h seen (VRef a) \<longleftrightarrow> a \<notin> set seen \<and>
     (case map_of h a of
        Some (ArrayObject items) \<Rightarrow> list_all (isJsonValue h (a # seen)) (visited items)
      | Some (PlainObject props) \<Rightarrow> list_all (isJsonValue h (a # seen)) (map snd props)
      | _ \<Rightarrow> False)"
  by (simp add: isJsonValue.simps [of h seen "VRef a"])

text \<open>The tree a JSON-valued graph unfolds to, which is what \<open>JSON.stringify\<close> writes (it writes a hole as
  \<open>null\<close>) and schemas see. (An array schema of the program has string items, so that it rejects the
  \<open>undefined\<close> found at a hole as it rejects \<open>null\<close>.)\<close>

inductive unfolds :: "jsheap \<Rightarrow> jsval \<Rightarrow> json \<Rightarrow> bool" for h where
  "unfolds h VNull JNull"
| "unfolds h (VBool b) (JBool b)"
| "unfolds h (VNumber n) (JNum n)"
| "unfolds h (VString s) (JStr s)"
| "map_of h a = Some (ArrayObject items) \<Longrightarrow>
   list_all2 (\<lambda>item j. item = None \<and> j = JNull \<or> (\<exists>v. item = Some v \<and> unfolds h v j)) items vs \<Longrightarrow>
   unfolds h (VRef a) (JArr vs)"
| "map_of h a = Some (PlainObject props) \<Longrightarrow>
   list_all2 (\<lambda>p q. fst p = fst q \<and> unfolds h (snd p) (snd q)) props kvs \<Longrightarrow>
   unfolds h (VRef a) (JObj kvs)"

text \<open>What an array item unfolds to.\<close>

abbreviation unfolds_item :: "jsheap \<Rightarrow> jsval option \<Rightarrow> json \<Rightarrow> bool" where
  "unfolds_item h item j \<equiv> item = None \<and> j = JNull \<or> (\<exists>v. item = Some v \<and> unfolds h v j)"

inductive_cases unfolds_refE: "unfolds h (VRef a) j"
inductive_simps unfolds_simps [simp]:
  "unfolds h VUndefined j" "unfolds h VNull j" "unfolds h (VBool b) j" "unfolds h (VNumber n) j"
  "unfolds h VNonFinite j" "unfolds h (VString s) j" "unfolds h VOther j"

lemma unfolds_functional: "unfolds h v j \<Longrightarrow> unfolds h v j' \<Longrightarrow> j' = j"
proof (induction arbitrary: j' rule: unfolds.induct)
  case (5 a items vs)
  from "5.prems" "5.hyps"(1) obtain vs' where j': "j' = JArr vs'" "list_all2 (unfolds_item h) items vs'"
    by (auto elim: unfolds_refE)
  have "vs' ! i = vs ! i" if i: "i < length items" for i
  proof (cases "items ! i")
    case None
    with list_all2_nthD [OF "5.IH" i] list_all2_nthD [OF j'(2) i] show ?thesis by simp
  next
    case (Some x)
    with list_all2_nthD [OF "5.IH" i] have "\<And>j'. unfolds h x j' \<Longrightarrow> j' = vs ! i" by simp
    with Some list_all2_nthD [OF j'(2) i] show ?thesis by simp
  qed
  moreover have "length vs' = length items" "length vs = length items"
    using list_all2_lengthD [OF "5.IH"] list_all2_lengthD [OF j'(2)] by simp_all
  ultimately have "vs' = vs" by (intro nth_equalityI) simp_all
  with j' show ?case by simp
next
  case (6 a props kvs)
  from "6.prems" "6.hyps"(1) obtain kvs' where j': "j' = JObj kvs'"
      "list_all2 (\<lambda>p q. fst p = fst q \<and> unfolds h (snd p) (snd q)) props kvs'"
    by (auto elim: unfolds_refE)
  have "kvs' = kvs"
    using "6.IH" j'(2) by (auto simp: list_all2_conv_all_nth prod_eq_iff intro!: nth_equalityI)
  with j' show ?case by simp
qed auto

lemma isJsonValue_unfolds: "isJsonValue h seen v \<Longrightarrow> \<exists>j. unfolds h v j"
proof (induction h seen v rule: isJsonValue.induct)
  case (1 h seen v)
  show ?case
  proof (cases v)
    case (VRef a)
    note here = "1.prems" [unfolded VRef isJsonValue_ref]
    from here have fresh: "a \<notin> set seen" by blast
    from here fresh consider (arr) items where "map_of h a = Some (ArrayObject items)"
          "list_all (isJsonValue h (a # seen)) (visited items)"
      | (obj) props where "map_of h a = Some (PlainObject props)"
          "list_all (isJsonValue h (a # seen)) (map snd props)"
      by (auto split: option.splits jsobject.splits)
    then show ?thesis
    proof cases
      case arr
      have "\<forall>x. Some x \<in> set items \<longrightarrow> (\<exists>j. unfolds h x j)"
        using "1.IH"(1) [OF VRef fresh arr(1) refl] arr(2) by (auto simp: list_all_iff)
      then obtain f where f: "\<And>x. Some x \<in> set items \<Longrightarrow> unfolds h x (f x)" by metis
      have "list_all2 (unfolds_item h) items (map (\<lambda>item. case item of None \<Rightarrow> JNull | Some x \<Rightarrow> f x) items)"
        unfolding list_all2_conv_all_nth using f by (auto split: option.split simp: in_set_conv_nth)
      with arr(1) VRef show ?thesis by (blast intro: unfolds.intros)
    next
      case obj
      have "\<forall>x \<in> snd ` set props. \<exists>j. unfolds h x j"
        using "1.IH"(2) [OF VRef fresh obj(1) refl] obj(2) by (auto simp: list_all_iff)
      then obtain f where "\<forall>x \<in> snd ` set props. unfolds h x (f x)" by metis
      then have "list_all2 (\<lambda>p q. fst p = fst q \<and> unfolds h (snd p) (snd q)) props
          (map (\<lambda>p. (fst p, f (snd p))) props)"
        by (auto simp: list_all2_conv_all_nth)
      with obj(1) VRef show ?thesis by (blast intro: unfolds.intros)
    qed
  qed (use "1.prems" in \<open>auto simp: isJsonValue.simps\<close>)
qed

text \<open>An object that unfolds has a larger tree than the values below it, so it is none of them.\<close>

definition above :: "jsheap \<Rightarrow> nat list \<Rightarrow> json \<Rightarrow> bool" where
  "above h seen j \<longleftrightarrow> (\<forall>a \<in> set seen. \<forall>j'. unfolds h (VRef a) j' \<longrightarrow> size j < size j')"

lemma above_item:
  assumes "above h seen j" "unfolds h (VRef a) j" "size j1 < size j"
  shows "above h (a # seen) j1"
  unfolding above_def
proof (intro ballI allI impI)
  fix b j'
  assume b: "b \<in> set (a # seen)" "unfolds h (VRef b) j'"
  show "size j1 < size j'"
  proof (cases "b = a")
    case True
    with b assms(3) unfolds_functional [OF assms(2), of j'] show ?thesis by blast
  next
    case False
    with b assms(1) have "size j < size j'" by (simp add: above_def)
    with assms(3) show ?thesis by simp
  qed
qed

lemma above_fresh: "above h seen j \<Longrightarrow> unfolds h (VRef a) j \<Longrightarrow> a \<notin> set seen"
  unfolding above_def by blast

lemma size_elem: "x \<in> set xs \<Longrightarrow> size x < size (JArr xs)"
  by (induction xs) auto

lemma size_member: "kv \<in> set kvs \<Longrightarrow> size (snd kv) < size (JObj kvs)"
  by (induction kvs) auto

lemma unfolds_isJsonValue: "unfolds h v j \<Longrightarrow> above h seen j \<Longrightarrow> isJsonValue h seen v"
proof (induction arbitrary: seen rule: unfolds.induct)
  case (5 a items vs)
  have u: "unfolds h (VRef a) (JArr vs)"
    using 5 by (intro unfolds.intros(5)) (auto elim: list_all2_mono)
  have "a \<notin> set seen" using above_fresh [OF "5.prems" u] .
  moreover have "isJsonValue h (a # seen) x" if x: "Some x \<in> set items" for x
  proof -
    from x obtain i where i: "i < length items" "items ! i = Some x" by (auto simp: in_set_conv_nth)
    then have len: "i < length vs" using "5.IH" by (auto dest: list_all2_lengthD)
    then have "size (vs ! i) < size (JArr vs)" by (intro size_elem) simp
    then have "above h (a # seen) (vs ! i)" using above_item [OF "5.prems" u] by blast
    with "5.IH" i len show ?thesis by (auto simp: list_all2_conv_all_nth)
  qed
  ultimately show ?case using "5.hyps"
    by (simp add: isJsonValue_ref list_all_iff)
next
  case (6 a props kvs)
  have u: "unfolds h (VRef a) (JObj kvs)"
    using 6 by (intro unfolds.intros(6)) (auto simp: list_all2_conv_all_nth)
  have "a \<notin> set seen" using above_fresh [OF "6.prems" u] .
  moreover have "isJsonValue h (a # seen) (snd p)" if p: "p \<in> set props" for p
  proof -
    from p obtain i where i: "i < length props" "p = props ! i" by (auto simp: in_set_conv_nth)
    then have len: "i < length kvs" using "6.IH" by (auto dest: list_all2_lengthD)
    then have "size (snd (kvs ! i)) < size (JObj kvs)" by (intro size_member) simp
    then have "above h (a # seen) (snd (kvs ! i))" using above_item [OF "6.prems" u] by blast
    with "6.IH" i len show ?thesis by (auto simp: list_all2_conv_all_nth)
  qed
  ultimately show ?case using "6.hyps"
    by (auto simp: isJsonValue_ref list_all_iff)
qed (simp_all add: isJsonValue.simps)

lemma isJsonValue_iff: "isJsonValue h [] v \<longleftrightarrow> (\<exists>j. unfolds h v j)"
  using isJsonValue_unfolds [of h "[]" v] unfolds_isJsonValue [of h v _ "[]"]
  by (auto simp: above_def)

section \<open>Parsers\<close>

text \<open>The unfolding as a function, for the values the guard accepts.\<close>

function json_tree :: "jsheap \<Rightarrow> nat list \<Rightarrow> jsval \<Rightarrow> json option" where
  "json_tree h seen v =
     (case v of
        VNull \<Rightarrow> Some JNull
      | VString s \<Rightarrow> Some (JStr s)
      | VBool b \<Rightarrow> Some (JBool b)
      | VNumber n \<Rightarrow> Some (JNum n)
      | VRef a \<Rightarrow>
          if a \<in> set seen then None
          else (case map_of h a of
              Some (ArrayObject items) \<Rightarrow> map_option JArr (those (map (\<lambda>item. case item of None \<Rightarrow> Some JNull
                                              | Some x \<Rightarrow> json_tree h (a # seen) x) items))
            | Some (PlainObject props) \<Rightarrow>
                map_option (\<lambda>vs. JObj (zip (map fst props) vs))
                  (those (map (json_tree h (a # seen)) (map snd props)))
            | _ \<Rightarrow> None)
      | _ \<Rightarrow> None)"
  by pat_completeness auto
termination
  by (relation "measure (\<lambda>(h, seen, v). length (filter (\<lambda>p. fst p \<notin> set seen) h))")
    (auto simp: filter_seen_less)

declare json_tree.simps [simp del]

lemma those_map_Some: "\<forall>x \<in> set xs. \<exists>y. f x = Some y \<Longrightarrow> \<exists>ys. those (map f xs) = Some ys"
  by (induction xs) auto

lemma those_map_all2: "those (map f xs) = Some ys \<Longrightarrow> list_all2 (\<lambda>x y. f x = Some y) xs ys"
  by (induction xs arbitrary: ys) (auto split: option.splits)

lemma json_tree_defined: "isJsonValue h seen v \<Longrightarrow> \<exists>j. json_tree h seen v = Some j"
proof (induction h seen v rule: isJsonValue.induct)
  case (1 h seen v)
  show ?case
  proof (cases v)
    case (VRef a)
    note here = "1.prems" [unfolded VRef isJsonValue_ref]
    from here have fresh: "a \<notin> set seen" by blast
    from here consider (arr) items where "map_of h a = Some (ArrayObject items)"
          "list_all (isJsonValue h (a # seen)) (visited items)"
      | (obj) props where "map_of h a = Some (PlainObject props)"
          "list_all (isJsonValue h (a # seen)) (map snd props)"
      by (auto split: option.splits jsobject.splits)
    then show ?thesis
    proof cases
      case arr
      then have "\<exists>vs. those (map (\<lambda>item. case item of None \<Rightarrow> Some JNull | Some x \<Rightarrow> json_tree h (a # seen) x) items)
          = Some vs"
        using "1.IH"(1) [OF VRef fresh arr(1) refl] by (intro those_map_Some) (auto simp: list_all_iff split: option.split)
      with arr(1) VRef fresh show ?thesis by (auto simp: json_tree.simps [of h seen "VRef a"])
    next
      case obj
      then have "\<exists>vs. those (map (json_tree h (a # seen)) (map snd props)) = Some vs"
        using "1.IH"(2) [OF VRef fresh obj(1) refl] by (intro those_map_Some) (auto simp: list_all_iff)
      with obj(1) VRef fresh show ?thesis by (auto simp: json_tree.simps [of h seen "VRef a"])
    qed
  qed (use "1.prems" in \<open>auto simp: isJsonValue.simps json_tree.simps\<close>)
qed

lemma json_tree_unfolds: "json_tree h seen v = Some j \<Longrightarrow> unfolds h v j"
proof (induction h seen v arbitrary: j rule: json_tree.induct)
  case (1 h seen v)
  show ?case
  proof (cases v)
    case (VRef a)
    note here = "1.prems" [unfolded VRef json_tree.simps [of h seen "VRef a"], simplified]
    from here have fresh: "a \<notin> set seen" by (auto split: if_splits)
    from here fresh consider (arr) items vs where "map_of h a = Some (ArrayObject items)"
          "those (map (\<lambda>item. case item of None \<Rightarrow> Some JNull | Some x \<Rightarrow> json_tree h (a # seen) x) items) = Some vs"
          "j = JArr vs"
      | (obj) props vs where "map_of h a = Some (PlainObject props)"
          "those (map (json_tree h (a # seen)) (map snd props)) = Some vs" "j = JObj (zip (map fst props) vs)"
      by (auto split: option.splits jsobject.splits)
    then show ?thesis
    proof cases
      case arr
      have "unfolds_item h item w" if "item \<in> set items"
          "(case item of None \<Rightarrow> Some JNull | Some x \<Rightarrow> json_tree h (a # seen) x) = Some w" for item w
        using "1.IH"(1) [OF VRef fresh arr(1) refl] that by (auto split: option.splits)
      with those_map_all2 [OF arr(2)] have "list_all2 (unfolds_item h) items vs"
        by (rule list.rel_mono_strong) blast
      with arr VRef show ?thesis by (blast intro: unfolds.intros)
    next
      case obj
      then have "list_all2 (\<lambda>p q. fst p = fst q \<and> unfolds h (snd p) (snd q)) props (zip (map fst props) vs)"
        using "1.IH"(2) [OF VRef fresh obj(1) refl] those_map_all2 [OF obj(2)]
        by (auto simp: list_all2_conv_all_nth)
      with obj VRef show ?thesis by (blast intro: unfolds.intros)
    qed
  qed (use "1.prems" in \<open>auto simp: json_tree.simps\<close>)
qed

definition invalid_label :: "jstr \<Rightarrow> thrown" where
  "invalid_label label = TypeError (js ''invalid '' @ label)"

definition parseSchema :: "checker \<Rightarrow> schema \<Rightarrow> jsheap \<Rightarrow> jsval \<Rightarrow> jstr \<Rightarrow> json result" where
  "parseSchema chk schema h value label =
     (if \<not> isJsonValue h [] value then Inl (invalid_label label)
      else (case json_tree h [] value of
          None \<Rightarrow> Inl (invalid_label label)
        | Some tree \<Rightarrow> if \<not> chk schema tree then Inl (invalid_label label) else Inr tree))"

text \<open>On the output of \<open>JSON.parse\<close>, a finite tree, the guard holds and the schema check remains.\<close>

definition parseTree :: "checker \<Rightarrow> schema \<Rightarrow> json \<Rightarrow> jstr \<Rightarrow> json result" where
  "parseTree chk schema tree label =
     (if \<not> chk schema tree then Inl (invalid_label label) else Inr tree)"

lemma parseSchema_Inr:
  "parseSchema chk schema h v label = Inr j \<longleftrightarrow> unfolds h v j \<and> chk schema j"
proof
  assume "parseSchema chk schema h v label = Inr j"
  then show "unfolds h v j \<and> chk schema j"
    by (auto simp: parseSchema_def json_tree_unfolds split: if_splits option.splits)
next
  assume a: "unfolds h v j \<and> chk schema j"
  then have "isJsonValue h [] v" using isJsonValue_iff by blast
  moreover from this obtain j' where "json_tree h [] v = Some j'" using json_tree_defined by blast
  moreover from this a have "j' = j" using unfolds_functional json_tree_unfolds by blast
  ultimately show "parseSchema chk schema h v label = Inr j" using a by (simp add: parseSchema_def)
qed

definition parseResultEnvelope :: "checker \<Rightarrow> json \<Rightarrow> json result" where
  "parseResultEnvelope chk value = parseTree chk ResultEnvelopeSchema value (js ''result envelope'')"

definition parseErrorEnvelope :: "checker \<Rightarrow> json \<Rightarrow> json result" where
  "parseErrorEnvelope chk value = parseTree chk ErrorEnvelopeSchema value (js ''error envelope'')"

definition parseHealthState :: "checker \<Rightarrow> json \<Rightarrow> json result" where
  "parseHealthState chk value = parseTree chk HealthStateSchema value (js ''health state'')"

text \<open>The string-literal union \<open>OperationState\<close> as its datatype.\<close>

fun operation_state_of :: "json \<Rightarrow> OperationState option" where
  "operation_state_of (JStr s) =
     List.find (\<lambda>st. operation_state_text st = s)
       [Accepted, Running, Committed, Failed, UnknownNeedsReconcile, RolledBack]"
| "operation_state_of _ = None"

definition parseOperationState :: "checker \<Rightarrow> json \<Rightarrow> OperationState result" where
  "parseOperationState chk value =
     bind_res (parseTree chk OperationStateSchema value (js ''operation state''))
       (\<lambda>v. case operation_state_of v of
              Some st \<Rightarrow> Inr st
            | None \<Rightarrow> Inl (invalid_label (js ''operation state'')))"

definition parseRpcRequest :: "checker \<Rightarrow> json \<Rightarrow> json result" where
  "parseRpcRequest chk value = parseTree chk RpcRequestSchema value (js ''rpc request'')"

definition parseRpcResponse :: "checker \<Rightarrow> json \<Rightarrow> json result" where
  "parseRpcResponse chk value = parseTree chk RpcResponseSchema value (js ''rpc response'')"

definition parseWorkspaceRecord :: "checker \<Rightarrow> json \<Rightarrow> json result" where
  "parseWorkspaceRecord chk value = parseTree chk WorkspaceRecordSchema value (js ''workspace record'')"

definition parseEntityVersion :: "checker \<Rightarrow> json \<Rightarrow> nat result" where
  "parseEntityVersion chk value =
     bind_res (parseTree chk EntityVersionSchema value (js ''entity version''))
       (\<lambda>v. case v of
              JNum (JInt i) \<Rightarrow> Inr (nat i)
            | _ \<Rightarrow> Inl (invalid_label (js ''entity version'')))"

definition parseCapabilityDescriptor :: "checker \<Rightarrow> json \<Rightarrow> json result" where
  "parseCapabilityDescriptor chk value =
     parseTree chk CapabilityDescriptorSchema value (js ''capability descriptor'')"

definition parseMutationMetadata :: "checker \<Rightarrow> json \<Rightarrow> json result" where
  "parseMutationMetadata chk value =
     parseTree chk MutationMetadataSchema value (js ''mutation metadata'')"

section \<open>The parsers under the documented schema meaning\<close>

lemma checks_simps:
  assumes "checks_schemas str_len chk"
  shows "chk (TUnion ss) v \<longleftrightarrow> (\<exists>s \<in> set ss. chk s v)"
    and "chk (TLitString t) v \<longleftrightarrow> v = JStr t"
    and "chk (TLitNumber i) (JNum (JInt j)) \<longleftrightarrow> j = i"
    and "chk (TLitBool b) v \<longleftrightarrow> v = JBool b"
    and "chk (TString mn mx) v \<longleftrightarrow>
        (\<exists>t. v = JStr t \<and> mn \<le> str_len t \<and> (case mx of None \<Rightarrow> True | Some m \<Rightarrow> str_len t \<le> m))"
    and "chk TNull v \<longleftrightarrow> v = JNull"
    and "chk (TInteger lo) (JNum (JInt j)) \<longleftrightarrow> lo \<le> j"
    and "chk TBoolean v \<longleftrightarrow> (\<exists>b. v = JBool b)"
    and "chk TUnknown v"
    and "chk (TObject ps) v \<longleftrightarrow> checks_object chk ps v"
  using assms by (simp_all add: checks_schemas_def)

lemma operation_state_of_text: "operation_state_of v = Some st \<longleftrightarrow> v = JStr (operation_state_text st)"
proof
  assume "operation_state_of v = Some st"
  then show "v = JStr (operation_state_text st)"
    by (cases v rule: operation_state_of.cases) (auto split: if_splits)
next
  assume "v = JStr (operation_state_text st)"
  then show "operation_state_of v = Some st" by (cases st) auto
qed

lemma operation_state_schema:
  assumes "checks_schemas str_len chk"
  shows "chk OperationStateSchema v \<longleftrightarrow> (\<exists>st. v = JStr (operation_state_text st))"
proof
  assume "chk OperationStateSchema v"
  then have "operation_state_of v \<noteq> None"
    by (auto simp: OperationStateSchema_def checks_simps [OF assms])
  then show "\<exists>st. v = JStr (operation_state_text st)"
    using operation_state_of_text by blast
next
  assume "\<exists>st. v = JStr (operation_state_text st)"
  then obtain st where "v = JStr (operation_state_text st)" ..
  then show "chk OperationStateSchema v"
    by (cases st) (auto simp: OperationStateSchema_def checks_simps [OF assms])
qed

lemma parseOperationState_iff:
  assumes "checks_schemas str_len chk"
  shows "parseOperationState chk v = Inr st \<longleftrightarrow> v = JStr (operation_state_text st)"
proof (cases "operation_state_of v")
  case None
  then have "v \<noteq> JStr (operation_state_text x)" for x
    using operation_state_of_text [of v x] by simp
  then have "\<not> chk OperationStateSchema v"
    unfolding operation_state_schema [OF assms] by blast
  with None operation_state_of_text [of v st] show ?thesis
    by (auto simp: parseOperationState_def parseTree_def)
next
  case (Some st')
  then have v: "v = JStr (operation_state_text st')" by (simp add: operation_state_of_text)
  then have "chk OperationStateSchema v" unfolding operation_state_schema [OF assms] by blast
  with Some v show ?thesis by (auto simp: parseOperationState_def parseTree_def)
qed

lemma parseEntityVersion_nat:
  "checks_schemas str_len chk \<Longrightarrow> parseEntityVersion chk (JNum (JInt (int n))) = Inr n"
  by (simp add: parseEntityVersion_def parseTree_def EntityVersionSchema_def checks_simps)

lemma parseResultEnvelope_ok:
  "checks_schemas str_len chk \<Longrightarrow>
   parseResultEnvelope chk (JObj [(js ''ok'', JBool True), (js ''result'', v)])
     = Inr (JObj [(js ''ok'', JBool True), (js ''result'', v)])"
  by (simp add: parseResultEnvelope_def parseTree_def ResultEnvelopeSchema_def checks_simps
      checks_object_def req_def opt_def)

text \<open>A checker that satisfies the documented meaning; hypotheses on \<open>chk\<close> are satisfiable.\<close>

fun json_schema_check :: "schema \<Rightarrow> json \<Rightarrow> bool" where
  "json_schema_check (TUnion ss) v = list_ex (\<lambda>s. json_schema_check s v) ss"
| "json_schema_check (TLitString t) v = (v = JStr t)"
| "json_schema_check (TLitNumber i) v = (v = JNum (JInt i))"
| "json_schema_check (TLitBool b) v = (v = JBool b)"
| "json_schema_check (TString mn mx) v =
     (case v of
        JStr t \<Rightarrow> mn \<le> length t \<and> (case mx of None \<Rightarrow> True | Some m \<Rightarrow> length t \<le> m)
      | _ \<Rightarrow> False)"
| "json_schema_check TNull v = (v = JNull)"
| "json_schema_check (TInteger mn) v = (case v of JNum (JInt i) \<Rightarrow> mn \<le> i | _ \<Rightarrow> False)"
| "json_schema_check TBoolean v = (case v of JBool _ \<Rightarrow> True | _ \<Rightarrow> False)"
| "json_schema_check TUnknown v = True"
| "json_schema_check (TUniqueArray s) v =
     (case v of JArr vs \<Rightarrow> distinct vs \<and> list_all (json_schema_check s) vs | _ \<Rightarrow> False)"
| "json_schema_check (TObject ps) v =
     (case v of
        JObj kvs \<Rightarrow> list_all (\<lambda>kv. fst kv \<in> set (map fst ps)) kvs
          \<and> list_all (\<lambda>p. case map_of kvs (fst p) of
                             None \<Rightarrow> fst (snd p)
                           | Some w \<Rightarrow> json_schema_check (snd (snd p)) w) ps
      | _ \<Rightarrow> False)"

lemma checks_schemas_reference: "checks_schemas length json_schema_check"
proof -
  have "json_schema_check (TObject ps) v = checks_object json_schema_check ps v" for ps v
    by (cases v) (auto simp: checks_object_def list_all_iff split: option.splits prod.splits)
  then show ?thesis
    unfolding checks_schemas_def
    by (intro conjI allI)
      (auto simp: list_ex_iff list_all_iff split: json.splits jsnum.splits)
qed

text \<open>C7. \<open>isJsonValue\<close> decides exactly which JavaScript values are JSON: it accepts a value if and only if its
  object graph unfolds to a finite JSON tree, where the items of anything \<open>Array.isArray\<close> accepts (instances
  of subclasses of \<open>Array\<close> too) make an array, and a hole counts as \<open>null\<close>, which is what \<open>JSON.stringify\<close>
  writes for it. Shared nodes are accepted; cycles, instances of other classes, non-finite numbers,
  \<open>undefined\<close>, functions, symbols and bigints are not, at any depth; and the traversal always ends. (Values
  with accessors, proxies, and arrays that redefine \<open>every\<close> or have a \<open>toJSON\<close> are outside the model.)\<close>

theorem isJsonValue_exact: "isJsonValue h [] v \<longleftrightarrow> (\<exists>j. unfolds h v j)"
  by (rule isJsonValue_iff)

text \<open>\<open>parseSchema\<close> returns a value exactly when it is a JSON value that satisfies the schema, and then
  returns that value; otherwise it throws the \<open>TypeError\<close> naming the label.\<close>

theorem parseSchema_exact:
  "case parseSchema chk schema h v label of
     Inr j \<Rightarrow> unfolds h v j \<and> chk schema j
   | Inl e \<Rightarrow> e = TypeError (js ''invalid '' @ label) \<and> \<not> (\<exists>j. unfolds h v j \<and> chk schema j)"
proof (cases "parseSchema chk schema h v label")
  case (Inl e)
  then have "\<not> (\<exists>j. unfolds h v j \<and> chk schema j)"
    using parseSchema_Inr [of chk schema h v label] by fastforce
  moreover have "e = TypeError (js ''invalid '' @ label)"
    using Inl by (auto simp: parseSchema_def invalid_label_def split: if_splits option.splits)
  ultimately show ?thesis using Inl by simp
next
  case (Inr j)
  with parseSchema_Inr [of chk schema h v label j] show ?thesis by simp
qed

end
