(* ===== verification/Storage.thy ===== *)
theory Storage
  imports Contracts
begin

text \<open>
  \<open>packages/storage/src/index.ts\<close>: opening a connection under the required durability policy,
  immediate transactions, and the migration ledger. SQLite itself is outside the repository: its
  answers to pragmas are data, and the effect of a migration's SQL script on the tables is the
  parameter \<open>exec\<close>.
\<close>

section \<open>Settings and bootstrap\<close>

record SqliteSettings =
  journalMode :: jstr
  synchronous :: int
  foreignKeys :: bool
  busyTimeoutMs :: jsnum

text \<open>The answers of \<open>pragma(name, { simple: true })\<close>.\<close>

record pragmas =
  pragma_journal_mode :: json
  pragma_synchronous :: json
  pragma_foreign_keys :: json
  pragma_busy_timeout :: json

definition policy_error :: thrown where
  "policy_error = JsError (js ''SQLite connection is not using the required durability policy'')"

definition getSettings :: "pragmas \<Rightarrow> SqliteSettings result" where
  "getSettings p =
     (case pragma_busy_timeout p of
        JNum t \<Rightarrow>
          if pragma_journal_mode p \<noteq> JStr (js ''wal'') \<or> pragma_synchronous p \<noteq> JNum (JInt 2)
            \<or> pragma_foreign_keys p \<noteq> JNum (JInt 1)
          then Inl policy_error
          else Inr \<lparr>journalMode = js ''wal'', synchronous = 2, foreignKeys = True, busyTimeoutMs = t\<rparr>
      | _ \<Rightarrow> Inl policy_error)"

text \<open>A connection: whether it is open, and what SQLite answers to pragmas.\<close>

record connection =
  conn_open :: bool
  conn_pragmas :: pragmas

definition close :: "connection \<Rightarrow> connection" where
  "close c = (if conn_open c then c\<lparr>conn_open := False\<rparr> else c)"

definition settings_json :: "SqliteSettings \<Rightarrow> json" where
  "settings_json s = JObj
     [(js ''journalMode'', JStr (journalMode s)), (js ''synchronous'', JNum (JInt (synchronous s))),
      (js ''foreignKeys'', JBool (foreignKeys s)), (js ''busyTimeoutMs'', JNum (busyTimeoutMs s))]"

text \<open>\<open>answers\<close> is what SQLite answers once the four pragmas have been set. The outcome carries the
  connection, so that a thrown error shows whether it was closed first.\<close>

definition bootstrapWritableConnection ::
    "jsnum \<Rightarrow> pragmas \<Rightarrow> connection \<Rightarrow> unit result \<times> connection" where
  "bootstrapWritableConnection timeout answers c =
     (let c = c\<lparr>conn_pragmas := answers\<rparr> in
      case getSettings (conn_pragmas c) of
        Inl e \<Rightarrow> (Inl e, c)
      | Inr settings \<Rightarrow>
          if journalMode settings \<noteq> js ''wal'' \<or> synchronous settings \<noteq> 2 \<or> foreignKeys settings \<noteq> True
            \<or> busyTimeoutMs settings \<noteq> timeout
          then (Inl (JsError (js ''SQLite durability bootstrap failed: '' @ JSON_stringify (settings_json settings))),
                close c)
          else (Inr (), c))"

fun is_nonneg_integer :: "jsnum \<Rightarrow> bool" where
  "is_nonneg_integer (JInt i) = (0 \<le> i)"
| "is_nonneg_integer (JDec _) = False"

text \<open>The constructor. \<open>fresh\<close> is the connection \<open>new Database(path, ...)\<close> opens.\<close>

definition openSqliteDatabase ::
    "jsnum option \<Rightarrow> pragmas \<Rightarrow> connection \<Rightarrow> connection result \<times> connection option" where
  "openSqliteDatabase busyTimeout answers fresh =
     (let timeout = (case busyTimeout of None \<Rightarrow> JInt 5000 | Some t \<Rightarrow> t) in
      if \<not> is_nonneg_integer timeout
      then (Inl (TypeError (js ''busyTimeoutMs must be a non-negative integer'')), None)
      else (case bootstrapWritableConnection timeout answers fresh of
          (Inl e, c) \<Rightarrow> (Inl e, Some c)
        | (Inr _, c) \<Rightarrow> (Inr c, Some c)))"

lemma close_idem: "close (close c) = close c"
  by (simp add: close_def)

lemma getSettings_Inr:
  "getSettings p = Inr s \<Longrightarrow>
   s = \<lparr>journalMode = js ''wal'', synchronous = 2, foreignKeys = True, busyTimeoutMs = busyTimeoutMs s\<rparr>"
  by (auto simp: getSettings_def split: json.splits if_splits)

text \<open>An open database has the required policy.\<close>

lemma open_policy:
  assumes "openSqliteDatabase t answers fresh = (Inr c, r)"
  shows "getSettings (conn_pragmas c) =
     Inr \<lparr>journalMode = js ''wal'', synchronous = 2, foreignKeys = True,
          busyTimeoutMs = (case t of None \<Rightarrow> JInt 5000 | Some n \<Rightarrow> n)\<rparr>"
proof -
  from assms obtain s where s: "getSettings answers = Inr s" "conn_pragmas c = answers"
      "busyTimeoutMs s = (case t of None \<Rightarrow> JInt 5000 | Some n \<Rightarrow> n)"
    by (auto simp: openSqliteDatabase_def bootstrapWritableConnection_def Let_def
        split: if_splits sum.splits prod.splits)
  with getSettings_Inr [OF s(1)] show ?thesis by simp
qed

section \<open>Transactions\<close>

text \<open>\<open>transaction(work)\<close>: a thrown error rolls the tables back.\<close>

definition transaction :: "('t \<Rightarrow> 'a result \<times> 't) \<Rightarrow> 't \<Rightarrow> 'a result \<times> 't" where
  "transaction work t =
     (case work t of
        (Inr a, t') \<Rightarrow> (Inr a, t')
      | (Inl e, t') \<Rightarrow> (Inl e, t))"

lemma transaction_Inl: "transaction work t = (Inl e, t') \<Longrightarrow> t' = t"
  by (auto simp: transaction_def split: prod.splits sum.splits)

lemma transaction_Inr: "transaction work t = (Inr a, t') \<longleftrightarrow> work t = (Inr a, t')"
  by (auto simp: transaction_def split: prod.splits sum.splits)

section \<open>Migrations\<close>

record SqliteMigration =
  migration_id :: jstr
  migration_sql :: jstr

record MigrationResult =
  applied :: "jstr list"
  skipped :: "jstr list"

text \<open>The ledger \<open>schema_migrations\<close> (absent until created) beside the other tables.\<close>

record 'd sqlite =
  schema_migrations :: "(jstr \<times> jstr) list option"
  tables :: 'd

definition create_ledger :: "'d sqlite \<Rightarrow> 'd sqlite" where
  "create_ledger db =
     (case schema_migrations db of
        None \<Rightarrow> db\<lparr>schema_migrations := Some []\<rparr>
      | Some _ \<Rightarrow> db)"

definition ledger :: "'d sqlite \<Rightarrow> jstr \<Rightarrow> jstr option" where
  "ledger db mid = (case schema_migrations db of None \<Rightarrow> None | Some l \<Rightarrow> map_of l mid)"

definition insert_ledger :: "jstr \<Rightarrow> jstr \<Rightarrow> 'd sqlite \<Rightarrow> 'd sqlite" where
  "insert_ledger mid checksum db =
     db\<lparr>schema_migrations := map_option ((#) (mid, checksum)) (schema_migrations db)\<rparr>"

text \<open>The work of one migration's transaction: run the script, then record it.\<close>

definition run_migration ::
    "(jstr \<Rightarrow> 'd \<Rightarrow> unit result \<times> 'd) \<Rightarrow> (jstr \<Rightarrow> jstr) \<Rightarrow> SqliteMigration \<Rightarrow> 'd sqlite \<Rightarrow> unit result \<times> 'd sqlite" where
  "run_migration exec sha256 m db =
     (case exec (migration_sql m) (tables db) of
        (Inl e, d) \<Rightarrow> (Inl e, db\<lparr>tables := d\<rparr>)
      | (Inr _, d) \<Rightarrow> (Inr (), insert_ledger (migration_id m) (sha256 (migration_sql m)) (db\<lparr>tables := d\<rparr>)))"

fun migrate_loop ::
    "(jstr \<Rightarrow> 'd \<Rightarrow> unit result \<times> 'd) \<Rightarrow> (jstr \<Rightarrow> jstr) \<Rightarrow> SqliteMigration list \<Rightarrow> MigrationResult \<Rightarrow>
     'd sqlite \<Rightarrow> MigrationResult result \<times> 'd sqlite" where
  "migrate_loop exec sha256 [] result db = (Inr result, db)"
| "migrate_loop exec sha256 (migration # rest) result db =
     (if length (migration_id migration) = 0
      then (Inl (TypeError (js ''migration id must not be empty'')), db)
      else
        (let checksum = sha256 (migration_sql migration) in
         case ledger db (migration_id migration) of
           Some existing \<Rightarrow>
             if existing \<noteq> checksum
             then (Inl (JsError (js ''migration checksum mismatch for '' @ migration_id migration)), db)
             else migrate_loop exec sha256 rest
                    (result\<lparr>skipped := skipped result @ [migration_id migration]\<rparr>) db
         | None \<Rightarrow>
             (case transaction (run_migration exec sha256 migration) db of
                (Inl e, db') \<Rightarrow> (Inl e, db')
              | (Inr _, db') \<Rightarrow>
                  migrate_loop exec sha256 rest
                    (result\<lparr>applied := applied result @ [migration_id migration]\<rparr>) db')))"

definition applyMigrations ::
    "(jstr \<Rightarrow> 'd \<Rightarrow> unit result \<times> 'd) \<Rightarrow> (jstr \<Rightarrow> jstr) \<Rightarrow> SqliteMigration list \<Rightarrow>
     'd sqlite \<Rightarrow> MigrationResult result \<times> 'd sqlite" where
  "applyMigrations exec sha256 migrations db =
     migrate_loop exec sha256 migrations \<lparr>applied = [], skipped = []\<rparr> (create_ledger db)"

lemma ledger_insert:
  "schema_migrations db = Some l \<Longrightarrow>
   ledger (insert_ledger mid c (db\<lparr>tables := d\<rparr>)) k = (if k = mid then Some c else ledger db k)"
  by (simp add: ledger_def insert_ledger_def)

lemma run_migration_Inr:
  assumes "transaction (run_migration exec sha256 m) db = (Inr u, db')" "schema_migrations db \<noteq> None"
  shows "ledger db' = (ledger db)(migration_id m \<mapsto> sha256 (migration_sql m))"
    and "exec (migration_sql m) (tables db) = (Inr (), tables db')"
    and "schema_migrations db' \<noteq> None"
proof -
  obtain l where l: "schema_migrations db = Some l" using assms(2) by auto
  obtain d where d: "exec (migration_sql m) (tables db) = (Inr (), d)"
      "db' = insert_ledger (migration_id m) (sha256 (migration_sql m)) (db\<lparr>tables := d\<rparr>)"
    using assms(1) by (auto simp: transaction_Inr run_migration_def split: prod.splits sum.splits)
  from l d show "ledger db' = (ledger db)(migration_id m \<mapsto> sha256 (migration_sql m))"
    by (auto simp: ledger_insert)
  from d show "exec (migration_sql m) (tables db) = (Inr (), tables db')"
    by (simp add: insert_ledger_def)
  from l d show "schema_migrations db' \<noteq> None" by (simp add: insert_ledger_def)
qed

text \<open>The loop keeps what the ledger records and ends with every migration recorded.\<close>

lemma migrate_loop_ledger:
  assumes "migrate_loop exec sha256 ms r db = (Inr r', db')" "schema_migrations db \<noteq> None"
  shows "ledger db \<subseteq>\<^sub>m ledger db'
    \<and> (\<forall>m \<in> set ms. migration_id m \<noteq> [] \<and> ledger db' (migration_id m) = Some (sha256 (migration_sql m)))
    \<and> schema_migrations db' \<noteq> None"
  using assms
proof (induction ms arbitrary: r db)
  case Nil
  then show ?case by auto
next
  case (Cons m ms)
  have ne: "migration_id m \<noteq> []" using Cons.prems(1) by (auto split: if_splits)
  show ?case
  proof (cases "ledger db (migration_id m)")
    case (Some c)
    with Cons.prems(1) ne have c: "c = sha256 (migration_sql m)"
      and rec: "migrate_loop exec sha256 ms (r\<lparr>skipped := skipped r @ [migration_id m]\<rparr>) db = (Inr r', db')"
      by (auto simp: Let_def split: if_splits)
    from Cons.IH [OF rec Cons.prems(2)] Some c ne show ?thesis by (auto simp: map_le_def dom_def)
  next
    case None
    with Cons.prems(1) ne obtain u db1 where t: "transaction (run_migration exec sha256 m) db = (Inr u, db1)"
      and rec: "migrate_loop exec sha256 ms (r\<lparr>applied := applied r @ [migration_id m]\<rparr>) db1 = (Inr r', db')"
      by (auto simp: Let_def split: if_splits sum.splits prod.splits)
    note run = run_migration_Inr [OF t Cons.prems(2)]
    from Cons.IH [OF rec run(3)] run(1) None ne show ?thesis
      by (auto simp: map_le_def dom_def split: if_splits)
  qed
qed

lemma migrate_loop_skips:
  assumes "\<forall>m \<in> set ms. migration_id m \<noteq> [] \<and> ledger db (migration_id m) = Some (sha256 (migration_sql m))"
  shows "migrate_loop exec sha256 ms r db = (Inr (r\<lparr>skipped := skipped r @ map migration_id ms\<rparr>), db)"
  using assms by (induction ms arbitrary: r) auto

text \<open>A migration that fails stops the loop; what came before it stays applied.\<close>

lemma migrate_loop_fails:
  assumes "migrate_loop exec sha256 ms r db = (Inl e, db')"
  shows "\<exists>k r'. k < length ms \<and> migrate_loop exec sha256 (take k ms) r db = (Inr r', db')"
  using assms
proof (induction ms arbitrary: r db)
  case (Cons m ms)
  have here: ?case if "db' = db"
    by (rule exI [of _ 0]) (simp add: that)
  have later: ?case if "migrate_loop exec sha256 ms r1 db1 = (Inl e, db')"
    and "\<And>rest. migrate_loop exec sha256 (m # rest) r db = migrate_loop exec sha256 rest r1 db1" for r1 db1
  proof -
    from Cons.IH [OF that(1)] obtain k r' where
      "k < length ms" "migrate_loop exec sha256 (take k ms) r1 db1 = (Inr r', db')" by blast
    then have "Suc k < length (m # ms) \<and> migrate_loop exec sha256 (take (Suc k) (m # ms)) r db = (Inr r', db')"
      by (simp add: that(2) del: migrate_loop.simps)
    then show ?thesis by blast
  qed
  show ?case
  proof (cases "migration_id m = []")
    case True
    with Cons.prems show ?thesis by (intro here) simp
  next
    case ne: False
    show ?thesis
    proof (cases "ledger db (migration_id m)")
      case (Some c)
      show ?thesis
      proof (cases "c = sha256 (migration_sql m)")
        case True
        with Some ne Cons.prems show ?thesis
          by (intro later [of "r\<lparr>skipped := skipped r @ [migration_id m]\<rparr>" db]) simp_all
      qed (use Some ne Cons.prems in \<open>intro here, simp\<close>)
    next
      case None
      obtain x db1 where t: "transaction (run_migration exec sha256 m) db = (x, db1)" by fastforce
      show ?thesis
      proof (cases x)
        case (Inl e')
        with t have "transaction (run_migration exec sha256 m) db = (Inl e', db1)" by simp
        then have "db1 = db" by (rule transaction_Inl)
        with Inl t ne None Cons.prems show ?thesis by (intro here) simp
      next
        case (Inr u)
        with t ne None Cons.prems show ?thesis
          by (intro later [of "r\<lparr>applied := applied r @ [migration_id m]\<rparr>" db1]) simp_all
      qed
    qed
  qed
qed simp

text \<open>C8. Migrations are applied once: after a successful pass every migration is in the ledger with the
  checksum of its script, and running the same list again skips all of it and changes nothing.\<close>

theorem applyMigrations_once:
  assumes "applyMigrations exec sha256 ms db = (Inr r, db')"
  shows "applyMigrations exec sha256 ms db' = (Inr \<lparr>applied = [], skipped = map migration_id ms\<rparr>, db')
    \<and> (\<forall>m \<in> set ms. ledger db' (migration_id m) = Some (sha256 (migration_sql m)))"
proof -
  have "schema_migrations (create_ledger db) \<noteq> None" by (simp add: create_ledger_def split: option.splits)
  note l = migrate_loop_ledger [OF assms [unfolded applyMigrations_def] this]
  then have "create_ledger db' = db'" by (auto simp: create_ledger_def split: option.splits)
  with l migrate_loop_skips [of ms db' sha256 exec "\<lparr>applied = [], skipped = []\<rparr>"] show ?thesis
    by (simp add: applyMigrations_def)
qed

definition sample_migration :: SqliteMigration where
  "sample_migration = \<lparr>migration_id = js ''0001'', migration_sql = js ''CREATE''\<rparr>"

definition sample_db :: "nat sqlite" where
  "sample_db = \<lparr>schema_migrations = None, tables = 0\<rparr>"

theorem applyMigrations_once_witness:
  "applyMigrations (\<lambda>_ d. (Inr (), d + 1)) rev [sample_migration]
     \<lparr>schema_migrations = Some [(js ''0001'', rev (js ''CREATE''))], tables = 1 :: nat\<rparr>
   = (Inr \<lparr>applied = [], skipped = [js ''0001'']\<rparr>,
      \<lparr>schema_migrations = Some [(js ''0001'', rev (js ''CREATE''))], tables = 1\<rparr>)"
  using applyMigrations_once [of "\<lambda>_ d. (Inr (), d + 1)" rev "[sample_migration]" sample_db
      "\<lparr>applied = [js ''0001''], skipped = []\<rparr>"
      "\<lparr>schema_migrations = Some [(js ''0001'', rev (js ''CREATE''))], tables = 1\<rparr>"]
  by (simp add: applyMigrations_def create_ledger_def sample_migration_def sample_db_def ledger_def
      transaction_def run_migration_def insert_ledger_def)

text \<open>When a migration throws, the database is the one the migrations before it produce: nothing of the
  failing script or of its ledger entry remains, and no later migration has run.\<close>

theorem applyMigrations_failure_atomic:
  assumes "applyMigrations exec sha256 ms db = (Inl e, db')"
  shows "\<exists>k r. k < length ms \<and> applyMigrations exec sha256 (take k ms) db = (Inr r, db')"
  using migrate_loop_fails [OF assms [unfolded applyMigrations_def]]
  by (simp add: applyMigrations_def)

theorem applyMigrations_failure_atomic_witness:
  "\<exists>k r. k < length [sample_migration] \<and>
     applyMigrations (\<lambda>_ d. (Inl (JsError []), d + 1)) rev (take k [sample_migration]) sample_db
       = (Inr r, sample_db\<lparr>schema_migrations := Some []\<rparr>)"
  by (rule applyMigrations_failure_atomic [where e = "JsError []"])
    (simp add: applyMigrations_def create_ledger_def sample_migration_def sample_db_def ledger_def
      transaction_def run_migration_def)

end
