(* ===== verification/Operations.thy ===== *)
theory Operations
  imports JsonRoundtrip Storage
begin

text \<open>
  \<open>packages/operations/src/index.ts\<close>: the operation journal, which binds an operation id to the
  input it was first used with and runs its effect at most once. The table
  \<open>operation_journal\<close> is a list of rows by id (timestamps, which nothing reads, are left out); each
  SQL statement is a function on it. The effect of an operation is a function on the journal as well:
  while \<open>execute\<close> awaits it, other calls may run on the same journal.
\<close>

section \<open>Table, requests and outcomes\<close>

record OperationRow =
  row_kind :: jstr
  row_fingerprint :: jstr
  row_state :: jstr
  row_result_json :: "jstr option"
  row_error_json :: "jstr option"
  row_version :: nat

type_synonym journal = "(jstr \<times> OperationRow) list"

record OperationRequest =
  req_operationId :: jstr
  req_kind :: jstr
  req_fingerprint :: jstr

record SerializedOperationError =
  err_name :: jstr
  err_message :: jstr

record OperationRecord =
  rec_operationId :: jstr
  rec_kind :: jstr
  rec_fingerprint :: jstr
  rec_state :: OperationState
  rec_version :: nat
  rec_result :: "json option"
  rec_error :: "SerializedOperationError option"

datatype PrepareOutcome =
    Execute
  | Replay OperationRecord
  | InProgress OperationState
  | ReconcileRequired

datatype OperationExecutionOutcome =
    Executed json
  | ReplayedCommitted json
  | ReplayedFailed SerializedOperationError
  | ReplayedRolledBack
  | StillInProgress OperationState
  | NeedsReconcile

definition conflict_error :: "jstr \<Rightarrow> thrown" where
  "conflict_error operationId =
     OperationConflictError (js ''operation id '' @ operationId @ js '' is already bound to different input'')"

section \<open>Statements\<close>

text \<open>\<open>INSERT\<close> into a table with a primary key, and \<open>UPDATE ... WHERE\<close> with its \<open>changes\<close> count.\<close>

definition sql_insert :: "jstr \<Rightarrow> OperationRow \<Rightarrow> journal \<Rightarrow> unit result \<times> journal" where
  "sql_insert i row j =
     (if map_of j i \<noteq> None
      then (Inl (PlainError (js ''SqliteError'') (js ''UNIQUE constraint failed: operation_journal.operation_id'')), j)
      else (Inr (), j @ [(i, row)]))"

definition sql_update ::
    "(jstr \<Rightarrow> OperationRow \<Rightarrow> bool) \<Rightarrow> (OperationRow \<Rightarrow> OperationRow) \<Rightarrow> journal \<Rightarrow> nat \<times> journal" where
  "sql_update cond set_row j =
     (length (filter (\<lambda>(i, row). cond i row) j),
      map (\<lambda>(i, row). (i, if cond i row then set_row row else row)) j)"

section \<open>Serialized errors\<close>

definition serializeError :: "thrown \<Rightarrow> SerializedOperationError" where
  "serializeError error =
     (if is_error error then \<lparr>err_name = error_name error, err_message = error_message error\<rparr>
      else \<lparr>err_name = js ''Error'', err_message = error_message error\<rparr>)"

definition error_json :: "SerializedOperationError \<Rightarrow> json" where
  "error_json e = JObj [(js ''name'', JStr (err_name e)), (js ''message'', JStr (err_message e))]"

text \<open>\<open>JSON.parse\<close>; the message of its \<open>SyntaxError\<close> is the engine's.\<close>

definition parse_json :: "jstr \<Rightarrow> json result" where
  "parse_json text =
     (case JSON_parse text of
        None \<Rightarrow> Inl (PlainError (js ''SyntaxError'') (js ''invalid JSON''))
      | Some v \<Rightarrow> Inr v)"

definition parseSerializedError :: "jstr \<Rightarrow> SerializedOperationError result" where
  "parseSerializedError encoded =
     bind_res (parse_json encoded) (\<lambda>value.
       case (json_get (js ''name'') value, json_get (js ''message'') value) of
         (Some (JStr n), Some (JStr m)) \<Rightarrow> Inr \<lparr>err_name = n, err_message = m\<rparr>
       | _ \<Rightarrow> Inl (JsError (js ''operation journal contains invalid serialized error data'')))"

section \<open>Reading a row\<close>

definition envelope_result :: "json \<Rightarrow> json" where
  "envelope_result e = (case json_get (js ''result'') e of Some v \<Rightarrow> v | None \<Rightarrow> JNull)"

definition envelope :: "json \<Rightarrow> json" where
  "envelope v = JObj [(js ''ok'', JBool True), (js ''result'', v)]"

fun optional_res :: "('a \<Rightarrow> 'b result) \<Rightarrow> 'a option \<Rightarrow> 'b option result" where
  "optional_res f None = Inr None"
| "optional_res f (Some a) = map_sum id Some (f a)"

definition journal_read :: "checker \<Rightarrow> journal \<Rightarrow> jstr \<Rightarrow> OperationRecord option result" where
  "journal_read chk j operationId =
     (case map_of j operationId of
        None \<Rightarrow> Inr None
      | Some row \<Rightarrow>
          bind_res (parseEntityId Operation operationId) (\<lambda>i.
          bind_res (parseOperationState chk (JStr (row_state row))) (\<lambda>st.
          bind_res (parseEntityVersion chk (JNum (JInt (int (row_version row))))) (\<lambda>n.
          bind_res (optional_res (\<lambda>text.
              bind_res (parse_json text) (\<lambda>v.
              bind_res (parseResultEnvelope chk (envelope v)) (\<lambda>e. Inr (envelope_result e))))
            (row_result_json row)) (\<lambda>res.
          bind_res (optional_res parseSerializedError (row_error_json row)) (\<lambda>err.
            Inr (Some \<lparr>rec_operationId = i, rec_kind = row_kind row, rec_fingerprint = row_fingerprint row,
                       rec_state = st, rec_version = n, rec_result = res, rec_error = err\<rparr>)))))))"

section \<open>Operations of the journal\<close>

definition prepare_work ::
    "checker \<Rightarrow> OperationRequest \<Rightarrow> journal \<Rightarrow> PrepareOutcome result \<times> journal" where
  "prepare_work chk request j =
     (case journal_read chk j (req_operationId request) of
        Inl e \<Rightarrow> (Inl e, j)
      | Inr (Some existing) \<Rightarrow>
          if rec_kind existing \<noteq> req_kind request \<or> rec_fingerprint existing \<noteq> req_fingerprint request
          then (Inl (conflict_error (req_operationId request)), j)
          else if rec_state existing \<in> {Committed, Failed, RolledBack} then (Inr (Replay existing), j)
          else if rec_state existing = UnknownNeedsReconcile then (Inr ReconcileRequired, j)
          else (Inr (InProgress (rec_state existing)), j)
      | Inr None \<Rightarrow>
          (case sql_insert (req_operationId request)
                  \<lparr>row_kind = req_kind request, row_fingerprint = req_fingerprint request,
                   row_state = js ''accepted'', row_result_json = None, row_error_json = None,
                   row_version = 0\<rparr> j of
             (Inl e, j') \<Rightarrow> (Inl e, j')
           | (Inr _, j') \<Rightarrow> (Inr Execute, j')))"

definition prepare :: "checker \<Rightarrow> OperationRequest \<Rightarrow> journal \<Rightarrow> PrepareOutcome result \<times> journal" where
  "prepare chk request = transaction (prepare_work chk request)"

definition markRunning :: "jstr \<Rightarrow> journal \<Rightarrow> unit result \<times> journal" where
  "markRunning operationId j =
     (let (changes, j') = sql_update
            (\<lambda>i row. i = operationId \<and> row_state row = js ''accepted'')
            (\<lambda>row. row\<lparr>row_state := js ''running'', row_version := row_version row + 1\<rparr>) j in
      if changes \<noteq> 1
      then (Inl (JsError (js ''operation '' @ operationId @ js '' is not in accepted state'')), j')
      else (Inr (), j'))"

definition reconcileInterrupted :: "journal \<Rightarrow> nat \<times> journal" where
  "reconcileInterrupted j =
     sql_update (\<lambda>i row. row_state row \<in> {js ''accepted'', js ''running''})
       (\<lambda>row. row\<lparr>row_state := js ''unknown-needs-reconcile'', row_version := row_version row + 1\<rparr>) j"

definition journal_get :: "checker \<Rightarrow> journal \<Rightarrow> jstr \<Rightarrow> OperationRecord option result" where
  "journal_get chk j operationId = journal_read chk j operationId"

definition markCommitted :: "jstr \<Rightarrow> json \<Rightarrow> journal \<Rightarrow> unit result \<times> journal" where
  "markCommitted operationId result j =
     (let encoded = JSON_stringify result;
          (changes, j') = sql_update
            (\<lambda>i row. i = operationId \<and> row_state row = js ''running'')
            (\<lambda>row. row\<lparr>row_state := js ''committed'', row_result_json := Some encoded,
                       row_error_json := None, row_version := row_version row + 1\<rparr>) j in
      if changes \<noteq> 1
      then (Inl (JsError (js ''operation '' @ operationId @ js '' could not be committed'')), j')
      else (Inr (), j'))"

definition markFailed :: "jstr \<Rightarrow> SerializedOperationError \<Rightarrow> journal \<Rightarrow> unit result \<times> journal" where
  "markFailed operationId error j =
     (let (changes, j') = sql_update
            (\<lambda>i row. i = operationId \<and> row_state row = js ''running'')
            (\<lambda>row. row\<lparr>row_state := js ''failed'', row_result_json := None,
                       row_error_json := Some (JSON_stringify (error_json error)),
                       row_version := row_version row + 1\<rparr>) j in
      if changes \<noteq> 1
      then (Inl (JsError (js ''operation '' @ operationId @ js '' could not be marked failed'')), j')
      else (Inr (), j'))"

text \<open>\<open>parseResultEnvelope({ ok: true, result }).result\<close>, with the envelope a new object in the heap.\<close>

definition fresh_ref :: "jsheap \<Rightarrow> nat" where
  "fresh_ref h = Suc (foldr (\<lambda>p m. max (fst p) m) h 0)"

definition wire_result :: "checker \<Rightarrow> jsheap \<Rightarrow> jsval \<Rightarrow> json result" where
  "wire_result chk h result =
     (let a = fresh_ref h;
          h' = (a, PlainObject [(js ''ok'', VBool True), (js ''result'', result)]) # h in
      bind_res (parseSchema chk ResultEnvelopeSchema h' (VRef a) (js ''result envelope''))
        (\<lambda>e. Inr (envelope_result e)))"

type_synonym effect = "journal \<Rightarrow> (jsheap \<times> jsval) result \<times> journal"

text \<open>The \<open>catch\<close> clause of \<open>execute\<close>.\<close>

definition record_failure ::
    "jstr \<Rightarrow> thrown \<Rightarrow> journal \<Rightarrow> OperationExecutionOutcome result \<times> journal" where
  "record_failure operationId error j =
     (case markFailed operationId (serializeError error) j of
        (Inl e, j') \<Rightarrow> (Inl e, j')
      | (Inr _, j') \<Rightarrow> (Inl error, j'))"

definition run_effect ::
    "checker \<Rightarrow> jstr \<Rightarrow> effect \<Rightarrow> journal \<Rightarrow> OperationExecutionOutcome result \<times> journal" where
  "run_effect chk operationId effect j =
     (case effect j of
        (Inl error, j1) \<Rightarrow> record_failure operationId error j1
      | (Inr (h, result), j1) \<Rightarrow>
          (case wire_result chk h result of
             Inl error \<Rightarrow> record_failure operationId error j1
           | Inr wireResult \<Rightarrow>
               (case markCommitted operationId wireResult j1 of
                  (Inl error, j2) \<Rightarrow> record_failure operationId error j2
                | (Inr _, j2) \<Rightarrow> (Inr (Executed wireResult), j2))))"

definition execute ::
    "checker \<Rightarrow> OperationRequest \<Rightarrow> effect \<Rightarrow> journal \<Rightarrow> OperationExecutionOutcome result \<times> journal" where
  "execute chk request effect j =
     (case prepare chk request j of
        (Inl e, j1) \<Rightarrow> (Inl e, j1)
      | (Inr (InProgress st), j1) \<Rightarrow> (Inr (StillInProgress st), j1)
      | (Inr ReconcileRequired, j1) \<Rightarrow> (Inr NeedsReconcile, j1)
      | (Inr (Replay record), j1) \<Rightarrow>
          (if rec_state record = Committed then
             (case rec_result record of
                None \<Rightarrow> (Inl (JsError (js ''committed operation '' @ req_operationId request @ js '' has no result'')), j1)
              | Some v \<Rightarrow> (Inr (ReplayedCommitted v), j1))
           else if rec_state record = Failed then
             (case rec_error record of
                None \<Rightarrow> (Inl (JsError (js ''failed operation '' @ req_operationId request @ js '' has no error'')), j1)
              | Some e \<Rightarrow> (Inr (ReplayedFailed e), j1))
           else (Inr ReplayedRolledBack, j1))
      | (Inr Execute, j1) \<Rightarrow>
          (case markRunning (req_operationId request) j1 of
             (Inl e, j2) \<Rightarrow> (Inl e, j2)
           | (Inr _, j2) \<Rightarrow> run_effect chk (req_operationId request) effect j2))"

end
