(* ===== verification/Traces.thy ===== *)
theory Traces
  imports Prelude
begin

text \<open>
  Runs of labelled step relations and the two arguments the components share over them: an invariant
  every step keeps, and a milestone that a run passes at most once.
\<close>

inductive run :: "('s \<Rightarrow> 'l \<Rightarrow> 's \<Rightarrow> bool) \<Rightarrow> 's \<Rightarrow> 'l list \<Rightarrow> 's \<Rightarrow> bool" for step where
  run_done: "run step s [] s"
| run_step: "step s l s' \<Longrightarrow> run step s' ls s'' \<Longrightarrow> run step s (l # ls) s''"

inductive_cases run_NilE: "run step s [] s'"
inductive_cases run_ConsE: "run step s (l # ls) s'"

lemma run_Nil_iff [simp]: "run step s [] s' \<longleftrightarrow> s' = s"
  by (auto elim: run_NilE intro: run_done)

lemma run_Cons_iff: "run step s (l # ls) s'' \<longleftrightarrow> (\<exists>s'. step s l s' \<and> run step s' ls s'')"
  by (auto elim: run_ConsE intro: run_step)

lemma run_append:
  "run step s (ls @ ms) s'' \<longleftrightarrow> (\<exists>s'. run step s ls s' \<and> run step s' ms s'')"
  by (induction ls arbitrary: s) (auto simp: run_Cons_iff)

lemma run_single: "step s l s' \<Longrightarrow> run step s [l] s'"
  by (simp add: run_Cons_iff)

text \<open>A property that each step whose label is admitted keeps.\<close>

locale step_invariant =
  fixes step :: "'s \<Rightarrow> 'l \<Rightarrow> 's \<Rightarrow> bool"
    and admitted :: "'l \<Rightarrow> bool"
    and inv :: "'s \<Rightarrow> bool"
  assumes step_inv: "step s l s' \<Longrightarrow> admitted l \<Longrightarrow> inv s \<Longrightarrow> inv s'"
begin

lemma run_inv: "run step s ls s' \<Longrightarrow> list_all admitted ls \<Longrightarrow> inv s \<Longrightarrow> inv s'"
  by (induction rule: run.induct) (auto intro: step_inv)

end

text \<open>A milestone: once passed it stays passed, and a step that hits it starts before it.\<close>

locale milestone =
  fixes step :: "'s \<Rightarrow> 'l \<Rightarrow> 's \<Rightarrow> bool"
    and inv :: "'s \<Rightarrow> bool"
    and hit :: "'l \<Rightarrow> bool"
    and passed :: "'s \<Rightarrow> bool"
  assumes keeps_inv: "step s l s' \<Longrightarrow> inv s \<Longrightarrow> inv s'"
    and stays_passed: "step s l s' \<Longrightarrow> inv s \<Longrightarrow> passed s \<Longrightarrow> passed s'"
    and hit_passes: "step s l s' \<Longrightarrow> inv s \<Longrightarrow> hit l \<Longrightarrow> \<not> passed s \<and> passed s'"
begin

lemma no_hit_after:
  "run step s ls s' \<Longrightarrow> inv s \<Longrightarrow> passed s \<Longrightarrow> filter hit ls = [] \<and> passed s'"
  by (induction rule: run.induct) (auto dest: keeps_inv stays_passed hit_passes)

lemma at_most_one_hit: "run step s ls s' \<Longrightarrow> inv s \<Longrightarrow> length (filter hit ls) \<le> 1"
proof (induction rule: run.induct)
  case (run_step s l s' ls s'')
  show ?case
  proof (cases "hit l")
    case True
    with run_step have "filter hit ls = []"
      using no_hit_after keeps_inv hit_passes by blast
    with True show ?thesis by simp
  next
    case False
    with run_step show ?thesis using keeps_inv by simp
  qed
qed simp

end

end
