(* ===== verification/Journal.thy ===== *)
theory Journal
  imports Operations Traces
begin

text \<open>
  The journal's contract. \<open>jspec\<close> is what a client may think of: a map from operation ids to the input
  they are bound to and a phase. Every operation of the \<open>Operations\<close> theory is shown to do on the
  table what its counterpart does on the map; runs of the journal then give the at-most-once and replay
  guarantees of \<open>execute\<close>.
\<close>

section \<open>The abstract journal\<close>

datatype phase =
    PAccepted
  | PRunning
  | PCommitted json
  | PFailed SerializedOperationError
  | PUnknown nat                       \<comment> \<open>the version it was interrupted with\<close>

record jentry =
  ent_kind :: jstr
  ent_fingerprint :: jstr
  ent_phase :: phase

type_synonym jspec = "jstr \<rightharpoonup> jentry"

fun phase_state :: "phase \<Rightarrow> OperationState" where
  "phase_state PAccepted = Accepted"
| "phase_state PRunning = Running"
| "phase_state (PCommitted _) = Committed"
| "phase_state (PFailed _) = Failed"
| "phase_state (PUnknown _) = UnknownNeedsReconcile"

fun phase_version :: "phase \<Rightarrow> nat" where
  "phase_version PAccepted = 0"
| "phase_version PRunning = 1"
| "phase_version (PCommitted _) = 2"
| "phase_version (PFailed _) = 2"
| "phase_version (PUnknown n) = n + 1"

fun phase_result :: "phase \<Rightarrow> json option" where
  "phase_result (PCommitted v) = Some v"
| "phase_result _ = None"

fun phase_error :: "phase \<Rightarrow> SerializedOperationError option" where
  "phase_error (PFailed e) = Some e"
| "phase_error _ = None"

definition phase_wf :: "phase \<Rightarrow> bool" where
  "phase_wf p = (case p of PCommitted v \<Rightarrow> wf_json v | PUnknown n \<Rightarrow> n \<le> 1 | _ \<Rightarrow> True)"

text \<open>The row and the record an entry stands for.\<close>

definition row_of :: "jentry \<Rightarrow> OperationRow" where
  "row_of e = \<lparr>row_kind = ent_kind e, row_fingerprint = ent_fingerprint e,
     row_state = operation_state_text (phase_state (ent_phase e)),
     row_result_json = map_option JSON_stringify (phase_result (ent_phase e)),
     row_error_json = map_option (\<lambda>e. JSON_stringify (error_json e)) (phase_error (ent_phase e)),
     row_version = phase_version (ent_phase e)\<rparr>"

definition record_of :: "jstr \<Rightarrow> jentry \<Rightarrow> OperationRecord" where
  "record_of i e = \<lparr>rec_operationId = i, rec_kind = ent_kind e, rec_fingerprint = ent_fingerprint e,
     rec_state = phase_state (ent_phase e), rec_version = phase_version (ent_phase e),
     rec_result = phase_result (ent_phase e), rec_error = phase_error (ent_phase e)\<rparr>"

definition journal_rep :: "journal \<Rightarrow> jspec \<Rightarrow> bool" where
  "journal_rep j S \<longleftrightarrow>
     distinct (map fst j) \<and> map_of j = (\<lambda>i. map_option row_of (S i))
     \<and> (\<forall>i e. S i = Some e \<longrightarrow> i \<noteq> [] \<and> phase_wf (ent_phase e))"

text \<open>The table is one that the journal's own operations can have written.\<close>

definition journal_ok :: "journal \<Rightarrow> bool" where
  "journal_ok j \<longleftrightarrow> (\<exists>S. journal_rep j S)"

lemma journal_rep_Nil: "journal_rep [] Map.empty"
  by (simp add: journal_rep_def)

lemma journal_repD:
  assumes "journal_rep j S"
  shows "distinct (map fst j)" "map_of j i = map_option row_of (S i)"
    and "S i = Some e \<Longrightarrow> i \<noteq> []" "S i = Some e \<Longrightarrow> phase_wf (ent_phase e)"
  using assms by (auto simp: journal_rep_def)

section \<open>Statements on a table with distinct ids\<close>

lemma update_keys [simp]: "map fst (snd (sql_update c f j)) = map fst j"
  by (induction j) (auto simp: sql_update_def)

lemma map_of_update:
  "map_of (snd (sql_update c f j)) i = map_option (\<lambda>row. if c i row then f row else row) (map_of j i)"
  by (induction j) (auto simp: sql_update_def)

lemma update_none: "fst (sql_update c f j) = 0 \<Longrightarrow> snd (sql_update c f j) = j"
  by (induction j) (auto simp: sql_update_def split: if_splits)

lemma update_key_changes:
  assumes "distinct (map fst j)"
  shows "fst (sql_update (\<lambda>i row. i = k \<and> P row) f j) =
     (case map_of j k of Some row \<Rightarrow> if P row then 1 else 0 | None \<Rightarrow> 0)"
  using assms
proof (induction j)
  case Nil
  then show ?case by (simp add: sql_update_def)
next
  case (Cons p j)
  obtain i row where p: "p = (i, row)" by (cases p)
  have "i = k \<Longrightarrow> filter (\<lambda>(i, row). i = k \<and> P row) j = []"
    using Cons.prems p by (force simp: filter_empty_conv)
  with Cons p show ?case by (auto simp: sql_update_def)
qed

text \<open>An update of one row whose state is \<open>st\<close>.\<close>

lemma update_refines:
  assumes rep: "journal_rep j S" and u: "sql_update (\<lambda>i row. i = k \<and> row_state row = operation_state_text st) f j = (n, j')"
  shows "(\<exists>e. S k = Some e \<and> phase_state (ent_phase e) = st) \<and> n = 1
           \<and> distinct (map fst j') \<and> map_of j' = (map_of j)(k \<mapsto> f (row_of (the (S k))))
       \<or> \<not> (\<exists>e. S k = Some e \<and> phase_state (ent_phase e) = st) \<and> n = 0 \<and> j' = j"
proof (cases "\<exists>e. S k = Some e \<and> phase_state (ent_phase e) = st")
  case True
  then obtain e where e: "S k = Some e" "phase_state (ent_phase e) = st" by blast
  then have "map_of j k = Some (row_of e)" "row_state (row_of e) = operation_state_text st"
    using journal_repD(2) [OF rep] by (simp_all add: row_of_def)
  moreover have "n = fst (sql_update (\<lambda>i row. i = k \<and> row_state row = operation_state_text st) f j)"
      "j' = snd (sql_update (\<lambda>i row. i = k \<and> row_state row = operation_state_text st) f j)"
    using u by simp_all
  ultimately show ?thesis using True e update_key_changes [OF journal_repD(1) [OF rep]]
    by (auto simp: map_of_update fun_eq_iff journal_repD(1) [OF rep] option.map_ident)
next
  case False
  have n: "n = fst (sql_update (\<lambda>i row. i = k \<and> row_state row = operation_state_text st) f j)"
      "j' = snd (sql_update (\<lambda>i row. i = k \<and> row_state row = operation_state_text st) f j)"
    using u by simp_all
  have "n = 0" using False journal_repD(2) [OF rep, of k]
    unfolding n update_key_changes [OF journal_repD(1) [OF rep]]
    by (auto simp: row_of_def split: option.splits)
  with n update_none show ?thesis using False by metis
qed

lemma journal_rep_update:
  assumes "journal_rep j S" "distinct (map fst j')" "map_of j' = (map_of j)(k \<mapsto> row_of e)"
    and "k \<noteq> []" "phase_wf (ent_phase e)"
  shows "journal_rep j' (S(k \<mapsto> e))"
  using assms by (auto simp: journal_rep_def fun_eq_iff)

section \<open>Refinement, operation by operation\<close>

definition spec_outcome :: "jstr \<Rightarrow> jentry \<Rightarrow> PrepareOutcome" where
  "spec_outcome i e =
     (case ent_phase e of
        PAccepted \<Rightarrow> InProgress Accepted
      | PRunning \<Rightarrow> InProgress Running
      | PUnknown _ \<Rightarrow> ReconcileRequired
      | _ \<Rightarrow> Replay (record_of i e))"

definition spec_prepare :: "OperationRequest \<Rightarrow> jspec \<Rightarrow> PrepareOutcome result \<times> jspec" where
  "spec_prepare r S =
     (case S (req_operationId r) of
        None \<Rightarrow> (Inr Execute, S(req_operationId r \<mapsto>
            \<lparr>ent_kind = req_kind r, ent_fingerprint = req_fingerprint r, ent_phase = PAccepted\<rparr>))
      | Some e \<Rightarrow>
          (if ent_kind e = req_kind r \<and> ent_fingerprint e = req_fingerprint r
           then Inr (spec_outcome (req_operationId r) e) else Inl (conflict_error (req_operationId r)), S))"

text \<open>The transition of an entry in state \<open>st\<close>; \<open>None\<close> when the entry is not there or not in that state.\<close>

definition spec_move :: "OperationState \<Rightarrow> phase \<Rightarrow> jstr \<Rightarrow> jspec \<Rightarrow> jspec option" where
  "spec_move st p i S =
     (case S i of
        Some e \<Rightarrow> if phase_state (ent_phase e) = st then Some (S(i \<mapsto> e\<lparr>ent_phase := p\<rparr>)) else None
      | None \<Rightarrow> None)"

definition spec_interrupt :: "jentry \<Rightarrow> jentry" where
  "spec_interrupt e =
     (case ent_phase e of
        PAccepted \<Rightarrow> e\<lparr>ent_phase := PUnknown 0\<rparr>
      | PRunning \<Rightarrow> e\<lparr>ent_phase := PUnknown 1\<rparr>
      | _ \<Rightarrow> e)"

definition spec_reconcile :: "jspec \<Rightarrow> jspec" where
  "spec_reconcile S = (\<lambda>i. map_option spec_interrupt (S i))"

text \<open>Decoding what was encoded.\<close>

lemma wf_error_json: "wf_json (error_json e)"
  by (simp add: error_json_def)

lemma parseSerializedError_json: "parseSerializedError (JSON_stringify (error_json e)) = Inr e"
  by (simp add: parseSerializedError_def parse_json_def JSON_parse_stringify [OF wf_error_json])
    (simp add: error_json_def)

lemma parse_stored_result:
  assumes "checks_schemas str_len chk" "wf_json v"
  shows "bind_res (parse_json (JSON_stringify v)) (\<lambda>v.
     bind_res (parseResultEnvelope chk (envelope v)) (\<lambda>e. Inr (envelope_result e))) = Inr v"
  using parseResultEnvelope_ok [OF assms(1)]
  by (simp add: parse_json_def JSON_parse_stringify [OF assms(2)] envelope_def envelope_result_def)

lemma journal_read_rep:
  assumes "checks_schemas str_len chk" "journal_rep j S"
  shows "journal_read chk j i = Inr (map_option (record_of i) (S i))"
proof (cases "S i")
  case None
  then show ?thesis using journal_repD(2) [OF assms(2), of i] by (simp add: journal_read_def)
next
  case (Some e)
  note wf = journal_repD(3,4) [OF assms(2) Some]
  have "map_of j i = Some (row_of e)" using Some journal_repD(2) [OF assms(2), of i] by simp
  moreover have "parseEntityId Operation i = Inr i" using wf(1) by (simp add: parseEntityId_def)
  moreover have "parseOperationState chk (JStr (row_state (row_of e))) = Inr (phase_state (ent_phase e))"
    unfolding parseOperationState_iff [OF assms(1)] by (simp add: row_of_def)
  moreover have "optional_res (\<lambda>text. bind_res (parse_json text) (\<lambda>v.
       bind_res (parseResultEnvelope chk (envelope v)) (\<lambda>e. Inr (envelope_result e))))
         (row_result_json (row_of e)) = Inr (phase_result (ent_phase e))"
    using wf(2) parse_stored_result [OF assms(1)]
    by (cases "ent_phase e") (simp_all add: row_of_def phase_wf_def)
  moreover have "optional_res parseSerializedError (row_error_json (row_of e)) = Inr (phase_error (ent_phase e))"
    by (cases "ent_phase e") (simp_all add: row_of_def parseSerializedError_json)
  ultimately show ?thesis
    using Some parseEntityVersion_nat [OF assms(1)]
    by (simp add: journal_read_def) (simp add: row_of_def record_of_def)
qed

lemma prepare_refines:
  assumes chk: "checks_schemas str_len chk" and rep: "journal_rep j S" and ne: "req_operationId r \<noteq> []"
    and p: "prepare chk r j = (x, j')"
  shows "\<exists>S'. spec_prepare r S = (x, S') \<and> journal_rep j' S'"
proof (cases "S (req_operationId r)")
  case None
  let ?i = "req_operationId r"
  let ?e = "\<lparr>ent_kind = req_kind r, ent_fingerprint = req_fingerprint r, ent_phase = PAccepted\<rparr>"
  from None have m: "map_of j ?i = None" using journal_repD(2) [OF rep, of ?i] by simp
  with p have x: "x = Inr Execute" and j': "j' = j @ [(?i, row_of ?e)]"
    by (simp_all add: prepare_def prepare_work_def transaction_def journal_read_rep [OF chk rep] None
        sql_insert_def row_of_def)
  have "?i \<notin> fst ` set j" using m by (simp add: map_of_eq_None_iff)
  then have "distinct (map fst j')" "map_of j' = (map_of j)(?i \<mapsto> row_of ?e)"
    using journal_repD(1) [OF rep] m by (auto simp: j' map_add_def fun_eq_iff split: option.splits)
  with rep ne have "journal_rep j' (S(?i \<mapsto> ?e))"
    by (intro journal_rep_update) (simp_all add: phase_wf_def)
  with x None show ?thesis by (simp add: spec_prepare_def)
next
  case (Some e)
  with p show ?thesis using rep
    by (cases "ent_phase e")
      (auto simp: prepare_def prepare_work_def transaction_def journal_read_rep [OF chk rep]
        spec_prepare_def spec_outcome_def record_of_def split: if_splits)
qed

text \<open>The three single-row updates follow one pattern.\<close>

lemma move_refines:
  assumes rep: "journal_rep j S"
    and u: "sql_update (\<lambda>i row. i = k \<and> row_state row = operation_state_text st) f j = (n, j')"
    and f: "\<And>e. phase_state (ent_phase e) = st \<Longrightarrow> f (row_of e) = row_of (e\<lparr>ent_phase := p\<rparr>)"
    and p: "phase_wf p"
  shows "case spec_move st p k S of Some S' \<Rightarrow> n = 1 \<and> journal_rep j' S' | None \<Rightarrow> n = 0 \<and> j' = j"
proof -
  consider (moves) e where "S k = Some e" "phase_state (ent_phase e) = st" "n = 1"
      "distinct (map fst j')" "map_of j' = (map_of j)(k \<mapsto> f (row_of e))"
    | (stays) "\<not> (\<exists>e. S k = Some e \<and> phase_state (ent_phase e) = st)" "n = 0" "j' = j"
    using update_refines [OF rep u] by fastforce
  then show ?thesis
  proof cases
    case moves
    then have "journal_rep j' (S(k \<mapsto> e\<lparr>ent_phase := p\<rparr>))"
      using rep p journal_repD(3) [OF rep moves(1)] by (intro journal_rep_update) (simp_all add: f)
    with moves show ?thesis by (simp add: spec_move_def)
  next
    case stays
    then show ?thesis by (auto simp: spec_move_def split: option.splits if_splits)
  qed
qed

lemma markRunning_refines:
  assumes "journal_rep j S" "markRunning k j = (x, j')"
  shows "case spec_move Accepted PRunning k S of
           Some S' \<Rightarrow> x = Inr () \<and> journal_rep j' S' | None \<Rightarrow> (\<exists>e. x = Inl e) \<and> j' = j"
proof -
  let ?f = "\<lambda>row. row\<lparr>row_state := js ''running'', row_version := row_version row + 1\<rparr>"
  obtain n j1 where u: "sql_update (\<lambda>i row. i = k \<and> row_state row = operation_state_text Accepted) ?f j = (n, j1)"
    by fastforce
  have "?f (row_of e) = row_of (e\<lparr>ent_phase := PRunning\<rparr>)" if "phase_state (ent_phase e) = Accepted" for e
    using that by (cases "ent_phase e") (simp_all add: row_of_def)
  from move_refines [OF assms(1) u this] u assms(2) show ?thesis
    by (auto simp: markRunning_def phase_wf_def split: option.splits)
qed

lemma markCommitted_refines:
  assumes "journal_rep j S" "markCommitted k v j = (x, j')" "wf_json v"
  shows "case spec_move Running (PCommitted v) k S of
           Some S' \<Rightarrow> x = Inr () \<and> journal_rep j' S' | None \<Rightarrow> (\<exists>e. x = Inl e) \<and> j' = j"
proof -
  let ?f = "\<lambda>row. row\<lparr>row_state := js ''committed'', row_result_json := Some (JSON_stringify v),
    row_error_json := None, row_version := row_version row + 1\<rparr>"
  obtain n j1 where u: "sql_update (\<lambda>i row. i = k \<and> row_state row = operation_state_text Running) ?f j = (n, j1)"
    by fastforce
  have "?f (row_of e) = row_of (e\<lparr>ent_phase := PCommitted v\<rparr>)" if "phase_state (ent_phase e) = Running" for e
    using that by (cases "ent_phase e") (simp_all add: row_of_def)
  from move_refines [OF assms(1) u this] u assms(2,3) show ?thesis
    by (auto simp: markCommitted_def phase_wf_def split: option.splits)
qed

lemma markFailed_refines:
  assumes "journal_rep j S" "markFailed k err j = (x, j')"
  shows "case spec_move Running (PFailed err) k S of
           Some S' \<Rightarrow> x = Inr () \<and> journal_rep j' S' | None \<Rightarrow> (\<exists>e. x = Inl e) \<and> j' = j"
proof -
  let ?f = "\<lambda>row. row\<lparr>row_state := js ''failed'', row_result_json := None,
    row_error_json := Some (JSON_stringify (error_json err)), row_version := row_version row + 1\<rparr>"
  obtain n j1 where u: "sql_update (\<lambda>i row. i = k \<and> row_state row = operation_state_text Running) ?f j = (n, j1)"
    by fastforce
  have "?f (row_of e) = row_of (e\<lparr>ent_phase := PFailed err\<rparr>)" if "phase_state (ent_phase e) = Running" for e
    using that by (cases "ent_phase e") (simp_all add: row_of_def)
  from move_refines [OF assms(1) u this] u assms(2) show ?thesis
    by (auto simp: markFailed_def phase_wf_def split: option.splits)
qed

lemma reconcile_refines:
  assumes rep: "journal_rep j S" and r: "reconcileInterrupted j = (n, j')"
  shows "journal_rep j' (spec_reconcile S)"
proof -
  have j': "j' = snd (reconcileInterrupted j)" using r by simp
  have wf: "phase_wf (ent_phase e) \<Longrightarrow> phase_wf (ent_phase (spec_interrupt e))" for e
    by (cases "ent_phase e") (simp_all add: spec_interrupt_def phase_wf_def)
  have "distinct (map fst j')" using journal_repD(1) [OF rep] by (simp add: j' reconcileInterrupted_def)
  moreover have "map_of j' i = map_option row_of (spec_reconcile S i)" for i
    by (cases "S i"; cases "ent_phase (the (S i))")
      (simp_all add: j' reconcileInterrupted_def map_of_update journal_repD(2) [OF rep] spec_reconcile_def
        row_of_def spec_interrupt_def)
  moreover have "\<forall>i e. spec_reconcile S i = Some e \<longrightarrow> i \<noteq> [] \<and> phase_wf (ent_phase e)"
    using wf journal_repD(3,4) [OF rep] by (auto simp: spec_reconcile_def)
  ultimately show ?thesis by (auto simp: journal_rep_def fun_eq_iff)
qed

section \<open>Runs of the journal\<close>

datatype journal_event =
    Prepared OperationRequest PrepareOutcome
  | Started jstr
  | Reconciled nat
  | CommittedEv jstr json
  | FailedEv jstr SerializedOperationError
  | Threw thrown

inductive journal_step :: "checker \<Rightarrow> journal \<Rightarrow> journal_event \<Rightarrow> journal \<Rightarrow> bool" for chk where
  "req_operationId r \<noteq> [] \<Longrightarrow> prepare chk r j = (Inr out, j') \<Longrightarrow> journal_step chk j (Prepared r out) j'"
| "markRunning i j = (Inr (), j') \<Longrightarrow> journal_step chk j (Started i) j'"
| "reconcileInterrupted j = (n, j') \<Longrightarrow> journal_step chk j (Reconciled n) j'"
| "wf_json v \<Longrightarrow> markCommitted i v j = (Inr (), j') \<Longrightarrow> journal_step chk j (CommittedEv i v) j'"
| "markFailed i err j = (Inr (), j') \<Longrightarrow> journal_step chk j (FailedEv i err) j'"
| "req_operationId r \<noteq> [] \<Longrightarrow> prepare chk r j = (Inl e, j') \<Longrightarrow> journal_step chk j (Threw e) j'"
| "markRunning i j = (Inl e, j') \<Longrightarrow> journal_step chk j (Threw e) j'"
| "wf_json v \<Longrightarrow> markCommitted i v j = (Inl e, j') \<Longrightarrow> journal_step chk j (Threw e) j'"
| "markFailed i err j = (Inl e, j') \<Longrightarrow> journal_step chk j (Threw e) j'"

text \<open>What an event does to the map.\<close>

fun spec_event :: "journal_event \<Rightarrow> jspec \<Rightarrow> jspec option" where
  "spec_event (Prepared r out) S =
     (case spec_prepare r S of (Inr out', S') \<Rightarrow> if out' = out then Some S' else None | _ \<Rightarrow> None)"
| "spec_event (Started i) S = spec_move Accepted PRunning i S"
| "spec_event (Reconciled n) S = Some (spec_reconcile S)"
| "spec_event (CommittedEv i v) S = spec_move Running (PCommitted v) i S"
| "spec_event (FailedEv i err) S = spec_move Running (PFailed err) i S"
| "spec_event (Threw e) S = Some S"

lemma spec_prepare_Inl: "spec_prepare r S = (Inl e, S') \<Longrightarrow> S' = S"
  by (auto simp: spec_prepare_def split: option.splits if_splits)

text \<open>The table simulates the map.\<close>

lemma journal_step_refines:
  assumes chk: "checks_schemas str_len chk" and "journal_step chk j ev j'" "journal_rep j S"
  shows "\<exists>S'. spec_event ev S = Some S' \<and> journal_rep j' S'"
  using assms(2,3)
proof cases
  case (1 r out)
  with prepare_refines [OF chk assms(3)] show ?thesis by fastforce
next
  case (2 i)
  with markRunning_refines [OF assms(3)] show ?thesis by (fastforce split: option.splits)
next
  case (3 n)
  with reconcile_refines [OF assms(3)] show ?thesis by fastforce
next
  case (4 v i)
  with markCommitted_refines [OF assms(3)] show ?thesis by (fastforce split: option.splits)
next
  case (5 i err)
  with markFailed_refines [OF assms(3)] show ?thesis by (fastforce split: option.splits)
next
  case (6 r e)
  with prepare_refines [OF chk assms(3)] spec_prepare_Inl show ?thesis by fastforce
next
  case (7 i e)
  with markRunning_refines [OF assms(3)] assms(3) show ?thesis by (fastforce split: option.splits)
next
  case (8 v i e)
  with markCommitted_refines [OF assms(3)] assms(3) show ?thesis by (fastforce split: option.splits)
next
  case (9 i err e)
  with markFailed_refines [OF assms(3)] assms(3) show ?thesis by (fastforce split: option.splits)
qed

text \<open>Along a step an entry keeps its input and its phase only moves forward.\<close>

definition advances :: "phase \<Rightarrow> phase \<Rightarrow> bool" where
  "advances p q \<longleftrightarrow> q = p
     \<or> p = PAccepted \<and> q \<in> {PRunning, PUnknown 0}
     \<or> p = PRunning \<and> (q = PUnknown 1 \<or> (\<exists>v. q = PCommitted v) \<or> (\<exists>e. q = PFailed e))"

definition bound_alike :: "jentry \<Rightarrow> jentry \<Rightarrow> bool" where
  "bound_alike e e' \<longleftrightarrow> ent_kind e' = ent_kind e \<and> ent_fingerprint e' = ent_fingerprint e"

definition spec_step :: "jspec \<Rightarrow> journal_event \<Rightarrow> jspec \<Rightarrow> bool" where
  "spec_step S ev S' \<longleftrightarrow> spec_event ev S = Some S'"

lemma spec_move_Some:
  "spec_move st p k S = Some S' \<longleftrightarrow>
   (\<exists>e. S k = Some e \<and> phase_state (ent_phase e) = st \<and> S' = S(k \<mapsto> e\<lparr>ent_phase := p\<rparr>))"
  by (auto simp: spec_move_def split: option.splits if_splits)

lemma phase_state_iff:
  "phase_state p = Accepted \<longleftrightarrow> p = PAccepted" "phase_state p = Running \<longleftrightarrow> p = PRunning"
  by (cases p; simp)+

lemma interrupt_advances:
  "advances (ent_phase e) (ent_phase (spec_interrupt e)) \<and> bound_alike e (spec_interrupt e)"
  by (cases "ent_phase e") (auto simp: advances_def spec_interrupt_def bound_alike_def)

lemma spec_step_advances:
  assumes "spec_step S ev S'" "S i = Some e"
  shows "\<exists>e'. S' i = Some e' \<and> advances (ent_phase e) (ent_phase e') \<and> bound_alike e e'"
proof (cases ev)
  case (Prepared r out)
  with assms show ?thesis
    by (auto simp: spec_step_def spec_prepare_def advances_def bound_alike_def
        split: sum.splits option.splits if_splits)
next
  case (Reconciled n)
  with assms interrupt_advances [of e] show ?thesis by (auto simp: spec_step_def spec_reconcile_def)
qed (use assms in \<open>auto simp: spec_step_def spec_move_Some phase_state_iff advances_def bound_alike_def\<close>)

lemma journal_run_refines:
  assumes chk: "checks_schemas str_len chk" and "run (journal_step chk) j tr j'" "journal_rep j S"
  shows "\<exists>S'. run spec_step S tr S' \<and> journal_rep j' S'"
  using assms(2,3)
proof (induction arbitrary: S rule: run.induct)
  case (run_step j ev j1 tr j')
  from journal_step_refines [OF chk run_step.hyps(1) run_step.prems] obtain S1
    where "spec_step S ev S1" "journal_rep j1 S1" unfolding spec_step_def by blast
  with run_step.IH show ?case by (fastforce simp: run_Cons_iff)
qed auto

text \<open>The two milestones of an operation id: being bound, and being started.\<close>

fun binds :: "jstr \<Rightarrow> journal_event \<Rightarrow> bool" where
  "binds i (Prepared r Execute) \<longleftrightarrow> req_operationId r = i"
| "binds i _ \<longleftrightarrow> False"

interpretation binding: milestone spec_step "\<lambda>_. True" "binds i" "\<lambda>S. S i \<noteq> None" for i
proof
  fix S ev S'
  assume step: "spec_step S ev S'"
  then show "S i \<noteq> None \<Longrightarrow> S' i \<noteq> None" using spec_step_advances by fastforce
  assume "binds i ev"
  then obtain r where "ev = Prepared r Execute" "req_operationId r = i"
    by (cases "(i, ev)" rule: binds.cases) auto
  with step show "\<not> S i \<noteq> None \<and> S' i \<noteq> None"
    by (auto simp: spec_step_def spec_prepare_def spec_outcome_def
        split: option.splits if_splits phase.splits)
qed simp

interpretation starting: milestone spec_step "\<lambda>_. True" "\<lambda>ev. ev = Started i"
    "\<lambda>S. \<exists>e. S i = Some e \<and> ent_phase e \<noteq> PAccepted" for i
proof
  fix S ev S'
  assume step: "spec_step S ev S'"
  then show "\<exists>e. S i = Some e \<and> ent_phase e \<noteq> PAccepted \<Longrightarrow> \<exists>e. S' i = Some e \<and> ent_phase e \<noteq> PAccepted"
    using spec_step_advances by (fastforce simp: advances_def)
  assume "ev = Started i"
  with step show "\<not> (\<exists>e. S i = Some e \<and> ent_phase e \<noteq> PAccepted) \<and> (\<exists>e. S' i = Some e \<and> ent_phase e \<noteq> PAccepted)"
    by (auto simp: spec_step_def spec_move_Some phase_state_iff)
qed simp

text \<open>What a run keeps of one entry: nothing moves a settled one; only the operation's own commit or
  failure, or a reconciliation, moves a running one.\<close>

definition settled :: "phase \<Rightarrow> bool" where
  "settled p \<longleftrightarrow> p \<noteq> PAccepted \<and> p \<noteq> PRunning"

fun settles :: "jstr \<Rightarrow> journal_event \<Rightarrow> bool" where
  "settles i (CommittedEv k _) \<longleftrightarrow> k = i"
| "settles i (FailedEv k _) \<longleftrightarrow> k = i"
| "settles i _ \<longleftrightarrow> False"

fun reconciles :: "journal_event \<Rightarrow> bool" where
  "reconciles (Reconciled _) \<longleftrightarrow> True"
| "reconciles _ \<longleftrightarrow> False"

interpretation settled: step_invariant spec_step "\<lambda>_. True" "\<lambda>S. S i = Some e \<and> settled (ent_phase e)" for i e
proof
  fix S ev S'
  assume "spec_step S ev S'" "S i = Some e \<and> settled (ent_phase e)"
  then show "S' i = Some e \<and> settled (ent_phase e)"
    using spec_step_advances [of S ev S' i e]
    by (auto simp: advances_def settled_def bound_alike_def intro: jentry.equality)
qed

interpretation unsettled: step_invariant spec_step "\<lambda>ev. \<not> settles i ev"
    "\<lambda>S. ent_phase e = PRunning \<and> (S i = Some e \<or> S i = Some (e\<lparr>ent_phase := PUnknown 1\<rparr>))" for i e
proof
  fix S ev S'
  assume *: "spec_step S ev S'" "\<not> settles i ev"
    "ent_phase e = PRunning \<and> (S i = Some e \<or> S i = Some (e\<lparr>ent_phase := PUnknown 1\<rparr>))"
  then show "ent_phase e = PRunning \<and> (S' i = Some e \<or> S' i = Some (e\<lparr>ent_phase := PUnknown 1\<rparr>))"
    by (cases ev) (auto simp: spec_step_def spec_prepare_def spec_move_Some spec_reconcile_def
        spec_interrupt_def phase_state_iff split: sum.splits option.splits if_splits)
qed

interpretation undisturbed: step_invariant spec_step "\<lambda>ev. \<not> settles i ev \<and> \<not> reconciles ev"
    "\<lambda>S. ent_phase e = PRunning \<and> S i = Some e" for i e
proof
  fix S ev S'
  assume *: "spec_step S ev S'" "\<not> settles i ev \<and> \<not> reconciles ev" "ent_phase e = PRunning \<and> S i = Some e"
  then show "ent_phase e = PRunning \<and> S' i = Some e"
    by (cases ev) (auto simp: spec_step_def spec_prepare_def spec_move_Some phase_state_iff
        split: sum.splits option.splits if_splits)
qed

lemma run_rebinds:
  "run spec_step S tr S' \<Longrightarrow> S i = Some e \<Longrightarrow> \<exists>e'. S' i = Some e' \<and> bound_alike e e'"
proof (induction arbitrary: e rule: run.induct)
  case (run_step S ev S1 tr S')
  then show ?case using spec_step_advances [OF run_step.hyps(1) run_step.prems]
    by (fastforce simp: bound_alike_def)
qed (simp add: bound_alike_def)

end
