(* ===== verification/ExecuteOnce.thy ===== *)
theory ExecuteOnce
  imports Journal
begin

text \<open>
  \<open>OperationJournal.execute\<close> on the journal of \<open>Operations\<close>: what it does on an id that is already bound, what
  one execution leaves behind, and the guarantees over any later run of the journal.
\<close>

section \<open>Results on the wire\<close>

lemma fresh_ref_unbound: "map_of h (fresh_ref h) = None"
proof -
  have "fst p \<le> foldr (\<lambda>p m. max (fst p) m) h 0" if "p \<in> set h" for p
    using that by (induction h) auto
  then show ?thesis by (fastforce simp: fresh_ref_def map_of_eq_None_iff)
qed

lemma unfolds_extend:
  "unfolds h v w \<Longrightarrow> map_of h a = None \<Longrightarrow> unfolds ((a, ob) # h) v w"
proof (induction rule: unfolds.induct)
  case (5 b items vs)
  then have "map_of ((a, ob) # h) b = Some (ArrayObject items)" by auto
  moreover have "list_all2 (unfolds_item ((a, ob) # h)) items vs"
    using 5 by (auto elim: list_all2_mono)
  ultimately show ?case by (rule unfolds.intros)
next
  case (6 b props kvs)
  then have "map_of ((a, ob) # h) b = Some (PlainObject props)" by auto
  moreover have "list_all2 (\<lambda>p q. fst p = fst q \<and> unfolds ((a, ob) # h) (snd p) (snd q)) props kvs"
    using 6 by (auto elim: list_all2_mono)
  ultimately show ?case by (rule unfolds.intros)
qed (auto intro: unfolds.intros)

lemma unfolds_restrict:
  assumes "unfolds ((a, ob) # h) v w" "unfolds ((a, ob) # h) (VRef a) root" "size w < size root"
  shows "unfolds h v w"
  using assms(1,3)
proof (induction rule: unfolds.induct)
  case (5 b items vs)
  have "unfolds ((a, ob) # h) (VRef b) (JArr vs)"
    using 5 by (intro unfolds.intros) (auto elim: list_all2_mono)
  with 5 unfolds_functional [OF assms(2)] have "b \<noteq> a" by blast
  with 5 have "map_of h b = Some (ArrayObject items)" by auto
  moreover have "list_all2 (unfolds_item h) items vs"
    unfolding list_all2_conv_all_nth
  proof (intro conjI allI impI)
    show "length items = length vs" using 5 by (auto dest: list_all2_lengthD)
    fix i assume "i < length items"
    from this have "size (vs ! i) < size (JArr vs)"
      using 5 by (intro size_elem nth_mem) (auto dest: list_all2_lengthD)
    moreover note list_all2_nthD [OF "5.IH" \<open>i < length items\<close>]
    ultimately show "unfolds_item h (items ! i) (vs ! i)" using "5.prems" by auto
  qed
  ultimately show ?case by (rule unfolds.intros)
next
  case (6 b props kvs)
  have "unfolds ((a, ob) # h) (VRef b) (JObj kvs)"
    using 6 by (intro unfolds.intros) (auto elim: list_all2_mono)
  with 6 unfolds_functional [OF assms(2)] have "b \<noteq> a" by blast
  with 6 have "map_of h b = Some (PlainObject props)" by auto
  moreover have "list_all2 (\<lambda>p q. fst p = fst q \<and> unfolds h (snd p) (snd q)) props kvs"
    unfolding list_all2_conv_all_nth
  proof (intro conjI allI impI)
    show "length props = length kvs" using 6 by (auto dest: list_all2_lengthD)
    fix i assume i: "i < length props"
    then have "size (snd (kvs ! i)) < size (JObj kvs)"
      using 6 by (intro size_member nth_mem) (auto dest: list_all2_lengthD)
    with i show "unfolds h (snd (props ! i)) (snd (kvs ! i))" "fst (props ! i) = fst (kvs ! i)"
      using 6 by (auto simp: list_all2_conv_all_nth)
  qed
  ultimately show ?case by (rule unfolds.intros)
qed (auto intro: unfolds.intros)

lemma unfolds_envelope:
  assumes "map_of h a = None"
  shows "unfolds ((a, PlainObject [(js ''ok'', VBool True), (js ''result'', v)]) # h) (VRef a) j \<longleftrightarrow>
    (\<exists>w. unfolds h v w \<and> j = envelope w)" (is "unfolds ?h _ _ \<longleftrightarrow> _")
proof
  assume u: "unfolds ?h (VRef a) j"
  then obtain kvs where "j = JObj kvs"
      "list_all2 (\<lambda>p q. fst p = fst q \<and> unfolds ?h (snd p) (snd q)) [(js ''ok'', VBool True), (js ''result'', v)] kvs"
    by (auto elim: unfolds_refE)
  then obtain w where w: "j = envelope w" "unfolds ?h v w"
    by (auto simp: list_all2_Cons1 envelope_def prod_eq_iff)
  then have "unfolds h v w" by (intro unfolds_restrict [OF w(2) u]) (simp add: envelope_def)
  with w show "\<exists>w. unfolds h v w \<and> j = envelope w" by blast
next
  assume "\<exists>w. unfolds h v w \<and> j = envelope w"
  then show "unfolds ?h (VRef a) j"
    using unfolds_extend [OF _ assms] by (auto simp: envelope_def intro!: unfolds.intros(6))
qed

lemma wire_result_Inr:
  assumes "checks_schemas str_len chk"
  shows "wire_result chk h v = Inr w \<longleftrightarrow> unfolds h v w"
proof -
  have "chk ResultEnvelopeSchema (envelope w)" for w
    using parseResultEnvelope_ok [OF assms, of w]
    by (auto simp: parseResultEnvelope_def parseTree_def envelope_def split: if_splits)
  then show ?thesis
    by (auto simp: wire_result_def Let_def result_simps parseSchema_Inr
        unfolds_envelope [OF fresh_ref_unbound] envelope_result_def envelope_def)
qed

section \<open>One execution\<close>

text \<open>Requests on a bound id never reach the effect.\<close>

definition bound_outcome :: "OperationRequest \<Rightarrow> jentry \<Rightarrow> OperationExecutionOutcome result" where
  "bound_outcome r e =
     (if ent_kind e \<noteq> req_kind r \<or> ent_fingerprint e \<noteq> req_fingerprint r
      then Inl (conflict_error (req_operationId r))
      else Inr (case ent_phase e of
          PAccepted \<Rightarrow> StillInProgress Accepted
        | PRunning \<Rightarrow> StillInProgress Running
        | PCommitted v \<Rightarrow> ReplayedCommitted v
        | PFailed err \<Rightarrow> ReplayedFailed err
        | PUnknown _ \<Rightarrow> NeedsReconcile))"

lemma execute_bound:
  assumes "checks_schemas str_len chk" "journal_rep j S" "S (req_operationId r) = Some e"
  shows "execute chk r effect j = (bound_outcome r e, j)"
  by (cases "ent_phase e")
    (auto simp: execute_def prepare_def prepare_work_def transaction_def journal_read_rep [OF assms(1,2)]
      assms(3) bound_outcome_def record_of_def)

text \<open>On a fresh id the effect starts with the row running.\<close>

definition running_entry :: "OperationRequest \<Rightarrow> jentry" where
  "running_entry r = \<lparr>ent_kind = req_kind r, ent_fingerprint = req_fingerprint r, ent_phase = PRunning\<rparr>"

lemma execute_fresh:
  assumes chk: "checks_schemas str_len chk" and rep: "journal_rep j S"
    and ne: "req_operationId r \<noteq> []" and fresh: "S (req_operationId r) = None"
  shows "\<exists>j2. execute chk r effect j = run_effect chk (req_operationId r) effect j2
    \<and> journal_rep j2 (S(req_operationId r \<mapsto> running_entry r))"
proof -
  let ?i = "req_operationId r"
  obtain x j1 where p: "prepare chk r j = (x, j1)" by fastforce
  then obtain S1 where x: "x = Inr Execute" and rep1: "journal_rep j1 S1"
    and S1: "S1 = S(?i \<mapsto> \<lparr>ent_kind = req_kind r, ent_fingerprint = req_fingerprint r, ent_phase = PAccepted\<rparr>)"
    using prepare_refines [OF chk rep ne p] fresh by (auto simp: spec_prepare_def)
  obtain y j2 where m: "markRunning ?i j1 = (y, j2)" by fastforce
  have "spec_move Accepted PRunning ?i S1 = Some (S(?i \<mapsto> running_entry r))"
    by (simp add: spec_move_def S1 running_entry_def)
  with markRunning_refines [OF rep1 m] have "y = Inr ()" "journal_rep j2 (S(?i \<mapsto> running_entry r))"
    by simp_all
  with p x m show ?thesis by (auto simp: execute_def)
qed

text \<open>What the effect may do to the journal while it is awaited: let other operations take steps.\<close>

definition effect_runs :: "checker \<Rightarrow> (journal_event \<Rightarrow> bool) \<Rightarrow> effect \<Rightarrow> bool" where
  "effect_runs chk ok effect \<longleftrightarrow>
     (\<forall>j x j'. effect j = (x, j') \<longrightarrow>
        (\<exists>tr. run (journal_step chk) j tr j' \<and> list_all ok tr)
        \<and> (\<forall>h v w. x = Inr (h, v) \<longrightarrow> unfolds h v w \<longrightarrow> wf_json w))"

lemma commit_fails:
  assumes "journal_rep j S" "S k = Some e" "ent_phase e \<noteq> PRunning"
  shows "\<exists>err. markCommitted k v j = (Inl err, j)"
proof -
  obtain n j' where u: "sql_update (\<lambda>i row. i = k \<and> row_state row = operation_state_text Running)
      (\<lambda>row. row\<lparr>row_state := js ''committed'', row_result_json := Some (JSON_stringify v),
        row_error_json := None, row_version := row_version row + 1\<rparr>) j = (n, j')"
    by fastforce
  from update_refines [OF assms(1) u] assms(2,3) have "n = 0" "j' = j" by (auto simp: phase_state_iff)
  with u show ?thesis by (simp add: markCommitted_def)
qed

lemma record_failure_result:
  assumes "journal_rep j S" "S k = Some e" "record_failure k err j = (x, j')"
  shows "ent_phase e = PRunning \<and> x = Inl err
           \<and> journal_rep j' (S(k \<mapsto> e\<lparr>ent_phase := PFailed (serializeError err)\<rparr>))
       \<or> ent_phase e \<noteq> PRunning \<and> (\<exists>err'. x = Inl err') \<and> j' = j"
proof -
  obtain y j1 where f: "markFailed k (serializeError err) j = (y, j1)" by fastforce
  from markFailed_refines [OF assms(1) f] f assms(2,3) show ?thesis
    by (auto simp: spec_move_def phase_state_iff record_failure_def split: option.splits if_splits)
qed

lemma run_effect_result:
  assumes chk: "checks_schemas str_len chk" and rep: "journal_rep j S"
    and e: "S i = Some e" "ent_phase e = PRunning"
    and eff: "effect_runs chk ok effect" and ok: "\<And>ev. ok ev \<Longrightarrow> \<not> settles i ev"
    and x: "run_effect chk i effect j = (x, j')"
  shows "\<exists>S'. journal_rep j' S' \<and>
     ((\<exists>v. x = Inr (Executed v) \<and> S' i = Some (e\<lparr>ent_phase := PCommitted v\<rparr>)) \<or>
      (\<exists>err. x = Inl err \<and> (S' i = Some (e\<lparr>ent_phase := PFailed (serializeError err)\<rparr>)
                         \<or> S' i = Some (e\<lparr>ent_phase := PUnknown 1\<rparr>) \<and> \<not> (\<forall>ev. ok ev \<longrightarrow> \<not> reconciles ev))))"
proof -
  obtain y j1 where y: "effect j = (y, j1)" by fastforce
  with eff obtain tr where tr: "run (journal_step chk) j tr j1" "list_all ok tr"
    and wf: "\<And>h v w. y = Inr (h, v) \<Longrightarrow> unfolds h v w \<Longrightarrow> wf_json w"
    unfolding effect_runs_def by metis
  obtain S1 where S1: "run spec_step S tr S1" "journal_rep j1 S1"
    using journal_run_refines [OF chk tr(1) rep] by blast
  have "list_all (\<lambda>ev. \<not> settles i ev) tr" using tr(2) ok by (auto simp: list_all_iff)
  from unsettled.run_inv [OF S1(1) this, of e] e
  have cases: "S1 i = Some e \<or> S1 i = Some (e\<lparr>ent_phase := PUnknown 1\<rparr>)" by blast
  have quiet: "S1 i = Some e" if "\<forall>ev. ok ev \<longrightarrow> \<not> reconciles ev"
  proof -
    have "list_all (\<lambda>ev. \<not> settles i ev \<and> \<not> reconciles ev) tr"
      using tr(2) ok that by (auto simp: list_all_iff)
    from undisturbed.run_inv [OF S1(1) this, of e] e show ?thesis by blast
  qed
  have fails: ?thesis if r: "record_failure i err j1 = (x, j')" for err
    using cases
  proof
    assume "S1 i = Some e"
    with record_failure_result [OF S1(2) this r] e show ?thesis by auto
  next
    assume lost: "S1 i = Some (e\<lparr>ent_phase := PUnknown 1\<rparr>)"
    with e quiet have "\<not> (\<forall>ev. ok ev \<longrightarrow> \<not> reconciles ev)" by (metis jentry.select_convs(3)
          jentry.update_convs(3) jentry.surjective option.inject phase.distinct(13))
    with record_failure_result [OF S1(2) lost r] S1(2) lost show ?thesis by auto
  qed
  show ?thesis
  proof (cases y)
    case (Inl err)
    with x y fails show ?thesis by (simp add: run_effect_def)
  next
    case (Inr hv)
    obtain h v where hv: "hv = (h, v)" by (cases hv)
    show ?thesis
    proof (cases "wire_result chk h v")
      case (Inl err)
      with x y Inr hv fails show ?thesis by (simp add: run_effect_def)
    next
      case (Inr w)
      then have "unfolds h v w" by (simp add: wire_result_Inr [OF chk])
      with wf \<open>y = Inr hv\<close> hv have w: "wf_json w" by blast
      obtain z j2 where z: "markCommitted i w j1 = (z, j2)" by fastforce
      show ?thesis using cases
      proof
        assume "S1 i = Some e"
        then have "spec_move Running (PCommitted w) i S1 = Some (S1(i \<mapsto> e\<lparr>ent_phase := PCommitted w\<rparr>))"
          using e by (simp add: spec_move_def)
        with markCommitted_refines [OF S1(2) z w] have "z = Inr ()"
          "journal_rep j2 (S1(i \<mapsto> e\<lparr>ent_phase := PCommitted w\<rparr>))" by simp_all
        with x y \<open>y = Inr hv\<close> hv Inr z show ?thesis by (auto simp: run_effect_def)
      next
        assume lost: "S1 i = Some (e\<lparr>ent_phase := PUnknown 1\<rparr>)"
        then obtain err where "markCommitted i w j1 = (Inl err, j1)"
          using commit_fails [OF S1(2) lost] by auto
        with x y \<open>y = Inr hv\<close> hv Inr have "record_failure i err j1 = (x, j')"
          by (simp add: run_effect_def)
        then show ?thesis by (rule fails)
      qed
    qed
  qed
qed

section \<open>Guarantees\<close>

lemma journal_okI: "journal_rep j S \<Longrightarrow> journal_ok j"
  by (auto simp: journal_ok_def)

lemma settled_run:
  assumes "checks_schemas str_len chk" "journal_rep j S" "run (journal_step chk) j tr j'"
    and "S i = Some e" "settled (ent_phase e)"
  shows "\<exists>S'. journal_rep j' S' \<and> S' i = Some e"
proof -
  from journal_run_refines [OF assms(1,3,2)] obtain S' where "run spec_step S tr S'" "journal_rep j' S'" by blast
  with settled.run_inv [of S tr S' i e] assms(4,5) show ?thesis by (auto simp: list_all_iff)
qed

lemma execute_Executed:
  assumes chk: "checks_schemas str_len chk" and rep: "journal_rep j S" and ne: "req_operationId r \<noteq> []"
    and eff: "effect_runs chk (\<lambda>ev. \<not> settles (req_operationId r) ev) effect"
    and x: "execute chk r effect j = (Inr (Executed v), j')"
  shows "\<exists>S'. journal_rep j' S'
    \<and> S' (req_operationId r) = Some ((running_entry r)\<lparr>ent_phase := PCommitted v\<rparr>)"
proof (cases "S (req_operationId r)")
  case None
  then obtain j2 where j2: "run_effect chk (req_operationId r) effect j2 = (Inr (Executed v), j')"
      "journal_rep j2 (S(req_operationId r \<mapsto> running_entry r))"
    using execute_fresh [OF chk rep ne None, of effect] x by auto
  from run_effect_result [OF chk j2(2) _ _ eff _ j2(1), of "running_entry r"]
  show ?thesis by (auto simp: running_entry_def)
next
  case (Some e)
  with execute_bound [OF chk rep Some, of effect] x show ?thesis
    by (auto simp: bound_outcome_def split: if_splits phase.splits)
qed

text \<open>C1. An operation that executed is committed once and for all: however the journal is used afterwards,
  executing the same request again returns the stored result, changes nothing, and does not depend on
  the effect passed, which never runs.\<close>

theorem execute_once_then_replay:
  assumes "checks_schemas str_len chk" and "journal_ok j" and "req_operationId r \<noteq> []"
    and "effect_runs chk (\<lambda>ev. \<not> settles (req_operationId r) ev) effect"
    and "execute chk r effect j = (Inr (Executed v), j')"
    and "run (journal_step chk) j' tr j''"
  shows "execute chk r effect2 j'' = (Inr (ReplayedCommitted v), j'')"
proof -
  from assms(2) obtain S where rep: "journal_rep j S" by (auto simp: journal_ok_def)
  from execute_Executed [OF assms(1) rep assms(3-5)] obtain S1 where S1: "journal_rep j' S1"
      "S1 (req_operationId r) = Some ((running_entry r)\<lparr>ent_phase := PCommitted v\<rparr>)" by blast
  from settled_run [OF assms(1) S1(1) assms(6) S1(2)] obtain S2 where "journal_rep j'' S2"
      "S2 (req_operationId r) = Some ((running_entry r)\<lparr>ent_phase := PCommitted v\<rparr>)"
    by (auto simp: settled_def)
  from execute_bound [OF assms(1) this] show ?thesis
    by (simp add: bound_outcome_def running_entry_def)
qed

definition sample_request :: OperationRequest where
  "sample_request = \<lparr>req_operationId = js ''op'', req_kind = js ''write'', req_fingerprint = js ''f''\<rparr>"

definition sample_effect :: effect where
  "sample_effect j = (Inr ([], VString (js ''done'')), j)"

lemma sample_effect_runs: "effect_runs chk ok sample_effect"
  by (auto simp: effect_runs_def sample_effect_def intro!: exI [of _ "[]"])

lemma journal_ok_Nil: "journal_ok []"
  using journal_rep_Nil by (rule journal_okI)

definition sample_executed :: journal where
  "sample_executed = snd (execute json_schema_check sample_request sample_effect [])"

lemma wire_sample: "wire_result json_schema_check [] (VString t) = Inr (JStr t)"
  by (simp add: wire_result_Inr [OF checks_schemas_reference])

lemma execute_sample:
  "execute json_schema_check sample_request sample_effect []
     = (Inr (Executed (JStr (js ''done''))), sample_executed)"
  by (simp add: sample_executed_def prod_eq_iff)
    (simp add: execute_def prepare_def prepare_work_def transaction_def journal_read_def sql_insert_def
      markRunning_def sql_update_def run_effect_def sample_effect_def wire_sample markCommitted_def
      sample_request_def Let_def)

theorem execute_once_then_replay_witness:
  "execute json_schema_check sample_request (\<lambda>j. (Inl (JsError []), j)) sample_executed
     = (Inr (ReplayedCommitted (JStr (js ''done''))), sample_executed)"
  by (rule execute_once_then_replay [OF checks_schemas_reference journal_ok_Nil _ sample_effect_runs
        execute_sample, of "[]"])
    (simp_all add: sample_request_def)

lemma effect_runs_weaken:
  "effect_runs chk ok effect \<Longrightarrow> (\<And>ev. ok ev \<Longrightarrow> ok' ev) \<Longrightarrow> effect_runs chk ok' effect"
  by (fastforce simp: effect_runs_def list_all_iff)

text \<open>C6. An operation whose effect threw (or whose outcome could not be recorded as committed) is failed once
  and for all: the same request replays the stored name and message of the error, and its effect
  never runs again.\<close>

theorem execute_failed_then_replay:
  assumes "checks_schemas str_len chk" and "journal_ok j" and "req_operationId r \<noteq> []"
    and "map_of j (req_operationId r) = None"
    and "effect_runs chk (\<lambda>ev. \<not> settles (req_operationId r) ev \<and> \<not> reconciles ev) effect"
    and "execute chk r effect j = (Inl err, j')"
    and "run (journal_step chk) j' tr j''"
  shows "execute chk r effect2 j'' = (Inr (ReplayedFailed (serializeError err)), j'')"
proof -
  let ?i = "req_operationId r"
  from assms(2) obtain S where rep: "journal_rep j S" by (auto simp: journal_ok_def)
  with assms(4) have None: "S ?i = None" using journal_repD(2) [OF rep, of ?i] by simp
  then obtain j2 where j2: "run_effect chk ?i effect j2 = (Inl err, j')"
      "journal_rep j2 (S(?i \<mapsto> running_entry r))"
    using execute_fresh [OF assms(1) rep assms(3) None, of effect] assms(6) by auto
  from run_effect_result [OF assms(1) j2(2) _ _ assms(5) _ j2(1), of "running_entry r"]
  obtain S1 where S1: "journal_rep j' S1"
      "S1 ?i = Some ((running_entry r)\<lparr>ent_phase := PFailed (serializeError err)\<rparr>)"
    by (auto simp: running_entry_def)
  from settled_run [OF assms(1) S1(1) assms(7) S1(2)] obtain S2 where "journal_rep j'' S2"
      "S2 ?i = Some ((running_entry r)\<lparr>ent_phase := PFailed (serializeError err)\<rparr>)"
    by (auto simp: settled_def)
  from execute_bound [OF assms(1) this] show ?thesis
    by (simp add: bound_outcome_def running_entry_def)
qed

definition failing_effect :: effect where
  "failing_effect j = (Inl (JsError (js ''disk full'')), j)"

lemma failing_effect_runs: "effect_runs chk ok failing_effect"
  by (auto simp: effect_runs_def failing_effect_def intro!: exI [of _ "[]"])

definition sample_failed :: journal where
  "sample_failed = snd (execute json_schema_check sample_request failing_effect [])"

lemma execute_failing:
  "execute json_schema_check sample_request failing_effect []
     = (Inl (JsError (js ''disk full'')), sample_failed)"
  by (simp add: sample_failed_def prod_eq_iff)
    (simp add: execute_def prepare_def prepare_work_def transaction_def journal_read_def sql_insert_def
      markRunning_def sql_update_def run_effect_def failing_effect_def record_failure_def markFailed_def
      sample_request_def Let_def)

theorem execute_failed_then_replay_witness:
  "execute json_schema_check sample_request sample_effect sample_failed
     = (Inr (ReplayedFailed \<lparr>err_name = js ''Error'', err_message = js ''disk full''\<rparr>), sample_failed)"
  using execute_failed_then_replay [OF checks_schemas_reference journal_ok_Nil _ _ failing_effect_runs
      execute_failing, of "[]" sample_failed sample_effect]
  by (simp add: sample_request_def serializeError_def JsError_def)

text \<open>C3. After a restart (\<open>reconcileInterrupted\<close>), an operation that was accepted or running is never run
  again: every later execution of its request reports that reconciliation is needed and leaves the
  journal as it is.\<close>

theorem interrupted_never_reruns:
  assumes "checks_schemas str_len chk" and "journal_ok j"
    and "map_of j (req_operationId r) = Some row"
    and "row_state row \<in> {js ''accepted'', js ''running''}"
    and "row_kind row = req_kind r" and "row_fingerprint row = req_fingerprint r"
    and "reconcileInterrupted j = (n, j')"
    and "run (journal_step chk) j' tr j''"
  shows "execute chk r effect j'' = (Inr NeedsReconcile, j'')"
proof -
  let ?i = "req_operationId r"
  from assms(2) obtain S where rep: "journal_rep j S" by (auto simp: journal_ok_def)
  with assms(3) obtain e where e: "S ?i = Some e" "row = row_of e"
    using journal_repD(2) [OF rep, of ?i] by auto
  with assms(4) obtain m where m: "spec_interrupt e = e\<lparr>ent_phase := PUnknown m\<rparr>"
    by (cases "ent_phase e") (auto simp: row_of_def spec_interrupt_def)
  have rep': "journal_rep j' (spec_reconcile S)" using reconcile_refines [OF rep assms(7)] .
  have "spec_reconcile S ?i = Some (e\<lparr>ent_phase := PUnknown m\<rparr>)" using e m by (simp add: spec_reconcile_def)
  from settled_run [OF assms(1) rep' assms(8) this] obtain S2 where "journal_rep j'' S2"
      "S2 ?i = Some (e\<lparr>ent_phase := PUnknown m\<rparr>)" by (auto simp: settled_def)
  from execute_bound [OF assms(1) this] assms(5,6) e show ?thesis
    by (simp add: bound_outcome_def row_of_def)
qed

definition crashed_journal :: journal where
  "crashed_journal = [(js ''op'', row_of (running_entry sample_request))]"

lemma journal_ok_crashed: "journal_ok crashed_journal"
proof (rule journal_okI)
  show "journal_rep crashed_journal [js ''op'' \<mapsto> running_entry sample_request]"
    by (auto simp: journal_rep_def crashed_journal_def running_entry_def phase_wf_def)
qed

theorem interrupted_never_reruns_witness:
  "execute json_schema_check sample_request sample_effect (snd (reconcileInterrupted crashed_journal))
     = (Inr NeedsReconcile, snd (reconcileInterrupted crashed_journal))"
  by (rule interrupted_never_reruns [OF checks_schemas_reference journal_ok_crashed _ _ _ _
        surjective_pairing, of _ "row_of (running_entry sample_request)" "[]"])
    (simp_all add: crashed_journal_def sample_request_def running_entry_def row_of_def)

text \<open>C4. Over any run of the journal an operation id is accepted at most once and started at most once.\<close>

theorem journal_at_most_once:
  assumes "checks_schemas str_len chk" and "journal_ok j" and "run (journal_step chk) j tr j'"
  shows "length (filter (binds i) tr) \<le> 1 \<and> length (filter (\<lambda>ev. ev = Started i) tr) \<le> 1
    \<and> (map_of j i \<noteq> None \<longrightarrow> filter (binds i) tr = [])"
proof -
  from assms(2) obtain S where rep: "journal_rep j S" by (auto simp: journal_ok_def)
  from journal_run_refines [OF assms(1,3) rep] obtain S' where "run spec_step S tr S'" by blast
  with binding.at_most_one_hit [of S tr S' i] starting.at_most_one_hit [of S tr S' i]
    binding.no_hit_after [of S tr S' i] journal_repD(2) [OF rep, of i]
  show ?thesis by auto
qed

lemma sample_run:
  "\<exists>j'. run (journal_step json_schema_check) [] [Prepared sample_request Execute, Started (js ''op'')] j'"
proof -
  have p: "prepare json_schema_check sample_request [] = (Inr Execute, snd (prepare json_schema_check sample_request []))"
    by (simp add: prod_eq_iff) (simp add: prepare_def prepare_work_def transaction_def journal_read_def sql_insert_def)
  let ?j = "snd (prepare json_schema_check sample_request [])"
  have m: "markRunning (js ''op'') ?j = (Inr (), snd (markRunning (js ''op'') ?j))"
    by (simp add: prod_eq_iff) (simp add: markRunning_def sql_update_def prepare_def prepare_work_def
        transaction_def journal_read_def sql_insert_def sample_request_def)
  have "journal_step json_schema_check [] (Prepared sample_request Execute) ?j"
    by (rule journal_step.intros(1) [OF _ p]) (simp add: sample_request_def)
  with journal_step.intros(2) [OF m] show ?thesis by (auto simp: run_Cons_iff)
qed

theorem journal_at_most_once_witness:
  "\<exists>j'. run (journal_step json_schema_check) [] [Prepared sample_request Execute, Started (js ''op'')] j'
     \<and> length (filter (binds (js ''op'')) [Prepared sample_request Execute, Started (js ''op'')]) \<le> 1"
  using sample_run journal_at_most_once [OF checks_schemas_reference journal_ok_Nil, of _ _ "js ''op''"]
  by blast

text \<open>C5. The table implements the abstract journal: whatever run of operations produced it from the empty
  table, reading any id gives exactly the record of the map that the same run produces.\<close>

theorem journal_implements_map:
  assumes "checks_schemas str_len chk" and "run (journal_step chk) [] tr j"
  shows "\<exists>S. run spec_step Map.empty tr S
    \<and> (\<forall>i. journal_get chk j i = Inr (map_option (record_of i) (S i)))"
proof -
  from journal_run_refines [OF assms journal_rep_Nil] obtain S
    where "run spec_step Map.empty tr S" "journal_rep j S" by blast
  with journal_read_rep [OF assms(1)] show ?thesis by (auto simp: journal_get_def)
qed

theorem journal_implements_map_witness:
  "\<exists>j S. run (journal_step json_schema_check) [] [Prepared sample_request Execute, Started (js ''op'')] j
     \<and> run spec_step Map.empty [Prepared sample_request Execute, Started (js ''op'')] S
     \<and> journal_get json_schema_check j (js ''op'') = Inr (map_option (record_of (js ''op'')) (S (js ''op'')))"
  using sample_run journal_implements_map [OF checks_schemas_reference] by blast

text \<open>An id stays bound to the kind and fingerprint it was first used with: after any run, executing it
  with different input throws the conflict error, changes nothing and never runs the effect.\<close>

theorem execute_conflict:
  assumes "checks_schemas str_len chk" and "journal_ok j" and "map_of j (req_operationId r) = Some row"
    and "row_kind row \<noteq> req_kind r \<or> row_fingerprint row \<noteq> req_fingerprint r"
    and "run (journal_step chk) j tr j'"
  shows "execute chk r effect j' = (Inl (conflict_error (req_operationId r)), j')"
proof -
  let ?i = "req_operationId r"
  from assms(2) obtain S where rep: "journal_rep j S" by (auto simp: journal_ok_def)
  with assms(3) obtain e where e: "S ?i = Some e" "row = row_of e"
    using journal_repD(2) [OF rep, of ?i] by auto
  from journal_run_refines [OF assms(1,5) rep] obtain S' where S': "run spec_step S tr S'" "journal_rep j' S'" by blast
  from run_rebinds [OF S'(1) e(1)] obtain e' where e': "S' ?i = Some e'" "bound_alike e e'" by blast
  from execute_bound [OF assms(1) S'(2) e'(1)] e'(2) assms(4) e(2) show ?thesis
    by (auto simp: bound_outcome_def bound_alike_def row_of_def)
qed

theorem execute_conflict_witness:
  "execute json_schema_check (sample_request\<lparr>req_fingerprint := js ''g''\<rparr>) sample_effect crashed_journal
     = (Inl (conflict_error (js ''op'')), crashed_journal)"
  using execute_conflict [OF checks_schemas_reference journal_ok_crashed,
      of "sample_request\<lparr>req_fingerprint := js ''g''\<rparr>" "row_of (running_entry sample_request)" "[]"
         crashed_journal sample_effect]
  by (simp add: crashed_journal_def sample_request_def running_entry_def row_of_def)

text \<open>The effect of a fresh operation, when no reconciliation intervenes.\<close>

lemma run_effect_quiet:
  assumes chk: "checks_schemas str_len chk" and rep: "journal_rep j S"
    and e: "S i = Some e" "ent_phase e = PRunning"
    and eff: "effect_runs chk (\<lambda>ev. \<not> settles i ev \<and> \<not> reconciles ev) effect"
    and y: "effect j = (y, j1)"
  shows "\<exists>x j' p S'. run_effect chk i effect j = (x, j') \<and> journal_rep j' S' \<and> S' i = Some (e\<lparr>ent_phase := p\<rparr>) \<and>
     (case y of
        Inl err \<Rightarrow> x = Inl err \<and> p = PFailed (serializeError err)
      | Inr (h, v) \<Rightarrow>
          (\<exists>w. unfolds h v w \<and> x = Inr (Executed w) \<and> p = PCommitted w) \<or>
          \<not> isJsonValue h [] v \<and> (\<exists>err. x = Inl err \<and> p = PFailed (serializeError err)))"
proof -
  from eff y obtain tr where tr: "run (journal_step chk) j tr j1"
      "list_all (\<lambda>ev. \<not> settles i ev \<and> \<not> reconciles ev) tr"
    and wf: "\<And>h v w. y = Inr (h, v) \<Longrightarrow> unfolds h v w \<Longrightarrow> wf_json w"
    unfolding effect_runs_def by metis
  obtain S1 where S1: "run spec_step S tr S1" "journal_rep j1 S1"
    using journal_run_refines [OF chk tr(1) rep] by blast
  from undisturbed.run_inv [OF S1(1) tr(2), of e] e have here: "S1 i = Some e" by blast
  have fails: "\<exists>x j' S'. record_failure i err j1 = (x, j') \<and> x = Inl err \<and> journal_rep j' S'
      \<and> S' i = Some (e\<lparr>ent_phase := PFailed (serializeError err)\<rparr>)" for err
    using record_failure_result [OF S1(2) here] e(2) by (metis fun_upd_same surj_pair)
  show ?thesis
  proof (cases y)
    case (Inl err)
    with y fails [of err] show ?thesis by (auto simp: run_effect_def)
  next
    case (Inr hv)
    obtain h v where hv: "hv = (h, v)" by (cases hv)
    show ?thesis
    proof (cases "wire_result chk h v")
      case (Inl err)
      then have "\<not> isJsonValue h [] v" using wire_result_Inr [OF chk, of h v] by (auto simp: isJsonValue_iff)
      with fails [of err] y \<open>y = Inr hv\<close> hv Inl show ?thesis by (fastforce simp: run_effect_def)
    next
      case (Inr w)
      then have u: "unfolds h v w" by (simp add: wire_result_Inr [OF chk])
      with wf \<open>y = Inr hv\<close> hv have w: "wf_json w" by blast
      obtain z j2 where z: "markCommitted i w j1 = (z, j2)" by fastforce
      have "spec_move Running (PCommitted w) i S1 = Some (S1(i \<mapsto> e\<lparr>ent_phase := PCommitted w\<rparr>))"
        using e here by (simp add: spec_move_def)
      with markCommitted_refines [OF S1(2) z w] have "z = Inr ()"
        "journal_rep j2 (S1(i \<mapsto> e\<lparr>ent_phase := PCommitted w\<rparr>))" by simp_all
      moreover from this have "run_effect chk i effect j = (Inr (Executed w), j2)"
        using y \<open>y = Inr hv\<close> hv Inr z by (simp add: run_effect_def)
      ultimately show ?thesis using u \<open>y = Inr hv\<close> hv
        by (intro exI [of _ "Inr (Executed w)"] exI [of _ j2] exI [of _ "PCommitted w"]
            exI [of _ "S1(i \<mapsto> e\<lparr>ent_phase := PCommitted w\<rparr>)"]) auto
    qed
  qed
qed

text \<open>C2. Executing an unbound id: the effect runs once, on a journal whose row is durably running; when it
  returns a JSON value the row is committed with that value at version 2 and the value is returned;
  when it throws, or returns something that is not JSON, the row is failed at version 2 with the
  serialized error and the error is thrown.\<close>

theorem execute_unbound:
  assumes "checks_schemas str_len chk" and "journal_ok j" and "req_operationId r \<noteq> []"
    and "map_of j (req_operationId r) = None"
    and "effect_runs chk (\<lambda>ev. \<not> settles (req_operationId r) ev \<and> \<not> reconciles ev) effect"
  shows "\<exists>j1 y j2 x j'.
     map_of j1 (req_operationId r) = Some (row_of (running_entry r)) \<and> effect j1 = (y, j2)
     \<and> execute chk r effect j = (x, j') \<and> journal_ok j'
     \<and> (case y of
          Inl err \<Rightarrow> x = Inl err \<and>
            map_of j' (req_operationId r) = Some (row_of ((running_entry r)\<lparr>ent_phase := PFailed (serializeError err)\<rparr>))
        | Inr (h, v) \<Rightarrow>
            (\<exists>w. unfolds h v w \<and> x = Inr (Executed w) \<and>
               map_of j' (req_operationId r) = Some (row_of ((running_entry r)\<lparr>ent_phase := PCommitted w\<rparr>))) \<or>
            \<not> isJsonValue h [] v \<and> (\<exists>err. x = Inl err \<and>
               map_of j' (req_operationId r) = Some (row_of ((running_entry r)\<lparr>ent_phase := PFailed (serializeError err)\<rparr>))))"
proof -
  let ?i = "req_operationId r"
  from assms(2) obtain S where rep: "journal_rep j S" by (auto simp: journal_ok_def)
  with assms(4) have None: "S ?i = None" using journal_repD(2) [OF rep, of ?i] by simp
  from execute_fresh [OF assms(1) rep assms(3) None, of effect] obtain j1
    where j1: "execute chk r effect j = run_effect chk ?i effect j1"
      "journal_rep j1 (S(?i \<mapsto> running_entry r))" by blast
  obtain y j2 where y: "effect j1 = (y, j2)" by fastforce
  have "map_of j1 ?i = Some (row_of (running_entry r))" using journal_repD(2) [OF j1(2), of ?i] by simp
  moreover from run_effect_quiet [OF assms(1) j1(2) _ _ assms(5) y, of "running_entry r"]
  obtain x j' p S' where "run_effect chk ?i effect j1 = (x, j')" and rep': "journal_rep j' S'"
      "S' ?i = Some ((running_entry r)\<lparr>ent_phase := p\<rparr>)" and
      "case y of
        Inl err \<Rightarrow> x = Inl err \<and> p = PFailed (serializeError err)
      | Inr (h, v) \<Rightarrow>
          (\<exists>w. unfolds h v w \<and> x = Inr (Executed w) \<and> p = PCommitted w) \<or>
          \<not> isJsonValue h [] v \<and> (\<exists>err. x = Inl err \<and> p = PFailed (serializeError err))"
    by (auto simp: running_entry_def)
  moreover from rep' have "map_of j' ?i = Some (row_of ((running_entry r)\<lparr>ent_phase := p\<rparr>))" "journal_ok j'"
    using journal_repD(2) [OF rep'(1), of ?i] journal_okI by auto
  ultimately show ?thesis using j1(1) y
    by (intro exI [of _ j1] exI [of _ y] exI [of _ j2] exI [of _ x] exI [of _ j'])
      (auto split: sum.splits)
qed

theorem execute_unbound_witness:
  "\<exists>x j'. execute json_schema_check sample_request sample_effect [] = (x, j') \<and> x = Inr (Executed (JStr (js ''done'')))
     \<and> map_of j' (js ''op'') = Some (row_of ((running_entry sample_request)\<lparr>ent_phase := PCommitted (JStr (js ''done''))\<rparr>))"
  using execute_unbound [OF checks_schemas_reference journal_ok_Nil _ _ sample_effect_runs, of sample_request]
  by (auto simp: sample_request_def sample_effect_def isJsonValue.simps)

end
