(* ===== verification/Codec.thy ===== *)
theory Codec
  imports Json Utf8
begin

text \<open>
  The codecs of \<open>Buffer\<close> behind the list cursors: \<open>toString('base64url')\<close>,
  \<open>Buffer.from(s, 'base64url')\<close>, which skips every character outside the two base64 alphabets, and
  the lossy \<open>toString('utf8')\<close>.
\<close>

section \<open>Base64\<close>

definition b64_alphabet :: jstr where
  "b64_alphabet = js ''ABCDEFGHIJKLMNOPQRSTUVWXYZabcdefghijklmnopqrstuvwxyz0123456789-_''"

definition b64_char :: "nat \<Rightarrow> code_unit" where
  "b64_char d = b64_alphabet ! d"

definition b64_value :: "code_unit \<Rightarrow> nat option" where
  "b64_value u =
     (let n = unat u in
      if 65 \<le> n \<and> n \<le> 90 then Some (n - 65)
      else if 97 \<le> n \<and> n \<le> 122 then Some (n - 71)
      else if 48 \<le> n \<and> n \<le> 57 then Some (n + 4)
      else if n = 45 \<or> n = 43 then Some 62
      else if n = 95 \<or> n = 47 then Some 63
      else None)"

fun b64_digits :: "nat list \<Rightarrow> nat list" where
  "b64_digits (a # b # c # rest) =
     a div 4 # (a mod 4 * 16 + b div 16) # (b mod 16 * 4 + c div 64) # c mod 64 # b64_digits rest"
| "b64_digits [a, b] = [a div 4, a mod 4 * 16 + b div 16, b mod 16 * 4]"
| "b64_digits [a] = [a div 4, a mod 4 * 16]"
| "b64_digits [] = []"

fun b64_octets :: "nat list \<Rightarrow> nat list" where
  "b64_octets (w # x # y # z # rest) =
     (w * 4 + x div 16) # (x mod 16 * 16 + y div 4) # (y mod 4 * 64 + z) # b64_octets rest"
| "b64_octets [w, x, y] = [w * 4 + x div 16, x mod 16 * 16 + y div 4]"
| "b64_octets [w, x] = [w * 4 + x div 16]"
| "b64_octets _ = []"

definition base64url_encode :: "bytes \<Rightarrow> jstr" where
  "base64url_encode bs = map b64_char (b64_digits (map unat bs))"

definition base64url_decode :: "jstr \<Rightarrow> bytes" where
  "base64url_decode s = map of_nat (b64_octets (List.map_filter b64_value s))"

lemma b64_value_char: "d < 64 \<Longrightarrow> b64_value (b64_char d) = Some d"
proof -
  have "list_all (\<lambda>d. b64_value (b64_char d) = Some d) [0..<64]" by code_simp
  then show "d < 64 \<Longrightarrow> b64_value (b64_char d) = Some d" by (simp add: list_all_iff)
qed

lemma b64_digits_bound: "\<forall>n \<in> set ns. n < 256 \<Longrightarrow> \<forall>d \<in> set (b64_digits ns). d < 64"
  by (induction ns rule: b64_digits.induct) auto

lemma b64_octets_digits: "\<forall>n \<in> set ns. n < 256 \<Longrightarrow> b64_octets (b64_digits ns) = ns"
  by (induction ns rule: b64_digits.induct) auto

lemma map_filter_map: "(\<And>x. x \<in> set xs \<Longrightarrow> f (g x) = Some x) \<Longrightarrow> List.map_filter f (map g xs) = xs"
  by (induction xs) auto

lemma base64url_decode_encode: "base64url_decode (base64url_encode bs) = bs"
proof -
  have b: "\<forall>n \<in> set (map unat bs). n < 256" by simp
  have "List.map_filter b64_value (map b64_char (b64_digits (map unat bs))) = b64_digits (map unat bs)"
    using b64_digits_bound [OF b] by (intro map_filter_map b64_value_char) blast
  then show ?thesis
    using b64_octets_digits [OF b] by (simp add: base64url_decode_def base64url_encode_def comp_def)
qed

section \<open>Lossy UTF-8\<close>

text \<open>How many bytes of a malformed sequence one U+FFFD replaces: the longest start of a well-formed
  sequence, or one byte.\<close>

fun malformed_length :: "bytes \<Rightarrow> nat" where
  "malformed_length (b # c1 # c2 # _) =
     (let lead = unat b in
      if 0xE0 \<le> lead \<and> lead \<le> 0xF4 \<and> byte_in (second_lo lead) (second_hi lead) c1
      then (if 0xF0 \<le> lead \<and> byte_in 0x80 0xBF c2 then 3 else 2) else 1)"
| "malformed_length [b, c1] =
     (let lead = unat b in
      if 0xE0 \<le> lead \<and> lead \<le> 0xF4 \<and> byte_in (second_lo lead) (second_hi lead) c1 then 2 else 1)"
| "malformed_length _ = 1"

lemma malformed_length_pos: "0 < malformed_length bs"
  by (induction bs rule: malformed_length.induct) (auto simp: Let_def)

definition utf8_head :: "bytes \<Rightarrow> (nat \<times> nat) option" where
  "utf8_head bs =
     (case List.find (\<lambda>n. case utf8_points (take n bs) of Some [c] \<Rightarrow> True | _ \<Rightarrow> False) [1, 2, 3, 4] of
        None \<Rightarrow> None
      | Some n \<Rightarrow> (case utf8_points (take n bs) of Some (c # _) \<Rightarrow> Some (c, n) | _ \<Rightarrow> None))"

lemma utf8_head_pos: "utf8_head bs = Some (c, n) \<Longrightarrow> 0 < n"
  by (auto simp: utf8_head_def split: option.splits list.splits if_splits)

function utf8_repair :: "bytes \<Rightarrow> nat list" where
  "utf8_repair bs =
     (if bs = [] then []
      else (case utf8_head bs of
          Some (c, n) \<Rightarrow> c # utf8_repair (drop n bs)
        | None \<Rightarrow> 0xFFFD # utf8_repair (drop (malformed_length bs) bs)))"
  by pat_completeness auto
termination
  by (relation "measure length") (use malformed_length_pos utf8_head_pos in \<open>auto intro: diff_less\<close>)

declare utf8_repair.simps [simp del]

definition utf8_toString :: "bytes \<Rightarrow> jstr" where
  "utf8_toString bs =
     units_of_points (case utf8_points bs of Some cs \<Rightarrow> cs | None \<Rightarrow> utf8_repair bs)"

lemma utf8_points_encode: "well_formed s \<Longrightarrow> utf8_points (utf8_encode s) = Some (code_points s)"
  using utf8_points_of_points [of "code_points s"] utf8_encode_scalar [of "code_points s"]
  by (simp add: well_formed_def list_all_iff)

lemma utf8_toString_encode: "well_formed s \<Longrightarrow> utf8_toString (utf8_encode s) = s"
  by (simp add: utf8_toString_def utf8_points_encode)

section \<open>\<open>JSON.stringify\<close> writes no lone surrogate\<close>

definition no_surrogate :: "code_unit \<Rightarrow> bool" where
  "no_surrogate u \<longleftrightarrow> \<not> is_high u \<and> \<not> is_low u"

fun paired :: "jstr \<Rightarrow> bool" where
  "paired [] \<longleftrightarrow> True"
| "paired [u] \<longleftrightarrow> no_surrogate u"
| "paired (u # v # us) \<longleftrightarrow> (if is_high u \<and> is_low v then paired us else no_surrogate u \<and> paired (v # us))"

lemma paired_append: "paired a \<Longrightarrow> paired b \<Longrightarrow> paired (a @ b)"
proof (induction a rule: paired.induct)
  case (2 u)
  then show ?case by (cases b) (auto simp: no_surrogate_def)
qed (auto split: if_splits)

lemma paired_ascii: "list_all no_surrogate a \<Longrightarrow> paired a"
  by (induction a rule: paired.induct) (auto simp: no_surrogate_def)

lemma paired_ascii_append: "list_all no_surrogate a \<Longrightarrow> paired b \<Longrightarrow> paired (a @ b)"
  by (simp add: paired_append paired_ascii)

lemma paired_Cons: "no_surrogate u \<Longrightarrow> paired b \<Longrightarrow> paired (u # b)"
  using paired_append [of "[u]" b] by simp

lemma paired_well_formed: "paired s \<Longrightarrow> well_formed s"
proof (induction s rule: paired.induct)
  case (2 u)
  have "unat u < 65536" by (rule unat_code_unit_bound)
  then have "unat u < 1114112" by linarith
  with 2 show ?case
    by (simp add: well_formed_def scalar_def no_surrogate_def is_high_def is_low_def) linarith
next
  case (3 u v us)
  have v: "unat v < 65536" "unat u < 65536" by (rule unat_code_unit_bound)+
  then have big: "unat u < 1114112" by linarith
  show ?case
  proof (cases "is_high u \<and> is_low v")
    case True
    then have "scalar (0x10000 + (unat u - 0xD800) * 0x400 + (unat v - 0xDC00))"
      by (simp add: scalar_def is_high_def is_low_def) arith
    with True 3 show ?thesis by (simp add: well_formed_def)
  next
    case False
    then have "code_points (u # v # us) = unat u # code_points (v # us)" by auto
    moreover have "no_surrogate u" "well_formed (v # us)" using 3 False by (simp_all split: if_splits)
    moreover from this big have "scalar (unat u)"
      by (simp add: scalar_def no_surrogate_def is_high_def is_low_def) linarith
    ultimately show ?thesis by (simp add: well_formed_def)
  qed
qed (simp add: well_formed_def)

lemma no_surrogate_small: "unat u < 0xD800 \<Longrightarrow> no_surrogate u"
  by (simp add: no_surrogate_def is_high_def is_low_def)

lemma no_surrogate_js: "list_all no_surrogate (js s)"
proof -
  have "no_surrogate (of_char c)" for c
  proof (rule no_surrogate_small)
    have "(of_char c :: nat) < 256" by (rule nat_of_char_less_256)
    moreover from this have "unat (of_nat (of_char c) :: code_unit) = of_char c"
      by (intro unat_of_nat_code_unit) linarith
    ultimately show "unat (of_char c :: code_unit) < 0xD800"
      unfolding of_char_code_unit by linarith
  qed
  then show ?thesis by (simp add: js_def list_all_iff)
qed

lemma no_surrogate_cu: "no_surrogate (cu c)"
  using no_surrogate_js [of "[c]"] by (simp add: js_def cu_def)

lemma no_surrogate_num: "n < 0xD800 \<Longrightarrow> no_surrogate (of_nat n)"
  by (rule no_surrogate_small) (simp add: unat_of_nat)

lemma no_surrogate_hex4: "list_all no_surrogate (hex4 u)"
proof -
  have "no_surrogate (hex_digit n)" if "n < 16" for n
    using that no_surrogate_num [of "48 + n"] no_surrogate_num [of "87 + n"] by (simp add: hex_digit_def)
  moreover have "unat u div 4096 < 16"
    using unat_code_unit_bound [of u] by (intro less_mult_imp_div_less) simp
  ultimately show ?thesis by (simp add: hex4_def Let_def)
qed

lemma no_surrogate_escape: "list_all no_surrogate (escape_unit u)"
proof -
  have *: "no_surrogate backslash" "no_surrogate dquote"
    by (rule no_surrogate_small, simp add: backslash_def dquote_def)+
  show ?thesis
  proof (cases "is_high u \<or> is_low u")
    case True
    then show ?thesis by (simp add: escape_unit_def * no_surrogate_cu no_surrogate_hex4)
  next
    case False
    then have "no_surrogate u" by (simp add: no_surrogate_def)
    then show ?thesis by (simp add: escape_unit_def * no_surrogate_cu no_surrogate_hex4)
  qed
qed

lemma paired_quote: "paired (quote_units s)"
  by (induction s rule: quote_units.induct)
    (auto simp: paired_ascii no_surrogate_escape intro: paired_ascii_append)

lemma paired_json_string: "paired (json_string s)"
proof -
  have "no_surrogate dquote" by (rule no_surrogate_small) (simp add: dquote_def)
  then show ?thesis by (auto simp: json_string_def intro!: paired_Cons paired_append paired_quote)
qed

lemma no_surrogate_js_nat: "list_all no_surrogate (js_nat n)"
proof (induction n rule: js_nat.induct)
  case (1 n)
  have d: "no_surrogate (of_nat (48 + k))" if "k < 10" for k
    using that by (intro no_surrogate_num) simp
  show ?case
  proof (cases "n < 10")
    case True
    then show ?thesis unfolding js_nat.simps [of n] using d [OF True] by simp
  next
    case False
    moreover have "no_surrogate (of_nat (48 + n mod 10))" by (rule d) simp
    ultimately show ?thesis unfolding js_nat.simps [of n] using 1 by simp
  qed
qed

lemma paired_JInt: "paired (json_num (JInt i))"
  by (auto simp: js_int_def intro!: paired_ascii paired_Cons no_surrogate_cu no_surrogate_js_nat)

end
