(* ===== verification/Io.thy ===== *)
theory Io
  imports Errors
begin

text \<open>
  Computations that act on a state and may throw: the shape of the asynchronous functions of the
  services, one state for everything an \<open>await\<close> can change. \<open>io_try\<close> is \<open>catch\<close>, \<open>io_finally\<close> is
  \<open>finally\<close> (an error of the final block replaces the outcome).
\<close>

type_synonym ('w, 'a) io = "'w \<Rightarrow> 'a result \<times> 'w"

definition io_return :: "'a \<Rightarrow> ('w, 'a) io" where
  "io_return a w = (Inr a, w)"

definition io_throw :: "thrown \<Rightarrow> ('w, 'a) io" where
  "io_throw e w = (Inl e, w)"

definition io_bind :: "('w, 'a) io \<Rightarrow> ('a \<Rightarrow> ('w, 'b) io) \<Rightarrow> ('w, 'b) io" where
  "io_bind m f w = (case m w of (Inl e, w') \<Rightarrow> (Inl e, w') | (Inr a, w') \<Rightarrow> f a w')"

definition io_try :: "('w, 'a) io \<Rightarrow> (thrown \<Rightarrow> ('w, 'a) io) \<Rightarrow> ('w, 'a) io" where
  "io_try m handler w = (case m w of (Inl e, w') \<Rightarrow> handler e w' | (Inr a, w') \<Rightarrow> (Inr a, w'))"

definition io_finally :: "('w, 'a) io \<Rightarrow> ('w, unit) io \<Rightarrow> ('w, 'a) io" where
  "io_finally m f w =
     (case m w of (x, w') \<Rightarrow> (case f w' of (Inl e, w'') \<Rightarrow> (Inl e, w'') | (Inr _, w'') \<Rightarrow> (x, w'')))"

text \<open>\<open>.catch((error) => { throw map(error); })\<close>\<close>

definition io_map_error :: "(thrown \<Rightarrow> thrown) \<Rightarrow> ('w, 'a) io \<Rightarrow> ('w, 'a) io" where
  "io_map_error g m = io_try m (\<lambda>e. io_throw (g e))"

definition io_result :: "'a result \<Rightarrow> ('w, 'a) io" where
  "io_result r w = (r, w)"

definition io_unless :: "bool \<Rightarrow> thrown \<Rightarrow> ('w, unit) io" where
  "io_unless ok e = io_result (require ok e)"

lemmas io_defs = io_return_def io_throw_def io_bind_def io_try_def io_finally_def io_map_error_def
  io_result_def io_unless_def

section \<open>Outcomes\<close>

lemma io_bind_eq:
  "io_bind m f w = (x, w') \<longleftrightarrow>
     (\<exists>e. m w = (Inl e, w') \<and> x = Inl e) \<or> (\<exists>a w1. m w = (Inr a, w1) \<and> f a w1 = (x, w'))"
  by (auto simp: io_bind_def split: prod.splits sum.splits)

lemma io_return_eq: "io_return a w = (x, w') \<longleftrightarrow> x = Inr a \<and> w' = w"
  by (auto simp: io_return_def)

lemma io_throw_eq: "io_throw e w = (x, w') \<longleftrightarrow> x = Inl e \<and> w' = w"
  by (auto simp: io_throw_def)

lemma io_try_eq:
  "io_try m h w = (x, w') \<longleftrightarrow>
     (\<exists>a. m w = (Inr a, w') \<and> x = Inr a) \<or> (\<exists>e w1. m w = (Inl e, w1) \<and> h e w1 = (x, w'))"
  by (auto simp: io_try_def split: prod.splits sum.splits)

lemma io_result_eq: "io_result r w = (x, w') \<longleftrightarrow> r = x \<and> w' = w"
  by (auto simp: io_result_def)

lemmas io_eqs = io_bind_eq io_return_eq io_throw_eq io_try_eq io_result_eq

section \<open>Reasoning about all outcomes\<close>

text \<open>\<open>io_rel m R\<close>: every run of \<open>m\<close> relates the state before, the outcome and the state after by \<open>R\<close>.\<close>

definition io_rel :: "('w, 'a) io \<Rightarrow> ('w \<Rightarrow> 'a result \<Rightarrow> 'w \<Rightarrow> bool) \<Rightarrow> bool" where
  "io_rel m R \<longleftrightarrow> (\<forall>w. R w (fst (m w)) (snd (m w)))"

lemma io_relD: "io_rel m R \<Longrightarrow> m w = (x, w') \<Longrightarrow> R w x w'"
  unfolding io_rel_def by (metis fst_conv snd_conv)

lemma io_relI: "(\<And>w x w'. m w = (x, w') \<Longrightarrow> R w x w') \<Longrightarrow> io_rel m R"
  by (simp add: io_rel_def)

lemma io_rel_mono: "io_rel m R \<Longrightarrow> (\<And>w x w'. R w x w' \<Longrightarrow> R' w x w') \<Longrightarrow> io_rel m R'"
  by (simp add: io_rel_def)

text \<open>A relation on states that every step of a computation stays in.\<close>

locale state_order =
  fixes le :: "'w \<Rightarrow> 'w \<Rightarrow> bool"
  assumes le_refl: "le w w"
    and le_trans: "le u v \<Longrightarrow> le v w \<Longrightarrow> le u w"
begin

definition stays :: "('w, 'a) io \<Rightarrow> bool" where
  "stays m \<longleftrightarrow> io_rel m (\<lambda>w x w'. le w w')"

lemma staysD: "stays m \<Longrightarrow> m w = (x, w') \<Longrightarrow> le w w'"
  unfolding stays_def by (rule io_relD)

lemma staysI: "(\<And>w x w'. m w = (x, w') \<Longrightarrow> le w w') \<Longrightarrow> stays m"
  unfolding stays_def by (rule io_relI)

lemma stays_return: "stays (io_return a)"
  by (rule staysI) (auto simp: io_return_def le_refl)

lemma stays_throw: "stays (io_throw e)"
  by (rule staysI) (auto simp: io_throw_def le_refl)

lemma stays_result: "stays (io_result r)"
  by (rule staysI) (auto simp: io_result_def le_refl)

lemma stays_unless: "stays (io_unless b e)"
  unfolding io_unless_def by (rule stays_result)

lemma stays_bind: "stays m \<Longrightarrow> (\<And>a. stays (f a)) \<Longrightarrow> stays (io_bind m f)"
  by (rule staysI) (auto simp: io_bind_def split: prod.splits sum.splits dest: staysD intro: le_trans)

lemma stays_try: "stays m \<Longrightarrow> (\<And>e. stays (h e)) \<Longrightarrow> stays (io_try m h)"
  by (rule staysI) (auto simp: io_try_def split: prod.splits sum.splits dest: staysD intro: le_trans)

lemma stays_finally: "stays m \<Longrightarrow> stays f \<Longrightarrow> stays (io_finally m f)"
  by (rule staysI) (auto simp: io_finally_def split: prod.splits sum.splits dest: staysD intro: le_trans)

lemma stays_map_error: "stays m \<Longrightarrow> stays (io_map_error g m)"
  unfolding io_map_error_def by (intro stays_try stays_throw)

lemma stays_if: "(b \<Longrightarrow> stays m) \<Longrightarrow> (\<not> b \<Longrightarrow> stays n) \<Longrightarrow> stays (if b then m else n)"
  by simp

lemma stays_option: "stays m \<Longrightarrow> (\<And>a. stays (f a)) \<Longrightarrow> stays (case x of None \<Rightarrow> m | Some a \<Rightarrow> f a)"
  by (simp split: option.split)

lemmas stays_intros = stays_return stays_throw stays_result stays_unless stays_bind stays_try
  stays_finally stays_map_error stays_if stays_option

end

end
