(* ===== verification/World.thy ===== *)
theory World
  imports Io Utf8 "HOL-Library.Sublist"
begin

text \<open>
  The operating system under the services, as far as the code relies on it: a POSIX file system of
  names and inodes, and the calls of \<open>node:fs/promises\<close> the code makes. Before each call the rest of
  the system may act: the next entry of the schedule changes the file system in any way and may make
  the call fail or a read fall short. A successful call that changes something is logged.
\<close>

section \<open>Files\<close>

text \<open>An absolute path is the list of its components.\<close>

type_synonym abspath = "jstr list"
type_synonym fmode = "12 word"

datatype file_body =
    Regular bytes
  | Directory
  | Symlink jstr
  | Special

record inode =
  ino_body :: file_body
  ino_mode :: fmode

record fsys =
  names :: "(abspath \<times> nat) list"
  inodes :: "(nat \<times> inode) list"
  next_inode :: nat

definition lookup :: "fsys \<Rightarrow> abspath \<Rightarrow> inode option" where
  "lookup fs p = (case map_of (names fs) p of None \<Rightarrow> None | Some i \<Rightarrow> map_of (inodes fs) i)"

definition body_at :: "fsys \<Rightarrow> abspath \<Rightarrow> file_body option" where
  "body_at fs p = (if p = [] then Some Directory else map_option ino_body (lookup fs p))"

definition slash :: code_unit where "slash = cu (CHR ''/'')"
definition dot :: jstr where "dot = js ''.''"
definition dotdot :: jstr where "dotdot = js ''..''"

definition components :: "jstr \<Rightarrow> jstr list" where
  "components s = filter (\<lambda>c. c \<noteq> []) (split_on slash s)"

definition path_text :: "abspath \<Rightarrow> jstr" where
  "path_text p = slash # join_with slash p"

text \<open>Path resolution: \<open>cur\<close> is the directory reached, \<open>rest\<close> what is left of the path; each symbolic link
  followed costs one unit of fuel, and running out is \<open>ELOOP\<close>.\<close>

function walk :: "fsys \<Rightarrow> bool \<Rightarrow> nat \<Rightarrow> abspath \<Rightarrow> jstr list \<Rightarrow> errno + abspath" where
  "walk fs follow fuel cur [] = Inr cur"
| "walk fs follow fuel cur (c # rest) =
     (if c = dot then walk fs follow fuel cur rest
      else if c = dotdot then walk fs follow fuel (butlast cur) rest
      else (case body_at fs (cur @ [c]) of
          None \<Rightarrow> if rest = [] then Inr (cur @ [c]) else Inl ENOENT
        | Some Directory \<Rightarrow> walk fs follow fuel (cur @ [c]) rest
        | Some (Symlink target) \<Rightarrow>
            if rest = [] \<and> \<not> follow then Inr (cur @ [c])
            else (case fuel of
                0 \<Rightarrow> Inl ELOOP
              | Suc n \<Rightarrow> walk fs follow n (if take 1 target = [slash] then [] else cur) (components target @ rest))
        | Some _ \<Rightarrow> if rest = [] then Inr (cur @ [c]) else Inl ENOTDIR))"
  by pat_completeness auto
termination
  by (relation "measures [\<lambda>(fs, follow, fuel, cur, rest). fuel, \<lambda>(fs, follow, fuel, cur, rest). length rest]") auto

definition locate :: "fsys \<Rightarrow> bool \<Rightarrow> abspath \<Rightarrow> errno + abspath" where
  "locate fs follow p = walk fs follow 40 [] p"

section \<open>The world\<close>

record disturbance =
  env_change :: "fsys \<Rightarrow> fsys"
  env_fault :: "errno option"
  env_short :: "nat option"        \<comment> \<open>a read returns at most this many bytes (but at least one)\<close>

text \<open>An event holds the paths the call was given, the name it bound or removed, and inodes.\<close>

datatype event =
    Created abspath abspath nat          \<comment> \<open>path, name, inode\<close>
  | Chmodded nat fmode
  | Wrote nat bytes
  | Synced nat
  | Linked abspath abspath abspath nat "nat option"
      \<comment> \<open>existing path, new path, name, inode, the inode the name had before\<close>
  | Renamed abspath abspath abspath nat "nat option"
  | Removed abspath abspath              \<comment> \<open>path, name\<close>

record world =
  w_fs :: fsys
  w_sched :: "disturbance list"
  w_log :: "event list"
  w_pid :: nat
  w_uuid :: "nat \<Rightarrow> jstr"
  w_uuids_used :: nat
  w_umask :: fmode

type_synonym 'a os = "(world, 'a) io"

definition sys_error :: "errno \<Rightarrow> thrown" where
  "sys_error e = SysError e (js ''system call failed'')"

text \<open>One call: the disturbance first, then the call itself on the file system it finds. The call
  yields an error and no change, or a value, the new file system and the events to log.\<close>

definition syscall :: "(nat option \<Rightarrow> fsys \<Rightarrow> errno + 'a \<times> fsys \<times> event list) \<Rightarrow> 'a os" where
  "syscall f w =
     (let (change, fault, short, sched) =
            (case w_sched w of
               [] \<Rightarrow> (id, None, None, [])
             | d # ds \<Rightarrow> (env_change d, env_fault d, env_short d, ds));
          fs = change (w_fs w);
          w1 = w\<lparr>w_fs := fs, w_sched := sched\<rparr> in
      case fault of
        Some e \<Rightarrow> (Inl (sys_error e), w1)
      | None \<Rightarrow>
          (case f short fs of
             Inl e \<Rightarrow> (Inl (sys_error e), w1)
           | Inr (a, fs', evs) \<Rightarrow> (Inr a, w1\<lparr>w_fs := fs', w_log := w_log w1 @ evs\<rparr>)))"

definition observe :: "(nat option \<Rightarrow> fsys \<Rightarrow> errno + 'a) \<Rightarrow> 'a os" where
  "observe f = syscall (\<lambda>short fs. case f short fs of Inl e \<Rightarrow> Inl e | Inr a \<Rightarrow> Inr (a, fs, []))"

section \<open>Calls that observe\<close>

definition existing :: "fsys \<Rightarrow> bool \<Rightarrow> abspath \<Rightarrow> errno + abspath \<times> file_body" where
  "existing fs follow p =
     bind_res (locate fs follow p) (\<lambda>q.
       case body_at fs q of None \<Rightarrow> Inl ENOENT | Some b \<Rightarrow> Inr (q, b))"

definition os_realpath :: "abspath \<Rightarrow> abspath os" where
  "os_realpath p = observe (\<lambda>_ fs. map_sum id fst (existing fs True p))"

record stats =
  st_body :: file_body
  st_mode :: fmode

text \<open>Only the sizes of regular files are read.\<close>

fun st_size :: "stats \<Rightarrow> nat" where
  "st_size st = (case st_body st of Regular b \<Rightarrow> length b | _ \<Rightarrow> 0)"

definition isFile :: "file_body \<Rightarrow> bool" where
  "isFile b = (case b of Regular _ \<Rightarrow> True | _ \<Rightarrow> False)"

definition isDirectory :: "file_body \<Rightarrow> bool" where
  "isDirectory b = (b = Directory)"

definition isSymbolicLink :: "file_body \<Rightarrow> bool" where
  "isSymbolicLink b = (case b of Symlink _ \<Rightarrow> True | _ \<Rightarrow> False)"

definition os_lstat :: "abspath \<Rightarrow> stats os" where
  "os_lstat p = observe (\<lambda>_ fs.
     bind_res (existing fs False p) (\<lambda>(q, b).
       Inr \<lparr>st_body = b, st_mode = (case lookup fs q of Some n \<Rightarrow> ino_mode n | None \<Rightarrow> 0)\<rparr>))"

text \<open>A handle is an inode number; the root directory has none of its own and gets 0.\<close>

definition os_open_read :: "abspath \<Rightarrow> nat os" where
  "os_open_read p = observe (\<lambda>_ fs.
     bind_res (existing fs True p) (\<lambda>(q, b).
       Inr (case map_of (names fs) q of Some i \<Rightarrow> i | None \<Rightarrow> 0)))"

definition handle_inode :: "fsys \<Rightarrow> nat \<Rightarrow> inode" where
  "handle_inode fs h = (case map_of (inodes fs) h of Some n \<Rightarrow> n | None \<Rightarrow> \<lparr>ino_body = Directory, ino_mode = 0\<rparr>)"

definition handle_bytes :: "fsys \<Rightarrow> nat \<Rightarrow> bytes" where
  "handle_bytes fs h = (case ino_body (handle_inode fs h) of Regular b \<Rightarrow> b | _ \<Rightarrow> [])"

definition os_fstat :: "nat \<Rightarrow> stats os" where
  "os_fstat h = observe (\<lambda>_ fs. Inr \<lparr>st_body = ino_body (handle_inode fs h), st_mode = ino_mode (handle_inode fs h)\<rparr>)"

definition os_read :: "nat \<Rightarrow> nat \<Rightarrow> nat \<Rightarrow> bytes os" where
  "os_read h len position = observe (\<lambda>short fs.
     if ino_body (handle_inode fs h) = Directory then Inl EISDIR
     else Inr (take (case short of None \<Rightarrow> len | Some k \<Rightarrow> min len (max 1 k))
                 (drop position (handle_bytes fs h))))"

definition os_readFile :: "nat \<Rightarrow> bytes os" where
  "os_readFile h = observe (\<lambda>_ fs.
     if ino_body (handle_inode fs h) = Directory then Inl EISDIR else Inr (handle_bytes fs h))"

definition os_close :: "nat \<Rightarrow> unit os" where
  "os_close h = observe (\<lambda>_ fs. Inr ())"

text \<open>A directory entry: its name and what kind of file it is.\<close>

type_synonym dirent = "jstr \<times> file_body"

definition children :: "fsys \<Rightarrow> abspath \<Rightarrow> dirent list" where
  "children fs p =
     map (\<lambda>(q, i). (last q, case map_of (inodes fs) i of Some n \<Rightarrow> ino_body n | None \<Rightarrow> Special))
       (filter (\<lambda>(q, i). q \<noteq> [] \<and> butlast q = p) (names fs))"

definition os_readdir :: "abspath \<Rightarrow> dirent list os" where
  "os_readdir p = observe (\<lambda>_ fs.
     bind_res (existing fs True p) (\<lambda>(q, b).
       if b = Directory then Inr (children fs q) else Inl ENOTDIR))"

section \<open>Calls that change files\<close>

definition taken :: "fsys \<Rightarrow> abspath \<Rightarrow> bool" where
  "taken fs p \<longleftrightarrow> p = [] \<or> map_of (names fs) p \<noteq> None"

definition add_name :: "abspath \<Rightarrow> nat \<Rightarrow> fsys \<Rightarrow> fsys" where
  "add_name p i fs = fs\<lparr>names := (p, i) # names fs\<rparr>"

definition del_name :: "abspath \<Rightarrow> fsys \<Rightarrow> fsys" where
  "del_name p fs = fs\<lparr>names := filter (\<lambda>(q, i). q \<noteq> p) (names fs)\<rparr>"

definition set_inode :: "nat \<Rightarrow> inode \<Rightarrow> fsys \<Rightarrow> fsys" where
  "set_inode i n fs = fs\<lparr>inodes := (i, n) # filter (\<lambda>(k, m). k \<noteq> i) (inodes fs)\<rparr>"

text \<open>\<open>open(path, 'wx', mode)\<close>: exclusive creation, the mode cut by the umask.\<close>

definition os_create :: "abspath \<Rightarrow> fmode \<Rightarrow> fmode \<Rightarrow> nat os" where
  "os_create p mode umask = syscall (\<lambda>_ fs.
     bind_res (locate fs False p) (\<lambda>q.
       if taken fs q then Inl EEXIST
       else (let i = next_inode fs in
         Inr (i, (add_name q i (set_inode i \<lparr>ino_body = Regular [], ino_mode = and mode (not umask)\<rparr> fs))
                   \<lparr>next_inode := Suc i\<rparr>, [Created p q i]))))"

definition os_chmod :: "nat \<Rightarrow> fmode \<Rightarrow> unit os" where
  "os_chmod h mode = syscall (\<lambda>_ fs.
     Inr ((), set_inode h ((handle_inode fs h)\<lparr>ino_mode := mode\<rparr>) fs, [Chmodded h mode]))"

text \<open>\<open>handle.writeFile(content)\<close> on a newly created file.\<close>

definition os_writeFile :: "nat \<Rightarrow> bytes \<Rightarrow> unit os" where
  "os_writeFile h content = syscall (\<lambda>_ fs.
     Inr ((), set_inode h ((handle_inode fs h)\<lparr>ino_body := Regular content\<rparr>) fs, [Wrote h content]))"

definition os_sync :: "nat \<Rightarrow> unit os" where
  "os_sync h = syscall (\<lambda>_ fs. Inr ((), fs, [Synced h]))"

definition os_link :: "abspath \<Rightarrow> abspath \<Rightarrow> unit os" where
  "os_link src dst = syscall (\<lambda>_ fs.
     bind_res (existing fs False src) (\<lambda>(p, b).
     bind_res (locate fs False dst) (\<lambda>q.
       if b = Directory then Inl EPERM
       else if taken fs q then Inl EEXIST
       else (case map_of (names fs) p of
           None \<Rightarrow> Inl ENOENT
         | Some i \<Rightarrow> Inr ((), add_name q i fs, [Linked src dst q i (map_of (names fs) q)])))))"

definition move_names :: "abspath \<Rightarrow> abspath \<Rightarrow> fsys \<Rightarrow> fsys" where
  "move_names p q fs = fs\<lparr>names :=
     map (\<lambda>(r, i). (if prefix p r then q @ drop (length p) r else r, i)) (filter (\<lambda>(r, i). r \<noteq> q) (names fs))\<rparr>"

text \<open>The inode moved and the one its new name had before.\<close>

definition rename_located ::
    "abspath \<Rightarrow> file_body \<Rightarrow> abspath \<Rightarrow> fsys \<Rightarrow> errno + (nat \<times> nat option) \<times> fsys" where
  "rename_located p b q fs =
     (case map_of (names fs) p of
        None \<Rightarrow> Inl (EOther (js ''EBUSY''))
      | Some i \<Rightarrow>
          if map_of (names fs) q = Some i then Inr ((i, Some i), fs)
          else if b = Directory \<and> prefix p q then Inl (EOther (js ''EINVAL''))
          else if b \<noteq> Directory \<and> body_at fs q = Some Directory then Inl EISDIR
          else if b = Directory \<and> body_at fs q \<notin> {None, Some Directory} then Inl ENOTDIR
          else if b = Directory \<and> children fs q \<noteq> [] then Inl (EOther (js ''ENOTEMPTY''))
          else Inr ((i, map_of (names fs) q), move_names p q fs))"

definition os_rename :: "abspath \<Rightarrow> abspath \<Rightarrow> unit os" where
  "os_rename src dst = syscall (\<lambda>_ fs.
     bind_res (existing fs False src) (\<lambda>(p, b).
     bind_res (locate fs False dst) (\<lambda>q.
       map_sum id (\<lambda>((i, prior), fs'). ((), fs', [Renamed src dst q i prior])) (rename_located p b q fs))))"

text \<open>\<open>rm(path, { force: true })\<close>\<close>

definition os_rm_force :: "abspath \<Rightarrow> unit os" where
  "os_rm_force p = syscall (\<lambda>_ fs.
     case existing fs False p of
       Inl ENOENT \<Rightarrow> Inr ((), fs, [])
     | Inl e \<Rightarrow> Inl e
     | Inr (q, b) \<Rightarrow> if b = Directory then Inl EISDIR else Inr ((), del_name q fs, [Removed p q]))"

definition randomUUID :: "jstr os" where
  "randomUUID w = (Inr (w_uuid w (w_uuids_used w)), w\<lparr>w_uuids_used := Suc (w_uuids_used w)\<rparr>)"

definition process_pid :: "nat os" where
  "process_pid w = (Inr (w_pid w), w)"

definition process_umask :: "fmode os" where
  "process_umask w = (Inr (w_umask w), w)"

section \<open>Laws of the calls\<close>

text \<open>A world where nothing else acts.\<close>

definition calm :: "world \<Rightarrow> bool" where
  "calm w \<longleftrightarrow> w_sched w = []"

lemma syscall_calm:
  "calm w \<Longrightarrow> syscall f w =
     (case f None (w_fs w) of
        Inl e \<Rightarrow> (Inl (sys_error e), w)
      | Inr (a, fs', evs) \<Rightarrow> (Inr a, w\<lparr>w_fs := fs', w_log := w_log w @ evs\<rparr>))"
  by (simp add: syscall_def calm_def split: sum.splits)

lemma observe_calm:
  "calm w \<Longrightarrow> observe f w = (case f None (w_fs w) of Inl e \<Rightarrow> (Inl (sys_error e), w) | Inr a \<Rightarrow> (Inr a, w))"
  by (simp add: observe_def syscall_calm split: sum.splits)

text \<open>What a call logs is what the call itself decided on the file system it found.\<close>

lemma syscall_log:
  "syscall f w = (x, w') \<Longrightarrow>
     (\<exists>e. x = Inl e) \<and> w_log w' = w_log w \<or>
     (\<exists>a short fs fs' evs. x = Inr a \<and> f short fs = Inr (a, fs', evs) \<and> w_log w' = w_log w @ evs \<and> w_fs w' = fs')"
  by (auto simp: syscall_def Let_def split: list.splits option.splits sum.splits prod.splits)

lemma observe_log: "observe f w = (x, w') \<Longrightarrow> w_log w' = w_log w"
  by (auto simp: observe_def split: sum.splits dest!: syscall_log)

text \<open>Canonical paths: every proper prefix is a directory and no component is special.\<close>

definition plain :: "jstr \<Rightarrow> bool" where
  "plain c \<longleftrightarrow> c \<noteq> [] \<and> c \<noteq> dot \<and> c \<noteq> dotdot \<and> slash \<notin> set c"

definition is_dir_path :: "fsys \<Rightarrow> abspath \<Rightarrow> bool" where
  "is_dir_path fs p \<longleftrightarrow> list_all plain p \<and> (\<forall>q. prefix q p \<longrightarrow> body_at fs q = Some Directory)"

lemma walk_dir:
  assumes "list_all plain q" "\<And>r. prefix r (cur @ q) \<Longrightarrow> body_at fs r = Some Directory"
  shows "walk fs follow fuel cur (q @ rest) = walk fs follow fuel (cur @ q) rest"
  using assms
proof (induction q arbitrary: cur)
  case (Cons c q)
  have "body_at fs (cur @ [c]) = Some Directory" using Cons.prems(2) [of "cur @ [c]"] by simp
  moreover have "walk fs follow fuel (cur @ [c]) (q @ rest) = walk fs follow fuel ((cur @ [c]) @ q) rest"
    using Cons.prems by (intro Cons.IH) simp_all
  ultimately show ?case using Cons.prems(1) by (simp add: plain_def)
qed simp

lemma locate_dir: "is_dir_path fs p \<Longrightarrow> locate fs follow p = Inr p"
  using walk_dir [of p "[]" fs follow 40 "[]"] by (simp add: locate_def is_dir_path_def)

lemma locate_child:
  assumes "is_dir_path fs p" "plain c"
  shows "locate fs False (p @ [c]) = Inr (p @ [c])"
proof -
  have "locate fs False (p @ [c]) = walk fs False 40 p [c]"
    using walk_dir [of p "[]" fs False 40 "[c]"] assms(1) by (simp add: locate_def is_dir_path_def)
  with assms(2) show ?thesis by (simp add: plain_def split: option.splits file_body.splits)
qed

lemma locate_child_follow:
  assumes "is_dir_path fs p" "plain c" "body_at fs (p @ [c]) = Some (Regular b)"
  shows "locate fs True (p @ [c]) = Inr (p @ [c])"
proof -
  have "locate fs True (p @ [c]) = walk fs True 40 p [c]"
    using walk_dir [of p "[]" fs True 40 "[c]"] assms(1) by (simp add: locate_def is_dir_path_def)
  with assms(2,3) show ?thesis by (simp add: plain_def)
qed

text \<open>A path that ends in a proper name is located at a name that ends in it.\<close>

definition names_entry :: "abspath \<Rightarrow> bool" where
  "names_entry p \<longleftrightarrow> p \<noteq> [] \<and> last p \<noteq> dot \<and> last p \<noteq> dotdot"

lemma walk_name:
  "walk fs follow fuel cur rest = Inr q \<Longrightarrow> \<not> follow \<Longrightarrow> names_entry rest \<Longrightarrow> q \<noteq> [] \<and> last q = last rest"
proof (induction fs follow fuel cur rest rule: walk.induct)
  case (2 fs follow fuel cur c rest)
  show ?case
  proof (cases "rest = []")
    case True
    with "2.prems" show ?thesis
      by (auto simp: names_entry_def split: option.splits file_body.splits)
  next
    case False
    then have n: "names_entry rest" "names_entry (cs @ rest)" for cs using "2.prems"(3) by (auto simp: names_entry_def)
    show ?thesis
    proof (cases "c = dot \<or> c = dotdot")
      case True
      with "2.prems" "2.IH"(1,2) n False show ?thesis by (auto split: if_splits)
    next
      case c: False
      show ?thesis
      proof (cases "body_at fs (cur @ [c])")
        case None
        with c False "2.prems" show ?thesis by simp
      next
        case (Some b)
        show ?thesis
        proof (cases b)
          case Directory
          with Some c False "2.prems" "2.IH"(3) n show ?thesis by simp
        next
          case (Symlink target)
          with Some c False "2.prems" obtain m where m: "fuel = Suc m" by (auto split: nat.splits)
          with Symlink Some c False "2.prems" n have "last (components target @ rest) = last rest" by simp
          with m Symlink Some c False "2.prems" "2.IH"(4) n show ?thesis by simp
        qed (use Some c False "2.prems" in simp_all)
      qed
    qed
  qed
qed (simp add: names_entry_def)

lemma locate_name: "locate fs False p = Inr q \<Longrightarrow> names_entry p \<Longrightarrow> last q = last p"
  unfolding locate_def using walk_name by blast

lemma existing_name: "existing fs False p = Inr (q, b) \<Longrightarrow> names_entry p \<Longrightarrow> last q = last p"
  by (auto simp: existing_def result_simps split: sum.splits option.splits dest: locate_name)

section \<open>Logs\<close>

text \<open>The log grew by events of a kind.\<close>

definition only :: "(event \<Rightarrow> bool) \<Rightarrow> world \<Rightarrow> world \<Rightarrow> bool" where
  "only P w w' \<longleftrightarrow> (\<exists>evs. w_log w' = w_log w @ evs \<and> list_all P evs)"

interpretation only: state_order "only P" for P
proof
  show "only P u v \<Longrightarrow> only P v w \<Longrightarrow> only P u w" for u v w
    unfolding only_def by fastforce
qed (simp add: only_def)

lemma only_mono: "only P w w' \<Longrightarrow> (\<And>ev. P ev \<Longrightarrow> Q ev) \<Longrightarrow> only Q w w'"
  by (auto simp: only_def list_all_iff)

text \<open>The log did not change at all.\<close>

definition same_log :: "world \<Rightarrow> world \<Rightarrow> bool" where
  "same_log w w' \<longleftrightarrow> w_log w' = w_log w"

interpretation same_log: state_order same_log
  by unfold_locales (simp_all add: same_log_def)

lemma stays_observe: "same_log.stays (observe f)"
  by (rule same_log.staysI) (auto simp: same_log_def dest: observe_log)

lemma observers_stay:
  "same_log.stays (os_realpath p)" "same_log.stays (os_lstat p)" "same_log.stays (os_open_read p)"
  "same_log.stays (os_fstat h)" "same_log.stays (os_read h n pos)" "same_log.stays (os_readFile h)"
  "same_log.stays (os_close h)" "same_log.stays (os_readdir p)"
  by (simp_all add: os_realpath_def os_lstat_def os_open_read_def os_fstat_def os_read_def os_readFile_def
      os_close_def os_readdir_def stays_observe)

lemma pure_stay:
  "same_log.stays randomUUID" "same_log.stays process_pid" "same_log.stays process_umask"
  by (rule same_log.staysI, auto simp: same_log_def randomUUID_def process_pid_def process_umask_def)+

text \<open>What each call that changes files logs.\<close>

lemma os_create_log:
  assumes "os_create p m u w = (x, w')" "names_entry p"
  shows "case x of Inl e \<Rightarrow> w_log w' = w_log w | Inr h \<Rightarrow> \<exists>q. last q = last p \<and> w_log w' = w_log w @ [Created p q h]"
proof -
  have "last q = last p" if "locate fs False p = Inr q" for fs q using locate_name [OF that assms(2)] .
  with assms(1) show ?thesis
    by (auto simp: os_create_def result_simps Let_def split: sum.splits if_splits dest!: syscall_log)
qed

lemma os_chmod_log:
  "os_chmod h m w = (x, w') \<Longrightarrow>
     w_log w' = w_log w @ (case x of Inl e \<Rightarrow> [] | Inr _ \<Rightarrow> [Chmodded h m])"
  by (auto simp: os_chmod_def dest!: syscall_log)

lemma os_writeFile_log:
  "os_writeFile h c w = (x, w') \<Longrightarrow> w_log w' = w_log w @ (case x of Inl e \<Rightarrow> [] | Inr _ \<Rightarrow> [Wrote h c])"
  by (auto simp: os_writeFile_def dest!: syscall_log)

lemma os_sync_log:
  "os_sync h w = (x, w') \<Longrightarrow> w_log w' = w_log w @ (case x of Inl e \<Rightarrow> [] | Inr _ \<Rightarrow> [Synced h])"
  by (auto simp: os_sync_def dest!: syscall_log)

lemma os_link_log:
  "os_link p q w = (x, w') \<Longrightarrow>
     case x of Inl e \<Rightarrow> w_log w' = w_log w | Inr _ \<Rightarrow> \<exists>r i. w_log w' = w_log w @ [Linked p q r i None]"
  by (auto simp: os_link_def result_simps taken_def split: sum.splits if_splits option.splits dest!: syscall_log)

lemma os_rename_log:
  "os_rename p q w = (x, w') \<Longrightarrow>
     case x of Inl e \<Rightarrow> w_log w' = w_log w | Inr _ \<Rightarrow> \<exists>r i prior. w_log w' = w_log w @ [Renamed p q r i prior]"
  by (auto simp: os_rename_def result_simps map_sum_Inr split: prod.splits sum.splits dest!: syscall_log)

lemma os_rm_log:
  assumes "os_rm_force p w = (x, w')" "names_entry p"
  shows "w_log w' = w_log w \<or> (\<exists>q. last q = last p \<and> w_log w' = w_log w @ [Removed p q])"
proof -
  from assms(1) have "w_log w' = w_log w \<or> (\<exists>fs q b. existing fs False p = Inr (q, b) \<and> w_log w' = w_log w @ [Removed p q])"
    by (auto simp: os_rm_force_def split: sum.splits errno.splits prod.splits if_splits dest!: syscall_log) blast
  with existing_name [OF _ assms(2)] show ?thesis by blast
qed

lemma same_log_only: "same_log.stays m \<Longrightarrow> only.stays P m"
  by (rule only.staysI) (auto simp: only_def same_log_def dest: same_log.staysD)

section \<open>Names after a rename\<close>

lemma map_of_move_names:
  assumes "\<forall>r \<in> fst ` set (names fs). prefix p r \<longrightarrow> r = p" "p \<noteq> q"
  shows "map_of (names (move_names p q fs)) r =
     (if r = q then map_of (names fs) p else if r = p then None else map_of (names fs) r)"
proof -
  have "map_of (map (\<lambda>(r, i). (if prefix p r then q @ drop (length p) r else r, i)) (filter (\<lambda>(r, i). r \<noteq> q) ns)) r =
     (if r = q then map_of ns p else if r = p then None else map_of ns r)"
    if "\<forall>r \<in> fst ` set ns. prefix p r \<longrightarrow> r = p" for ns :: "(abspath \<times> nat) list" and r
    using that
  proof (induction ns)
    case (Cons ri ns)
    obtain t i where ri: "ri = (t, i)" by (cases ri)
    then have t: "prefix p t \<longleftrightarrow> t = p" using Cons.prems by auto
    show ?case
    proof (cases "t = q \<or> t = p")
      case True
      with Cons t assms(2) show ?thesis by (cases "t = q") (simp_all add: ri)
    next
      case False
      then have *: "t \<noteq> q" "t \<noteq> p" "q \<noteq> t" "p \<noteq> t" "\<not> prefix p t" using t by auto
      have "\<forall>r \<in> fst ` set ns. prefix p r \<longrightarrow> r = p" using Cons.prems by simp
      note IH = Cons.IH [OF this]
      show ?thesis using IH assms(2) by (cases "r = q"; cases "r = p"; cases "r = t") (simp_all add: ri *)
    qed
  qed simp
  with assms(1) show ?thesis by (simp add: move_names_def)
qed

end
