(* ===== verification/FsText.thy ===== *)
theory FsText
  imports Contracts Codec World
begin

text \<open>
  \<open>packages/filesystem/src/index.ts\<close>, the parts that compute without touching files: limits, request
  paths, containment, error mapping, validation of request fields, classification, cursors and the
  bounded result list of a search.
\<close>

section \<open>Limits and errors\<close>

definition DEFAULT_READ_BYTES :: nat where "DEFAULT_READ_BYTES = 64 * 1024"
definition MAX_READ_BYTES :: nat where "MAX_READ_BYTES = 1024 * 1024"
definition DEFAULT_LIST_LIMIT :: nat where "DEFAULT_LIST_LIMIT = 100"
definition MAX_LIST_LIMIT :: nat where "MAX_LIST_LIMIT = 1000"
definition DEFAULT_SEARCH_RESULTS :: nat where "DEFAULT_SEARCH_RESULTS = 100"
definition MAX_SEARCH_RESULTS :: nat where "MAX_SEARCH_RESULTS = 1000"
definition DEFAULT_SEARCH_OUTPUT_BYTES :: nat where "DEFAULT_SEARCH_OUTPUT_BYTES = 256 * 1024"
definition MAX_SEARCH_OUTPUT_BYTES :: nat where "MAX_SEARCH_OUTPUT_BYTES = 1024 * 1024"
definition DEFAULT_SEARCH_DEPTH :: nat where "DEFAULT_SEARCH_DEPTH = 20"
definition MAX_SEARCH_DEPTH :: nat where "MAX_SEARCH_DEPTH = 100"
definition DEFAULT_SEARCH_FILE_BYTES :: nat where "DEFAULT_SEARCH_FILE_BYTES = 1024 * 1024"
definition MAX_SEARCH_FILE_BYTES :: nat where "MAX_SEARCH_FILE_BYTES = 8 * 1024 * 1024"
definition MAX_SEARCH_ENTRIES :: nat where "MAX_SEARCH_ENTRIES = 50000"
definition PREVIEW_CHARACTERS :: nat where "PREVIEW_CHARACTERS = 300"
definition MAX_WRITE_BYTES :: nat where "MAX_WRITE_BYTES = 16 * 1024 * 1024"
definition MAX_PATCH_EDITS :: nat where "MAX_PATCH_EDITS = 256"
definition HASH_CHUNK_BYTES :: nat where "HASH_CHUNK_BYTES = 64 * 1024"
definition MAX_SAFE_INTEGER :: nat where "MAX_SAFE_INTEGER = 9007199254740991"

definition fs_error :: "string \<Rightarrow> jstr option \<Rightarrow> jstr \<Rightarrow> thrown" where
  "fs_error code path msg = FilesystemError (js code) path msg None"

definition mapFilesystemError :: "jstr \<Rightarrow> thrown \<Rightarrow> thrown" where
  "mapFilesystemError path error =
     (if hasErrnoCode error ENOENT \<or> hasErrnoCode error ENOTDIR
      then fs_error ''PATH_NOT_FOUND'' (Some path) (js ''path was not found: '' @ path)
      else if hasErrnoCode error EACCES \<or> hasErrnoCode error EPERM
      then fs_error ''PATH_INACCESSIBLE'' (Some path) (js ''path is inaccessible: '' @ path)
      else fs_error ''FILESYSTEM_FAILURE'' (Some path)
             (if is_error error then error_message error else js ''filesystem operation failed for '' @ path))"

definition mapWriteFailure :: "jstr \<Rightarrow> thrown \<Rightarrow> thrown" where
  "mapWriteFailure path error =
     (case error of
        FilesystemError _ _ _ _ \<Rightarrow> error
      | _ \<Rightarrow>
          if hasErrnoCode error EACCES \<or> hasErrnoCode error EPERM
          then fs_error ''PATH_INACCESSIBLE'' (Some path) (js ''write target is inaccessible: '' @ path)
          else fs_error ''WRITE_FAILED'' (Some path)
                 (if is_error error then error_message error else js ''atomic write failed for '' @ path))"

section \<open>Request fields\<close>

fun is_safe_integer :: "jsnum \<Rightarrow> bool" where
  "is_safe_integer (JInt i) \<longleftrightarrow> \<bar>i\<bar> \<le> int MAX_SAFE_INTEGER"
| "is_safe_integer (JDec _) \<longleftrightarrow> False"

fun num_int :: "jsnum \<Rightarrow> int" where
  "num_int (JInt i) = i"
| "num_int (JDec _) = 0"

definition boundedInteger :: "jsnum \<Rightarrow> string \<Rightarrow> nat \<Rightarrow> nat \<Rightarrow> nat result" where
  "boundedInteger v name minimum maximum =
     (if \<not> is_safe_integer v \<or> num_int v < int minimum \<or> int maximum < num_int v
      then Inl (fs_error ''INVALID_REQUEST'' None
             (js name @ js '' must be an integer between '' @ js_nat minimum @ js '' and '' @ js_nat maximum))
      else Inr (nat (num_int v)))"

definition validateSearchString :: "jstr \<Rightarrow> string \<Rightarrow> nat \<Rightarrow> nat \<Rightarrow> jstr result" where
  "validateSearchString s name minimum maximum =
     (if length s < minimum \<or> maximum < length s \<or> 0 \<in> set s
      then Inl (fs_error ''INVALID_REQUEST'' None
             (js name @ js '' length must be between '' @ js_nat minimum @ js '' and '' @ js_nat maximum))
      else Inr s)"

definition is_hex_unit :: "code_unit \<Rightarrow> bool" where
  "is_hex_unit u \<longleftrightarrow> hex_value u \<noteq> None"

definition is_sha256 :: "jstr \<Rightarrow> bool" where
  "is_sha256 s \<longleftrightarrow> length s = 64 \<and> list_all is_hex_unit s"

text \<open>\<open>toLowerCase\<close> on hexadecimal digits.\<close>

definition lower_unit :: "code_unit \<Rightarrow> code_unit" where
  "lower_unit u = (if 65 \<le> unat u \<and> unat u \<le> 90 then u + 32 else u)"

text \<open>\<open>expectedSha256\<close> of a write: \<open>None\<close> when undefined, \<open>Some None\<close> for \<open>null\<close> (create only).\<close>

definition normalizeExpectedSha256 :: "jstr option option \<Rightarrow> jstr option option result" where
  "normalizeExpectedSha256 v =
     (case v of
        Some (Some s) \<Rightarrow>
          if is_sha256 s then Inr (Some (Some (map lower_unit s)))
          else Inl (fs_error ''INVALID_REQUEST'' None
                 (js ''expectedSha256 must be null or a 64-character hexadecimal SHA-256 digest''))
      | _ \<Rightarrow> Inr v)"

definition normalizeRequiredSha256 :: "json \<Rightarrow> string \<Rightarrow> jstr result" where
  "normalizeRequiredSha256 v name =
     (case v of
        JStr s \<Rightarrow>
          if is_sha256 s then Inr (map lower_unit s)
          else Inl (fs_error ''INVALID_REQUEST'' None (js name @ js '' must be a 64-character hexadecimal SHA-256 digest''))
      | _ \<Rightarrow> Inl (fs_error ''INVALID_REQUEST'' None (js name @ js '' must be a 64-character hexadecimal SHA-256 digest'')))"

record FilesystemPatchEdit =
  oldText :: jstr
  newText :: jstr

definition patch_edit :: "nat \<Rightarrow> json \<Rightarrow> FilesystemPatchEdit result" where
  "patch_edit index edit =
     (case (json_get (js ''oldText'') edit, json_get (js ''newText'') edit) of
        (Some (JStr old), Some (JStr new)) \<Rightarrow>
          if length old = 0 \<or> 0 \<in> set old \<or> 0 \<in> set new
          then Inl (fs_error ''INVALID_REQUEST'' None (js ''edits['' @ js_nat index
                 @ js ''] must contain non-empty NUL-free oldText and NUL-free string newText''))
          else Inr \<lparr>oldText = old, newText = new\<rparr>
      | _ \<Rightarrow> Inl (fs_error ''INVALID_REQUEST'' None (js ''edits['' @ js_nat index
                 @ js ''] must contain non-empty NUL-free oldText and NUL-free string newText'')))"

definition normalizePatchEdits :: "json \<Rightarrow> FilesystemPatchEdit list result" where
  "normalizePatchEdits v =
     (case v of
        JArr edits \<Rightarrow>
          if edits = [] \<or> MAX_PATCH_EDITS < length edits
          then Inl (fs_error ''INVALID_REQUEST'' None
                 (js ''edits must contain between 1 and '' @ js_nat MAX_PATCH_EDITS @ js '' entries''))
          else map_res (\<lambda>(index, edit). patch_edit index edit) (enumerate 0 edits)
      | _ \<Rightarrow> Inl (fs_error ''INVALID_REQUEST'' None
                 (js ''edits must contain between 1 and '' @ js_nat MAX_PATCH_EDITS @ js '' entries'')))"

section \<open>Paths\<close>

definition posix_isAbsolute :: "jstr \<Rightarrow> bool" where
  "posix_isAbsolute s = (take 1 s = [slash])"

definition is_letter :: "code_unit \<Rightarrow> bool" where
  "is_letter u \<longleftrightarrow> 65 \<le> unat u \<and> unat u \<le> 90 \<or> 97 \<le> unat u \<and> unat u \<le> 122"

fun win32_isAbsolute :: "jstr \<Rightarrow> bool" where
  "win32_isAbsolute (a # b # c # _) \<longleftrightarrow>
     a = slash \<or> a = backslash \<or> is_letter a \<and> b = cu CHR '':'' \<and> (c = slash \<or> c = backslash)"
| "win32_isAbsolute (a # _) \<longleftrightarrow> a = slash \<or> a = backslash"
| "win32_isAbsolute [] \<longleftrightarrow> False"

definition normalizeRelativePath :: "jstr \<Rightarrow> bool \<Rightarrow> jstr result" where
  "normalizeRelativePath input allowRoot =
     (if 0 \<in> set input
      then Inl (fs_error ''INVALID_PATH'' None (js ''path must be a NUL-free string''))
      else if posix_isAbsolute input \<or> win32_isAbsolute input
      then Inl (fs_error ''PATH_OUTSIDE_WORKSPACE'' (Some input) (js ''absolute paths are not allowed''))
      else (let portable = map (\<lambda>u. if u = backslash then slash else u) input;
                segments = filter (\<lambda>segment. segment \<noteq> [] \<and> segment \<noteq> dot) (split_on slash portable) in
        if dotdot \<in> set segments
        then Inl (fs_error ''PATH_OUTSIDE_WORKSPACE'' (Some input) (js ''path traversal is not allowed''))
        else if segments = []
        then (if allowRoot then Inr dot
              else Inl (fs_error ''INVALID_PATH'' (Some input) (js ''file path must not be empty'')))
        else Inr (join_with slash segments)))"

definition joinPortable :: "jstr \<Rightarrow> jstr \<Rightarrow> jstr" where
  "joinPortable base name = (if base = dot then name else base @ slash # name)"

text \<open>\<open>posix.dirname\<close> and \<open>basename\<close> of a normalized relative path.\<close>

definition dirname :: "jstr \<Rightarrow> jstr" where
  "dirname path = (case butlast (split_on slash path) of [] \<Rightarrow> dot | cs \<Rightarrow> join_with slash cs)"

definition basename :: "jstr \<Rightarrow> jstr" where
  "basename path = last (split_on slash path)"

text \<open>\<open>resolve(root, ...segments)\<close> and \<open>relative(from, to)\<close> on absolute paths.\<close>

fun resolve_segments :: "abspath \<Rightarrow> jstr list \<Rightarrow> abspath" where
  "resolve_segments cur [] = cur"
| "resolve_segments cur (c # cs) =
     (if c = [] \<or> c = dot then resolve_segments cur cs
      else if c = dotdot then resolve_segments (butlast cur) cs
      else resolve_segments (cur @ [c]) cs)"

fun strip_common :: "abspath \<Rightarrow> abspath \<Rightarrow> abspath \<times> abspath" where
  "strip_common (a # as) (b # bs) = (if a = b then strip_common as bs else (a # as, b # bs))"
| "strip_common as bs = (as, bs)"

definition relative_path :: "abspath \<Rightarrow> abspath \<Rightarrow> jstr" where
  "relative_path from to =
     (let (up, down) = strip_common from to in join_with slash (map (\<lambda>_. dotdot) up @ down))"

definition isSameOrDescendant :: "abspath \<Rightarrow> abspath \<Rightarrow> bool" where
  "isSameOrDescendant root candidate =
     (let fromRoot = relative_path root candidate in
      fromRoot = [] \<or> fromRoot \<noteq> dotdot \<and> \<not> startsWith fromRoot (dotdot @ [slash]) \<and> \<not> posix_isAbsolute fromRoot)"

definition samePath :: "jstr \<Rightarrow> jstr \<Rightarrow> bool" where
  "samePath left right = (left = right)"

section \<open>Content\<close>

datatype FileClassification = TextFile | BinaryFile

definition classifyBuffer :: "bytes \<Rightarrow> FileClassification" where
  "classifyBuffer buffer =
     (if 0 \<in> set buffer then BinaryFile
      else (case utf8_decode buffer of Some _ \<Rightarrow> TextFile | None \<Rightarrow> BinaryFile))"

definition decodeUtf8 :: "bytes \<Rightarrow> jstr result" where
  "decodeUtf8 buffer =
     (case utf8_decode buffer of
        Some s \<Rightarrow> Inr s
      | None \<Rightarrow> Inl (TypeError (js ''The encoded data was not valid for encoding utf-8'')))"

datatype FileEntryType = EntryFile | EntryDirectory | EntrySymlink | EntryOther

definition direntType :: "file_body \<Rightarrow> FileEntryType" where
  "direntType d =
     (if isFile d then EntryFile else if isDirectory d then EntryDirectory
      else if isSymbolicLink d then EntrySymlink else EntryOther)"

section \<open>Cursors\<close>

record ListCursor =
  cursor_path :: jstr
  cursor_after :: jstr

definition cursor_json :: "ListCursor \<Rightarrow> json" where
  "cursor_json c = JObj [(js ''version'', JNum (JInt 1)), (js ''path'', JStr (cursor_path c)),
     (js ''after'', JStr (cursor_after c))]"

definition encodeListCursor :: "ListCursor \<Rightarrow> jstr" where
  "encodeListCursor c = base64url_encode (utf8_encode (JSON_stringify (cursor_json c)))"

definition decodeListCursor :: "jstr \<Rightarrow> jstr \<Rightarrow> ListCursor result" where
  "decodeListCursor encoded path =
     (let invalid = Inl (fs_error ''INVALID_CURSOR'' (Some path) (js ''directory cursor is invalid'')) in
      case JSON_parse (utf8_toString (base64url_decode encoded)) of
        None \<Rightarrow> invalid
      | Some parsed \<Rightarrow>
          (case (json_get (js ''version'') parsed, json_get (js ''path'') parsed, json_get (js ''after'') parsed) of
             (Some v, Some p, Some (JStr after)) \<Rightarrow>
               if v \<noteq> JNum (JInt 1) \<or> p \<noteq> JStr path \<or> length after = 0 then invalid
               else Inr \<lparr>cursor_path = path, cursor_after = after\<rparr>
           | _ \<Rightarrow> invalid))"

section \<open>Search results\<close>

record FilesystemSearchMatch =
  match_path :: jstr
  match_line :: "nat option"
  match_column :: "nat option"
  match_preview :: "jstr option"

record SearchState =
  matches :: "FilesystemSearchMatch list"
  truncated :: bool
  outputBytes :: nat
  scannedEntries :: nat
  scannedFiles :: nat
  skippedBinary :: nat
  skippedOversized :: nat

definition estimatedBytes :: "FilesystemSearchMatch \<Rightarrow> nat" where
  "estimatedBytes m =
     byteLength (match_path m) + (case match_preview m of None \<Rightarrow> 0 | Some t \<Rightarrow> byteLength t) + 64"

definition appendSearchMatch :: "SearchState \<Rightarrow> FilesystemSearchMatch \<Rightarrow> nat \<Rightarrow> nat \<Rightarrow> SearchState" where
  "appendSearchMatch state m maxResults maxBytes =
     (if maxResults \<le> length (matches state) \<or> maxBytes < outputBytes state + estimatedBytes m
      then state\<lparr>truncated := True\<rparr>
      else state\<lparr>matches := matches state @ [m], outputBytes := outputBytes state + estimatedBytes m\<rparr>)"

definition boundedPreview :: "jstr \<Rightarrow> jstr" where
  "boundedPreview line =
     (if length line \<le> PREVIEW_CHARACTERS then line else take PREVIEW_CHARACTERS line @ [0x2026])"

section \<open>Write preconditions\<close>

record WriteTargetState =
  target_exists :: bool
  target_mode :: fmode
  target_sha256 :: "jstr option"
  target_size :: nat

definition enforceWritePrecondition :: "jstr option option \<Rightarrow> WriteTargetState \<Rightarrow> jstr \<Rightarrow> unit result" where
  "enforceWritePrecondition expected current path =
     (case expected of
        None \<Rightarrow> Inr ()
      | Some None \<Rightarrow>
          if target_exists current
          then Inl (fs_error ''WRITE_CONFLICT'' (Some path)
                 (js ''create-only precondition failed because target already exists: '' @ path))
          else Inr ()
      | Some (Some sha) \<Rightarrow>
          if \<not> target_exists current \<or> target_sha256 current \<noteq> Some sha
          then Inl (fs_error ''WRITE_CONFLICT'' (Some path) (js ''SHA-256 precondition failed for '' @ path))
          else Inr ())"

fun nullable :: "jstr option \<Rightarrow> json" where
  "nullable None = JNull"
| "nullable (Some s) = JStr s"

definition patchHashConflict :: "jstr \<Rightarrow> jstr \<Rightarrow> jstr option \<Rightarrow> thrown" where
  "patchHashConflict path expectedSha256 actualSha256 =
     FilesystemError (js ''PATCH_CONFLICT'') (Some path) (js ''SHA-256 patch precondition failed for '' @ path)
       (Some (JObj [(js ''reason'', JStr (js ''sha256_mismatch'')), (js ''expectedSha256'', JStr expectedSha256),
                    (js ''actualSha256'', nullable actualSha256)]))"

definition enforcePatchHashPrecondition :: "jstr \<Rightarrow> WriteTargetState \<Rightarrow> jstr \<Rightarrow> unit result" where
  "enforcePatchHashPrecondition expectedSha256 current path =
     (if \<not> target_exists current \<or> target_sha256 current \<noteq> Some expectedSha256
      then Inl (patchHashConflict path expectedSha256 (target_sha256 current)) else Inr ())"

end
