(* ===== verification/PathSafety.thy ===== *)
theory PathSafety
  imports FsText
begin

text \<open>
  Request paths never leave the workspace: what \<open>normalizeRelativePath\<close> lets through, what resolving
  it against the root gives, and that the textual test \<open>isSameOrDescendant\<close> on \<open>relative\<close> is the
  prefix order on components.
\<close>

lemma plain_no_slash: "plain c \<Longrightarrow> slash \<notin> set c"
  by (simp add: plain_def)

lemma split_join_plain: "cs \<noteq> [] \<Longrightarrow> list_all plain cs \<Longrightarrow> split_on slash (join_with slash cs) = cs"
  by (intro split_join) (auto simp: list_all_iff plain_def)

lemma normalized_segments:
  assumes "normalizeRelativePath input allowRoot = Inr p"
  shows "p = dot \<and> allowRoot \<or> (\<exists>cs. cs \<noteq> [] \<and> list_all plain cs \<and> p = join_with slash cs)"
proof -
  let ?segs = "filter (\<lambda>s. s \<noteq> [] \<and> s \<noteq> dot)
    (split_on slash (map (\<lambda>u. if u = backslash then slash else u) input))"
  have "(?segs = [] \<and> allowRoot \<and> p = dot) \<or> (?segs \<noteq> [] \<and> dotdot \<notin> set ?segs \<and> p = join_with slash ?segs)"
    using assms by (auto simp: normalizeRelativePath_def Let_def split: if_splits)
  moreover have "\<forall>s \<in> set ?segs. slash \<notin> set s" using split_on_parts by fastforce
  ultimately show ?thesis by (auto simp: list_all_iff plain_def)
qed

lemma resolve_plain: "list_all plain cs \<Longrightarrow> resolve_segments root cs = root @ cs"
  by (induction cs arbitrary: root) (auto simp: plain_def)

lemma strip_common_prefix: "fst (strip_common as bs) = [] \<longleftrightarrow> prefix as bs"
  by (induction as bs rule: strip_common.induct) auto

lemma strip_common_set: "set (fst (strip_common as bs)) \<subseteq> set as \<and> set (snd (strip_common as bs)) \<subseteq> set bs"
  by (induction as bs rule: strip_common.induct) auto

lemma join_with_starts: "join_with s (x # xs) = x @ (if xs = [] then [] else s # join_with s xs)"
  by (cases xs) auto

lemma isSameOrDescendant_iff:
  assumes "list_all plain root" "list_all plain candidate"
  shows "isSameOrDescendant root candidate \<longleftrightarrow> prefix root candidate"
proof -
  obtain up down where ud: "strip_common root candidate = (up, down)" by fastforce
  with strip_common_prefix [of root candidate] strip_common_set [of root candidate] assms
  have up: "up = [] \<longleftrightarrow> prefix root candidate" and down: "list_all plain down"
    by (auto simp: list_all_iff)
  have dd: "dotdot \<noteq> []" "take 1 dotdot \<noteq> [slash]" "length dotdot = 2" by (simp_all add: dotdot_def slash_def js_def cu_def)
  show ?thesis
  proof (cases up)
    case Nil
    have "isSameOrDescendant root candidate"
    proof (cases down)
      case Nil
      with \<open>up = []\<close> ud show ?thesis by (simp add: isSameOrDescendant_def relative_path_def)
    next
      case (Cons c cs)
      have c: "plain c" using down Cons by simp
      have rel: "relative_path root candidate = c @ (if cs = [] then [] else slash # join_with slash cs)"
        using \<open>up = []\<close> ud Cons by (simp add: relative_path_def join_with_starts)
      obtain u us where u: "c = u # us" "u \<noteq> slash" using c by (cases c) (auto simp: plain_def)
      have ne: "c \<noteq> dotdot" using c by (simp add: plain_def)
      have dds: "slash \<notin> set dotdot" by (simp add: dotdot_def slash_def js_def cu_def)
      have "relative_path root candidate \<noteq> dotdot"
      proof (cases "cs = []")
        case True
        with ne rel show ?thesis by simp
      next
        case False
        then have "slash \<in> set (relative_path root candidate)" by (simp add: rel)
        with dds show ?thesis by auto
      qed
      moreover have "\<not> startsWith (relative_path root candidate) (dotdot @ [slash])"
      proof
        assume "startsWith (relative_path root candidate) (dotdot @ [slash])"
        then obtain rest where r: "relative_path root candidate = dotdot @ slash # rest"
          unfolding startsWith_def by (metis append_take_drop_id append.assoc append_Cons append_Nil)
        have ns: "slash \<notin> set c" "slash \<notin> set dotdot"
          using c by (simp_all add: plain_def dotdot_def slash_def js_def cu_def)
        from r rel have "cs \<noteq> []" using ns(1) by (auto split: if_splits)
        with r rel have "takeWhile (\<lambda>u. u \<noteq> slash) (c @ slash # join_with slash cs)
            = takeWhile (\<lambda>u. u \<noteq> slash) (dotdot @ slash # rest)" by simp
        moreover have "takeWhile (\<lambda>u. u \<noteq> slash) (d @ slash # xs) = d" if "slash \<notin> set d" for d xs
          using that by (subst takeWhile_append2) auto
        ultimately have "c = dotdot" using ns by simp
        with ne show False by simp
      qed
      moreover have "\<not> posix_isAbsolute (relative_path root candidate)"
        using u by (simp add: posix_isAbsolute_def rel)
      ultimately show ?thesis by (simp add: isSameOrDescendant_def Let_def)
    qed
    with Nil up show ?thesis by simp
  next
    case (Cons x up')
    let ?rest = "map (\<lambda>_. dotdot) up' @ down"
    have rel: "relative_path root candidate = dotdot @ (if ?rest = [] then [] else slash # join_with slash ?rest)"
      using ud Cons join_with_starts [of slash dotdot ?rest] by (simp add: relative_path_def)
    have "\<not> isSameOrDescendant root candidate"
    proof (cases "?rest = []")
      case True
      then show ?thesis using dd by (simp add: isSameOrDescendant_def rel)
    next
      case False
      then have "startsWith (relative_path root candidate) (dotdot @ [slash])"
        unfolding rel startsWith_def by (simp add: dd)
      then show ?thesis using dd by (auto simp: isSameOrDescendant_def Let_def rel)
    qed
    with Cons up show ?thesis by simp
  qed
qed

section \<open>Properties\<close>

lemma set_split_on: "part \<in> set (split_on c s) \<Longrightarrow> set part \<subseteq> set s"
  by (induction s arbitrary: part) (fastforce split: list.splits if_splits)+

lemma set_join_with: "set (join_with c ps) \<subseteq> insert c (\<Union> (set ` set ps))"
  by (induction c ps rule: join_with.induct) auto

lemma join_segments_avoid:
  assumes "x \<noteq> c" "x \<notin> set s"
  shows "x \<notin> set (join_with c (filter P (split_on c s)))"
  using set_join_with [of c "filter P (split_on c s)"] set_split_on [of _ c s] assms by fastforce

lemma normalized_units:
  assumes "normalizeRelativePath input allowRoot = Inr p"
  shows "0 \<notin> set p \<and> backslash \<notin> set p"
proof -
  let ?portable = "map (\<lambda>u. if u = backslash then slash else u) input"
  have ne: "backslash \<noteq> slash" "0 \<noteq> slash" "0 \<notin> set dot" "backslash \<notin> set dot"
    by (simp_all add: backslash_def slash_def dot_def js_def cu_def)
  have "0 \<notin> set input"
    and p: "p = dot \<or> p = join_with slash (filter (\<lambda>s. s \<noteq> [] \<and> s \<noteq> dot) (split_on slash ?portable))"
    using assms by (auto simp: normalizeRelativePath_def Let_def split: if_splits)
  then have "0 \<notin> set ?portable" "backslash \<notin> set ?portable" using ne by auto
  from p join_segments_avoid [OF ne(2) this(1)] join_segments_avoid [OF ne(1) this(2)] ne(3,4)
  show ?thesis by blast
qed

text \<open>C14. Whatever the request path, if \<open>normalizeRelativePath\<close> accepts it the result names the workspace root
  (only where that is allowed) or a sequence of plain components: no NUL, no backslash, no empty, \<open>.\<close>
  or \<open>..\<close> component; resolving it against the root only appends these components, so it passes the
  containment test.\<close>

theorem normalizeRelativePath_confined:
  assumes "normalizeRelativePath input allowRoot = Inr p" and "list_all plain root"
  shows "0 \<notin> set p \<and> backslash \<notin> set p \<and>
    (p = dot \<and> allowRoot \<or>
     list_all plain (split_on slash p)
     \<and> resolve_segments root (split_on slash p) = root @ split_on slash p
     \<and> isSameOrDescendant root (resolve_segments root (split_on slash p)))"
proof -
  consider "p = dot" "allowRoot" | cs where "cs \<noteq> []" "list_all plain cs" "p = join_with slash cs"
    using normalized_segments [OF assms(1)] by blast
  then show ?thesis
  proof cases
    case 2
    then have "split_on slash p = cs" by (simp add: split_join_plain)
    with 2 assms(2) normalized_units [OF assms(1)] show ?thesis
      by (simp add: resolve_plain isSameOrDescendant_iff)
  qed (use normalized_units [OF assms(1)] in simp)
qed

theorem normalizeRelativePath_confined_witness:
  "normalizeRelativePath (js ''src/./lib//a.ts'') False = Inr (js ''src/lib/a.ts'')
   \<and> isSameOrDescendant [js ''w''] (resolve_segments [js ''w''] (split_on slash (js ''src/lib/a.ts'')))"
proof -
  have n: "normalizeRelativePath (js ''src/./lib//a.ts'') False = Inr (js ''src/lib/a.ts'')"
    by code_simp
  have w: "list_all plain [js ''w'']" "js ''src/lib/a.ts'' \<noteq> dot" by code_simp+
  from normalizeRelativePath_confined [OF n w(1)] w(2) n show ?thesis by blast
qed

text \<open>The textual containment test is exact: on canonical paths \<open>isSameOrDescendant root candidate\<close>
  holds if and only if the components of the root are a prefix of those of the candidate, so that
  neither a sibling whose name extends the root's nor a name starting with two dots misleads it.\<close>

theorem isSameOrDescendant_exact:
  assumes "list_all plain root" and "list_all plain candidate"
  shows "isSameOrDescendant root candidate \<longleftrightarrow> (\<exists>rest. candidate = root @ rest)"
  using isSameOrDescendant_iff [OF assms] by (simp add: prefix_def)

theorem isSameOrDescendant_exact_witness:
  "\<not> isSameOrDescendant [js ''home'', js ''w''] [js ''home'', js ''w2'']
   \<and> isSameOrDescendant [js ''home'', js ''w''] [js ''home'', js ''w'', js ''..x'']"
proof -
  have p: "list_all plain [js ''home'', js ''w'']" "list_all plain [js ''home'', js ''w2'']"
    "list_all plain [js ''home'', js ''w'', js ''..x'']" by code_simp+
  show ?thesis
    using isSameOrDescendant_exact [OF p(1) p(2)] isSameOrDescendant_exact [OF p(1) p(3)] by simp
qed

end
