(* ===== verification/PatchPlan.thy ===== *)
theory PatchPlan
  imports FsText
begin

text \<open>
  Planning and applying an exact text patch (\<open>planExactPatch\<close>, \<open>findAllOccurrences\<close>,
  \<open>applyPlannedPatch\<close> of \<open>packages/filesystem/src/index.ts\<close>). The search loop does not end on an empty
  pattern, so it is a partial function: \<open>None\<close> stands for not returning.
\<close>

section \<open>Model\<close>

record PlannedPatchEdit = FilesystemPatchEdit +
  editIndex :: nat
  edit_start :: nat
  edit_end :: nat

partial_function (option) find_loop :: "jstr \<Rightarrow> jstr \<Rightarrow> nat \<Rightarrow> nat list option" where
  "find_loop source expected pos =
     (case indexOf source expected pos of
        None \<Rightarrow> Some []
      | Some found \<Rightarrow>
          Option.bind (find_loop source expected (found + 1)) (\<lambda>ms. Some (found # ms)))"

definition findAllOccurrences :: "jstr \<Rightarrow> jstr \<Rightarrow> nat list option" where
  "findAllOccurrences source expected = find_loop source expected 0"

definition conflict_details :: "string \<Rightarrow> nat \<Rightarrow> string \<Rightarrow> nat \<Rightarrow> json" where
  "conflict_details reason index key v =
     JObj [(js ''reason'', JStr (js reason)), (js ''editIndex'', JNum (JInt (int index))),
           (js key, JNum (JInt (int v)))]"

definition plan_edit ::
    "jstr \<Rightarrow> jstr \<Rightarrow> nat \<Rightarrow> FilesystemPatchEdit \<Rightarrow> PlannedPatchEdit result option" where
  "plan_edit source path index edit =
     (case findAllOccurrences source (oldText edit) of
        None \<Rightarrow> None
      | Some ms \<Rightarrow> Some (
          if length ms = 0
          then Inl (FilesystemError (js ''PATCH_CONFLICT'') (Some path)
                 (js ''patch edit '' @ js_nat index @ js '' expected text was not found in '' @ path)
                 (Some (conflict_details ''expected_text_not_found'' index ''matchCount'' 0)))
          else if length ms > 1
          then Inl (FilesystemError (js ''PATCH_CONFLICT'') (Some path)
                 (js ''patch edit '' @ js_nat index @ js '' is ambiguous in '' @ path)
                 (Some (conflict_details ''ambiguous_match'' index ''matchCount'' (length ms))))
          else Inr \<lparr>oldText = oldText edit, newText = newText edit, editIndex = index,
                    edit_start = hd ms, edit_end = hd ms + length (oldText edit)\<rparr>))"

text \<open>\<open>edits.map(...)\<close>, whose callback may throw, or never return.\<close>

fun plan_edits ::
    "jstr \<Rightarrow> jstr \<Rightarrow> nat \<Rightarrow> FilesystemPatchEdit list \<Rightarrow> PlannedPatchEdit list result option" where
  "plan_edits source path index [] = Some (Inr [])"
| "plan_edits source path index (edit # edits) =
     (case plan_edit source path index edit of
        None \<Rightarrow> None
      | Some (Inl e) \<Rightarrow> Some (Inl e)
      | Some (Inr p) \<Rightarrow>
          map_option (\<lambda>r. bind_res r (\<lambda>ps. Inr (p # ps))) (plan_edits source path (Suc index) edits))"

fun check_overlaps :: "jstr \<Rightarrow> PlannedPatchEdit list \<Rightarrow> unit result" where
  "check_overlaps path (previous # current # rest) =
     (if edit_start current < edit_end previous
      then Inl (FilesystemError (js ''PATCH_CONFLICT'') (Some path) (js ''patch edits overlap in '' @ path)
             (Some (conflict_details ''overlapping_edits'' (editIndex current) ''conflictsWithEditIndex''
                      (editIndex previous))))
      else check_overlaps path (current # rest))"
| "check_overlaps path _ = Inr ()"

definition compare_start :: "PlannedPatchEdit \<Rightarrow> PlannedPatchEdit \<Rightarrow> int" where
  "compare_start left right = int (edit_start left) - int (edit_start right)"

definition planExactPatch ::
    "jstr \<Rightarrow> FilesystemPatchEdit list \<Rightarrow> jstr \<Rightarrow> PlannedPatchEdit list result option" where
  "planExactPatch source edits path =
     map_option (\<lambda>r. bind_res r (\<lambda>planned.
         let ordered = js_sort compare_start planned in
         bind_res (check_overlaps path ordered) (\<lambda>_. Inr ordered)))
       (plan_edits source path 0 edits)"

fun apply_from :: "jstr \<Rightarrow> nat \<Rightarrow> PlannedPatchEdit list \<Rightarrow> jstr" where
  "apply_from source cursor [] = drop cursor source"
| "apply_from source cursor (edit # edits) =
     slice source cursor (edit_start edit) @ newText edit @ apply_from source (edit_end edit) edits"

definition applyPlannedPatch :: "jstr \<Rightarrow> PlannedPatchEdit list \<Rightarrow> jstr" where
  "applyPlannedPatch source planned = apply_from source 0 planned"

interpretation start_order: comparator compare_start
  by unfold_locales (auto simp: compare_start_def)

section \<open>Finding occurrences\<close>

definition occurrences :: "jstr \<Rightarrow> jstr \<Rightarrow> nat list" where
  "occurrences source expected = filter (occurs_at expected source) [0..<length source]"

lemma find_loop_occurrences:
  assumes "expected \<noteq> []"
  shows "find_loop source expected pos = Some (filter (occurs_at expected source) [pos..<length source])"
proof (induction "length source - pos" arbitrary: pos rule: less_induct)
  case less
  show ?case
  proof (cases "indexOf source expected pos")
    case None
    then have "\<forall>i \<in> set [pos..<length source]. \<not> occurs_at expected source i"
      using indexOf_None [OF assms] by auto
    then have "filter (occurs_at expected source) [pos..<length source] = []"
      by (simp add: filter_empty_conv)
    with None show ?thesis by (subst find_loop.simps) simp
  next
    case (Some found)
    then have f: "pos \<le> found" "occurs_at expected source found"
      "\<And>j. pos \<le> j \<Longrightarrow> j < found \<Longrightarrow> \<not> occurs_at expected source j"
      using indexOf_Some [OF assms] by blast+
    have lt: "found < length source"
      using occurs_at_bound [OF assms f(2)] assms by (cases expected) auto
    have "[pos..<length source] = [pos..<found] @ found # [found + 1..<length source]"
      using upt_add_eq_append [OF f(1), of "length source - found"] lt by (simp add: upt_conv_Cons)
    moreover have "filter (occurs_at expected source) [pos..<found] = []"
      using f(3) by (auto simp: filter_empty_conv)
    moreover have "find_loop source expected (found + 1)
        = Some (filter (occurs_at expected source) [found + 1..<length source])"
      using lt f(1) by (intro less) linarith
    ultimately show ?thesis using Some f(2) by (subst find_loop.simps) simp
  qed
qed

lemma findAllOccurrences_eq:
  "expected \<noteq> [] \<Longrightarrow> findAllOccurrences source expected = Some (occurrences source expected)"
  by (simp add: findAllOccurrences_def occurrences_def find_loop_occurrences)

lemma set_occurrences: "expected \<noteq> [] \<Longrightarrow> set (occurrences source expected) = {i. occurs_at expected source i}"
  using occurs_at_bound [of expected source] by (cases expected) (fastforce simp: occurrences_def)+

lemma distinct_occurrences: "distinct (occurrences source expected)"
  by (simp add: occurrences_def)

section \<open>Plans\<close>

text \<open>What a plan must be for a source and the indexed edits: each edit at its only occurrence.\<close>

definition places :: "jstr \<Rightarrow> FilesystemPatchEdit \<Rightarrow> nat \<Rightarrow> PlannedPatchEdit \<Rightarrow> bool" where
  "places source edit index p \<longleftrightarrow>
     oldText p = oldText edit \<and> newText p = newText edit \<and> editIndex p = index
     \<and> occurrences source (oldText edit) = [edit_start p] \<and> edit_end p = edit_start p + length (oldText edit)"

lemma plan_edit_Inr:
  assumes "oldText edit \<noteq> []"
  shows "plan_edit source path index edit = Some (Inr p) \<longleftrightarrow> places source edit index p"
proof -
  show ?thesis
  proof (cases "occurrences source (oldText edit)" rule: remdups_adj.cases)
    case 1
    then show ?thesis by (simp add: plan_edit_def findAllOccurrences_eq [OF assms] places_def)
  next
    case (2 x)
    then show ?thesis
      by (auto simp: plan_edit_def findAllOccurrences_eq [OF assms] places_def intro!: PlannedPatchEdit.equality)
  next
    case (3 x y xs)
    then show ?thesis by (simp add: plan_edit_def findAllOccurrences_eq [OF assms] places_def)
  qed
qed

lemma plan_edit_defined: "oldText edit \<noteq> [] \<Longrightarrow> \<exists>r. plan_edit source path index edit = Some r"
  by (simp add: plan_edit_def findAllOccurrences_eq)

lemma plan_edits_defined:
  "\<forall>e \<in> set edits. oldText e \<noteq> [] \<Longrightarrow> \<exists>r. plan_edits source path index edits = Some r"
proof (induction edits arbitrary: index)
  case (Cons e edits)
  obtain r where "plan_edit source path index e = Some r" using plan_edit_defined Cons.prems by fastforce
  moreover obtain r' where "plan_edits source path (Suc index) edits = Some r'" using Cons by fastforce
  ultimately show ?case by (cases r) auto
qed simp

lemma plan_edits_Inr:
  assumes "\<forall>e \<in> set edits. oldText e \<noteq> []"
  shows "plan_edits source path index edits = Some (Inr ps) \<longleftrightarrow>
    list_all2 (\<lambda>(i, e) p. places source e i p) (enumerate index edits) ps"
  using assms
proof (induction edits arbitrary: index ps)
  case Nil
  then show ?case by auto
next
  case (Cons e edits)
  note here = plan_edit_Inr [of e source path index]
  show ?case
  proof (cases "plan_edit source path index e")
    case None
    from Cons.prems have "oldText e \<noteq> []" by simp
    with None plan_edit_defined [of e source path index] show ?thesis by simp
  next
    case (Some r)
    show ?thesis
    proof (cases r)
      case (Inl err)
      have "\<not> places source e index p" for p using here [of p] Some Inl Cons.prems by simp
      with Some Inl show ?thesis by (simp add: list_all2_Cons1)
    next
      case (Inr p)
      have "plan_edits source path index (e # edits) = Some (Inr ps) \<longleftrightarrow>
          (\<exists>ps'. plan_edits source path (Suc index) edits = Some (Inr ps') \<and> ps = p # ps')"
        using Some Inr by (auto simp: result_simps)
      moreover have "places source e index q \<longleftrightarrow> q = p" for q
        using here [of q] Cons.prems Some Inr by auto
      moreover have "plan_edits source path (Suc index) edits = Some (Inr ps') \<longleftrightarrow>
          list_all2 (\<lambda>(i, e) p. places source e i p) (enumerate (Suc index) edits) ps'" for ps'
        using Cons by simp
      ultimately show ?thesis by (simp add: list_all2_Cons1) blast
    qed
  qed
qed

lemma check_overlaps_Inr:
  assumes "sorted_wrt (\<lambda>p q. compare_start p q \<le> 0) ps" "\<forall>p \<in> set ps. edit_start p \<le> edit_end p"
  shows "check_overlaps path ps = Inr () \<longleftrightarrow> sorted_wrt (\<lambda>p q. edit_end p \<le> edit_start q) ps"
  using assms
proof (induction path ps rule: check_overlaps.induct)
  case (1 path p q ps)
  show ?case
  proof (cases "edit_start q < edit_end p")
    case True
    then show ?thesis by auto
  next
    case False
    have "edit_end p \<le> edit_start r" if "r \<in> set ps" for r
      using that False "1.prems" by (auto simp: compare_start_def)
    with False 1 show ?thesis by auto
  qed
qed auto

text \<open>A successful plan, independent of how it was computed.\<close>

definition is_plan :: "jstr \<Rightarrow> FilesystemPatchEdit list \<Rightarrow> PlannedPatchEdit list \<Rightarrow> bool" where
  "is_plan source edits ps \<longleftrightarrow>
     (\<exists>qs. mset qs = mset ps \<and> list_all2 (\<lambda>(i, e) p. places source e i p) (enumerate 0 edits) qs)
     \<and> sorted_wrt (\<lambda>p q. edit_end p \<le> edit_start q) ps"

lemma places_bounds:
  assumes "places source e i p" "oldText e \<noteq> []"
  shows "edit_start p < edit_end p" "edit_end p \<le> length source" "occurs_at (oldText p) source (edit_start p)"
proof -
  have o: "occurs_at (oldText e) source (edit_start p)"
    using assms set_occurrences [OF assms(2), of source] by (auto simp: places_def)
  with assms occurs_at_bound [OF assms(2) o] show "edit_start p < edit_end p" "edit_end p \<le> length source"
    "occurs_at (oldText p) source (edit_start p)" by (auto simp: places_def)
qed

lemma is_plan_bounds:
  assumes "is_plan source edits ps" "\<forall>e \<in> set edits. oldText e \<noteq> []" "p \<in> set ps"
  shows "edit_start p < edit_end p" "edit_end p \<le> length source" "occurs_at (oldText p) source (edit_start p)"
    "edit_end p = edit_start p + length (oldText p)"
proof -
  obtain qs where qs: "mset qs = mset ps" "list_all2 (\<lambda>(i, e) p. places source e i p) (enumerate 0 edits) qs"
    using assms(1) by (auto simp: is_plan_def)
  with assms(3) have "p \<in> set qs" by (metis mset_eq_setD)
  then obtain i where i: "i < length qs" "p = qs ! i" by (auto simp: in_set_conv_nth)
  with qs(2) have "i < length edits" "places source (edits ! i) i p"
    by (auto simp: list_all2_conv_all_nth nth_enumerate_eq)
  moreover from this assms(2) have "oldText (edits ! i) \<noteq> []" by simp
  ultimately show "edit_start p < edit_end p" "edit_end p \<le> length source"
    "occurs_at (oldText p) source (edit_start p)" "edit_end p = edit_start p + length (oldText p)"
    using places_bounds by (auto simp: places_def)
qed

lemma planExactPatch_Inr:
  assumes ne: "\<forall>e \<in> set edits. oldText e \<noteq> []"
  shows "planExactPatch source edits path = Some (Inr ps) \<longleftrightarrow> is_plan source edits ps"
proof
  assume "planExactPatch source edits path = Some (Inr ps)"
  then obtain qs where qs: "plan_edits source path 0 edits = Some (Inr qs)" "ps = js_sort compare_start qs"
      "check_overlaps path ps = Inr ()"
    by (auto simp: planExactPatch_def Let_def result_simps)
  then have l: "list_all2 (\<lambda>(i, e) p. places source e i p) (enumerate 0 edits) qs"
    using plan_edits_Inr [OF ne] by blast
  have "\<forall>p \<in> set ps. edit_start p \<le> edit_end p"
  proof
    fix p assume "p \<in> set ps"
    then have "p \<in> set qs" using qs(2) by simp
    with l obtain i e where "places source e i p" by (auto simp: list_all2_conv_all_nth in_set_conv_nth split_beta)
    then show "edit_start p \<le> edit_end p" by (simp add: places_def)
  qed
  with qs check_overlaps_Inr [of ps path] start_order.sorted_js_sort [of qs]
  have "sorted_wrt (\<lambda>p q. edit_end p \<le> edit_start q) ps" by simp
  with l qs(2) show "is_plan source edits ps" by (auto simp: is_plan_def)
next
  assume plan: "is_plan source edits ps"
  then obtain qs where qs: "mset qs = mset ps" "list_all2 (\<lambda>(i, e) p. places source e i p) (enumerate 0 edits) qs"
    by (auto simp: is_plan_def)
  have bounds: "edit_start p < edit_end p" if "p \<in> set ps" for p using is_plan_bounds [OF plan ne that] by blast
  have disj: "sorted_wrt (\<lambda>p q. edit_end p \<le> edit_start q) ps" using plan by (simp add: is_plan_def)
  then have strict: "sorted_wrt (\<lambda>p q. edit_start p < edit_start q) ps"
    unfolding sorted_wrt_iff_nth_less
  proof (intro allI impI)
    fix i j assume ij: "i < j" "j < length ps"
    then have "edit_start (ps ! i) < edit_end (ps ! i)" by (intro bounds) simp
    also have "\<dots> \<le> edit_start (ps ! j)" using disj ij by (simp add: sorted_wrt_iff_nth_less)
    finally show "edit_start (ps ! i) < edit_start (ps ! j)" .
  qed
  have le: "sorted_wrt (\<lambda>p q. compare_start p q \<le> 0) ps"
    using strict by (rule sorted_wrt_mono_rel [rotated]) (simp add: compare_start_def)
  have starts: "map edit_start (js_sort compare_start qs) = map edit_start ps"
  proof (rule sorted_distinct_set_unique)
    show "sorted (map edit_start (js_sort compare_start qs))"
      using start_order.sorted_js_sort [of qs]
      by (simp add: sorted_map) (rule sorted_wrt_mono_rel, auto simp: compare_start_def)
    show "sorted (map edit_start ps)"
      unfolding sorted_map using strict by (rule sorted_wrt_mono_rel [rotated]) simp
    have "distinct (map edit_start ps)"
      using strict by (auto simp: distinct_conv_nth sorted_wrt_iff_nth_less nat_neq_iff)
    then show "distinct (map edit_start ps)" .
    then show "distinct (map edit_start (js_sort compare_start qs))"
      using qs(1) by (metis mset_js_sort mset_map mset_eq_imp_distinct_iff)
    show "set (map edit_start (js_sort compare_start qs)) = set (map edit_start ps)"
      using mset_eq_setD [OF qs(1)] by simp
  qed
  have "inj_on edit_start (set ps)"
    using strict by (auto simp: inj_on_def in_set_conv_nth sorted_wrt_iff_nth_less) (metis nat_neq_iff)
  then have "js_sort compare_start qs = ps"
    using starts mset_eq_setD [OF qs(1)] by (metis inj_on_map_eq_map set_js_sort sup.idem)
  moreover have "plan_edits source path 0 edits = Some (Inr qs)" using plan_edits_Inr [OF ne] qs(2) by blast
  moreover have "check_overlaps path ps = Inr ()"
    using check_overlaps_Inr [OF le] bounds disj by (simp add: less_imp_le)
  ultimately show "planExactPatch source edits path = Some (Inr ps)"
    by (simp add: planExactPatch_def Let_def)
qed

section \<open>Applying a plan\<close>

text \<open>\<open>weave\<close> puts texts between the gaps of a source.\<close>

fun weave :: "jstr list \<Rightarrow> jstr list \<Rightarrow> jstr" where
  "weave (g # gs) (t # ts) = g @ t @ weave gs ts"
| "weave gs ts = concat gs"

fun gaps :: "jstr \<Rightarrow> nat \<Rightarrow> PlannedPatchEdit list \<Rightarrow> jstr list" where
  "gaps source cursor [] = [drop cursor source]"
| "gaps source cursor (p # ps) = slice source cursor (edit_start p) # gaps source (edit_end p) ps"

lemma length_gaps [simp]: "length (gaps source cursor ps) = Suc (length ps)"
  by (induction source cursor ps rule: gaps.induct) auto

lemma apply_from_weave: "apply_from source cursor ps = weave (gaps source cursor ps) (map newText ps)"
  by (induction source cursor ps rule: gaps.induct) auto

lemma drop_weave:
  assumes "sorted_wrt (\<lambda>p q. edit_end p \<le> edit_start q) ps"
    and "\<forall>p \<in> set ps. cursor \<le> edit_start p \<and> occurs_at (oldText p) source (edit_start p)
          \<and> edit_end p = edit_start p + length (oldText p)"
  shows "drop cursor source = weave (gaps source cursor ps) (map oldText ps)"
  using assms
proof (induction ps arbitrary: cursor)
  case (Cons p ps)
  have "cursor \<le> edit_start p \<and> occurs_at (oldText p) source (edit_start p)
      \<and> edit_end p = edit_start p + length (oldText p)" using Cons.prems(2) by (meson list.set_intros(1))
  then have here: "cursor \<le> edit_start p" "take (length (oldText p)) (drop (edit_start p) source) = oldText p"
      "edit_end p = edit_start p + length (oldText p)" unfolding occurs_at_def by blast+
  have "drop (edit_start p - cursor) (drop cursor source) = drop (edit_start p) source" using here(1) by simp
  then have "drop cursor source = slice source cursor (edit_start p) @ drop (edit_start p) source"
    unfolding slice_def by (metis append_take_drop_id)
  also have "drop (edit_start p) source = oldText p @ drop (edit_end p) source"
  proof -
    have "drop (length (oldText p)) (drop (edit_start p) source) = drop (edit_end p) source"
      using here(3) by (simp add: add.commute)
    then show ?thesis using here(2) by (metis append_take_drop_id)
  qed
  also have "drop (edit_end p) source = weave (gaps source (edit_end p) ps) (map oldText ps)"
    using Cons by simp
  finally show ?case by simp
qed simp

lemma is_plan_weaves:
  assumes "is_plan source edits ps" "\<forall>e \<in> set edits. oldText e \<noteq> []"
  shows "source = weave (gaps source 0 ps) (map oldText ps)"
    and "applyPlannedPatch source ps = weave (gaps source 0 ps) (map newText ps)"
proof -
  have "drop 0 source = weave (gaps source 0 ps) (map oldText ps)"
    using assms is_plan_bounds [OF assms] by (intro drop_weave) (auto simp: is_plan_def)
  then show "source = weave (gaps source 0 ps) (map oldText ps)" by simp
  show "applyPlannedPatch source ps = weave (gaps source 0 ps) (map newText ps)"
    by (simp add: applyPlannedPatch_def apply_from_weave)
qed

section \<open>Which edits can be planned\<close>

definition edit_span :: "jstr \<Rightarrow> FilesystemPatchEdit \<Rightarrow> nat \<times> nat" where
  "edit_span source e = (hd (occurrences source (oldText e)), hd (occurrences source (oldText e)) + length (oldText e))"

definition apart :: "nat \<times> nat \<Rightarrow> nat \<times> nat \<Rightarrow> bool" where
  "apart a b \<longleftrightarrow> snd a \<le> fst b \<or> snd b \<le> fst a"

definition plannable :: "jstr \<Rightarrow> FilesystemPatchEdit list \<Rightarrow> bool" where
  "plannable source edits \<longleftrightarrow>
     (\<forall>e \<in> set edits. length (occurrences source (oldText e)) = 1)
     \<and> (\<forall>i < length edits. \<forall>j < length edits. i \<noteq> j \<longrightarrow>
          apart (edit_span source (edits ! i)) (edit_span source (edits ! j)))"

definition planned_at :: "jstr \<Rightarrow> nat \<times> FilesystemPatchEdit \<Rightarrow> PlannedPatchEdit" where
  "planned_at source ie = \<lparr>oldText = oldText (snd ie), newText = newText (snd ie), editIndex = fst ie,
     edit_start = fst (edit_span source (snd ie)), edit_end = snd (edit_span source (snd ie))\<rparr>"

lemma places_iff:
  "places source e i p \<longleftrightarrow> length (occurrences source (oldText e)) = 1 \<and> p = planned_at source (i, e)"
proof (cases "occurrences source (oldText e)" rule: remdups_adj.cases)
  case (2 x)
  then show ?thesis
    by (auto simp: places_def planned_at_def edit_span_def intro!: PlannedPatchEdit.equality)
qed (simp_all add: places_def)

lemma all2_places:
  "list_all2 (\<lambda>(i, e) p. places source e i p) (enumerate n edits) qs \<longleftrightarrow>
   (\<forall>e \<in> set edits. length (occurrences source (oldText e)) = 1) \<and> qs = map (planned_at source) (enumerate n edits)"
  by (induction edits arbitrary: n qs) (auto simp: list_all2_Cons1 places_iff)

lemma is_plan_alt:
  "is_plan source edits ps \<longleftrightarrow>
     (\<forall>e \<in> set edits. length (occurrences source (oldText e)) = 1)
     \<and> mset ps = mset (map (planned_at source) (enumerate 0 edits))
     \<and> sorted_wrt (\<lambda>p q. edit_end p \<le> edit_start q) ps"
  unfolding is_plan_def all2_places by auto

lemma plannable_iff:
  assumes ne: "\<forall>e \<in> set edits. oldText e \<noteq> []"
  shows "plannable source edits \<longleftrightarrow> (\<exists>ps. is_plan source edits ps)"
proof
  assume pl: "plannable source edits"
  let ?qs = "map (planned_at source) (enumerate 0 edits)"
  let ?ps = "js_sort compare_start ?qs"
  have apart: "apart (edit_start p, edit_end p) (edit_start q, edit_end q)"
    if pq: "p \<in> set ?qs" "q \<in> set ?qs" "editIndex p \<noteq> editIndex q" for p q
  proof -
    from pq obtain i j where "i < length edits" "j < length edits" "i \<noteq> j"
        "p = planned_at source (i, edits ! i)" "q = planned_at source (j, edits ! j)"
      by (auto simp: in_set_enumerate_eq planned_at_def)
    with pl show ?thesis by (simp add: plannable_def planned_at_def)
  qed
  have idx: "map editIndex ?qs = [0..<length edits]"
    by (intro nth_equalityI) (auto simp: planned_at_def nth_enumerate_eq)
  have "distinct (map editIndex ?ps)"
    using idx by (metis distinct_upt mset_eq_imp_distinct_iff mset_js_sort mset_map)
  then have ixne: "editIndex (?ps ! i) \<noteq> editIndex (?ps ! j)" if "i < j" "j < length ?ps" for i j
    using that by (auto simp: distinct_conv_nth)
  have "sorted_wrt (\<lambda>p q. edit_end p \<le> edit_start q) ?ps"
    unfolding sorted_wrt_iff_nth_less
  proof (intro allI impI)
    fix i j assume ij: "i < j" "j < length ?ps"
    have "?ps ! i \<in> set ?ps" "?ps ! j \<in> set ?ps" using ij by (simp_all only: nth_mem less_trans [OF ij])
    then have mem: "?ps ! i \<in> set ?qs" "?ps ! j \<in> set ?qs" by (simp_all only: set_js_sort)
    from mem(2) obtain k where "k < length edits" "?ps ! j = planned_at source (k, edits ! k)"
      by (auto simp: in_set_enumerate_eq)
    with ne have pos: "edit_start (?ps ! j) < edit_end (?ps ! j)" by (simp add: planned_at_def edit_span_def)
    have le: "edit_start (?ps ! i) \<le> edit_start (?ps ! j)"
      using start_order.sorted_js_sort [of ?qs] ij by (simp add: sorted_wrt_iff_nth_less compare_start_def)
    have "edit_end (?ps ! i) \<le> edit_start (?ps ! j) \<or> edit_end (?ps ! j) \<le> edit_start (?ps ! i)"
      using apart [OF mem ixne [OF ij]] unfolding apart_def fst_conv snd_conv .
    with pos le show "edit_end (?ps ! i) \<le> edit_start (?ps ! j)" by linarith
  qed
  with pl show "\<exists>ps. is_plan source edits ps"
    by (intro exI [of _ ?ps]) (simp add: is_plan_alt plannable_def)
next
  assume "\<exists>ps. is_plan source edits ps"
  then obtain ps where ps: "is_plan source edits ps" ..
  note p = ps [unfolded is_plan_alt]
  show "plannable source edits"
    unfolding plannable_def
  proof (intro conjI allI impI)
    show "\<forall>e \<in> set edits. length (occurrences source (oldText e)) = 1" using p by blast
    fix i j assume ij: "i < length edits" "j < length edits" "i \<noteq> j"
    have "planned_at source (k, edits ! k) \<in> set ps" if "k < length edits" for k
    proof -
      have "(k, edits ! k) \<in> set (enumerate 0 edits)" using that by (simp add: in_set_enumerate_eq)
      moreover have "set ps = planned_at source ` set (enumerate 0 edits)"
        using p by (metis mset_eq_setD set_map)
      ultimately show ?thesis by blast
    qed
    with ij obtain a b where ab: "a < length ps" "b < length ps"
        "ps ! a = planned_at source (i, edits ! i)" "ps ! b = planned_at source (j, edits ! j)"
      by (metis in_set_conv_nth)
    then have "a \<noteq> b" using ij(3) by (auto simp: planned_at_def)
    then have "edit_end (ps ! a) \<le> edit_start (ps ! b) \<or> edit_end (ps ! b) \<le> edit_start (ps ! a)"
      using p ab(1,2) by (auto simp: sorted_wrt_iff_nth_less nat_neq_iff)
    with ab show "apart (edit_span source (edits ! i)) (edit_span source (edits ! j))"
      by (simp add: apart_def planned_at_def)
  qed
qed

section \<open>Properties\<close>

lemma find_loop_empty: "find_loop source expected pos = Some ms \<Longrightarrow> expected \<noteq> []"
  by (rule find_loop.raw_induct [rotated, where P = "\<lambda>s e p ms. e \<noteq> []"])
    (auto simp: indexOf_def bind_eq_Some_conv split: option.splits if_splits)

text \<open>C17. \<open>findAllOccurrences\<close> returns exactly the positions at which the text occurs, overlapping ones
  included, in increasing order and each once; it returns for every non-empty text and loops for ever
  on the empty one.\<close>

theorem findAllOccurrences_exact:
  "case findAllOccurrences source expected of
     None \<Rightarrow> expected = []
   | Some ms \<Rightarrow> expected \<noteq> [] \<and> set ms = {i. occurs_at expected source i} \<and> sorted ms \<and> distinct ms"
proof (cases "expected = []")
  case True
  show ?thesis
  proof (cases "findAllOccurrences source expected")
    case (Some ms)
    with find_loop_empty [of source expected 0 ms] True show ?thesis by (simp add: findAllOccurrences_def)
  qed (use True in simp)
next
  case False
  then show ?thesis
    using set_occurrences [OF False, of source]
    by (simp add: findAllOccurrences_eq) (simp add: occurrences_def sorted_wrt_filter)
qed

lemma patch_edit_nonempty: "patch_edit i v = Inr e \<Longrightarrow> oldText e \<noteq> []"
  by (auto simp: patch_edit_def split: option.splits json.splits if_splits)

lemma normalizePatchEdits_nonempty:
  assumes "normalizePatchEdits v = Inr edits"
  shows "\<forall>e \<in> set edits. oldText e \<noteq> []"
proof -
  obtain js' where "map_res (\<lambda>(index, edit). patch_edit index edit) (enumerate 0 js') = Inr edits"
    using assms by (auto simp: normalizePatchEdits_def split: json.splits if_splits)
  then show ?thesis
    by (auto simp: map_res_Inr_iff list_all2_conv_all_nth in_set_conv_nth split_beta dest!: patch_edit_nonempty)
qed

lemma plan_edits_Inl:
  "plan_edits source path index edits = Some (Inl e) \<Longrightarrow>
   \<exists>m d. e = FilesystemError (js ''PATCH_CONFLICT'') (Some path) m d"
proof (induction edits arbitrary: index)
  case (Cons x edits)
  show ?case
  proof (cases "plan_edit source path index x")
    case (Some r)
    show ?thesis
    proof (cases r)
      case (Inl e')
      with Some Cons.prems show ?thesis
        by (auto simp: plan_edit_def split: option.splits if_splits)
    next
      case (Inr p)
      with Some Cons show ?thesis by (auto simp: result_simps)
    qed
  qed (use Cons.prems in simp)
qed simp

lemma check_overlaps_Inl:
  "check_overlaps path ps = Inl e \<Longrightarrow> \<exists>m d. e = FilesystemError (js ''PATCH_CONFLICT'') (Some path) m d"
  by (induction path ps rule: check_overlaps.induct) (auto split: if_splits)

text \<open>C15. Planning a patch of validated edits always returns. It succeeds exactly when every edit's text
  occurs exactly once in the source and no two of these occurrences overlap; the plan then holds every
  edit at its occurrence, in the order of the source. Otherwise it throws \<open>PATCH_CONFLICT\<close> for the path.\<close>

theorem planExactPatch_exact:
  assumes "normalizePatchEdits v = Inr edits"
  shows "case planExactPatch source edits path of
     None \<Rightarrow> False
   | Some (Inl e) \<Rightarrow> \<not> plannable source edits \<and> (\<exists>m d. e = FilesystemError (js ''PATCH_CONFLICT'') (Some path) m d)
   | Some (Inr ps) \<Rightarrow> plannable source edits
       \<and> mset ps = mset (map (planned_at source) (enumerate 0 edits))
       \<and> sorted_wrt (\<lambda>p q. edit_end p \<le> edit_start q) ps"
proof -
  note ne = normalizePatchEdits_nonempty [OF assms]
  obtain r where r: "plan_edits source path 0 edits = Some r" using plan_edits_defined [OF ne] by blast
  note plan = planExactPatch_Inr [OF ne, of source path]
  show ?thesis
  proof (cases "planExactPatch source edits path")
    case None
    with r show ?thesis by (simp add: planExactPatch_def)
  next
    case (Some x)
    show ?thesis
    proof (cases x)
      case (Inl e)
      with Some plan have "\<not> plannable source edits" unfolding plannable_iff [OF ne] by auto
      moreover have "\<exists>m d. e = FilesystemError (js ''PATCH_CONFLICT'') (Some path) m d"
        using Some Inl r plan_edits_Inl check_overlaps_Inl
        by (fastforce simp: planExactPatch_def Let_def result_simps)
      ultimately show ?thesis using Some Inl by simp
    next
      case (Inr ps)
      with Some plan have "is_plan source edits ps" by simp
      with Some Inr plannable_iff [OF ne] show ?thesis by (auto simp: is_plan_alt)
    qed
  qed
qed

definition sample_edits :: json where
  "sample_edits = JArr [
     JObj [(js ''oldText'', JStr (js ''two'')), (js ''newText'', JStr (js ''2''))],
     JObj [(js ''oldText'', JStr (js ''one'')), (js ''newText'', JStr (js ''1''))]]"

definition sample_edit_list :: "FilesystemPatchEdit list" where
  "sample_edit_list = [\<lparr>oldText = js ''two'', newText = js ''2''\<rparr>, \<lparr>oldText = js ''one'', newText = js ''1''\<rparr>]"

lemma sample_edits_normalize: "normalizePatchEdits sample_edits = Inr sample_edit_list"
  by code_simp

lemma occurrences_sample:
  "occurrences (js ''one, two'') (js ''two'') = [5]" "occurrences (js ''one, two'') (js ''one'') = [0]"
  by code_simp+

lemma sample_plannable: "plannable (js ''one, two'') sample_edit_list"
  by (auto simp: plannable_def sample_edit_list_def occurrences_sample edit_span_def apart_def less_Suc_eq)

lemma sample_plan:
  "\<exists>ps. planExactPatch (js ''one, two'') sample_edit_list (js ''a.txt'') = Some (Inr ps)"
proof -
  have ne: "\<forall>e \<in> set sample_edit_list. oldText e \<noteq> []"
    using normalizePatchEdits_nonempty [OF sample_edits_normalize] .
  from sample_plannable show ?thesis
    unfolding plannable_iff [OF ne] planExactPatch_Inr [OF ne] .
qed

theorem planExactPatch_exact_witness:
  "\<exists>ps. planExactPatch (js ''one, two'') sample_edit_list (js ''a.txt'') = Some (Inr ps)
     \<and> sorted_wrt (\<lambda>p q. edit_end p \<le> edit_start q) ps"
  using sample_plan planExactPatch_exact [OF sample_edits_normalize, of "js ''one, two''" "js ''a.txt''"]
  by fastforce

text \<open>A patch changes nothing but the matched texts: the source is the old texts woven between some
  gaps, and the patched text is the new texts woven between the same gaps, for the same edits.\<close>

theorem patch_preserves_gaps:
  assumes "normalizePatchEdits v = Inr edits" and "planExactPatch source edits path = Some (Inr ps)"
  shows "\<exists>gs. length gs = Suc (length ps)
    \<and> source = weave gs (map oldText ps)
    \<and> applyPlannedPatch source ps = weave gs (map newText ps)
    \<and> mset (map (\<lambda>p. (oldText p, newText p)) ps) = mset (map (\<lambda>e. (oldText e, newText e)) edits)"
proof -
  note ne = normalizePatchEdits_nonempty [OF assms(1)]
  have plan: "is_plan source edits ps" using assms(2) unfolding planExactPatch_Inr [OF ne] .
  then have "mset ps = mset (map (planned_at source) (enumerate 0 edits))" by (simp add: is_plan_alt)
  then have "mset (map (\<lambda>p. (oldText p, newText p)) ps)
      = mset (map (\<lambda>p. (oldText p, newText p)) (map (planned_at source) (enumerate 0 edits)))"
    by (simp only: mset_map)
  also have "map (\<lambda>p. (oldText p, newText p)) (map (planned_at source) (enumerate 0 edits))
      = map (\<lambda>e. (oldText e, newText e)) edits"
    by (rule nth_equalityI) (simp_all add: planned_at_def nth_enumerate_eq)
  finally show ?thesis using is_plan_weaves [OF plan ne] by (intro exI [of _ "gaps source 0 ps"]) simp
qed

theorem patch_preserves_gaps_witness:
  "\<exists>ps gs. planExactPatch (js ''one, two'') sample_edit_list (js ''a.txt'') = Some (Inr ps)
     \<and> js ''one, two'' = weave gs (map oldText ps)
     \<and> applyPlannedPatch (js ''one, two'') ps = weave gs (map newText ps)"
proof -
  obtain ps where ps: "planExactPatch (js ''one, two'') sample_edit_list (js ''a.txt'') = Some (Inr ps)"
    using sample_plan by blast
  from patch_preserves_gaps [OF sample_edits_normalize ps] ps show ?thesis by blast
qed

text \<open>Two plans of the same edits in different orders differ only in the indices.\<close>

definition content_of :: "PlannedPatchEdit \<Rightarrow> jstr \<times> nat \<times> nat" where
  "content_of p = (newText p, edit_start p, edit_end p)"

lemma apply_from_content:
  "map content_of ps = map content_of qs \<Longrightarrow> apply_from source cursor ps = apply_from source cursor qs"
proof (induction ps arbitrary: cursor qs)
  case (Cons p ps)
  show ?case
  proof (cases qs)
    case (Cons q qs')
    have "content_of p = content_of q" "map content_of ps = map content_of qs'"
      using Cons.prems unfolding Cons by (simp_all only: list.map list.inject)
    from Cons.IH [OF this(2), of "edit_end q"] this(1) show ?thesis by (simp add: Cons content_of_def)
  qed (use Cons.prems in simp)
qed simp

lemma map_planned_content:
  "map content_of (map (planned_at source) (enumerate n edits))
     = map (\<lambda>e. (newText e, fst (edit_span source e), snd (edit_span source e))) edits"
  by (rule nth_equalityI) (simp_all add: planned_at_def content_of_def nth_enumerate_eq)

lemma is_plan_content:
  assumes "is_plan source edits ps" "\<forall>e \<in> set edits. oldText e \<noteq> []"
  shows "sorted_wrt (\<lambda>a b. fst (snd a) < fst (snd b)) (map content_of ps)"
  unfolding sorted_wrt_map
proof (rule sorted_wrt_mono_rel)
  show "sorted_wrt (\<lambda>p q. edit_end p \<le> edit_start q) ps" using assms(1) by (simp add: is_plan_def)
  fix p q :: PlannedPatchEdit
  assume "p \<in> set ps" "edit_end p \<le> edit_start q"
  with is_plan_bounds(1) [OF assms, of p] show "fst (snd (content_of p)) < fst (snd (content_of q))"
    by (simp add: content_of_def)
qed

lemma sorted_by_key_unique:
  assumes "sorted_wrt (\<lambda>a b. k a < (k b :: nat)) xs" "sorted_wrt (\<lambda>a b. k a < k b) ys" "mset xs = mset ys"
  shows "xs = ys"
  using assms
proof (induction xs arbitrary: ys)
  case (Cons x xs)
  then obtain y ys' where ys: "ys = y # ys'" by (cases ys) auto
  have "x = y"
  proof (rule ccontr)
    assume "x \<noteq> y"
    with Cons.prems(3) ys have "x \<in> set ys'" "y \<in> set xs"
      by (metis list.set_intros(1) mset_eq_setD set_ConsD)+
    with Cons.prems(1,2) ys have "k x < k y" "k y < k x" by auto
    then show False by simp
  qed
  with Cons ys show ?case by auto
qed simp

text \<open>C16. The order in which the edits of a patch are listed does not matter: a permutation of the edits is
  accepted as well and produces the same text.\<close>

theorem patch_order_independent:
  assumes "normalizePatchEdits v = Inr edits" and "normalizePatchEdits v' = Inr edits'"
    and "mset edits' = mset edits" and "planExactPatch source edits path = Some (Inr ps)"
  shows "\<exists>ps'. planExactPatch source edits' path = Some (Inr ps')
    \<and> applyPlannedPatch source ps' = applyPlannedPatch source ps"
proof -
  note ne = normalizePatchEdits_nonempty [OF assms(1)] and ne' = normalizePatchEdits_nonempty [OF assms(2)]
  have plan: "is_plan source edits ps" using assms(4) unfolding planExactPatch_Inr [OF ne] .
  let ?qs = "map (planned_at source) (enumerate 0 edits')"
  let ?ps = "js_sort compare_start ?qs"
  have contents: "mset (map content_of ?ps) = mset (map content_of ps)"
  proof -
    have "mset (map content_of ?ps) = mset (map content_of ?qs)" by (simp only: mset_map mset_js_sort)
    also have "\<dots> = mset (map content_of (map (planned_at source) (enumerate 0 edits)))"
      unfolding map_planned_content mset_map assms(3) ..
    also have "\<dots> = mset (map content_of ps)"
      using plan by (simp only: is_plan_alt mset_map)
    finally show ?thesis .
  qed
  have starts: "map edit_start l = map (\<lambda>a. fst (snd a)) (map content_of l)" for l
    by (simp add: content_of_def)
  have "sorted_wrt (<) (map edit_start ps)"
    using is_plan_content [OF plan ne] unfolding starts sorted_wrt_map .
  then have "distinct (map edit_start ps)" by (simp add: strict_sorted_iff)
  moreover have "mset (map edit_start ?ps) = mset (map edit_start ps)"
    unfolding starts using contents by (metis mset_map)
  ultimately have "distinct (map edit_start ?ps)" by (metis mset_eq_imp_distinct_iff)
  moreover have "sorted (map edit_start ?ps)"
    using start_order.sorted_js_sort [of ?qs] unfolding sorted_map
    by (rule sorted_wrt_mono_rel [rotated]) (simp add: compare_start_def)
  ultimately have "sorted_wrt (<) (map edit_start ?ps)" by (simp add: strict_sorted_iff)
  then have "sorted_wrt (\<lambda>a b. fst (snd a) < fst (snd b)) (map content_of ?ps)"
    unfolding starts sorted_wrt_map .
  with contents is_plan_content [OF plan ne] have same: "map content_of ?ps = map content_of ps"
    by (intro sorted_by_key_unique [where k = "\<lambda>a. fst (snd a)"])
  have ends: "sorted_wrt (\<lambda>p q. edit_end p \<le> edit_start q) l
      \<longleftrightarrow> sorted_wrt (\<lambda>a b. snd (snd a) \<le> fst (snd b)) (map content_of l)" for l
    by (simp add: sorted_wrt_map content_of_def)
  have "is_plan source edits' ?ps"
    using plan assms(3) unfolding is_plan_alt ends same mset_js_sort by (metis mset_eq_setD)
  moreover from same have "applyPlannedPatch source ?ps = applyPlannedPatch source ps"
    unfolding applyPlannedPatch_def by (rule apply_from_content)
  ultimately show ?thesis using planExactPatch_Inr [OF ne', of source path] by blast
qed

theorem patch_order_independent_witness:
  "\<exists>ps ps'. planExactPatch (js ''one, two'') sample_edit_list (js ''a.txt'') = Some (Inr ps)
     \<and> planExactPatch (js ''one, two'') (rev sample_edit_list) (js ''a.txt'') = Some (Inr ps')
     \<and> applyPlannedPatch (js ''one, two'') ps' = applyPlannedPatch (js ''one, two'') ps"
proof -
  have r: "normalizePatchEdits (JArr [
       JObj [(js ''oldText'', JStr (js ''one'')), (js ''newText'', JStr (js ''1''))],
       JObj [(js ''oldText'', JStr (js ''two'')), (js ''newText'', JStr (js ''2''))]]) = Inr (rev sample_edit_list)"
    by code_simp
  obtain ps where ps: "planExactPatch (js ''one, two'') sample_edit_list (js ''a.txt'') = Some (Inr ps)"
    using sample_plan by blast
  from patch_order_independent [OF sample_edits_normalize r _ ps] ps show ?thesis by auto
qed

end
