(* ===== verification/AtomicWrite.thy ===== *)
theory AtomicWrite
  imports PathSafety PatchPlan World
begin

text \<open>
  \<open>FilesystemService.write\<close> and \<open>patch\<close> with \<open>#accessWorkspace\<close>, \<open>resolveExistingPath\<close>,
  \<open>inspectWriteTarget\<close>, \<open>sha256File\<close> and \<open>#writeAtomic\<close>
  (\<open>packages/filesystem/src/index.ts\<close>). The digest \<open>sha256\<close> of \<open>node:crypto\<close>, the workspace
  resolver and the replaceable primitives of \<open>FilesystemServiceOptions\<close> are parameters;
  \<open>default_service\<close> has the primitives the constructor falls back to. Calls of one target are run one
  after the other by \<open>#serializeWrite\<close> (theory \<open>WriteQueue\<close>); here an operation is taken at the moment
  it gets its turn.
\<close>

section \<open>Service and workspace access\<close>

record service =
  resolveWorkspace :: "jstr \<Rightarrow> WorkspaceRecord option os"
  linkFile :: "abspath \<Rightarrow> abspath \<Rightarrow> unit os"
  renameFile :: "abspath \<Rightarrow> abspath \<Rightarrow> unit os"
  syncDirectory :: "abspath \<Rightarrow> bool os"

definition syncDirectoryBestEffort :: "abspath \<Rightarrow> bool os" where
  "syncDirectoryBestEffort directory =
     io_try
       (io_bind (os_open_read directory) (\<lambda>handle.
          io_finally
            (io_try (io_bind (os_sync handle) (\<lambda>_. io_return True)) (\<lambda>_. io_return False))
            (io_try (os_close handle) (\<lambda>_. io_return ()))))
       (\<lambda>_. io_return False)"

definition default_service :: "(jstr \<Rightarrow> WorkspaceRecord option os) \<Rightarrow> service" where
  "default_service resolver = \<lparr>resolveWorkspace = resolver, linkFile = os_link, renameFile = os_rename,
     syncDirectory = syncDirectoryBestEffort\<rparr>"

definition accessWorkspace :: "service \<Rightarrow> jstr \<Rightarrow> abspath os" where
  "accessWorkspace svc workspace_id =
     io_bind (resolveWorkspace svc workspace_id) (\<lambda>found.
       case found of
         None \<Rightarrow> io_throw (fs_error ''WORKSPACE_NOT_FOUND'' None
                   (js ''workspace '' @ workspace_id @ js '' was not found''))
       | Some workspace \<Rightarrow>
           if status workspace \<noteq> Available
           then io_throw (fs_error ''WORKSPACE_UNAVAILABLE'' None
                  (js ''workspace '' @ workspace_id @ js '' is '' @ workspace_status_text (status workspace)))
           else io_bind
             (io_map_error (\<lambda>_. fs_error ''WORKSPACE_UNAVAILABLE'' None
                              (js ''workspace '' @ workspace_id @ js '' root is unavailable''))
                (os_realpath (components (canonicalPath workspace))))
             (\<lambda>root.
                if \<not> samePath (path_text root) (canonicalPath workspace)
                then io_throw (fs_error ''WORKSPACE_UNAVAILABLE'' None
                       (js ''workspace '' @ workspace_id @ js '' root identity changed''))
                else io_return root))"

definition resolveExistingPath :: "abspath \<Rightarrow> jstr \<Rightarrow> abspath os" where
  "resolveExistingPath root portablePath =
     (let candidate = (if portablePath = dot then root
                       else resolve_segments root (filter (\<lambda>c. c \<noteq> []) (split_on slash portablePath))) in
      if \<not> isSameOrDescendant root candidate
      then io_throw (fs_error ''PATH_OUTSIDE_WORKSPACE'' (Some portablePath) (js ''path escapes workspace: '' @ portablePath))
      else io_bind (io_map_error (mapFilesystemError portablePath) (os_realpath candidate)) (\<lambda>canonical.
        if \<not> isSameOrDescendant root canonical
        then io_throw (fs_error ''PATH_OUTSIDE_WORKSPACE'' (Some portablePath)
               (js ''path resolves outside workspace: '' @ portablePath))
        else io_return canonical))"

section \<open>Inspecting the target\<close>

text \<open>The read loop of \<open>sha256File\<close>, collecting what \<open>hash.update\<close> is given.\<close>

function hash_loop :: "nat \<Rightarrow> nat \<Rightarrow> bytes \<Rightarrow> world \<Rightarrow> bytes result \<times> world" where
  "hash_loop handle position hashed w =
     (case os_read handle HASH_CHUNK_BYTES position w of
        (Inl e, w') \<Rightarrow> (Inl e, w')
      | (Inr chunk, w') \<Rightarrow>
          if chunk = [] then (Inr hashed, w')
          else hash_loop handle (position + length chunk) (hashed @ chunk) w')"
  by pat_completeness auto

lemma observe_world:
  assumes "observe f w = (x, w')"
  shows "w_sched w' = tl (w_sched w)"
    and "w_sched w = [] \<Longrightarrow> w' = w"
  using assms by (auto simp: observe_def syscall_def Let_def split: list.splits option.splits sum.splits)

lemma os_read_nonempty:
  assumes "os_read h n pos w = (Inr chunk, w')" "chunk \<noteq> []"
  shows "w_sched w \<noteq> [] \<and> w_sched w' = tl (w_sched w)
       \<or> w_sched w = [] \<and> w' = w \<and> pos < length (handle_bytes (w_fs w) h)"
proof (cases "w_sched w")
  case Nil
  have "w' = w" using observe_world(2) [OF assms(1) [unfolded os_read_def] Nil] .
  moreover have "pos < length (handle_bytes (w_fs w) h)"
    using assms Nil by (auto simp: os_read_def observe_calm calm_def split: if_splits sum.splits)
  ultimately show ?thesis using Nil by simp
next
  case (Cons d ds)
  then show ?thesis using observe_world(1) [OF assms(1) [unfolded os_read_def]] by simp
qed

text \<open>It ends: every round uses up a disturbance, or reads further into a file that no longer changes.\<close>

termination hash_loop
proof (relation "measures [\<lambda>(h, pos, acc, w). length (w_sched w),
    \<lambda>(h, pos, acc, w). length (handle_bytes (w_fs w) h) - pos]", goal_cases)
  case (2 h pos acc w x w' chunk)
  then have "os_read h HASH_CHUNK_BYTES pos w = (Inr chunk, w')" by simp
  from os_read_nonempty [OF this \<open>chunk \<noteq> []\<close>] \<open>chunk \<noteq> []\<close>
  show ?case by (auto simp: neq_Nil_conv)
qed simp

declare hash_loop.simps [simp del]

definition sha256File :: "(bytes \<Rightarrow> jstr) \<Rightarrow> abspath \<Rightarrow> jstr \<Rightarrow> jstr os" where
  "sha256File sha256 target portablePath =
     io_bind (io_map_error (mapFilesystemError portablePath) (os_open_read target)) (\<lambda>handle.
     io_bind (io_finally (hash_loop handle 0 []) (os_close handle)) (\<lambda>hashed.
     io_return (sha256 hashed)))"

definition inspectWriteTarget :: "(bytes \<Rightarrow> jstr) \<Rightarrow> abspath \<Rightarrow> jstr \<Rightarrow> WriteTargetState os" where
  "inspectWriteTarget sha256 target portablePath =
     io_bind
       (io_try (io_bind (os_lstat target) (\<lambda>st. io_return (Some st)))
          (\<lambda>error. if hasErrnoCode error ENOENT then io_return None
                   else io_throw (mapFilesystemError portablePath error)))
       (\<lambda>found. case found of
          None \<Rightarrow> io_return \<lparr>target_exists = False, target_mode = 0, target_sha256 = None, target_size = 0\<rparr>
        | Some st \<Rightarrow>
            if isSymbolicLink (st_body st)
            then io_throw (fs_error ''PATH_SYMLINK_UNSUPPORTED'' (Some portablePath)
                   (js ''atomic write does not replace symlink targets: '' @ portablePath))
            else if \<not> isFile (st_body st)
            then io_throw (fs_error ''PATH_NOT_FILE'' (Some portablePath)
                   (js ''atomic write target is not a regular file: '' @ portablePath))
            else io_bind (sha256File sha256 target portablePath) (\<lambda>digest.
              io_return \<lparr>target_exists = True, target_mode = st_mode st, target_sha256 = Some digest,
                         target_size = st_size st\<rparr>))"

definition readWholeFile :: "abspath \<Rightarrow> jstr \<Rightarrow> nat \<Rightarrow> bytes os" where
  "readWholeFile target portablePath file_size =
     (if MAX_SAFE_INTEGER < file_size \<or> MAX_WRITE_BYTES < file_size
      then io_throw (fs_error ''PATCH_TOO_LARGE'' (Some portablePath) (js ''invalid patch source size''))
      else io_bind (io_map_error (mapFilesystemError portablePath) (os_open_read target)) (\<lambda>handle.
        io_finally
          (io_bind (os_readFile handle) (\<lambda>data.
             if MAX_WRITE_BYTES < length data
             then io_throw (fs_error ''PATCH_TOO_LARGE'' (Some portablePath)
                    (js ''patch source exceeds '' @ js_nat MAX_WRITE_BYTES @ js '' bytes: '' @ portablePath))
             else io_return data))
          (os_close handle)))"

section \<open>\<open>#writeAtomic\<close>\<close>

record write_options =
  opt_path :: jstr
  opt_target :: abspath
  opt_parent :: abspath
  opt_content :: bytes
  opt_expected :: "jstr option option"

datatype durability = FileAndDirectory | FileOnly

record FilesystemWriteResult =
  written_path :: jstr
  written_created :: bool
  written_previousSha256 :: "jstr option"
  written_sha256 :: jstr
  written_bytes :: nat
  written_durability :: durability

text \<open>The two local variables the \<open>finally\<close> block consults.\<close>

record write_locals =
  tempExists :: bool
  renamed :: bool

type_synonym 'a local_os = "(write_locals \<times> world, 'a) io"

definition in_world :: "'a os \<Rightarrow> 'a local_os" where
  "in_world m lw = (case m (snd lw) of (x, w) \<Rightarrow> (x, (fst lw, w)))"

definition set_tempExists :: "bool \<Rightarrow> unit local_os" where
  "set_tempExists b lw = (Inr (), ((fst lw)\<lparr>tempExists := b\<rparr>, snd lw))"

definition set_renamed :: "bool \<Rightarrow> unit local_os" where
  "set_renamed b lw = (Inr (), ((fst lw)\<lparr>renamed := b\<rparr>, snd lw))"

definition get_locals :: "write_locals local_os" where
  "get_locals lw = (Inr (fst lw), lw)"

definition swallow :: "('w, unit) io \<Rightarrow> ('w, unit) io" where
  "swallow m = io_try m (\<lambda>_. io_return ())"

definition temp_name :: "jstr \<Rightarrow> nat \<Rightarrow> jstr \<Rightarrow> jstr" where
  "temp_name base pid uuid =
     js ''.'' @ base @ js ''.benchhand-write-'' @ js_nat pid @ js ''-'' @ uuid @ js ''.tmp''"

text \<open>Creating, filling and syncing the staged file; \<open>0x1B6\<close> is \<open>0o666\<close>.\<close>

definition stage_file :: "write_options \<Rightarrow> abspath \<Rightarrow> WriteTargetState \<Rightarrow> unit local_os" where
  "stage_file options tempPath initial =
     (let mode = (if target_exists initial then target_mode initial else 0x1B6) in
      io_bind (in_world (io_map_error (mapWriteFailure (opt_path options))
                 (io_bind process_umask (\<lambda>umask. os_create tempPath mode umask)))) (\<lambda>handle.
      io_bind (set_tempExists True) (\<lambda>_.
      io_finally
        (io_bind (if target_exists initial then in_world (os_chmod handle (target_mode initial)) else io_return ()) (\<lambda>_.
         io_bind (in_world (os_writeFile handle (opt_content options))) (\<lambda>_.
         in_world (os_sync handle))))
        (in_world (os_close handle)))))"

text \<open>Moving it to the target: a link when the target must not exist, a rename otherwise.\<close>

definition commit_file :: "service \<Rightarrow> write_options \<Rightarrow> abspath \<Rightarrow> unit local_os" where
  "commit_file svc options tempPath =
     (if opt_expected options = Some None
      then io_bind
        (io_try (in_world (linkFile svc tempPath (opt_target options))) (\<lambda>error.
           if hasErrnoCode error EEXIST
           then io_throw (fs_error ''WRITE_CONFLICT'' (Some (opt_path options))
                  (js ''create-only precondition lost a commit race for '' @ opt_path options))
           else io_throw (mapWriteFailure (opt_path options) error)))
        (\<lambda>_. io_bind (swallow (in_world (os_rm_force tempPath))) (\<lambda>_. set_tempExists False))
      else io_bind
        (io_map_error (mapWriteFailure (opt_path options)) (in_world (renameFile svc tempPath (opt_target options))))
        (\<lambda>_. set_tempExists False))"

definition write_result ::
    "(bytes \<Rightarrow> jstr) \<Rightarrow> write_options \<Rightarrow> WriteTargetState \<Rightarrow> bool \<Rightarrow> FilesystemWriteResult" where
  "write_result sha256 options beforeCommit directorySynced =
     \<lparr>written_path = opt_path options, written_created = (\<not> target_exists beforeCommit),
      written_previousSha256 = (if target_exists beforeCommit then target_sha256 beforeCommit else None),
      written_sha256 = sha256 (opt_content options), written_bytes = length (opt_content options),
      written_durability = (if directorySynced then FileAndDirectory else FileOnly)\<rparr>"

text \<open>The \<open>try\<close> block.\<close>

definition write_body ::
    "(bytes \<Rightarrow> jstr) \<Rightarrow> service \<Rightarrow> write_options \<Rightarrow> abspath \<Rightarrow> WriteTargetState \<Rightarrow> FilesystemWriteResult local_os" where
  "write_body sha256 svc options tempPath initial =
     io_bind (stage_file options tempPath initial) (\<lambda>_.
     io_bind (in_world (inspectWriteTarget sha256 (opt_target options) (opt_path options))) (\<lambda>beforeCommit.
     io_bind (io_result (enforceWritePrecondition (opt_expected options) beforeCommit (opt_path options))) (\<lambda>_.
     io_bind (commit_file svc options tempPath) (\<lambda>_.
     io_bind (set_renamed True) (\<lambda>_.
     io_bind (io_try (in_world (syncDirectory svc (opt_parent options))) (\<lambda>_. io_return False)) (\<lambda>directorySynced.
     io_return (write_result sha256 options beforeCommit directorySynced)))))))"

text \<open>The \<open>finally\<close> block.\<close>

definition discard_temp :: "abspath \<Rightarrow> unit local_os" where
  "discard_temp tempPath =
     io_bind get_locals (\<lambda>locals.
       if tempExists locals \<and> \<not> renamed locals then swallow (in_world (os_rm_force tempPath)) else io_return ())"

definition with_locals :: "'a local_os \<Rightarrow> 'a os" where
  "with_locals m w = (case m (\<lparr>tempExists = False, renamed = False\<rparr>, w) of (x, (l, w')) \<Rightarrow> (x, w'))"

definition writeAtomic :: "(bytes \<Rightarrow> jstr) \<Rightarrow> service \<Rightarrow> write_options \<Rightarrow> FilesystemWriteResult os" where
  "writeAtomic sha256 svc options =
     io_bind (inspectWriteTarget sha256 (opt_target options) (opt_path options)) (\<lambda>initial.
     io_bind (io_result (enforceWritePrecondition (opt_expected options) initial (opt_path options))) (\<lambda>_.
     io_bind process_pid (\<lambda>pid.
     io_bind randomUUID (\<lambda>uuid.
     let tempPath = opt_parent options @ [temp_name (last (opt_target options)) pid uuid] in
     with_locals
       (io_finally (write_body sha256 svc options tempPath initial) (discard_temp tempPath))))))"

section \<open>\<open>write\<close>\<close>

record FilesystemWriteRequest =
  wr_workspaceId :: jstr
  wr_path :: jstr
  wr_content :: json
  wr_expectedSha256 :: "jstr option option"

text \<open>The parent's canonical path and the target, common to \<open>write\<close> and \<open>patch\<close>.\<close>

definition locate_target :: "string \<Rightarrow> abspath \<Rightarrow> jstr \<Rightarrow> (abspath \<times> abspath) os" where
  "locate_target verb root path =
     (let parentPath = dirname path in
      io_bind (resolveExistingPath root parentPath) (\<lambda>canonicalParent.
      io_bind (io_map_error (mapFilesystemError parentPath) (os_lstat canonicalParent)) (\<lambda>parentStats.
      if \<not> isDirectory (st_body parentStats)
      then io_throw (fs_error ''PATH_NOT_DIRECTORY'' (Some parentPath)
             (js verb @ js '' parent is not a directory: '' @ parentPath))
      else (let target = canonicalParent @ [basename path] in
        if \<not> isSameOrDescendant root target
        then io_throw (fs_error ''PATH_OUTSIDE_WORKSPACE'' (Some path)
               (js verb @ js '' target escapes workspace: '' @ path))
        else io_return (canonicalParent, target)))))"

definition fs_write ::
    "(bytes \<Rightarrow> jstr) \<Rightarrow> service \<Rightarrow> FilesystemWriteRequest \<Rightarrow> FilesystemWriteResult os" where
  "fs_write sha256 svc request =
     (case wr_content request of
        JStr text \<Rightarrow>
          (let content = utf8_encode text in
           if MAX_WRITE_BYTES < length content
           then io_throw (fs_error ''WRITE_TOO_LARGE'' (Some (wr_path request))
                  (js ''write content exceeds '' @ js_nat MAX_WRITE_BYTES @ js '' UTF-8 bytes''))
           else io_bind (io_result (normalizeExpectedSha256 (wr_expectedSha256 request))) (\<lambda>expectedSha256.
             io_bind (accessWorkspace svc (wr_workspaceId request)) (\<lambda>root.
             io_bind (io_result (normalizeRelativePath (wr_path request) False)) (\<lambda>path.
             io_bind (locate_target ''write'' root path) (\<lambda>(parent, target).
             writeAtomic sha256 svc
               \<lparr>opt_path = path, opt_target = target, opt_parent = parent, opt_content = content,
                opt_expected = expectedSha256\<rparr>)))))
      | _ \<Rightarrow> io_throw (fs_error ''INVALID_REQUEST'' (Some (wr_path request)) (js ''content must be a string'')))"

section \<open>\<open>patch\<close>\<close>

record FilesystemPatchRequest =
  pr_workspaceId :: jstr
  pr_path :: jstr
  pr_expectedSha256 :: json
  pr_edits :: json

record FilesystemPatchResult =
  patched_path :: jstr
  patched_previousSha256 :: jstr
  patched_sha256 :: jstr
  patched_edits :: nat
  patched_bytes :: nat
  patched_durability :: durability

fun error_code :: "thrown \<Rightarrow> jstr option" where
  "error_code (FilesystemError code _ _ _) = Some code"
| "error_code _ = None"

fun error_details :: "thrown \<Rightarrow> json option" where
  "error_details (FilesystemError _ _ _ d) = d"
| "error_details _ = None"

text \<open>The \<open>catch\<close> around \<open>#writeAtomic\<close>.\<close>

definition patch_write_failed ::
    "(bytes \<Rightarrow> jstr) \<Rightarrow> abspath \<Rightarrow> jstr \<Rightarrow> jstr \<Rightarrow> thrown \<Rightarrow> 'a os" where
  "patch_write_failed sha256 target path expectedSha256 error =
     (if error_code error = Some (js ''WRITE_CONFLICT'')
      then io_bind (inspectWriteTarget sha256 target path) (\<lambda>current.
             io_throw (patchHashConflict path expectedSha256 (target_sha256 current)))
      else if error_code error = Some (js ''WRITE_FAILED'')
      then io_throw (FilesystemError (js ''PATCH_FAILED'') (Some path) (error_message error) (error_details error))
      else io_throw error)"

text \<open>A planned text and its encoding; the branch for a planner that does not return is never taken, since
  validated edits are not empty.\<close>

definition patched_content :: "jstr \<Rightarrow> FilesystemPatchEdit list \<Rightarrow> jstr \<Rightarrow> (PlannedPatchEdit list \<times> bytes) result" where
  "patched_content source edits path =
     (case planExactPatch source edits path of
        None \<Rightarrow> Inl (NotAnError (js ''does not return''))
      | Some r \<Rightarrow> bind_res r (\<lambda>planned. Inr (planned, utf8_encode (applyPlannedPatch source planned))))"

definition patch_target ::
    "(bytes \<Rightarrow> jstr) \<Rightarrow> service \<Rightarrow> jstr \<Rightarrow> FilesystemPatchEdit list \<Rightarrow> jstr \<Rightarrow> abspath \<Rightarrow> abspath \<Rightarrow> FilesystemPatchResult os" where
  "patch_target sha256 svc expectedSha256 edits path parent target =
     io_bind (inspectWriteTarget sha256 target path) (\<lambda>initial.
     io_bind (io_result (enforcePatchHashPrecondition expectedSha256 initial path)) (\<lambda>_.
     if MAX_WRITE_BYTES < target_size initial
     then io_throw (fs_error ''PATCH_TOO_LARGE'' (Some path)
            (js ''patch source exceeds '' @ js_nat MAX_WRITE_BYTES @ js '' bytes: '' @ path))
     else io_bind (readWholeFile target path (target_size initial)) (\<lambda>sourceBuffer.
       let sourceSha256 = sha256 sourceBuffer in
       if sourceSha256 \<noteq> expectedSha256
       then io_throw (patchHashConflict path expectedSha256 (Some sourceSha256))
       else if classifyBuffer sourceBuffer = BinaryFile
       then io_throw (fs_error ''PATCH_BINARY_UNSUPPORTED'' (Some path)
              (js ''deterministic text patch does not support binary content: '' @ path))
       else io_bind (io_result (decodeUtf8 sourceBuffer)) (\<lambda>source.
         io_bind (io_result (patched_content source edits path)) (\<lambda>(planned, content).
         if MAX_WRITE_BYTES < length content
         then io_throw (fs_error ''PATCH_TOO_LARGE'' (Some path)
                (js ''patched content exceeds '' @ js_nat MAX_WRITE_BYTES @ js '' UTF-8 bytes: '' @ path))
         else io_bind
           (io_try (writeAtomic sha256 svc
                      \<lparr>opt_path = path, opt_target = target, opt_parent = parent, opt_content = content,
                       opt_expected = Some (Some expectedSha256)\<rparr>)
              (patch_write_failed sha256 target path expectedSha256))
           (\<lambda>written. io_return
              \<lparr>patched_path = path, patched_previousSha256 = expectedSha256,
               patched_sha256 = written_sha256 written, patched_edits = length planned,
               patched_bytes = written_bytes written, patched_durability = written_durability written\<rparr>))))))"

definition fs_patch ::
    "(bytes \<Rightarrow> jstr) \<Rightarrow> service \<Rightarrow> FilesystemPatchRequest \<Rightarrow> FilesystemPatchResult os" where
  "fs_patch sha256 svc request =
     io_bind (io_result (normalizeRequiredSha256 (pr_expectedSha256 request) ''expectedSha256'')) (\<lambda>expectedSha256.
     io_bind (io_result (normalizePatchEdits (pr_edits request))) (\<lambda>edits.
     io_bind (accessWorkspace svc (pr_workspaceId request)) (\<lambda>root.
     io_bind (io_result (normalizeRelativePath (pr_path request) False)) (\<lambda>path.
     io_bind (locate_target ''patch'' root path) (\<lambda>(parent, target).
     patch_target sha256 svc expectedSha256 edits path parent target)))))"

end
