(* ===== verification/Samples.thy ===== *)
theory Samples
  imports AtomicWrite JsonRoundtrip
begin

text \<open>
  A concrete workspace: the directory \<open>/w\<close> with one text file, a resolver that knows it, a stand-in for
  the digest and a patch request. The witnesses of the properties run the model on it.
\<close>

lemma ascii_points: "list_all (\<lambda>u. unat u < 128) s \<Longrightarrow> code_points s = map unat s"
proof (induction s)
  case (Cons u s)
  then show ?case by (cases s) (auto simp: is_high_def)
qed simp

lemma utf8_encode_ascii: "list_all (\<lambda>u. unat u < 128) s \<Longrightarrow> utf8_encode s = map ucast s"
proof -
  assume a: "list_all (\<lambda>u. unat u < 128) s"
  then have "utf8_encode s = concat (map (\<lambda>u. utf8_point (replace_lone (unat u))) s)"
    by (simp add: utf8_encode_def utf8_of_points_def ascii_points comp_def)
  also from a have "\<dots> = map ucast s"
    by (induction s) (simp_all add: utf8_point_def replace_lone_def scalar_def)
  finally show ?thesis .
qed

lemma utf8_decode_ascii: "list_all (\<lambda>u. unat u < 128) s \<Longrightarrow> utf8_decode (utf8_encode s) = Some s"
proof (rule utf8_decode_encode)
  assume a: "list_all (\<lambda>u. unat u < 128) s"
  from a show "well_formed s" by (auto simp: well_formed_def ascii_points list_all_iff scalar_def)
  from a show "take 1 (code_points s) \<noteq> [0xFEFF]" by (cases s) (auto simp: ascii_points)
qed

definition sample_bytes :: bytes where
  "sample_bytes = utf8_encode (js ''one, two'')"

lemma sample_chars: "js ''one, two'' = [111, 110, 101, 44, 32, 116, 119, 111]" "js ''1, 2'' = [49, 44, 32, 50]"
  by (simp_all add: js_def)

lemma sample_ascii: "list_all (\<lambda>u. unat u < 128) (js ''one, two'')"
  unfolding sample_chars by simp

lemma sample_bytes_eq: "sample_bytes = [111, 110, 101, 44, 32, 116, 119, 111]"
  unfolding sample_bytes_def sample_chars by (subst utf8_encode_ascii) simp_all

lemma sample_source: "utf8_decode sample_bytes = Some (js ''one, two'')" "0 \<notin> set sample_bytes" "length sample_bytes = 8"
  using utf8_decode_ascii [OF sample_ascii] by (simp_all only: sample_bytes_def) (simp_all add: sample_bytes_eq [unfolded sample_bytes_def])

definition sample_sha :: "bytes \<Rightarrow> jstr" where
  "sample_sha bs = replicate 64 (cu (if length bs = 8 then CHR ''a'' else CHR ''b''))"

definition sample_fs :: fsys where
  "sample_fs = \<lparr>names = [([js ''w''], 1), ([js ''w'', js ''a.txt''], 2)],
     inodes = [(1, \<lparr>ino_body = Directory, ino_mode = 0x1ED\<rparr>), (2, \<lparr>ino_body = Regular sample_bytes, ino_mode = 0x1A4\<rparr>)],
     next_inode = 3\<rparr>"

definition sample_world :: world where
  "sample_world = \<lparr>w_fs = sample_fs, w_sched = [], w_log = [], w_pid = 7, w_uuid = (\<lambda>n. js ''u'' @ js_nat n),
     w_uuids_used = 0, w_umask = 0x12\<rparr>"

definition sample_record :: WorkspaceRecord where
  "sample_record = \<lparr>workspaceId = js ''ws'', canonicalPath = js ''/w'', requestedPath = js ''/w'', mode = Checkout,
     repoRoot = None, worktreePath = None, baseRef = None, branch = None, createdAt = js ''t'', lastUsedAt = js ''t'',
     ownerInstance = None, status = Available, metadataVersion = 1\<rparr>"

definition sample_resolver :: "jstr \<Rightarrow> WorkspaceRecord option os" where
  "sample_resolver i = io_return (if i = js ''ws'' then Some sample_record else None)"

definition sample_patch_request :: FilesystemPatchRequest where
  "sample_patch_request = \<lparr>pr_workspaceId = js ''ws'', pr_path = js ''a.txt'',
     pr_expectedSha256 = JStr (sample_sha sample_bytes), pr_edits = sample_edits\<rparr>"

definition sample_write_request :: FilesystemWriteRequest where
  "sample_write_request = \<lparr>wr_workspaceId = js ''ws'', wr_path = js ''a.txt'', wr_content = JStr (js ''1, 2''),
     wr_expectedSha256 = None\<rparr>"

definition sample_write_options :: write_options where
  "sample_write_options = \<lparr>opt_path = js ''a.txt'', opt_target = [js ''w'', js ''a.txt''], opt_parent = [js ''w''],
     opt_content = [49, 50], opt_expected = None\<rparr>"

definition sample_plan_list :: "PlannedPatchEdit list" where
  "sample_plan_list = [
     \<lparr>oldText = js ''one'', newText = js ''1'', editIndex = 1, edit_start = 0, edit_end = 3\<rparr>,
     \<lparr>oldText = js ''two'', newText = js ''2'', editIndex = 0, edit_start = 5, edit_end = 8\<rparr>]"

lemma sample_plan_eq:
  "planExactPatch (js ''one, two'') sample_edit_list (js ''a.txt'') = Some (Inr sample_plan_list)"
proof -
  have ne: "\<forall>e \<in> set sample_edit_list. oldText e \<noteq> []"
    using normalizePatchEdits_nonempty [OF sample_edits_normalize] .
  have "is_plan (js ''one, two'') sample_edit_list sample_plan_list"
    by (simp add: is_plan_alt sample_edit_list_def sample_plan_list_def occurrences_sample planned_at_def
        edit_span_def add_mset_commute)
  then show ?thesis unfolding planExactPatch_Inr [OF ne] .
qed

lemma sample_patched: "applyPlannedPatch (js ''one, two'') sample_plan_list = js ''1, 2''"
  by (simp add: applyPlannedPatch_def sample_plan_list_def sample_chars slice_def js_def)

lemma sample_patched_length: "length (utf8_encode (js ''1, 2'')) = 4"
  unfolding sample_chars by (subst utf8_encode_ascii) simp_all

lemma js_nat_no_slash: "slash \<notin> set (js_nat n)"
proof
  assume "slash \<in> set (js_nat n)"
  then have "is_digit slash" using js_nat_digits [of n] by (auto simp: list_all_iff)
  moreover have "\<not> is_digit slash" by code_simp
  ultimately show False by blast
qed

lemma temp_name_fresh:
  assumes "slash \<notin> set base" "slash \<notin> set uuid"
  shows "plain (temp_name base pid uuid)" and "temp_name base pid uuid \<noteq> base"
proof -
  have l: "length (temp_name base pid uuid) > length base + 20" by (simp add: temp_name_def)
  then show "temp_name base pid uuid \<noteq> base" by auto
  have "slash \<notin> set (js ''.'') \<and> slash \<notin> set (js ''.benchhand-write-'') \<and> slash \<notin> set (js ''-'') \<and> slash \<notin> set (js ''.tmp'')"
    by code_simp
  with assms js_nat_no_slash have "slash \<notin> set (temp_name base pid uuid)" by (simp add: temp_name_def)
  moreover from l have "temp_name base pid uuid \<noteq> []" "temp_name base pid uuid \<noteq> dot" "temp_name base pid uuid \<noteq> dotdot"
    by (auto simp: dot_def dotdot_def)
  ultimately show "plain (temp_name base pid uuid)" by (simp add: plain_def)
qed

lemma sample_plain: "plain (js ''w'')" "plain (js ''a.txt'')" by code_simp+

lemma sample_digest: "normalizeRequiredSha256 (JStr (sample_sha bs)) ''expectedSha256'' = Inr (sample_sha bs)"
proof -
  have "is_hex_unit (cu (CHR ''a'')) \<and> is_hex_unit (cu (CHR ''b''))
      \<and> lower_unit (cu (CHR ''a'')) = cu (CHR ''a'') \<and> lower_unit (cu (CHR ''b'')) = cu (CHR ''b'')" by code_simp
  then show ?thesis
    by (simp add: normalizeRequiredSha256_def sample_sha_def is_sha256_def list_all_iff)
qed

lemma sample_norm: "normalizeRelativePath (js ''a.txt'') False = Inr (join_with slash ([] @ [js ''a.txt'']))"
  by code_simp

end
