(* ===== verification/WriteGuarantees.thy ===== *)
theory WriteGuarantees
  imports Samples
begin

text \<open>
  What holds of \<open>#writeAtomic\<close>, \<open>write\<close> and \<open>patch\<close> whatever the rest of the system does between their
  calls and whichever of their calls fail: the calls that changed anything, with the paths they were given.
  The primitives that commit a name are an interface with the laws below; the constructor's defaults
  satisfy it.
\<close>

section \<open>The calls an operation may make\<close>

text \<open>Calls on the staged file after its creation: on its path \<open>tmp\<close>, or on the inode \<open>h\<close> the creation gave.\<close>

fun own_call :: "abspath \<Rightarrow> nat \<Rightarrow> bytes \<Rightarrow> event \<Rightarrow> bool" where
  "own_call tmp h content (Chmodded i m) \<longleftrightarrow> i = h"
| "own_call tmp h content (Wrote i bs) \<longleftrightarrow> i = h \<and> bs = content"
| "own_call tmp h content (Synced i) \<longleftrightarrow> True"
| "own_call tmp h content (Removed p q) \<longleftrightarrow> p = tmp \<and> last q = last tmp"
| "own_call tmp h content _ \<longleftrightarrow> False"

text \<open>Calls that remove the staged file or only sync.\<close>

fun tidies :: "abspath \<Rightarrow> event \<Rightarrow> bool" where
  "tidies tmp (Removed p q) \<longleftrightarrow> p = tmp \<and> last q = last tmp"
| "tidies tmp (Synced i) \<longleftrightarrow> True"
| "tidies tmp _ \<longleftrightarrow> False"

text \<open>All changes are confined to the staged file: nothing but removing it, or its creation at a free name and
  calls on the new inode.\<close>

definition staged :: "abspath \<Rightarrow> bytes \<Rightarrow> event list \<Rightarrow> bool" where
  "staged tmp content evs \<longleftrightarrow> list_all (tidies tmp) evs
     \<or> (\<exists>q h rest. evs = Created tmp q h # rest \<and> last q = last tmp \<and> list_all (own_call tmp h content) rest)"

text \<open>The commit: a link onto a free name when the target must not exist, a rename otherwise.\<close>

definition commit_event :: "write_options \<Rightarrow> abspath \<Rightarrow> event \<Rightarrow> bool" where
  "commit_event options tmp c \<longleftrightarrow>
     (if opt_expected options = Some None then \<exists>q i. c = Linked tmp (opt_target options) q i None
      else \<exists>q i prior. c = Renamed tmp (opt_target options) q i prior)"

text \<open>The changes a write makes: it stages the content in a fresh file beside the target, and if it returns
  it has created, filled and synced that file, in this order and without anything in between but the
  change of its mode, and then moved it onto the target. If it throws its calls are confined to the
  staged file, whose name is not that of the target.\<close>

definition write_trace :: "write_options \<Rightarrow> bool \<Rightarrow> event list \<Rightarrow> bool" where
  "write_trace options returned evs \<longleftrightarrow>
     (\<exists>pid uuid tmp. tmp = opt_parent options @ [temp_name (last (opt_target options)) pid uuid]
        \<and> last tmp \<noteq> last (opt_target options)
        \<and> (if returned then
             (\<exists>q h chmod c post. evs = Created tmp q h # chmod @ [Wrote h (opt_content options), Synced h, c] @ post
                \<and> last q = last tmp \<and> (chmod = [] \<or> (\<exists>mode. chmod = [Chmodded h mode]))
                \<and> commit_event options tmp c \<and> list_all (tidies tmp) post)
           else staged tmp (opt_content options) evs))"

locale commit_calls =
  fixes svc :: service
  assumes link_fails: "linkFile svc p q w = (Inl e, w') \<Longrightarrow> w_log w' = w_log w"
    and link_ok: "linkFile svc p q w = (Inr u, w') \<Longrightarrow> \<exists>r i. w_log w' = w_log w @ [Linked p q r i None]"
    and rename_fails: "renameFile svc p q w = (Inl e, w') \<Longrightarrow> w_log w' = w_log w"
    and rename_ok: "renameFile svc p q w = (Inr u, w') \<Longrightarrow>
          \<exists>r i prior. w_log w' = w_log w @ [Renamed p q r i prior]"
    and sync_quiet: "only.stays (tidies tmp) (syncDirectory svc d)"

section \<open>Calls that leave the log alone\<close>

lemma hash_loop_same_log: "hash_loop h pos acc w = (x, w') \<Longrightarrow> same_log w w'"
proof (induction h pos acc w rule: hash_loop.induct)
  case (1 h pos acc w)
  obtain y w1 where y: "os_read h HASH_CHUNK_BYTES pos w = (y, w1)" by fastforce
  have le: "same_log w w1" using same_log.staysD [OF observers_stay(5) y] .
  show ?case
  proof (cases y)
    case (Inl e)
    with y le "1.prems" show ?thesis by (simp add: hash_loop.simps)
  next
    case (Inr chunk)
    show ?thesis
    proof (cases "chunk = []")
      case True
      with y Inr le "1.prems" show ?thesis by (simp add: hash_loop.simps)
    next
      case False
      with y Inr "1.prems" have "hash_loop h (pos + length chunk) (acc @ chunk) w1 = (x, w')"
        by (simp add: hash_loop.simps [of h pos])
      then have "same_log w1 w'" by (rule "1.IH" [OF y [symmetric] Inr False])
      with le show ?thesis by (rule same_log.le_trans)
    qed
  qed
qed

lemma hash_loop_stays: "same_log.stays (hash_loop h pos acc)"
  by (rule same_log.staysI) (rule hash_loop_same_log)

lemma sha256File_stays: "same_log.stays (sha256File sha target path)"
  unfolding sha256File_def by (intro same_log.stays_intros observers_stay hash_loop_stays)

lemma inspect_stays: "same_log.stays (inspectWriteTarget sha target path)"
  unfolding inspectWriteTarget_def by (intro same_log.stays_intros observers_stay sha256File_stays)

lemma readWholeFile_stays: "same_log.stays (readWholeFile target path n)"
  unfolding readWholeFile_def by (intro same_log.stays_intros observers_stay)

lemma resolve_stays: "same_log.stays (resolveExistingPath root path)"
  unfolding resolveExistingPath_def Let_def by (intro same_log.stays_intros observers_stay)

lemma locate_target_stays: "same_log.stays (locate_target verb root path)"
  unfolding locate_target_def Let_def by (intro same_log.stays_intros observers_stay resolve_stays)

section \<open>Staging\<close>

lemma tidies_own: "tidies tmp ev \<Longrightarrow> own_call tmp h content ev"
  by (cases ev) auto

lemma staged_tidied: "staged tmp content evs \<Longrightarrow> list_all (tidies tmp) late \<Longrightarrow> staged tmp content (evs @ late)"
  by (auto simp: staged_def list_all_iff tidies_own)

lemma staged_none: "staged tmp content []"
  by (simp add: staged_def)

lemma in_world_eq: "in_world m (l, w) = (x, lw') \<longleftrightarrow> (\<exists>w'. m w = (x, w') \<and> lw' = (l, w'))"
  by (auto simp: in_world_def split: prod.splits)

lemma temp_name_other: "temp_name base pid uuid \<noteq> base" "temp_name base pid uuid \<noteq> dot" "temp_name base pid uuid \<noteq> dotdot"
proof -
  have l: "length (temp_name base pid uuid) > length base + 20" by (simp add: temp_name_def)
  then show "temp_name base pid uuid \<noteq> base" by auto
  show "temp_name base pid uuid \<noteq> dot" "temp_name base pid uuid \<noteq> dotdot" using l by (auto simp: dot_def dotdot_def)
qed

lemma temp_entry: "names_entry (d @ [temp_name base pid uuid])"
  by (simp add: names_entry_def temp_name_other)

lemma stage_log:
  assumes "stage_file options tmp initial (l, w) = (x, lw')" "names_entry tmp"
  shows "renamed (fst lw') = renamed l \<and>
    (\<exists>evs. w_log (snd lw') = w_log w @ evs \<and> staged tmp (opt_content options) evs \<and>
       (case x of
          Inl _ \<Rightarrow> True
        | Inr _ \<Rightarrow> \<exists>q h. last q = last tmp \<and> evs = Created tmp q h #
            (if target_exists initial then [Chmodded h (target_mode initial)] else [])
            @ [Wrote h (opt_content options), Synced h]))"
proof -
  let ?path = "opt_path options"
  obtain y w1 where c: "os_create tmp (if target_exists initial then target_mode initial else 0x1B6) (w_umask w) w = (y, w1)"
    by fastforce
  show ?thesis
  proof (cases y)
    case (Inl e)
    with assms(1) c have "lw' = (l, w1)" "x = Inl (mapWriteFailure ?path e)"
      by (auto simp: stage_file_def Let_def io_defs in_world_def process_umask_def split: if_splits)
    with c Inl os_create_log [OF c assms(2)] show ?thesis by (auto simp: staged_none)
  next
    case (Inr h)
    then obtain q where q: "last q = last tmp" "w_log w1 = w_log w @ [Created tmp q h]"
      using os_create_log [OF c assms(2)] by auto
    let ?body = "io_finally
        (io_bind (if target_exists initial then in_world (os_chmod h (target_mode initial)) else io_return ()) (\<lambda>_.
         io_bind (in_world (os_writeFile h (opt_content options))) (\<lambda>_. in_world (os_sync h))))
        (in_world (os_close h))"
    have b: "?body (l\<lparr>tempExists := True\<rparr>, w1) = (x, lw')"
      using assms(1) c Inr
      by (auto simp: stage_file_def Let_def io_bind_def io_map_error_def io_try_def io_throw_def in_world_def
          process_umask_def set_tempExists_def split: if_splits)
    have "renamed (fst lw') = renamed l \<and> (\<exists>evs. w_log (snd lw') = w_log w1 @ evs \<and>
        list_all (own_call tmp h (opt_content options)) evs \<and>
        (case x of Inl _ \<Rightarrow> True | Inr _ \<Rightarrow> evs = (if target_exists initial then [Chmodded h (target_mode initial)] else [])
           @ [Wrote h (opt_content options), Synced h]))"
    proof -
      have close: "w_log w3 = w_log w2" if "os_close h w2 = (z, w3)" for w2 z w3
        using same_log.staysD [OF observers_stay(7) that] by (simp add: same_log_def)
      show ?thesis
        using b
        by (auto simp: io_finally_def io_bind_def io_return_def in_world_eq
            split: prod.splits sum.splits if_splits
            dest!: close os_chmod_log os_writeFile_log os_sync_log)
    qed
    then obtain rest where "renamed (fst lw') = renamed l" "w_log (snd lw') = w_log w @ Created tmp q h # rest"
        "list_all (own_call tmp h (opt_content options)) rest"
      and "case x of Inl _ \<Rightarrow> True | Inr _ \<Rightarrow> rest = (if target_exists initial then [Chmodded h (target_mode initial)] else [])
           @ [Wrote h (opt_content options), Synced h]" using q(2) by auto
    with q(1) show ?thesis by (auto simp: staged_def split: sum.splits)
  qed
qed

section \<open>Committing\<close>

lemma swallow_rm:
  assumes "swallow (in_world (os_rm_force tmp)) (l, w) = (x, lw')" "names_entry tmp"
  shows "fst lw' = l \<and> only (tidies tmp) w (snd lw') \<and> x = Inr ()"
proof -
  obtain y w1 where y: "os_rm_force tmp w = (y, w1)" by fastforce
  from os_rm_log [OF y assms(2)] have "only (tidies tmp) w w1" by (auto simp: only_def)
  with y assms(1) show ?thesis
    by (auto simp: swallow_def io_try_def in_world_eq io_return_def split: prod.splits sum.splits)
qed

context commit_calls
begin

lemma commit_log:
  assumes "commit_file svc options tmp (l, w) = (x, lw')" "names_entry tmp"
  shows "renamed (fst lw') = renamed l \<and>
    (case x of Inl _ \<Rightarrow> w_log (snd lw') = w_log w
     | Inr _ \<Rightarrow> \<exists>c post. w_log (snd lw') = w_log w @ c # post \<and> commit_event options tmp c \<and> list_all (tidies tmp) post)"
proof (cases "opt_expected options = Some None")
  case True
  obtain y w1 where y: "linkFile svc tmp (opt_target options) w = (y, w1)" by (meson surj_pair)
  show ?thesis
  proof (cases y)
    case (Inl e)
    with assms(1) y True have "w_log (snd lw') = w_log w1 \<and> fst lw' = l \<and> isl x"
      by (auto simp: commit_file_def io_defs in_world_def split: if_splits)
    with link_fails y Inl show ?thesis by (auto split: sum.splits)
  next
    case (Inr u)
    obtain r i where c: "w_log w1 = w_log w @ [Linked tmp (opt_target options) r i None]"
      using link_ok y Inr by blast
    have k: "commit_event options tmp (Linked tmp (opt_target options) r i None)"
      using True by (simp add: commit_event_def)
    obtain z lw2 where z: "swallow (in_world (os_rm_force tmp)) (l, w1) = (z, lw2)" by (meson surj_pair)
    from swallow_rm [OF z assms(2)] obtain w2 where r: "lw2 = (l, w2)" "z = Inr ()" "only (tidies tmp) w1 w2"
      by (cases lw2) auto
    have "x = Inr ()" "lw' = (l\<lparr>tempExists := False\<rparr>, w2)"
      using assms(1) y True Inr z r by (simp_all add: commit_file_def io_bind_def io_try_def in_world_def set_tempExists_def)
    with r(3) c k show ?thesis by (auto simp: only_def)
  qed
next
  case False
  obtain y w1 where y: "renameFile svc tmp (opt_target options) w = (y, w1)" by (meson surj_pair)
  show ?thesis
  proof (cases y)
    case (Inl e)
    with assms(1) y False have "w_log (snd lw') = w_log w1 \<and> fst lw' = l \<and> isl x"
      by (auto simp: commit_file_def io_defs in_world_def split: if_splits)
    with rename_fails y Inl show ?thesis by (auto split: sum.splits)
  next
    case (Inr u)
    obtain r i prior where c: "w_log w1 = w_log w @ [Renamed tmp (opt_target options) r i prior]"
      using rename_ok y Inr by blast
    have k: "commit_event options tmp (Renamed tmp (opt_target options) r i prior)"
      using False by (simp add: commit_event_def)
    have "x = Inr ()" "lw' = (l\<lparr>tempExists := False\<rparr>, w1)"
      using assms(1) y False Inr
      by (simp_all add: commit_file_def io_bind_def io_map_error_def io_try_def in_world_def set_tempExists_def)
    with c k show ?thesis by auto
  qed
qed

lemma sync_parent:
  assumes "io_try (in_world (syncDirectory svc d)) (\<lambda>_. io_return False) (l, w) = (x, lw')"
  shows "fst lw' = l \<and> only (tidies tmp) w (snd lw') \<and> (\<exists>b. x = Inr b)"
proof -
  obtain y w1 where y: "syncDirectory svc d w = (y, w1)" by (meson surj_pair)
  with only.staysD [OF sync_quiet y] assms show ?thesis
    by (auto simp: io_try_def io_return_def in_world_def split: sum.splits)
qed

text \<open>The \<open>try\<close> block: it throws before the commit, or commits and returns.\<close>

lemma body_log:
  assumes "write_body sha svc options tmp initial (l, w) = (x, lw')" "\<not> renamed l" "names_entry tmp"
  shows "\<exists>evs. w_log (snd lw') = w_log w @ evs \<and>
    (case x of
     Inl _ \<Rightarrow> staged tmp (opt_content options) evs
   | Inr r \<Rightarrow> renamed (fst lw') \<and>
       (\<exists>q h c post. evs = Created tmp q h # (if target_exists initial then [Chmodded h (target_mode initial)] else [])
             @ [Wrote h (opt_content options), Synced h, c] @ post
          \<and> last q = last tmp \<and> commit_event options tmp c \<and> list_all (tidies tmp) post)
       \<and> written_path r = opt_path options \<and> written_sha256 r = sha (opt_content options)
       \<and> written_bytes r = length (opt_content options))"
proof -
  obtain x1 lw1 where s1: "stage_file options tmp initial (l, w) = (x1, lw1)" by (meson surj_pair)
  from stage_log [OF s1 assms(3)] obtain evs where e: "w_log (snd lw1) = w_log w @ evs"
      "staged tmp (opt_content options) evs"
    and st: "case x1 of Inl _ \<Rightarrow> True
        | Inr _ \<Rightarrow> \<exists>q h. last q = last tmp \<and> evs = Created tmp q h #
            (if target_exists initial then [Chmodded h (target_mode initial)] else [])
            @ [Wrote h (opt_content options), Synced h]" by blast
  show ?thesis
  proof (cases x1)
    case (Inl err)
    with assms(1) s1 e show ?thesis by (auto simp: write_body_def io_bind_def)
  next
    case (Inr u1)
    obtain x2 w2 where s2: "inspectWriteTarget sha (opt_target options) (opt_path options) (snd lw1) = (x2, w2)"
      by (meson surj_pair)
    have l2: "w_log w2 = w_log w @ evs"
      using same_log.staysD [OF inspect_stays s2] e(1) by (simp add: same_log_def)
    show ?thesis
    proof (cases x2)
      case (Inl err)
      with assms(1) s1 s2 \<open>x1 = Inr u1\<close> l2 e(2) show ?thesis by (auto simp: write_body_def io_bind_def in_world_def)
    next
      case (Inr before)
      show ?thesis
      proof (cases "enforceWritePrecondition (opt_expected options) before (opt_path options)")
        case (Inl err)
        with assms(1) s1 s2 \<open>x1 = Inr u1\<close> \<open>x2 = Inr before\<close> l2 e(2) show ?thesis
          by (auto simp: write_body_def io_bind_def in_world_def io_result_def)
      next
        case ok: (Inr u2)
        obtain x3 lw3 where s3: "commit_file svc options tmp (fst lw1, w2) = (x3, lw3)" by (meson surj_pair)
        note c3 = commit_log [OF s3 assms(3)]
        show ?thesis
        proof (cases x3)
          case (Inl err)
          with assms(1) s1 s2 s3 \<open>x1 = Inr u1\<close> \<open>x2 = Inr before\<close> ok have "x = Inl err" "lw' = lw3"
            by (auto simp: write_body_def io_bind_def in_world_def io_result_def)
          with c3 Inl l2 e(2) show ?thesis by auto
        next
          case (Inr u3)
          then obtain c post where c: "w_log (snd lw3) = w_log w2 @ c # post" "commit_event options tmp c"
              "list_all (tidies tmp) post" using c3 by auto
          obtain x4 lw4 where s4: "io_try (in_world (syncDirectory svc (opt_parent options))) (\<lambda>_. io_return False)
              ((fst lw3)\<lparr>renamed := True\<rparr>, snd lw3) = (x4, lw4)" by (meson surj_pair)
          from sync_parent [OF s4, of tmp] obtain b where b: "fst lw4 = (fst lw3)\<lparr>renamed := True\<rparr>"
              "only (tidies tmp) (snd lw3) (snd lw4)" "x4 = Inr b" by blast
          then obtain more_evs where m: "w_log (snd lw4) = w_log (snd lw3) @ more_evs" "list_all (tidies tmp) more_evs"
            by (auto simp: only_def)
          have fin: "x = Inr (write_result sha options before b)" "lw' = lw4"
            using assms(1) s1 s2 s3 s4 b(3) \<open>x1 = Inr u1\<close> \<open>x2 = Inr before\<close> ok Inr
            by (auto simp: write_body_def io_bind_def in_world_def io_result_def set_renamed_def io_return_def)
          obtain q h where q: "last q = last tmp" "evs = Created tmp q h #
              (if target_exists initial then [Chmodded h (target_mode initial)] else [])
              @ [Wrote h (opt_content options), Synced h]" using st \<open>x1 = Inr u1\<close> by auto
          have "w_log (snd lw') = w_log w @ (evs @ [c] @ post @ more_evs)" using fin(2) l2 c(1) m(1) by simp
          moreover have "list_all (tidies tmp) (post @ more_evs)" using c(3) m(2) by simp
          ultimately show ?thesis
            using q c(2) b(1) fin
            by (intro exI [of _ "evs @ [c] @ post @ more_evs"]) (auto simp: write_result_def)
        qed
      qed
    qed
  qed
qed

lemma discard_log:
  "discard_temp tmp (l, w) = (x, lw') \<Longrightarrow> names_entry tmp \<Longrightarrow> only (tidies tmp) w (snd lw') \<and> x = Inr () \<and> fst lw' = l
    \<and> (renamed l \<longrightarrow> w_log (snd lw') = w_log w)"
  using swallow_rm [of tmp l w]
  by (auto simp: discard_temp_def io_bind_def get_locals_def io_return_def only.le_refl split: if_splits)

lemma write_trace_returned:
  assumes "tmp = opt_parent options @ [temp_name (last (opt_target options)) pid uuid]" "last tmp \<noteq> last (opt_target options)"
    and "evs = Created tmp q h # chmod @ [Wrote h (opt_content options), Synced h, c] @ post" "last q = last tmp"
    and "chmod = [] \<or> (\<exists>mode. chmod = [Chmodded h mode])" "commit_event options tmp c" "list_all (tidies tmp) post"
  shows "write_trace options True evs"
  unfolding write_trace_def if_True
  by (rule exI [of _ pid], rule exI [of _ uuid], rule exI [of _ tmp], intro conjI assms(1,2),
    rule exI [of _ q], rule exI [of _ h], rule exI [of _ chmod], rule exI [of _ c], rule exI [of _ post],
    intro conjI assms(3-7))

text \<open>What the log shows of a whole \<open>#writeAtomic\<close>.\<close>

lemma writeAtomic_log:
  assumes "writeAtomic sha svc options w = (x, w')"
  shows "\<exists>evs. w_log w' = w_log w @ evs \<and> write_trace options (\<not> isl x) evs
    \<and> (case x of Inl _ \<Rightarrow> True | Inr r \<Rightarrow> written_path r = opt_path options \<and> written_sha256 r = sha (opt_content options)
        \<and> written_bytes r = length (opt_content options))"
proof -
  have none: "write_trace options False []"
    by (auto simp: write_trace_def temp_name_other staged_none)
  obtain x1 w1 where s1: "inspectWriteTarget sha (opt_target options) (opt_path options) w = (x1, w1)"
    by (meson surj_pair)
  have l1: "w_log w1 = w_log w" using same_log.staysD [OF inspect_stays s1] by (simp add: same_log_def)
  show ?thesis
  proof (cases x1)
    case (Inl e)
    with assms s1 l1 none show ?thesis by (auto simp: writeAtomic_def io_bind_def)
  next
    case (Inr initial)
    show ?thesis
    proof (cases "enforceWritePrecondition (opt_expected options) initial (opt_path options)")
      case (Inl e)
      with assms s1 l1 Inr none show ?thesis by (auto simp: writeAtomic_def io_bind_def io_result_def)
    next
      case ok: (Inr u)
      define w2 where "w2 = w1\<lparr>w_uuids_used := Suc (w_uuids_used w1)\<rparr>"
      have l2: "w_log w2 = w_log w" by (simp add: w2_def l1)
      define name where "name = temp_name (last (opt_target options)) (w_pid w1) (w_uuid w1 (w_uuids_used w1))"
      define tmp where "tmp = opt_parent options @ [name]"
      have entry: "names_entry tmp" unfolding tmp_def name_def by (rule temp_entry)
      have other: "last tmp \<noteq> last (opt_target options)" unfolding tmp_def name_def by (simp add: temp_name_other)
      let ?l0 = "\<lparr>tempExists = False, renamed = False\<rparr>"
      obtain x3 lw3 where s3: "write_body sha svc options tmp initial (?l0, w2) = (x3, lw3)" by (meson surj_pair)
      obtain x4 lw4 where s4: "discard_temp tmp lw3 = (x4, lw4)" by (meson surj_pair)
      have d: "only (tidies tmp) (snd lw3) (snd lw4)" "x4 = Inr ()"
        using discard_log [of tmp "fst lw3" "snd lw3"] s4 entry by auto
      have fin: "x = x3" "w' = snd lw4"
        using assms s1 Inr ok s3 s4 d(2)
        by (auto simp: writeAtomic_def io_bind_def io_result_def process_pid_def randomUUID_def Let_def
            with_locals_def io_finally_def w2_def [symmetric] tmp_def [unfolded name_def, symmetric] split: prod.splits)
      from body_log [OF s3 _ entry] obtain evs where evs: "w_log (snd lw3) = w_log w2 @ evs"
        and b: "case x3 of
           Inl _ \<Rightarrow> staged tmp (opt_content options) evs
         | Inr r \<Rightarrow> renamed (fst lw3) \<and>
             (\<exists>q h c post. evs = Created tmp q h # (if target_exists initial then [Chmodded h (target_mode initial)] else [])
                   @ [Wrote h (opt_content options), Synced h, c] @ post
                \<and> last q = last tmp \<and> commit_event options tmp c \<and> list_all (tidies tmp) post)
             \<and> written_path r = opt_path options \<and> written_sha256 r = sha (opt_content options)
             \<and> written_bytes r = length (opt_content options)" by auto
      obtain late where late: "w_log (snd lw4) = w_log (snd lw3) @ late" "list_all (tidies tmp) late"
        using d(1) by (auto simp: only_def)
      have log: "w_log w' = w_log w @ (evs @ late)" using evs late(1) l2 fin(2) by simp
      have "write_trace options (\<not> isl x) (evs @ late)"
      proof (cases x3)
        case (Inl e)
        with b have "staged tmp (opt_content options) (evs @ late)"
          using late(2) staged_tidied by auto
        with Inl fin(1) other show ?thesis
          unfolding write_trace_def tmp_def name_def by auto
      next
        case (Inr r)
        with b obtain q h c post where "evs @ late = Created tmp q h #
              (if target_exists initial then [Chmodded h (target_mode initial)] else [])
              @ [Wrote h (opt_content options), Synced h, c] @ (post @ late)"
          "last q = last tmp" "commit_event options tmp c" "list_all (tidies tmp) (post @ late)"
          using late(2) by auto
        moreover have "\<not> isl x" using Inr fin(1) by simp
        ultimately show ?thesis
          using write_trace_returned [OF tmp_def [unfolded name_def] other, of "evs @ late" q h _ c "post @ late"] by auto
      qed
      with log b fin(1) show ?thesis by (intro exI [of _ "evs @ late"]) (auto split: sum.splits)
    qed
  qed
qed

end

section \<open>The default primitives\<close>

lemma syncDirectory_quiet: "only.stays (tidies tmp) (syncDirectoryBestEffort d)"
proof -
  have "only.stays (tidies tmp) (os_sync h)" for h
    by (rule only.staysI) (auto simp: only_def dest!: os_sync_log split: sum.splits)
  then show ?thesis
    unfolding syncDirectoryBestEffort_def
    by (intro only.stays_intros \<open>only.stays _ (os_sync _)\<close> same_log_only [OF observers_stay(3)] same_log_only [OF observers_stay(7)])
qed

interpretation default: commit_calls "default_service resolver" for resolver
proof
  fix p q :: abspath and w w' :: world and e
  show "linkFile (default_service resolver) p q w = (Inl e, w') \<Longrightarrow> w_log w' = w_log w"
    using os_link_log [of p q w "Inl e" w'] by (auto simp: default_service_def)
  show "renameFile (default_service resolver) p q w = (Inl e, w') \<Longrightarrow> w_log w' = w_log w"
    using os_rename_log [of p q w "Inl e" w'] by (auto simp: default_service_def)
next
  fix p q :: abspath and w w' :: world and u
  show "linkFile (default_service resolver) p q w = (Inr u, w') \<Longrightarrow> \<exists>r i. w_log w' = w_log w @ [Linked p q r i None]"
    using os_link_log [of p q w "Inr u" w'] by (auto simp: default_service_def)
  show "renameFile (default_service resolver) p q w = (Inr u, w') \<Longrightarrow>
      \<exists>r i prior. w_log w' = w_log w @ [Renamed p q r i prior]"
    using os_rename_log [of p q w "Inr u" w'] by (auto simp: default_service_def)
next
  show "only.stays (tidies tmp) (syncDirectory (default_service resolver) d)" for tmp d
    using syncDirectory_quiet by (simp add: default_service_def)
qed

section \<open>Runs that write once\<close>

text \<open>A run that throws having changed nothing, or whose outcome and logged calls satisfy \<open>Q\<close>.\<close>

definition runs :: "'a os \<Rightarrow> world \<Rightarrow> ('a result \<Rightarrow> event list \<Rightarrow> bool) \<Rightarrow> bool" where
  "runs m w Q \<longleftrightarrow> (\<exists>evs. w_log (snd (m w)) = w_log w @ evs \<and> (isl (fst (m w)) \<and> evs = [] \<or> Q (fst (m w)) evs))"

lemma runs_throw: "runs (io_throw e) w Q"
  by (simp add: runs_def io_throw_def)

lemma runs_bind:
  assumes "same_log.stays m" "\<And>a w1. m w = (Inr a, w1) \<Longrightarrow> runs (f a) w1 Q"
  shows "runs (io_bind m f) w Q"
proof -
  obtain y w1 where y: "m w = (y, w1)" by (meson surj_pair)
  then have "w_log w1 = w_log w" using same_log.staysD [OF assms(1) y] by (simp add: same_log_def)
  with y assms(2) show ?thesis by (cases y) (auto simp: runs_def io_bind_def)
qed

lemma runs_result: "(\<And>a. r = Inr a \<Longrightarrow> runs (f a) w Q) \<Longrightarrow> runs (io_bind (io_result r) f) w Q"
  by (rule runs_bind) (auto simp: same_log.stays_result io_result_def)

lemma runs_if: "(c \<Longrightarrow> runs m w Q) \<Longrightarrow> (\<not> c \<Longrightarrow> runs n w Q) \<Longrightarrow> runs (if c then m else n) w Q"
  by simp

lemma runs_pair: "(\<And>a b. p = (a, b) \<Longrightarrow> runs (f a b) w Q) \<Longrightarrow> runs (case p of (a, b) \<Rightarrow> f a b) w Q"
  by (cases p) simp

lemma runs_mono: "runs m w Q \<Longrightarrow> (\<And>x evs. Q x evs \<Longrightarrow> Q' x evs) \<Longrightarrow> runs m w Q'"
  by (auto simp: runs_def)

text \<open>A handler that changes nothing and throws, then a value made of the result.\<close>

lemma runs_try_return:
  assumes "runs m w Q" "\<And>e. same_log.stays (h e)" "\<And>e w x w'. h e w = (x, w') \<Longrightarrow> \<exists>e'. x = Inl e'"
    and "\<And>e e' evs. Q (Inl e) evs \<Longrightarrow> Q' (Inl e') evs" "\<And>a evs. Q (Inr a) evs \<Longrightarrow> Q' (Inr (g a)) evs"
  shows "runs (io_bind (io_try m h) (\<lambda>a. io_return (g a))) w Q'"
proof -
  obtain y w1 where y: "m w = (y, w1)" by (meson surj_pair)
  show ?thesis
  proof (cases y)
    case (Inl e)
    obtain x w2 where h: "h e w1 = (x, w2)" by (meson surj_pair)
    with assms(3) obtain e' where "x = Inl e'" by blast
    moreover have "w_log w2 = w_log w1" using same_log.staysD [OF assms(2) h] by (simp add: same_log_def)
    ultimately show ?thesis
      using assms(1,4) y Inl h by (auto simp: runs_def io_bind_def io_try_def)
  next
    case (Inr a)
    with assms(1,5) y show ?thesis by (auto simp: runs_def io_bind_def io_try_def io_return_def)
  qed
qed

lemma runs_writeAtomic:
  "runs (writeAtomic sha256 (default_service resolver) options) w (\<lambda>x evs.
     write_trace options (\<not> isl x) evs \<and>
     (case x of Inl _ \<Rightarrow> True | Inr r \<Rightarrow> written_path r = opt_path options
        \<and> written_sha256 r = sha256 (opt_content options) \<and> written_bytes r = length (opt_content options)))"
proof -
  obtain x w' where x: "writeAtomic sha256 (default_service resolver) options w = (x, w')" by (meson surj_pair)
  from default.writeAtomic_log [OF x] show ?thesis unfolding runs_def x by auto
qed

lemma quiet_resolver: "(\<And>i w. w_log (snd (resolver i w)) = w_log w) \<Longrightarrow> same_log.stays (resolver i)"
  by (rule same_log.staysI) (metis same_log_def snd_conv)

lemma accessWorkspace_stays:
  "same_log.stays (resolveWorkspace svc i) \<Longrightarrow> same_log.stays (accessWorkspace svc i)"
  unfolding accessWorkspace_def by (intro same_log.stays_intros observers_stay)

lemma patch_write_failed_stays: "same_log.stays (patch_write_failed sha256 target path expected e)"
  unfolding patch_write_failed_def by (intro same_log.stays_intros inspect_stays)

lemma patch_write_failed_throws: "patch_write_failed sha256 target path expected e w = (x, w') \<Longrightarrow> \<exists>e'. x = Inl e'"
  by (auto simp: patch_write_failed_def io_bind_def io_throw_def split: if_splits prod.splits sum.splits)

lemma runs_locate:
  assumes "\<And>parent target w2. \<lbrakk>fst (resolveExistingPath root (dirname path) w) = Inr parent;
      target = parent @ [basename path]; isSameOrDescendant root target\<rbrakk> \<Longrightarrow> runs (f parent target) w2 Q"
  shows "runs (io_bind (locate_target verb root path) (\<lambda>(parent, target). f parent target)) w Q"
proof (rule runs_bind [OF locate_target_stays])
  fix pt w2 assume "locate_target verb root path w = (Inr pt, w2)"
  with assms show "runs (case pt of (parent, target) \<Rightarrow> f parent target) w2 Q"
    by (auto simp: locate_target_def Let_def io_bind_eq io_return_eq io_throw_eq split: if_splits)
qed

section \<open>Properties\<close>

text \<open>C9. \<open>#writeAtomic\<close> commits all or nothing, whatever other processes do between its calls and whichever
  calls fail. If it throws, all it has changed is confined to the staged file beside the target, a file of
  another name: it has removed it, or created it and then called only on it, so that what the target is
  is what others left. If it returns, it has created the staged file, perhaps set its mode, written
  exactly the content to it and synced it, with nothing else in between, and then linked it (a create-only
  request; onto a name that did not exist) or renamed it onto the path of the target, and afterwards
  at most removed the staged name and synced; the reported path, digest and length are those
  of the request.\<close>

theorem writeAtomic_all_or_nothing:
  "case writeAtomic sha256 (default_service resolver) options w of
     (Inl e, w') \<Rightarrow> \<exists>evs. w_log w' = w_log w @ evs \<and> write_trace options False evs
   | (Inr r, w') \<Rightarrow> (\<exists>evs. w_log w' = w_log w @ evs \<and> write_trace options True evs)
        \<and> written_path r = opt_path options \<and> written_sha256 r = sha256 (opt_content options)
        \<and> written_bytes r = length (opt_content options)"
proof -
  obtain x w' where x: "writeAtomic sha256 (default_service resolver) options w = (x, w')" by (meson surj_pair)
  from default.writeAtomic_log [OF x] show ?thesis unfolding x by (cases x) auto
qed

text \<open>The target of a request: the accepted relative path in the canonical parent directory found for it, in
  the workspace. Access to the workspace is the first thing a request asks of the file system.\<close>

definition target_in :: "(jstr \<Rightarrow> WorkspaceRecord option os) \<Rightarrow> jstr \<Rightarrow> jstr \<Rightarrow> world \<Rightarrow> write_options \<Rightarrow> bool" where
  "target_in resolver i requested w options \<longleftrightarrow>
     normalizeRelativePath requested False = Inr (opt_path options)
     \<and> (\<exists>root w1. accessWorkspace (default_service resolver) i w = (Inr root, w1)
          \<and> fst (resolveExistingPath root (dirname (opt_path options)) w1) = Inr (opt_parent options)
          \<and> opt_target options = opt_parent options @ [basename (opt_path options)]
          \<and> isSameOrDescendant root (opt_target options))"

definition write_intended ::
    "(jstr \<Rightarrow> WorkspaceRecord option os) \<Rightarrow> FilesystemWriteRequest \<Rightarrow> world \<Rightarrow> write_options \<Rightarrow> bool" where
  "write_intended resolver request w options \<longleftrightarrow>
     target_in resolver (wr_workspaceId request) (wr_path request) w options
     \<and> (\<exists>text'. wr_content request = JStr text' \<and> opt_content options = utf8_encode text')
     \<and> length (opt_content options) \<le> MAX_WRITE_BYTES
     \<and> normalizeExpectedSha256 (wr_expectedSha256 request) = Inr (opt_expected options)"

text \<open>What a patch writes: the planned edits applied to the decoding of bytes whose digest is the expected one.\<close>

definition patch_intended ::
    "(bytes \<Rightarrow> jstr) \<Rightarrow> (jstr \<Rightarrow> WorkspaceRecord option os) \<Rightarrow> FilesystemPatchRequest \<Rightarrow> world \<Rightarrow> jstr \<Rightarrow> nat
      \<Rightarrow> write_options \<Rightarrow> bool" where
  "patch_intended sha256 resolver request w expected edits options \<longleftrightarrow>
     target_in resolver (pr_workspaceId request) (pr_path request) w options
     \<and> normalizeRequiredSha256 (pr_expectedSha256 request) ''expectedSha256'' = Inr expected
     \<and> opt_expected options = Some (Some expected)
     \<and> (\<exists>es bs source planned. normalizePatchEdits (pr_edits request) = Inr es
          \<and> sha256 bs = expected \<and> classifyBuffer bs \<noteq> BinaryFile \<and> decodeUtf8 bs = Inr source
          \<and> planExactPatch source es (opt_path options) = Some (Inr planned)
          \<and> opt_content options = utf8_encode (applyPlannedPatch source planned) \<and> edits = length planned)
     \<and> length (opt_content options) \<le> MAX_WRITE_BYTES"

lemma runs_stated: "runs m w Q \<Longrightarrow> \<exists>evs. w_log (snd (m w)) = w_log w @ evs
    \<and> (case fst (m w) of Inl e \<Rightarrow> evs = [] \<or> Q (Inl e) evs | Inr r \<Rightarrow> Q (Inr r) evs)"
  by (auto simp: runs_def split: sum.splits)

text \<open>C13. A write request writes exactly when it returns: through every error path, every failing call and
  every interference, a request that throws has changed nothing, or has only staged a file beside
  its target under another name; a request that returns has staged exactly the encoding of its text and
  moved it onto its target, once. The target is the accepted path of the request in a canonical directory of the
  workspace it names. (The resolver that looks up the workspace is assumed to change no file.)\<close>

theorem fs_write_commits_iff_returns:
  assumes "\<And>i w. w_log (snd (resolver i w)) = w_log w"
  shows "\<exists>evs. w_log (snd (fs_write sha256 (default_service resolver) request w)) = w_log w @ evs
    \<and> (case fst (fs_write sha256 (default_service resolver) request w) of
         Inl e \<Rightarrow> evs = [] \<or> (\<exists>options. write_intended resolver request w options \<and> write_trace options False evs)
       | Inr r \<Rightarrow> \<exists>options. write_intended resolver request w options \<and> write_trace options True evs
           \<and> written_path r = opt_path options \<and> written_sha256 r = sha256 (opt_content options)
           \<and> written_bytes r = length (opt_content options))"
proof -
  let ?Q = "\<lambda>x evs. case x of
      Inl e \<Rightarrow> \<exists>options. write_intended resolver request w options \<and> write_trace options False evs
    | Inr r \<Rightarrow> \<exists>options. write_intended resolver request w options \<and> write_trace options True evs
           \<and> written_path r = opt_path options \<and> written_sha256 r = sha256 (opt_content options)
           \<and> written_bytes r = length (opt_content options)"
  have r: "same_log.stays (accessWorkspace (default_service resolver) i)" for i
    using quiet_resolver [of resolver i] assms by (intro accessWorkspace_stays) (simp add: default_service_def)
  have "runs (fs_write sha256 (default_service resolver) request) w ?Q"
  proof (cases "wr_content request")
    case (JStr text')
    have i: "write_intended resolver request w
        \<lparr>opt_path = path, opt_target = target, opt_parent = parent, opt_content = utf8_encode text', opt_expected = ex\<rparr>"
      if "\<not> MAX_WRITE_BYTES < length (utf8_encode text')"
        "normalizeExpectedSha256 (wr_expectedSha256 request) = Inr ex"
        "accessWorkspace (default_service resolver) (wr_workspaceId request) w = (Inr root, w1)"
        "normalizeRelativePath (wr_path request) False = Inr path"
        "fst (resolveExistingPath root (dirname path) w1) = Inr parent"
        "target = parent @ [basename path]" "isSameOrDescendant root target"
      for ex root w1 path parent target
      using that JStr by (auto simp: write_intended_def target_in_def)
    show ?thesis
      unfolding fs_write_def JStr json.case Let_def
      by (intro runs_if runs_throw runs_result runs_bind [OF r] runs_locate runs_mono [OF runs_writeAtomic])
        (drule (6) i, fastforce split: sum.splits)
  qed (simp_all add: fs_write_def runs_throw)
  from runs_stated [OF this] show ?thesis by (simp only: sum.case)
qed

theorem fs_write_commits_iff_returns_witness:
  "\<exists>evs. w_log (snd (fs_write sample_sha (default_service sample_resolver) sample_write_request sample_world))
        = w_log sample_world @ evs
    \<and> (case fst (fs_write sample_sha (default_service sample_resolver) sample_write_request sample_world) of
         Inl e \<Rightarrow> evs = [] \<or> (\<exists>options. write_intended sample_resolver sample_write_request sample_world options
           \<and> write_trace options False evs)
       | Inr r \<Rightarrow> \<exists>options. write_intended sample_resolver sample_write_request sample_world options
           \<and> write_trace options True evs
           \<and> written_path r = opt_path options \<and> written_sha256 r = sample_sha (opt_content options)
           \<and> written_bytes r = length (opt_content options))"
  by (rule fs_write_commits_iff_returns) (simp add: sample_resolver_def io_return_def)

lemma runs_patch_target:
  assumes "target_in resolver (pr_workspaceId request) (pr_path request) w
      \<lparr>opt_path = path, opt_target = target, opt_parent = parent, opt_content = [], opt_expected = None\<rparr>"
    and "normalizeRequiredSha256 (pr_expectedSha256 request) ''expectedSha256'' = Inr expected"
    and "normalizePatchEdits (pr_edits request) = Inr es"
  shows "runs (patch_target sha256 (default_service resolver) expected es path parent target) w2 (\<lambda>x evs. case x of
      Inl e \<Rightarrow> \<exists>expected edits options. patch_intended sha256 resolver request w expected edits options
        \<and> write_trace options False evs
    | Inr r \<Rightarrow> \<exists>expected edits options. patch_intended sha256 resolver request w expected edits options
        \<and> write_trace options True evs
        \<and> r = \<lparr>patched_path = opt_path options, patched_previousSha256 = expected,
                patched_sha256 = sha256 (opt_content options), patched_edits = edits,
                patched_bytes = length (opt_content options), patched_durability = patched_durability r\<rparr>)"
proof -
  have i: "patch_intended sha256 resolver request w expected (length planned)
      \<lparr>opt_path = path, opt_target = target, opt_parent = parent, opt_content = content,
       opt_expected = Some (Some expected)\<rparr>"
    if "sha256 bs = expected" "classifyBuffer bs \<noteq> BinaryFile" "decodeUtf8 bs = Inr source"
      "patched_content source es path = Inr (planned, content)" "length content \<le> MAX_WRITE_BYTES"
    for bs source planned content
    using assms that
    by (auto simp: patch_intended_def target_in_def patched_content_def result_simps split: option.splits sum.splits)
  show ?thesis
    unfolding patch_target_def Let_def
    apply (intro runs_if runs_throw runs_result runs_pair runs_bind [OF inspect_stays] runs_bind [OF readWholeFile_stays]
        runs_try_return [OF runs_writeAtomic] patch_write_failed_stays)
     apply (fastforce intro: i dest: patch_write_failed_throws)+
    subgoal for a w1 u bs w1a source pc planned content written evs
      using i [of bs source planned content] by (simp, intro exI conjI) auto
    done
qed

text \<open>C12. A patch request writes exactly when it returns, in the same sense; in particular a patch that
  conflicts, is ambiguous, overlaps, is binary, too large or loses its hash precondition leaves its target
  alone. What a patch that returns has moved onto its target is the encoding of the plan of its edits
  applied to the decoding of a text whose digest is the one the request expects, and the result reports that
  path, both digests, the number of edits and the length.\<close>

theorem fs_patch_commits_iff_returns:
  assumes "\<And>i w. w_log (snd (resolver i w)) = w_log w"
  shows "\<exists>evs. w_log (snd (fs_patch sha256 (default_service resolver) request w)) = w_log w @ evs
    \<and> (case fst (fs_patch sha256 (default_service resolver) request w) of
         Inl e \<Rightarrow> evs = [] \<or> (\<exists>expected edits options.
           patch_intended sha256 resolver request w expected edits options \<and> write_trace options False evs)
       | Inr r \<Rightarrow> \<exists>expected edits options.
           patch_intended sha256 resolver request w expected edits options \<and> write_trace options True evs
           \<and> r = \<lparr>patched_path = opt_path options, patched_previousSha256 = expected,
                   patched_sha256 = sha256 (opt_content options), patched_edits = edits,
                   patched_bytes = length (opt_content options), patched_durability = patched_durability r\<rparr>)"
proof -
  let ?Q = "\<lambda>x evs. case x of
      Inl e \<Rightarrow> \<exists>expected edits options. patch_intended sha256 resolver request w expected edits options
        \<and> write_trace options False evs
    | Inr r \<Rightarrow> \<exists>expected edits options. patch_intended sha256 resolver request w expected edits options
        \<and> write_trace options True evs
        \<and> r = \<lparr>patched_path = opt_path options, patched_previousSha256 = expected,
                patched_sha256 = sha256 (opt_content options), patched_edits = edits,
                patched_bytes = length (opt_content options), patched_durability = patched_durability r\<rparr>"
  have r: "same_log.stays (accessWorkspace (default_service resolver) i)" for i
    using quiet_resolver [of resolver i] assms by (intro accessWorkspace_stays) (simp add: default_service_def)
  have "runs (fs_patch sha256 (default_service resolver) request) w ?Q"
    unfolding fs_patch_def
    by (intro runs_result runs_bind [OF r] runs_locate runs_patch_target) (auto simp: target_in_def)
  from runs_stated [OF this] show ?thesis by (simp only: sum.case)
qed

theorem fs_patch_commits_iff_returns_witness:
  "\<exists>evs. w_log (snd (fs_patch sample_sha (default_service sample_resolver) sample_patch_request sample_world))
        = w_log sample_world @ evs
    \<and> (case fst (fs_patch sample_sha (default_service sample_resolver) sample_patch_request sample_world) of
         Inl e \<Rightarrow> evs = [] \<or> (\<exists>expected edits options.
           patch_intended sample_sha sample_resolver sample_patch_request sample_world expected edits options
           \<and> write_trace options False evs)
       | Inr r \<Rightarrow> \<exists>expected edits options.
           patch_intended sample_sha sample_resolver sample_patch_request sample_world expected edits options
           \<and> write_trace options True evs
           \<and> r = \<lparr>patched_path = opt_path options, patched_previousSha256 = expected,
                   patched_sha256 = sample_sha (opt_content options), patched_edits = edits,
                   patched_bytes = length (opt_content options), patched_durability = patched_durability r\<rparr>)"
  by (rule fs_patch_commits_iff_returns) (simp add: sample_resolver_def io_return_def)

end
