(* ===== verification/WriteCalm.thy ===== *)
theory WriteCalm
  imports WriteGuarantees
begin

text \<open>
  What \<open>#writeAtomic\<close>, \<open>write\<close> and \<open>patch\<close> do when nothing interferes and no call fails: the complete
  outcome and the complete change to the file system.
\<close>

section \<open>File systems in good order\<close>

definition fs_ok :: "fsys \<Rightarrow> bool" where
  "fs_ok fs \<longleftrightarrow> (\<forall>(p, i) \<in> set (names fs). i < next_inode fs \<and> map_of (inodes fs) i \<noteq> None)"

lemma fs_okD: "fs_ok fs \<Longrightarrow> map_of (names fs) p = Some i \<Longrightarrow> i < next_inode fs \<and> map_of (inodes fs) i \<noteq> None"
  by (auto simp: fs_ok_def dest!: map_of_SomeD)

lemma lookup_None: "map_of (names fs) p = None \<Longrightarrow> lookup fs p = None"
  by (simp add: lookup_def)

lemma lookup_iff:
  "fs_ok fs \<Longrightarrow> lookup fs p = None \<longleftrightarrow> map_of (names fs) p = None"
  by (auto simp: lookup_def split: option.splits dest: fs_okD)

section \<open>Single calls\<close>

lemma existing_child:
  assumes "is_dir_path fs d" "plain c" "lookup fs (d @ [c]) = Some n" "isFile (ino_body n)"
  shows "existing fs follow (d @ [c]) = Inr (d @ [c], ino_body n)"
proof -
  have b: "body_at fs (d @ [c]) = Some (ino_body n)" using assms(3) by (simp add: body_at_def)
  obtain bs where bs: "ino_body n = Regular bs" using assms(4) by (auto simp: isFile_def split: file_body.splits)
  have "locate fs follow (d @ [c]) = Inr (d @ [c])"
    using locate_child [OF assms(1,2)] locate_child_follow [OF assms(1,2), of bs] b bs by (cases follow) simp_all
  with b show ?thesis by (simp add: existing_def)
qed

lemma existing_missing:
  assumes "is_dir_path fs d" "plain c" "lookup fs (d @ [c]) = None"
  shows "existing fs False (d @ [c]) = Inl ENOENT"
  using locate_child [OF assms(1,2)] assms(3) by (simp add: existing_def body_at_def)

lemma existing_dir: "is_dir_path fs d \<Longrightarrow> existing fs follow d = Inr (d, Directory)"
  by (simp add: existing_def locate_dir) (simp add: is_dir_path_def)

lemma lstat_file:
  assumes "calm w" "is_dir_path (w_fs w) d" "plain c" "lookup (w_fs w) (d @ [c]) = Some n" "isFile (ino_body n)"
  shows "os_lstat (d @ [c]) w = (Inr \<lparr>st_body = ino_body n, st_mode = ino_mode n\<rparr>, w)"
  using existing_child [OF assms(2-5), of False] assms(1,4) by (simp add: os_lstat_def observe_calm)

lemma lstat_missing:
  assumes "calm w" "is_dir_path (w_fs w) d" "plain c" "lookup (w_fs w) (d @ [c]) = None"
  shows "os_lstat (d @ [c]) w = (Inl (sys_error ENOENT), w)"
  using existing_missing [OF assms(2-4)] assms(1) by (simp add: os_lstat_def observe_calm)

lemma open_file:
  assumes "calm w" "is_dir_path (w_fs w) d" "plain c" "lookup (w_fs w) (d @ [c]) = Some n" "isFile (ino_body n)"
  shows "\<exists>h. os_open_read (d @ [c]) w = (Inr h, w) \<and> map_of (inodes (w_fs w)) h = Some n"
  using existing_child [OF assms(2-5), of True] assms(1,4)
  by (auto simp: os_open_read_def observe_calm lookup_def split: option.splits)

lemma close_calm: "calm w \<Longrightarrow> os_close h w = (Inr (), w)"
  by (simp add: os_close_def observe_calm)

lemma read_calm:
  assumes "calm w" "map_of (inodes (w_fs w)) h = Some n" "ino_body n = Regular bs"
  shows "os_read h len pos w = (Inr (take len (drop pos bs)), w)"
  using assms by (simp add: os_read_def observe_calm handle_inode_def handle_bytes_def)

lemma hash_loop_calm:
  assumes "calm w" "map_of (inodes (w_fs w)) h = Some n" "ino_body n = Regular bs"
  shows "hash_loop h pos acc w = (Inr (acc @ drop pos bs), w)"
proof (induction "length bs - pos" arbitrary: pos acc rule: less_induct)
  case less
  show ?case
  proof (cases "pos < length bs")
    case True
    let ?chunk = "take HASH_CHUNK_BYTES (drop pos bs)"
    have ne: "?chunk \<noteq> []" using True by (simp add: HASH_CHUNK_BYTES_def)
    have "hash_loop h (pos + length ?chunk) (acc @ ?chunk) w = (Inr ((acc @ ?chunk) @ drop (pos + length ?chunk) bs), w)"
      using True ne by (intro less) (simp add: HASH_CHUNK_BYTES_def)
    moreover have "?chunk @ drop (pos + length ?chunk) bs = drop pos bs"
    proof (cases "HASH_CHUNK_BYTES \<le> length bs - pos")
      case True
      then have "drop (pos + length ?chunk) bs = drop HASH_CHUNK_BYTES (drop pos bs)" by (simp add: add.commute)
      then show ?thesis by (metis append_take_drop_id)
    qed simp
    ultimately show ?thesis using ne read_calm [OF assms] by (simp add: hash_loop.simps [of h pos])
  next
    case False
    then show ?thesis using read_calm [OF assms] by (simp add: hash_loop.simps)
  qed
qed

lemma sha256File_calm:
  assumes "calm w" "is_dir_path (w_fs w) d" "plain c" "lookup (w_fs w) (d @ [c]) = Some n"
    and "ino_body n = Regular bs"
  shows "sha256File sha (d @ [c]) path w = (Inr (sha bs), w)"
proof -
  obtain h where h: "os_open_read (d @ [c]) w = (Inr h, w)" "map_of (inodes (w_fs w)) h = Some n"
    using open_file [OF assms(1-4)] assms(5) by (auto simp: isFile_def)
  show ?thesis
    using h(1) hash_loop_calm [OF assms(1) h(2) assms(5), of 0 "[]"] close_calm [OF assms(1), of h]
    by (simp add: sha256File_def io_defs)
qed

lemma inspect_file:
  assumes "calm w" "is_dir_path (w_fs w) d" "plain c" "lookup (w_fs w) (d @ [c]) = Some n"
    and "ino_body n = Regular bs"
  shows "inspectWriteTarget sha (d @ [c]) path w =
     (Inr \<lparr>target_exists = True, target_mode = ino_mode n, target_sha256 = Some (sha bs), target_size = length bs\<rparr>, w)"
proof -
  have "isFile (ino_body n)" "\<not> isSymbolicLink (ino_body n)" using assms(5) by (simp_all add: isFile_def isSymbolicLink_def)
  with assms lstat_file [OF assms(1-4)] sha256File_calm [OF assms] show ?thesis
    by (simp add: inspectWriteTarget_def io_bind_def io_try_def io_return_def)
qed

lemma inspect_missing:
  assumes "calm w" "is_dir_path (w_fs w) d" "plain c" "lookup (w_fs w) (d @ [c]) = None"
  shows "inspectWriteTarget sha (d @ [c]) path w =
     (Inr \<lparr>target_exists = False, target_mode = 0, target_sha256 = None, target_size = 0\<rparr>, w)"
  using lstat_missing [OF assms] by (simp add: inspectWriteTarget_def io_bind_def io_try_def io_return_def sys_error_def)

text \<open>The state of the target as the inspection reports it.\<close>

definition target_state :: "(bytes \<Rightarrow> jstr) \<Rightarrow> inode option \<Rightarrow> WriteTargetState" where
  "target_state sha n =
     (case n of
        None \<Rightarrow> \<lparr>target_exists = False, target_mode = 0, target_sha256 = None, target_size = 0\<rparr>
      | Some i \<Rightarrow> (case ino_body i of
            Regular bs \<Rightarrow> \<lparr>target_exists = True, target_mode = ino_mode i, target_sha256 = Some (sha bs),
                           target_size = length bs\<rparr>
          | _ \<Rightarrow> \<lparr>target_exists = False, target_mode = 0, target_sha256 = None, target_size = 0\<rparr>))"

text \<open>A place that can be written: a canonical directory and a plain name that is free or a regular file.\<close>

definition writable :: "fsys \<Rightarrow> abspath \<Rightarrow> jstr \<Rightarrow> bool" where
  "writable fs d c \<longleftrightarrow> is_dir_path fs d \<and> plain c
     \<and> (case lookup fs (d @ [c]) of None \<Rightarrow> True | Some n \<Rightarrow> isFile (ino_body n))"

lemma inspect_writable:
  assumes "calm w" "writable (w_fs w) d c"
  shows "inspectWriteTarget sha (d @ [c]) path w = (Inr (target_state sha (lookup (w_fs w) (d @ [c]))), w)"
proof (cases "lookup (w_fs w) (d @ [c])")
  case None
  with assms inspect_missing show ?thesis by (simp add: writable_def target_state_def)
next
  case (Some n)
  then obtain bs where "ino_body n = Regular bs"
    using assms(2) by (auto simp: writable_def isFile_def split: file_body.splits)
  with Some assms inspect_file show ?thesis by (simp add: writable_def target_state_def)
qed

section \<open>The staged file\<close>

text \<open>\<open>fs1\<close> is \<open>fs\<close> with one more file at \<open>tmp\<close>.\<close>

definition staged :: "fsys \<Rightarrow> abspath \<Rightarrow> inode \<Rightarrow> fsys \<Rightarrow> bool" where
  "staged fs tmp n fs1 \<longleftrightarrow>
     names fs1 = (tmp, next_inode fs) # names fs \<and> next_inode fs1 = Suc (next_inode fs)
     \<and> map_of (inodes fs1) = (map_of (inodes fs))(next_inode fs \<mapsto> n)"

lemma staged_set_inode:
  "staged fs tmp n fs1 \<Longrightarrow> staged fs tmp m (set_inode (next_inode fs) m fs1)"
proof -
  have "map_of (filter (\<lambda>(k, m). k \<noteq> i) l) = (map_of l)(i := None)" for i and l :: "(nat \<times> inode) list"
    by (induction l) auto
  then show "staged fs tmp n fs1 \<Longrightarrow> staged fs tmp m (set_inode (next_inode fs) m fs1)"
    by (auto simp: staged_def set_inode_def)
qed

lemma staged_handle: "staged fs tmp n fs1 \<Longrightarrow> handle_inode fs1 (next_inode fs) = n"
  by (simp add: staged_def handle_inode_def)

lemma staged_lookup:
  assumes "staged fs tmp n fs1" "fs_ok fs"
  shows "lookup fs1 p = (if p = tmp then Some n else lookup fs p)"
proof (cases "p = tmp")
  case False
  then have "map_of (names fs1) p = map_of (names fs) p" using assms(1) by (simp add: staged_def)
  moreover have "map_of (names fs) p = Some i \<Longrightarrow> map_of (inodes fs1) i = map_of (inodes fs) i" for i
    using assms fs_okD [OF assms(2)] by (fastforce simp: staged_def)
  ultimately show ?thesis using False by (simp add: lookup_def split: option.splits)
qed (use assms(1) in \<open>simp add: staged_def lookup_def\<close>)

lemma staged_ok: "staged fs tmp n fs1 \<Longrightarrow> fs_ok fs \<Longrightarrow> fs_ok fs1"
  by (fastforce simp: staged_def fs_ok_def)

lemma is_dir_path_same:
  assumes "is_dir_path fs d" "\<And>q. prefix q d \<Longrightarrow> lookup fs1 q = lookup fs q"
  shows "is_dir_path fs1 d"
  using assms by (auto simp: is_dir_path_def body_at_def)

lemma staged_dir:
  assumes "staged fs (d @ [t]) n fs1" "fs_ok fs" "is_dir_path fs d"
  shows "is_dir_path fs1 d"
proof (rule is_dir_path_same [OF assms(3)])
  fix q assume "prefix q d"
  then have "q \<noteq> d @ [t]" by (auto simp: prefix_def)
  with staged_lookup [OF assms(1,2)] show "lookup fs1 q = lookup fs q" by simp
qed

lemma create_calm:
  assumes "calm w" "is_dir_path (w_fs w) d" "plain t" "map_of (names (w_fs w)) (d @ [t]) = None"
  shows "\<exists>w1. os_create (d @ [t]) m u w = (Inr (next_inode (w_fs w)), w1) \<and> calm w1
    \<and> staged (w_fs w) (d @ [t]) \<lparr>ino_body = Regular [], ino_mode = and m (not u)\<rparr> (w_fs w1)"
proof -
  have "locate (w_fs w) False (d @ [t]) = Inr (d @ [t])" using locate_child [OF assms(2,3)] .
  moreover have "map_of (filter (\<lambda>(k, m). k \<noteq> i) l) = (map_of l)(i := None)" for i and l :: "(nat \<times> inode) list"
    by (induction l) auto
  ultimately show ?thesis using assms(1,4)
    by (auto simp: os_create_def syscall_calm taken_def Let_def calm_def staged_def add_name_def set_inode_def)
qed

text \<open>The mode of the committed file: the old one of a file that was there, otherwise the default under
  the umask.\<close>

definition final_mode :: "fmode \<Rightarrow> inode option \<Rightarrow> fmode" where
  "final_mode umask n = (case n of None \<Rightarrow> and 0x1B6 (not umask) | Some i \<Rightarrow> ino_mode i)"

lemma stage_calm:
  assumes c: "calm w" and ok: "fs_ok (w_fs w)" and wr: "writable (w_fs w) d c"
    and t: "plain t" "map_of (names (w_fs w)) (d @ [t]) = None"
    and init: "initial = target_state sha (lookup (w_fs w) (d @ [c]))"
  shows "\<exists>w1. stage_file options (d @ [t]) initial (l, w) = (Inr (), (l\<lparr>tempExists := True\<rparr>, w1)) \<and> calm w1
    \<and> staged (w_fs w) (d @ [t])
        \<lparr>ino_body = Regular (opt_content options), ino_mode = final_mode (w_umask w) (lookup (w_fs w) (d @ [c]))\<rparr> (w_fs w1)"
proof -
  let ?h = "next_inode (w_fs w)" and ?tmp = "d @ [t]"
  let ?m = "if target_exists initial then target_mode initial else 0x1B6"
  obtain w1 where w1: "os_create ?tmp ?m (w_umask w) w = (Inr ?h, w1)" "calm w1"
      "staged (w_fs w) ?tmp \<lparr>ino_body = Regular [], ino_mode = and ?m (not (w_umask w))\<rparr> (w_fs w1)"
    using create_calm [OF c _ t] wr by (auto simp: writable_def)
  have chmod: "os_chmod ?h m w' = (Inr (), w'\<lparr>w_fs := set_inode ?h (n\<lparr>ino_mode := m\<rparr>) (w_fs w'), w_log := w_log w' @ [Chmodded ?h m]\<rparr>)"
    if "calm w'" "staged (w_fs w) ?tmp n (w_fs w')" for m w' n
    using that staged_handle [OF that(2)] by (simp add: os_chmod_def syscall_calm)
  have wf: "os_writeFile ?h bs w' = (Inr (), w'\<lparr>w_fs := set_inode ?h (n\<lparr>ino_body := Regular bs\<rparr>) (w_fs w'), w_log := w_log w' @ [Wrote ?h bs]\<rparr>)"
    if "calm w'" "staged (w_fs w) ?tmp n (w_fs w')" for bs w' n
    using that staged_handle [OF that(2)] by (simp add: os_writeFile_def syscall_calm)
  have sync: "os_sync ?h w' = (Inr (), w'\<lparr>w_log := w_log w' @ [Synced ?h]\<rparr>)" if "calm w'" for w'
    using that by (simp add: os_sync_def syscall_calm)
  have calm_upd: "calm (w'\<lparr>w_fs := f, w_log := g\<rparr>)" "calm (w'\<lparr>w_log := g\<rparr>)" if "calm w'" for w' f g
    using that by (simp_all add: calm_def)
  show ?thesis
  proof (cases "lookup (w_fs w) (d @ [c])")
    case None
    then have ne: "\<not> target_exists initial" by (simp add: init target_state_def)
    let ?n = "\<lparr>ino_body = Regular (opt_content options), ino_mode = and 0x1B6 (not (w_umask w))\<rparr>"
    define w2 where "w2 = w1\<lparr>w_fs := set_inode ?h ?n (w_fs w1), w_log := w_log w1 @ [Wrote ?h (opt_content options)]\<rparr>"
    define w3 where "w3 = w2\<lparr>w_log := w_log w2 @ [Synced ?h]\<rparr>"
    have s1: "staged (w_fs w) ?tmp \<lparr>ino_body = Regular [], ino_mode = and 0x1B6 (not (w_umask w))\<rparr> (w_fs w1)"
      using w1(3) ne by simp
    have c2: "calm w2" "calm w3" using w1(2) by (simp_all add: w2_def w3_def calm_def)
    have "os_writeFile ?h (opt_content options) w1 = (Inr (), w2)" using wf [OF w1(2) s1] by (simp add: w2_def)
    moreover have "os_sync ?h w2 = (Inr (), w3)" using sync [OF c2(1)] by (simp add: w3_def)
    moreover have "os_close ?h w3 = (Inr (), w3)" using close_calm [OF c2(2)] .
    ultimately have "stage_file options ?tmp initial (l, w) = (Inr (), (l\<lparr>tempExists := True\<rparr>, w3))"
      using w1(1) ne by (simp add: stage_file_def Let_def io_defs in_world_def process_umask_def set_tempExists_def)
    moreover have "staged (w_fs w) ?tmp ?n (w_fs w3)" using staged_set_inode [OF s1, of ?n] by (simp add: w3_def w2_def)
    ultimately show ?thesis using c2(2) None by (auto simp: final_mode_def)
  next
    case (Some old)
    then obtain bs where bs: "ino_body old = Regular bs"
      using wr by (auto simp: writable_def isFile_def split: file_body.splits)
    then have ex: "target_exists initial" "target_mode initial = ino_mode old" using Some by (simp_all add: init target_state_def)
    let ?n1 = "\<lparr>ino_body = Regular [], ino_mode = ino_mode old\<rparr>"
    let ?n = "\<lparr>ino_body = Regular (opt_content options), ino_mode = ino_mode old\<rparr>"
    define w2 where "w2 = w1\<lparr>w_fs := set_inode ?h ?n1 (w_fs w1), w_log := w_log w1 @ [Chmodded ?h (ino_mode old)]\<rparr>"
    define w3 where "w3 = w2\<lparr>w_fs := set_inode ?h ?n (w_fs w2), w_log := w_log w2 @ [Wrote ?h (opt_content options)]\<rparr>"
    define w4 where "w4 = w3\<lparr>w_log := w_log w3 @ [Synced ?h]\<rparr>"
    have c2: "calm w2" "calm w3" "calm w4" using w1(2) by (simp_all add: w2_def w3_def w4_def calm_def)
    have s2: "staged (w_fs w) ?tmp ?n1 (w_fs w2)" using staged_set_inode [OF w1(3), of ?n1] by (simp add: w2_def)
    have s3: "staged (w_fs w) ?tmp ?n (w_fs w3)" using staged_set_inode [OF s2, of ?n] by (simp add: w3_def)
    have "os_chmod ?h (ino_mode old) w1 = (Inr (), w2)" using chmod [OF w1(2,3)] by (simp add: w2_def)
    moreover have "os_writeFile ?h (opt_content options) w2 = (Inr (), w3)" using wf [OF c2(1) s2] by (simp add: w3_def)
    moreover have "os_sync ?h w3 = (Inr (), w4)" using sync [OF c2(2)] by (simp add: w4_def)
    moreover have "os_close ?h w4 = (Inr (), w4)" using close_calm [OF c2(3)] .
    ultimately have "stage_file options ?tmp initial (l, w) = (Inr (), (l\<lparr>tempExists := True\<rparr>, w4))"
      using w1(1) ex by (simp add: stage_file_def Let_def io_defs in_world_def process_umask_def set_tempExists_def)
    moreover have "staged (w_fs w) ?tmp ?n (w_fs w4)" using s3 by (simp add: w4_def)
    ultimately show ?thesis using c2(3) Some by (auto simp: final_mode_def)
  qed
qed

section \<open>Committing\<close>

text \<open>\<open>fs2\<close> is \<open>fs\<close> with one file replaced.\<close>

definition file_replaced :: "fsys \<Rightarrow> abspath \<Rightarrow> inode \<Rightarrow> fsys \<Rightarrow> bool" where
  "file_replaced fs target n fs2 \<longleftrightarrow>
     fs_ok fs2 \<and> (\<forall>p. lookup fs2 p = (if p = target then Some n else lookup fs p))"

definition unused :: "fsys \<Rightarrow> abspath \<Rightarrow> bool" where
  "unused fs p \<longleftrightarrow> (\<forall>r \<in> fst ` set (names fs). \<not> prefix p r)"

lemma unused_None: "unused fs p \<Longrightarrow> map_of (names fs) p = None"
  by (auto simp: unused_def map_of_eq_None_iff)

lemma map_of_filter_name:
  "map_of (filter (\<lambda>(q, i). q \<noteq> p) ns) r = (if r = p then None else map_of ns r)"
  by (induction ns) auto

lemma writable_staged:
  assumes "staged fs (d @ [t]) n fs1" "fs_ok fs" "writable fs d c" "t \<noteq> c"
  shows "writable fs1 d c" "lookup fs1 (d @ [c]) = lookup fs (d @ [c])"
proof -
  show l: "lookup fs1 (d @ [c]) = lookup fs (d @ [c])" using staged_lookup [OF assms(1,2)] assms(4) by simp
  with staged_dir [OF assms(1,2)] assms(3) show "writable fs1 d c" by (simp add: writable_def)
qed

lemma link_calm:
  assumes c: "calm w1" and st: "staged fs (d @ [t]) n (w_fs w1)" and ok: "fs_ok fs" and wr: "writable fs d c"
    and t: "plain t" "t \<noteq> c" "unused fs (d @ [t])" and n: "isFile (ino_body n)" and free: "lookup fs (d @ [c]) = None"
  shows "\<exists>w2 w3. os_link (d @ [t]) (d @ [c]) w1 = (Inr (), w2) \<and> os_rm_force (d @ [t]) w2 = (Inr (), w3)
    \<and> calm w3 \<and> file_replaced fs (d @ [c]) n (w_fs w3)"
proof -
  let ?i = "next_inode fs" and ?fs1 = "w_fs w1"
  have dir1: "is_dir_path ?fs1 d" using staged_dir [OF st ok] wr by (simp add: writable_def)
  have pc: "plain c" using wr by (simp add: writable_def)
  have ln: "lookup ?fs1 (d @ [t]) = Some n" using staged_lookup [OF st ok] by simp
  have e1: "existing ?fs1 False (d @ [t]) = Inr (d @ [t], ino_body n)" using existing_child [OF dir1 t(1) ln n] .
  have l1: "locate ?fs1 False (d @ [c]) = Inr (d @ [c])" using locate_child [OF dir1 pc] .
  have nt: "map_of (names ?fs1) (d @ [c]) = None"
    using st t(2) free lookup_iff [OF ok] by (simp add: staged_def)
  have nd: "ino_body n \<noteq> Directory" using n by (auto simp: isFile_def)
  have mi: "map_of (names ?fs1) (d @ [t]) = Some ?i" using st by (simp add: staged_def)
  define w2 where "w2 = w1\<lparr>w_fs := add_name (d @ [c]) ?i ?fs1, w_log := w_log w1 @ [Linked (d @ [t]) (d @ [c]) (d @ [c]) ?i None]\<rparr>"
  have link: "os_link (d @ [t]) (d @ [c]) w1 = (Inr (), w2)"
    using c e1 l1 nt nd mi by (simp add: os_link_def syscall_calm taken_def w2_def)
  have c2: "calm w2" using c by (simp add: calm_def w2_def)
  have i: "map_of (inodes ?fs1) ?i = Some n" using st by (simp add: staged_def)
  have lk2: "lookup (w_fs w2) p = (if p = d @ [c] then Some n else lookup ?fs1 p)" for p
    using i by (simp add: w2_def add_name_def lookup_def split: option.split)
  have dir2: "is_dir_path (w_fs w2) d"
  proof (rule is_dir_path_same [OF dir1])
    fix q assume "prefix q d"
    then have "q \<noteq> d @ [c]" by (auto simp: prefix_def)
    then show "lookup (w_fs w2) q = lookup ?fs1 q" by (simp add: lk2)
  qed
  have e2: "existing (w_fs w2) False (d @ [t]) = Inr (d @ [t], ino_body n)"
    using existing_child [OF dir2 t(1) _ n] ln t(2) by (simp add: lk2)
  define w3 where "w3 = w2\<lparr>w_fs := del_name (d @ [t]) (w_fs w2), w_log := w_log w2 @ [Removed (d @ [t]) (d @ [t])]\<rparr>"
  have rm: "os_rm_force (d @ [t]) w2 = (Inr (), w3)"
    using c2 e2 nd by (simp add: os_rm_force_def syscall_calm w3_def)
  have lk3: "lookup (w_fs w3) p = (if p = d @ [c] then Some n else lookup fs p)" for p
  proof -
    have "lookup (w_fs w3) p = (if p = d @ [t] then None else lookup (w_fs w2) p)"
      by (simp add: w3_def del_name_def lookup_def map_of_filter_name split: option.split)
    moreover have "lookup fs (d @ [t]) = None" using unused_None [OF t(3)] by (rule lookup_None)
    ultimately show ?thesis using t(2) by (simp add: lk2 staged_lookup [OF st ok])
  qed
  have "fs_ok (w_fs w3)"
    using staged_ok [OF st ok] i st by (fastforce simp: fs_ok_def w3_def w2_def del_name_def add_name_def staged_def)
  with lk3 have "file_replaced fs (d @ [c]) n (w_fs w3)" by (simp add: file_replaced_def)
  moreover have "calm w3" using c2 by (simp add: calm_def w3_def)
  ultimately show ?thesis using link rm by blast
qed

lemma rename_calm:
  assumes c: "calm w1" and st: "staged fs (d @ [t]) n (w_fs w1)" and ok: "fs_ok fs" and wr: "writable fs d c"
    and t: "plain t" "t \<noteq> c" "unused fs (d @ [t])" and n: "isFile (ino_body n)"
  shows "\<exists>w2. os_rename (d @ [t]) (d @ [c]) w1 = (Inr (), w2) \<and> calm w2 \<and> file_replaced fs (d @ [c]) n (w_fs w2)"
proof -
  let ?i = "next_inode fs" and ?fs1 = "w_fs w1"
  have dir1: "is_dir_path ?fs1 d" using staged_dir [OF st ok] wr by (simp add: writable_def)
  have pc: "plain c" using wr by (simp add: writable_def)
  have ln: "lookup ?fs1 (d @ [t]) = Some n" using staged_lookup [OF st ok] by simp
  have e1: "existing ?fs1 False (d @ [t]) = Inr (d @ [t], ino_body n)" using existing_child [OF dir1 t(1) ln n] .
  have l1: "locate ?fs1 False (d @ [c]) = Inr (d @ [c])" using locate_child [OF dir1 pc] .
  have mi: "map_of (names ?fs1) (d @ [t]) = Some ?i" using st by (simp add: staged_def)
  have mc: "map_of (names ?fs1) (d @ [c]) = map_of (names fs) (d @ [c])" using st t(2) by (simp add: staged_def)
  have nmi: "map_of (names ?fs1) (d @ [c]) \<noteq> Some ?i"
  proof
    assume "map_of (names ?fs1) (d @ [c]) = Some ?i"
    with mc fs_okD [OF ok, of "d @ [c]" ?i] show False by simp
  qed
  have nd: "ino_body n \<noteq> Directory" using n by (auto simp: isFile_def)
  have "body_at ?fs1 (d @ [c]) \<noteq> Some Directory"
    using wr staged_lookup [OF st ok, of "d @ [c]"] t(2)
    by (auto simp: writable_def body_at_def isFile_def split: option.splits)
  with mi nmi nd have "rename_located (d @ [t]) (ino_body n) (d @ [c]) ?fs1 =
      Inr ((?i, map_of (names ?fs1) (d @ [c])), move_names (d @ [t]) (d @ [c]) ?fs1)"
    by (simp add: rename_located_def)
  define w2 where "w2 = w1\<lparr>w_fs := move_names (d @ [t]) (d @ [c]) ?fs1,
      w_log := w_log w1 @ [Renamed (d @ [t]) (d @ [c]) (d @ [c]) ?i (map_of (names ?fs1) (d @ [c]))]\<rparr>"
  have ren: "os_rename (d @ [t]) (d @ [c]) w1 = (Inr (), w2)"
    using c e1 l1 \<open>rename_located _ _ _ _ = _\<close> by (simp add: os_rename_def syscall_calm w2_def)
  have only: "\<forall>r \<in> fst ` set (names ?fs1). prefix (d @ [t]) r \<longrightarrow> r = d @ [t]"
    using st t(3) by (auto simp: staged_def unused_def)
  have names2: "map_of (names (w_fs w2)) r = (if r = d @ [c] then Some ?i else if r = d @ [t] then None
      else map_of (names ?fs1) r)" for r
    using map_of_move_names [OF only, of "d @ [c]" r] t(2) mi by (simp add: w2_def)
  have i: "map_of (inodes ?fs1) ?i = Some n" using st by (simp add: staged_def)
  have in2: "inodes (w_fs w2) = inodes ?fs1" "next_inode (w_fs w2) = next_inode ?fs1"
    by (simp_all add: w2_def move_names_def)
  have lk2: "lookup (w_fs w2) p = (if p = d @ [c] then Some n else lookup fs p)" for p
  proof -
    have "lookup (w_fs w2) p = (if p = d @ [c] then Some n else if p = d @ [t] then None else lookup ?fs1 p)"
      unfolding lookup_def names2 in2 using i by simp
    moreover have "lookup fs (d @ [t]) = None" using unused_None [OF t(3)] by (rule lookup_None)
    ultimately show ?thesis by (simp add: staged_lookup [OF st ok])
  qed
  have "fs_ok (w_fs w2)"
  proof -
    have "\<exists>r'. (r', k) \<in> set (names ?fs1)" if "(r, k) \<in> set (names (w_fs w2))" for r k
      using that by (auto simp: w2_def move_names_def)
    with staged_ok [OF st ok] show ?thesis unfolding fs_ok_def in2 by fastforce
  qed
  with lk2 have "file_replaced fs (d @ [c]) n (w_fs w2)" by (simp add: file_replaced_def)
  moreover have "calm w2" using c by (simp add: calm_def w2_def)
  ultimately show ?thesis using ren by blast
qed

lemma sync_calm:
  assumes "calm w" "is_dir_path (w_fs w) d"
  shows "\<exists>w'. syncDirectoryBestEffort d w = (Inr True, w') \<and> w_fs w' = w_fs w \<and> calm w'"
proof -
  obtain h where h: "os_open_read d w = (Inr h, w)"
    using existing_dir [OF assms(2), of True] assms(1) by (simp add: os_open_read_def observe_calm)
  have s: "os_sync h w = (Inr (), w\<lparr>w_log := w_log w @ [Synced h]\<rparr>)"
    using assms(1) by (simp add: os_sync_def syscall_calm)
  have c: "calm (w\<lparr>w_log := w_log w @ [Synced h]\<rparr>)" using assms(1) by (simp add: calm_def)
  show ?thesis
    using h s close_calm [OF c, of h] c by (simp add: syncDirectoryBestEffort_def io_defs)
qed

lemma replaced_dir:
  assumes "file_replaced fs (d @ [c]) n fs2" "is_dir_path fs d"
  shows "is_dir_path fs2 d"
proof (rule is_dir_path_same [OF assms(2)])
  fix q assume "prefix q d"
  then have "q \<noteq> d @ [c]" by (auto simp: prefix_def)
  with assms(1) show "lookup fs2 q = lookup fs q" by (simp add: file_replaced_def)
qed

section \<open>The whole write\<close>

text \<open>The names the service needs: the target's parent and name, and a name for the staged file that nothing
  uses.\<close>

definition ready :: "world \<Rightarrow> abspath \<Rightarrow> jstr \<Rightarrow> bool" where
  "ready w d c \<longleftrightarrow>
     (let t = temp_name c (w_pid w) (w_uuid w (w_uuids_used w)) in
      calm w \<and> fs_ok (w_fs w) \<and> writable (w_fs w) d c \<and> plain t \<and> t \<noteq> c \<and> unused (w_fs w) (d @ [t]))"

definition expected_result ::
    "(bytes \<Rightarrow> jstr) \<Rightarrow> write_options \<Rightarrow> inode option \<Rightarrow> FilesystemWriteResult" where
  "expected_result sha options old = write_result sha options (target_state sha old) True"

lemma write_body_calm:
  assumes c: "calm w" and ok: "fs_ok (w_fs w)" and wr: "writable (w_fs w) d c"
    and t: "plain t" "t \<noteq> c" "unused (w_fs w) (d @ [t])"
    and opts: "opt_target options = d @ [c]" "opt_parent options = d"
    and pre: "enforceWritePrecondition (opt_expected options) (target_state sha (lookup (w_fs w) (d @ [c])))
        (opt_path options) = Inr ()"
  shows "\<exists>w'. write_body sha (default_service resolver) options (d @ [t])
        (target_state sha (lookup (w_fs w) (d @ [c]))) (\<lparr>tempExists = False, renamed = False\<rparr>, w)
      = (Inr (expected_result sha options (lookup (w_fs w) (d @ [c]))), (\<lparr>tempExists = False, renamed = True\<rparr>, w'))
    \<and> calm w'
    \<and> file_replaced (w_fs w) (d @ [c]) \<lparr>ino_body = Regular (opt_content options),
         ino_mode = final_mode (w_umask w) (lookup (w_fs w) (d @ [c]))\<rparr> (w_fs w')"
proof -
  let ?old = "lookup (w_fs w) (d @ [c])"
  let ?n = "\<lparr>ino_body = Regular (opt_content options), ino_mode = final_mode (w_umask w) ?old\<rparr>"
  let ?svc = "default_service resolver"
  have nf: "isFile (ino_body ?n)" by (simp add: isFile_def)
  obtain w1 where st: "stage_file options (d @ [t]) (target_state sha ?old) (\<lparr>tempExists = False, renamed = False\<rparr>, w)
        = (Inr (), (\<lparr>tempExists = True, renamed = False\<rparr>, w1))" "calm w1" "staged (w_fs w) (d @ [t]) ?n (w_fs w1)"
    using stage_calm [OF c ok wr t(1) unused_None [OF t(3)] refl, where options = options
        and l = "\<lparr>tempExists = False, renamed = False\<rparr>"]
    by auto
  note wr1 = writable_staged [OF st(3) ok wr t(2)]
  have ins: "inspectWriteTarget sha (opt_target options) (opt_path options) w1 = (Inr (target_state sha ?old), w1)"
    using inspect_writable [OF st(2) wr1(1)] by (simp add: opts wr1(2))
  obtain w3 where com: "commit_file ?svc options (d @ [t]) (\<lparr>tempExists = True, renamed = False\<rparr>, w1)
        = (Inr (), (\<lparr>tempExists = False, renamed = False\<rparr>, w3))" "calm w3" "file_replaced (w_fs w) (d @ [c]) ?n (w_fs w3)"
  proof (cases "opt_expected options = Some None")
    case True
    then have free: "?old = None"
      using pre wr by (auto simp: enforceWritePrecondition_def target_state_def writable_def isFile_def
          split: if_splits option.splits file_body.splits)
    from link_calm [OF st(2,3) ok wr t nf free] obtain w2 w3 where
      "os_link (d @ [t]) (d @ [c]) w1 = (Inr (), w2)" "os_rm_force (d @ [t]) w2 = (Inr (), w3)"
      "calm w3" "file_replaced (w_fs w) (d @ [c]) ?n (w_fs w3)" by blast
    moreover from this have "commit_file ?svc options (d @ [t]) (\<lparr>tempExists = True, renamed = False\<rparr>, w1)
        = (Inr (), (\<lparr>tempExists = False, renamed = False\<rparr>, w3))"
      using True opts
      by (simp add: commit_file_def io_bind_def io_try_def in_world_def default_service_def swallow_def set_tempExists_def)
    ultimately show ?thesis using that by blast
  next
    case False
    from rename_calm [OF st(2,3) ok wr t nf] obtain w2 where
      "os_rename (d @ [t]) (d @ [c]) w1 = (Inr (), w2)" "calm w2" "file_replaced (w_fs w) (d @ [c]) ?n (w_fs w2)"
      by blast
    moreover from this have "commit_file ?svc options (d @ [t]) (\<lparr>tempExists = True, renamed = False\<rparr>, w1)
        = (Inr (), (\<lparr>tempExists = False, renamed = False\<rparr>, w2))"
      using False opts
      by (simp add: commit_file_def io_bind_def io_try_def io_map_error_def in_world_def default_service_def set_tempExists_def)
    ultimately show ?thesis using that by blast
  qed
  have "is_dir_path (w_fs w3) d" using replaced_dir [OF com(3)] wr by (simp add: writable_def)
  then obtain w4 where sync: "syncDirectoryBestEffort d w3 = (Inr True, w4)" "w_fs w4 = w_fs w3" "calm w4"
    using sync_calm [OF com(2)] by blast
  have "write_body sha ?svc options (d @ [t]) (target_state sha ?old) (\<lparr>tempExists = False, renamed = False\<rparr>, w)
      = (Inr (expected_result sha options ?old), (\<lparr>tempExists = False, renamed = True\<rparr>, w4))"
    using st(1) ins pre com(1) sync(1)
    by (simp add: write_body_def io_bind_def in_world_def io_result_def set_renamed_def io_try_def io_return_def
        expected_result_def opts default_service_def)
  with sync com(3) show ?thesis by auto
qed

lemma writeAtomic_calm_ok:
  assumes r: "ready w d c" and opts: "opt_target options = d @ [c]" "opt_parent options = d"
    and pre: "enforceWritePrecondition (opt_expected options) (target_state sha (lookup (w_fs w) (d @ [c])))
        (opt_path options) = Inr ()"
  shows "\<exists>w'. writeAtomic sha (default_service resolver) options w
      = (Inr (expected_result sha options (lookup (w_fs w) (d @ [c]))), w')
    \<and> calm w'
    \<and> file_replaced (w_fs w) (d @ [c]) \<lparr>ino_body = Regular (opt_content options),
         ino_mode = final_mode (w_umask w) (lookup (w_fs w) (d @ [c]))\<rparr> (w_fs w')"
proof -
  let ?old = "lookup (w_fs w) (d @ [c])"
  define t where "t = temp_name c (w_pid w) (w_uuid w (w_uuids_used w))"
  have rd: "calm w" "fs_ok (w_fs w)" "writable (w_fs w) d c" "plain t" "t \<noteq> c" "unused (w_fs w) (d @ [t])"
    using r by (simp_all add: ready_def Let_def t_def)
  define w2 where "w2 = w\<lparr>w_uuids_used := Suc (w_uuids_used w)\<rparr>"
  have w2: "calm w2" "w_fs w2 = w_fs w" "w_umask w2 = w_umask w" using rd(1) by (simp_all add: w2_def calm_def)
  have ins: "inspectWriteTarget sha (opt_target options) (opt_path options) w = (Inr (target_state sha ?old), w)"
    using inspect_writable [OF rd(1,3)] by (simp add: opts)
  obtain w' where body: "write_body sha (default_service resolver) options (d @ [t]) (target_state sha ?old)
        (\<lparr>tempExists = False, renamed = False\<rparr>, w2)
      = (Inr (expected_result sha options ?old), (\<lparr>tempExists = False, renamed = True\<rparr>, w'))" "calm w'"
      "file_replaced (w_fs w) (d @ [c]) \<lparr>ino_body = Regular (opt_content options),
         ino_mode = final_mode (w_umask w) ?old\<rparr> (w_fs w')"
    using write_body_calm [of w2 d c t options sha resolver] w2 rd opts pre by auto
  have "writeAtomic sha (default_service resolver) options w = (Inr (expected_result sha options ?old), w')"
    using ins pre body(1)
    by (simp add: writeAtomic_def io_bind_def io_result_def process_pid_def randomUUID_def Let_def with_locals_def
        io_finally_def discard_temp_def get_locals_def io_return_def opts t_def [symmetric] w2_def [symmetric])
  with body show ?thesis by blast
qed

lemma writeAtomic_calm_conflict:
  assumes r: "ready w d c" and opts: "opt_target options = d @ [c]"
    and pre: "enforceWritePrecondition (opt_expected options) (target_state sha (lookup (w_fs w) (d @ [c])))
        (opt_path options) = Inl e"
  shows "writeAtomic sha svc options w = (Inl e, w)"
proof -
  have "inspectWriteTarget sha (opt_target options) (opt_path options) w
      = (Inr (target_state sha (lookup (w_fs w) (d @ [c]))), w)"
    using inspect_writable [of w d c sha "opt_path options"] r by (simp add: opts ready_def Let_def)
  with pre show ?thesis by (simp add: writeAtomic_def io_bind_def io_result_def)
qed

text \<open>C11. With nothing interfering, \<open>#writeAtomic\<close> does exactly this: if the precondition on the target fails it
  throws that conflict and changes nothing at all. Otherwise it returns the result record and the
  target holds the new content, with the mode of the file it replaces or the default mode under the
  umask for a new one; every other path, the staged file's included, is as it was.\<close>

theorem writeAtomic_functional:
  assumes "ready w d c" and "opt_target options = d @ [c]" and "opt_parent options = d"
  shows "case enforceWritePrecondition (opt_expected options) (target_state sha (lookup (w_fs w) (d @ [c])))
           (opt_path options) of
     Inl e \<Rightarrow> writeAtomic sha (default_service resolver) options w = (Inl e, w)
   | Inr _ \<Rightarrow> \<exists>w'. writeAtomic sha (default_service resolver) options w
        = (Inr (write_result sha options (target_state sha (lookup (w_fs w) (d @ [c]))) True), w')
      \<and> (\<forall>p. lookup (w_fs w') p =
           (if p = d @ [c]
            then Some \<lparr>ino_body = Regular (opt_content options),
                       ino_mode = final_mode (w_umask w) (lookup (w_fs w) (d @ [c]))\<rparr>
            else lookup (w_fs w) p))"
proof (cases "enforceWritePrecondition (opt_expected options) (target_state sha (lookup (w_fs w) (d @ [c])))
           (opt_path options)")
  case (Inl e)
  with writeAtomic_calm_conflict [OF assms(1,2) Inl] show ?thesis by simp
next
  case (Inr u)
  with writeAtomic_calm_ok [OF assms, of sha resolver] show ?thesis
    by (auto simp: file_replaced_def expected_result_def)
qed

section \<open>Requests\<close>

lemma components_path_text: "list_all plain p \<Longrightarrow> components (path_text p) = p"
proof (cases "p = []")
  case False
  assume "list_all plain p"
  then have "split_on slash (path_text p) = [] # p"
    using False split_on_append [of slash "[]" "join_with slash p"] by (simp add: path_text_def split_join_plain)
  then show ?thesis using \<open>list_all plain p\<close> by (auto simp: components_def list_all_iff plain_def filter_id_conv)
qed (simp add: components_def path_text_def)

lemma realpath_dir: "calm w \<Longrightarrow> is_dir_path (w_fs w) d \<Longrightarrow> os_realpath d w = (Inr d, w)"
  by (simp add: os_realpath_def observe_calm existing_dir)

definition available_workspace :: "(jstr \<Rightarrow> WorkspaceRecord option os) \<Rightarrow> jstr \<Rightarrow> abspath \<Rightarrow> world \<Rightarrow> bool" where
  "available_workspace resolver i root w \<longleftrightarrow>
     (\<exists>r. resolver i w = (Inr (Some r), w) \<and> status r = Available \<and> canonicalPath r = path_text root)
     \<and> is_dir_path (w_fs w) root"

lemma access_calm:
  assumes "calm w" "available_workspace resolver i root w"
  shows "accessWorkspace (default_service resolver) i w = (Inr root, w)"
proof -
  obtain r where r: "resolver i w = (Inr (Some r), w)" "status r = Available" "canonicalPath r = path_text root"
    and d: "is_dir_path (w_fs w) root" using assms(2) by (auto simp: available_workspace_def)
  have "components (canonicalPath r) = root" using r(3) d components_path_text by (simp add: is_dir_path_def)
  with r realpath_dir [OF assms(1) d] show ?thesis
    by (simp add: accessWorkspace_def io_defs default_service_def samePath_def)
qed

lemma dirname_basename:
  assumes "list_all plain (ds @ [c])"
  shows "basename (join_with slash (ds @ [c])) = c"
    and "dirname (join_with slash (ds @ [c])) = (if ds = [] then dot else join_with slash ds)"
  using split_join_plain [of "ds @ [c]"] assms
  by (auto simp: basename_def dirname_def split: list.splits)

lemma resolve_calm:
  assumes "calm w" "is_dir_path (w_fs w) (root @ ds)"
  shows "resolveExistingPath root (if ds = [] then dot else join_with slash ds) w = (Inr (root @ ds), w)"
proof -
  have pl: "list_all plain root" "list_all plain ds" using assms(2) by (simp_all add: is_dir_path_def)
  have "isSameOrDescendant root (root @ ds)" using isSameOrDescendant_iff [of root "root @ ds"] pl by simp
  moreover have "ds \<noteq> [] \<Longrightarrow> join_with slash ds \<noteq> dot"
  proof
    assume "ds \<noteq> []" "join_with slash ds = dot"
    then have "split_on slash dot = ds" using split_join_plain pl(2) by metis
    moreover have "split_on slash dot = [dot]" by (rule split_on_no_sep) (simp add: dot_def slash_def js_def cu_def)
    ultimately show False using pl(2) by (auto simp: plain_def)
  qed
  moreover have "ds \<noteq> [] \<Longrightarrow> resolve_segments root (filter (\<lambda>c. c \<noteq> []) (split_on slash (join_with slash ds))) = root @ ds"
    using split_join_plain [of ds] pl(2) resolve_plain [of ds root]
    by (simp add: list_all_iff plain_def filter_id_conv)
  ultimately show ?thesis
    using realpath_dir [OF assms] by (auto simp: resolveExistingPath_def Let_def io_defs)
qed

lemma locate_target_calm:
  assumes "calm w" "is_dir_path (w_fs w) (root @ ds)" "plain c"
  shows "locate_target verb root (join_with slash (ds @ [c])) w = (Inr (root @ ds, root @ ds @ [c]), w)"
proof -
  have pl: "list_all plain (ds @ [c])" "list_all plain root" using assms(2,3) by (simp_all add: is_dir_path_def)
  have "os_lstat (root @ ds) w = (Inr \<lparr>st_body = Directory,
      st_mode = (case lookup (w_fs w) (root @ ds) of Some n \<Rightarrow> ino_mode n | None \<Rightarrow> 0)\<rparr>, w)"
    using existing_dir [OF assms(2), of False] assms(1) by (simp add: os_lstat_def observe_calm)
  moreover have "isSameOrDescendant root (root @ ds @ [c])"
    using isSameOrDescendant_iff [of root "root @ ds @ [c]"] pl by simp
  ultimately show ?thesis
    using resolve_calm [OF assms(1,2)] dirname_basename [OF pl(1)]
    by (simp add: locate_target_def Let_def io_defs isDirectory_def)
qed

lemma readWholeFile_calm:
  assumes "calm w" "is_dir_path (w_fs w) d" "plain c" "lookup (w_fs w) (d @ [c]) = Some n"
    and "ino_body n = Regular bs" "length bs \<le> MAX_WRITE_BYTES"
  shows "readWholeFile (d @ [c]) path (length bs) w = (Inr bs, w)"
proof -
  obtain h where h: "os_open_read (d @ [c]) w = (Inr h, w)" "map_of (inodes (w_fs w)) h = Some n"
    using open_file [OF assms(1-4)] assms(5) by (auto simp: isFile_def)
  have "os_readFile h w = (Inr bs, w)"
    using h(2) assms(1,5) by (simp add: os_readFile_def observe_calm handle_inode_def handle_bytes_def)
  moreover have "\<not> MAX_SAFE_INTEGER < length bs" using assms(6) by (simp add: MAX_SAFE_INTEGER_def MAX_WRITE_BYTES_def)
  ultimately show ?thesis
    using h(1) close_calm [OF assms(1), of h] assms(6) by (simp add: readWholeFile_def io_defs)
qed

text \<open>C10. A patch request end to end, with nothing interfering: for an available workspace, a path to a text
  file below real directories, the right digest, edits that can be planned and sizes within the
  limits, the file then holds exactly the patched text in UTF-8 under its old mode, nothing else has
  changed, and the result reports the old and the new digest, the number of edits and the length.\<close>

theorem fs_patch_functional:
  assumes "ready w (root @ ds) c" and "available_workspace resolver (pr_workspaceId request) root w"
    and "normalizeRequiredSha256 (pr_expectedSha256 request) ''expectedSha256'' = Inr digest"
    and "normalizePatchEdits (pr_edits request) = Inr edits"
    and "normalizeRelativePath (pr_path request) False = Inr (join_with slash (ds @ [c]))"
    and "lookup (w_fs w) (root @ ds @ [c]) = Some n" and "ino_body n = Regular bs" and "sha bs = digest"
    and "length bs \<le> MAX_WRITE_BYTES" and "0 \<notin> set bs" and "utf8_decode bs = Some source"
    and "planExactPatch source edits (join_with slash (ds @ [c])) = Some (Inr ps)"
    and "length (utf8_encode (applyPlannedPatch source ps)) \<le> MAX_WRITE_BYTES"
  shows "\<exists>w'. fs_patch sha (default_service resolver) request w =
      (Inr \<lparr>patched_path = join_with slash (ds @ [c]), patched_previousSha256 = digest,
            patched_sha256 = sha (utf8_encode (applyPlannedPatch source ps)), patched_edits = length ps,
            patched_bytes = length (utf8_encode (applyPlannedPatch source ps)),
            patched_durability = FileAndDirectory\<rparr>, w')
    \<and> (\<forall>p. lookup (w_fs w') p =
         (if p = root @ ds @ [c]
          then Some \<lparr>ino_body = Regular (utf8_encode (applyPlannedPatch source ps)), ino_mode = ino_mode n\<rparr>
          else lookup (w_fs w) p))"
proof -
  let ?path = "join_with slash (ds @ [c])" and ?target = "root @ ds @ [c]"
  let ?content = "utf8_encode (applyPlannedPatch source ps)"
  let ?opts = "\<lparr>opt_path = ?path, opt_target = ?target, opt_parent = root @ ds, opt_content = ?content,
      opt_expected = Some (Some digest)\<rparr>"
  have cw: "calm w" "is_dir_path (w_fs w) (root @ ds)" "plain c"
    using assms(1) by (simp_all add: ready_def writable_def Let_def)
  have lk: "lookup (w_fs w) ((root @ ds) @ [c]) = Some n" using assms(6) by simp
  have st: "target_state sha (Some n) = \<lparr>target_exists = True, target_mode = ino_mode n,
      target_sha256 = Some digest, target_size = length bs\<rparr>"
    using assms(7,8) by (simp add: target_state_def)
  have ins: "inspectWriteTarget sha ?target ?path w = (Inr (target_state sha (Some n)), w)"
    using inspect_file [OF cw lk assms(7), of sha ?path] st assms(8) by simp
  have rd: "readWholeFile ?target ?path (length bs) w = (Inr bs, w)"
    using readWholeFile_calm [OF cw lk assms(7,9), of ?path] by simp
  have pre: "enforceWritePrecondition (opt_expected ?opts) (target_state sha (lookup (w_fs w) ((root @ ds) @ [c])))
      (opt_path ?opts) = Inr ()"
    by (simp add: assms(6) st enforceWritePrecondition_def)
  obtain w' where wa: "writeAtomic sha (default_service resolver) ?opts w
        = (Inr (expected_result sha ?opts (lookup (w_fs w) ((root @ ds) @ [c]))), w')"
      "file_replaced (w_fs w) ((root @ ds) @ [c]) \<lparr>ino_body = Regular (opt_content ?opts),
         ino_mode = final_mode (w_umask w) (lookup (w_fs w) ((root @ ds) @ [c]))\<rparr> (w_fs w')"
    using writeAtomic_calm_ok [OF assms(1) _ _ pre, of resolver] by auto
  have "patch_target sha (default_service resolver) digest edits ?path (root @ ds) ?target w =
      (Inr \<lparr>patched_path = ?path, patched_previousSha256 = digest, patched_sha256 = sha ?content,
            patched_edits = length ps, patched_bytes = length ?content, patched_durability = FileAndDirectory\<rparr>, w')"
    using ins rd wa(1) assms(7-13)
    by (simp add: patch_target_def io_bind_def io_result_def io_try_def io_return_def st Let_def
        enforcePatchHashPrecondition_def classifyBuffer_def decodeUtf8_def patched_content_def
        expected_result_def write_result_def)
  moreover have "fs_patch sha (default_service resolver) request w =
      patch_target sha (default_service resolver) digest edits ?path (root @ ds) ?target w"
    using access_calm [OF cw(1) assms(2)] locate_target_calm [OF cw, of "''patch''"] assms(3-5)
    by (simp add: fs_patch_def io_bind_def io_result_def)
  ultimately show ?thesis using wa(2) assms(6)
    by (intro exI [of _ w']) (simp add: file_replaced_def final_mode_def)
qed

section \<open>The sample workspace\<close>

lemma is_dir_path_Nil: "is_dir_path fs []"
  by (simp add: is_dir_path_def body_at_def)

lemma is_dir_path_snoc:
  "is_dir_path fs (p @ [c]) \<longleftrightarrow> is_dir_path fs p \<and> plain c \<and> body_at fs (p @ [c]) = Some Directory"
  by (auto simp: is_dir_path_def)

lemma sample_writable: "writable sample_fs [js ''w''] (js ''a.txt'')"
  using is_dir_path_snoc [of sample_fs "[]" "js ''w''"] sample_plain is_dir_path_Nil
  by (simp add: writable_def sample_fs_def body_at_def lookup_def isFile_def)

lemma sample_ready: "ready sample_world [js ''w''] (js ''a.txt'')"
proof -
  let ?t = "temp_name (js ''a.txt'') 7 (js ''u'' @ js_nat 0)"
  have t: "plain ?t" "?t \<noteq> js ''a.txt''"
    using temp_name_fresh [of "js ''a.txt''" "js ''u'' @ js_nat 0" 7] sample_plain js_nat_no_slash
    by (auto simp: plain_def slash_def js_def cu_def)
  moreover have "fs_ok sample_fs" by (simp add: fs_ok_def sample_fs_def)
  moreover have "unused sample_fs [js ''w'', ?t]" using t(2) by (auto simp: unused_def sample_fs_def)
  ultimately show ?thesis
    using sample_writable by (simp add: ready_def Let_def calm_def sample_world_def)
qed

lemma sample_available: "available_workspace sample_resolver (js ''ws'') [js ''w''] sample_world"
proof -
  have "path_text [js ''w''] = js ''/w''" by code_simp
  with sample_writable show ?thesis
    by (simp add: available_workspace_def sample_resolver_def io_return_def sample_record_def sample_world_def writable_def)
qed

theorem writeAtomic_functional_witness:
  "\<exists>w'. writeAtomic sample_sha (default_service sample_resolver) sample_write_options sample_world
      = (Inr (write_result sample_sha sample_write_options
                (target_state sample_sha (lookup (w_fs sample_world) [js ''w'', js ''a.txt''])) True), w')
    \<and> lookup (w_fs w') [js ''w'', js ''a.txt''] = Some \<lparr>ino_body = Regular [49, 50], ino_mode = 0x1A4\<rparr>"
proof -
  have target: "opt_target sample_write_options = [js ''w''] @ [js ''a.txt'']"
    and parent: "opt_parent sample_write_options = [js ''w'']"
    by (simp_all add: sample_write_options_def)
  have there: "lookup (w_fs sample_world) [js ''w'', js ''a.txt''] = Some \<lparr>ino_body = Regular sample_bytes, ino_mode = 0x1A4\<rparr>"
    by (simp add: sample_world_def sample_fs_def lookup_def)
  have pre: "enforceWritePrecondition (opt_expected sample_write_options) st (opt_path sample_write_options) = Inr ()" for st
    by (simp add: sample_write_options_def enforceWritePrecondition_def)
  from writeAtomic_functional [OF sample_ready target parent, of sample_sha sample_resolver] show ?thesis
    unfolding pre by (auto simp: there final_mode_def) (simp add: sample_write_options_def)
qed

theorem fs_patch_functional_witness:
  "\<exists>w'. fs_patch sample_sha (default_service sample_resolver) sample_patch_request sample_world =
      (Inr \<lparr>patched_path = js ''a.txt'', patched_previousSha256 = sample_sha sample_bytes,
            patched_sha256 = sample_sha (utf8_encode (js ''1, 2'')), patched_edits = 2, patched_bytes = 4,
            patched_durability = FileAndDirectory\<rparr>, w')
    \<and> (\<forall>p. lookup (w_fs w') p =
         (if p = [js ''w'', js ''a.txt'']
          then Some \<lparr>ino_body = Regular (utf8_encode (js ''1, 2'')), ino_mode = 0x1A4\<rparr>
          else lookup (w_fs sample_world) p))"
proof -
  have ready: "ready sample_world ([js ''w''] @ []) (js ''a.txt'')" using sample_ready by simp
  have digest: "normalizeRequiredSha256 (pr_expectedSha256 sample_patch_request) ''expectedSha256''
      = Inr (sample_sha sample_bytes)"
    by (simp add: sample_patch_request_def sample_digest)
  have edits: "normalizePatchEdits (pr_edits sample_patch_request) = Inr sample_edit_list"
    by (simp add: sample_patch_request_def sample_edits_normalize)
  have path: "normalizeRelativePath (pr_path sample_patch_request) False = Inr (join_with slash ([] @ [js ''a.txt'']))"
    using sample_norm by (simp add: sample_patch_request_def)
  have target: "lookup (w_fs sample_world) ([js ''w''] @ [] @ [js ''a.txt''])
      = Some \<lparr>ino_body = Regular sample_bytes, ino_mode = 0x1A4\<rparr>"
    by (simp add: sample_world_def sample_fs_def lookup_def)
  have small: "length sample_bytes \<le> MAX_WRITE_BYTES"
    by (simp add: sample_source MAX_WRITE_BYTES_def)
  have plan: "planExactPatch (js ''one, two'') sample_edit_list (join_with slash ([] @ [js ''a.txt'']))
      = Some (Inr sample_plan_list)"
    using sample_plan_eq by simp
  have small': "length (utf8_encode (applyPlannedPatch (js ''one, two'') sample_plan_list)) \<le> MAX_WRITE_BYTES"
    by (simp add: sample_patched sample_patched_length MAX_WRITE_BYTES_def)
  have avail: "available_workspace sample_resolver (pr_workspaceId sample_patch_request) [js ''w''] sample_world"
    using sample_available by (simp add: sample_patch_request_def)
  have two: "length sample_plan_list = 2" by (simp add: sample_plan_list_def)
  from fs_patch_functional [where sha = sample_sha, OF ready avail digest edits path target _ refl small sample_source(2,1) plan small']
  show ?thesis by (simp add: sample_patched sample_patched_length two cong: if_cong)
qed

end
