(* ===== verification/ReadList.thy ===== *)
theory ReadList
  imports AtomicWrite JsonRoundtrip
begin

text \<open>
  \<open>FilesystemService.read\<close> and \<open>list\<close> (\<open>packages/filesystem/src/index.ts\<close>): bounded reads of a range
  of a file, and directory listings in pages that a cursor continues.
\<close>

section \<open>\<open>read\<close>\<close>

record FilesystemReadRequest =
  rr_workspaceId :: jstr
  rr_path :: jstr
  rr_offset :: "jsnum option"
  rr_maxBytes :: "jsnum option"

record FilesystemReadResult =
  read_path :: jstr
  read_classification :: FileClassification
  read_size :: nat
  read_offset :: nat
  read_bytesRead :: nat
  read_eof :: bool
  read_truncated :: bool
  read_content :: "jstr option"

text \<open>\<open>value ?? fallback\<close>\<close>

definition default_number :: "jsnum option \<Rightarrow> nat \<Rightarrow> jsnum" where
  "default_number v fallback = (case v of None \<Rightarrow> JInt (int fallback) | Some n \<Rightarrow> n)"

text \<open>The \<open>try\<close> block.\<close>

definition read_open :: "jstr \<Rightarrow> nat \<Rightarrow> nat \<Rightarrow> nat \<Rightarrow> FilesystemReadResult os" where
  "read_open path offset maxBytes handle =
     io_bind (os_fstat handle) (\<lambda>stats.
     if \<not> isFile (st_body stats)
     then io_throw (fs_error ''PATH_NOT_FILE'' (Some path) (js ''path is not a regular file: '' @ path))
     else if MAX_SAFE_INTEGER < st_size stats
     then io_throw (fs_error ''FILE_TOO_LARGE'' (Some path) (js ''file size exceeds safe integer range: '' @ path))
     else (let available = st_size stats - offset; len = min maxBytes available in
       io_bind (if len = 0 then io_return [] else os_read handle len offset) (\<lambda>data.
       let bytesRead = length data; classification = classifyBuffer data;
           eof = (st_size stats \<le> offset + bytesRead) in
       io_bind (if classification = TextFile then io_result (map_sum id Some (decodeUtf8 data)) else io_return None)
         (\<lambda>content. io_return
           \<lparr>read_path = path, read_classification = classification, read_size = st_size stats,
            read_offset = offset, read_bytesRead = bytesRead, read_eof = eof, read_truncated = (\<not> eof),
            read_content = content\<rparr>))))"

definition fs_read :: "service \<Rightarrow> FilesystemReadRequest \<Rightarrow> FilesystemReadResult os" where
  "fs_read svc request =
     io_bind (accessWorkspace svc (rr_workspaceId request)) (\<lambda>root.
     io_bind (io_result (normalizeRelativePath (rr_path request) False)) (\<lambda>path.
     io_bind (io_result (boundedInteger (default_number (rr_offset request) 0) ''offset'' 0 MAX_SAFE_INTEGER)) (\<lambda>offset.
     io_bind (io_result (boundedInteger (default_number (rr_maxBytes request) DEFAULT_READ_BYTES)
                           ''maxBytes'' 1 MAX_READ_BYTES)) (\<lambda>maxBytes.
     io_bind (resolveExistingPath root path) (\<lambda>absolutePath.
     io_bind (io_map_error (mapFilesystemError path) (os_open_read absolutePath)) (\<lambda>handle.
     io_finally (read_open path offset maxBytes handle) (os_close handle)))))))"

section \<open>\<open>list\<close>\<close>

record FilesystemListRequest =
  lr_workspaceId :: jstr
  lr_path :: "jstr option"
  lr_limit :: "jsnum option"
  lr_cursor :: "jstr option"

record FilesystemListEntry =
  entry_name :: jstr
  entry_path :: jstr
  entry_type :: FileEntryType
  entry_size :: "nat option"

record FilesystemListResult =
  listed_path :: jstr
  listed_entries :: "FilesystemListEntry list"
  listed_nextCursor :: "jstr option"

definition readEntryMetadata :: "abspath \<Rightarrow> bool \<Rightarrow> nat os" where
  "readEntryMetadata p symlink =
     (if symlink then io_return 0
      else io_bind (os_lstat p) (\<lambda>stats.
        io_return (if st_size stats \<le> MAX_SAFE_INTEGER then st_size stats else 0)))"

text \<open>The loop over the directory entries.\<close>

fun list_loop :: "abspath \<Rightarrow> jstr \<Rightarrow> dirent list \<Rightarrow> FilesystemListEntry list os" where
  "list_loop absolutePath path [] = io_return []"
| "list_loop absolutePath path ((name, kind) # entries) =
     io_bind (readEntryMetadata (absolutePath @ [name]) (isSymbolicLink kind)) (\<lambda>metadata.
     io_bind (list_loop absolutePath path entries) (\<lambda>listed.
     io_return (\<lparr>entry_name = name, entry_path = joinPortable path name, entry_type = direntType kind,
                 entry_size = (if direntType kind = EntryFile then Some metadata else None)\<rparr> # listed)))"

definition compare_names :: "FilesystemListEntry \<Rightarrow> FilesystemListEntry \<Rightarrow> int" where
  "compare_names left right = compareCodePoints (entry_name left) (entry_name right)"

text \<open>The page after the cursor, and whether more follows.\<close>

definition list_page :: "FilesystemListEntry list \<Rightarrow> ListCursor option \<Rightarrow> nat \<Rightarrow> jstr \<Rightarrow> FilesystemListResult" where
  "list_page listed cursor limit path =
     (let start = (case cursor of
                     None \<Rightarrow> Some 0
                   | Some c \<Rightarrow> List.find (\<lambda>i. 0 < compareCodePoints (entry_name (listed ! i)) (cursor_after c))
                                [0..<length listed]);
          normalizedStart = (case start of None \<Rightarrow> length listed | Some i \<Rightarrow> i);
          page = slice listed normalizedStart (normalizedStart + limit);
          hasMore = (normalizedStart + length page < length listed) in
      \<lparr>listed_path = path, listed_entries = page,
       listed_nextCursor =
         (if hasMore \<and> 0 < length page
          then Some (encodeListCursor \<lparr>cursor_path = path, cursor_after = entry_name (last page)\<rparr>)
          else None)\<rparr>)"

definition list_cursor :: "jstr option \<Rightarrow> jstr \<Rightarrow> ListCursor option result" where
  "list_cursor encoded path =
     (case encoded of None \<Rightarrow> Inr None | Some s \<Rightarrow> map_sum id Some (decodeListCursor s path))"

definition fs_list :: "service \<Rightarrow> FilesystemListRequest \<Rightarrow> FilesystemListResult os" where
  "fs_list svc request =
     io_bind (accessWorkspace svc (lr_workspaceId request)) (\<lambda>root.
     io_bind (io_result (normalizeRelativePath (case lr_path request of None \<Rightarrow> dot | Some p \<Rightarrow> p) True)) (\<lambda>path.
     io_bind (io_result (boundedInteger (default_number (lr_limit request) DEFAULT_LIST_LIMIT)
                           ''limit'' 1 MAX_LIST_LIMIT)) (\<lambda>limit.
     io_bind (io_result (list_cursor (lr_cursor request) path)) (\<lambda>cursor.
     io_bind (resolveExistingPath root path) (\<lambda>absolutePath.
     io_bind (io_map_error (mapFilesystemError path) (os_readdir absolutePath)) (\<lambda>entries.
     io_bind (list_loop absolutePath path entries) (\<lambda>listed.
     io_return (list_page (js_sort compare_names listed) cursor limit path))))))))"

section \<open>The cursor survives encoding\<close>

lemma cursor_json_wf: "wf_json (cursor_json c)"
  by (simp add: cursor_json_def)

lemma paired_cursor: "paired (JSON_stringify (cursor_json c))"
  unfolding cursor_json_def JSON_stringify.simps json_members.simps fst_conv snd_conv
  by (intro paired_Cons paired_append no_surrogate_cu paired_json_string paired_JInt [unfolded json_num.simps])
    (simp_all add: paired_JInt [unfolded json_num.simps] no_surrogate_cu)

lemma encodeListCursor_parse:
  "JSON_parse (utf8_toString (base64url_decode (encodeListCursor c))) = Some (cursor_json c)"
  by (simp add: encodeListCursor_def base64url_decode_encode utf8_toString_encode paired_well_formed paired_cursor
      JSON_parse_stringify cursor_json_wf)

lemma list_cursor_decode:
  "cursor_after c \<noteq> [] \<Longrightarrow> decodeListCursor (encodeListCursor c) (cursor_path c) = Inr c"
  unfolding decodeListCursor_def encodeListCursor_parse Let_def by (simp add: cursor_json_def)

text \<open>A list cursor survives its encoding as JSON, UTF-8 and base64url, whatever units the path and the
  name have: decoding it for the directory it was made for gives it back, and for any other directory,
  or if it names no entry, the error \<open>INVALID_CURSOR\<close>.\<close>

theorem list_cursor_roundtrip:
  "decodeListCursor (encodeListCursor c) path =
     (if path = cursor_path c \<and> cursor_after c \<noteq> [] then Inr c
      else Inl (fs_error ''INVALID_CURSOR'' (Some path) (js ''directory cursor is invalid'')))"
  unfolding decodeListCursor_def encodeListCursor_parse Let_def
  by (auto simp: cursor_json_def)

section \<open>Paging\<close>

text \<open>Listings as the code sorts them: strictly ascending by code points.\<close>

definition ascending :: "FilesystemListEntry list \<Rightarrow> bool" where
  "ascending listed \<longleftrightarrow> sorted_wrt (\<lambda>a b. compare_names a b < 0) listed"

interpretation entry_order: comparator compare_names
  unfolding compare_names_def by (rule comparator_key) (rule code_point_order.comparator_axioms)

lemma sort_ascending:
  assumes "distinct (map entry_name entries)"
  shows "ascending (js_sort compare_names entries)"
proof -
  let ?s = "js_sort compare_names entries"
  have d: "distinct (map entry_name ?s)"
    using assms by (metis mset_js_sort mset_map mset_eq_imp_distinct_iff)
  have "compare_names (?s ! i) (?s ! j) < 0" if "i < j" "j < length ?s" for i j
  proof -
    have "compare_names (?s ! i) (?s ! j) \<le> 0"
      using entry_order.sorted_js_sort [of entries] that by (simp add: sorted_wrt_iff_nth_less)
    moreover have "entry_name (?s ! i) \<noteq> entry_name (?s ! j)"
      using d that by (simp add: distinct_conv_nth)
    then have "compare_names (?s ! i) (?s ! j) \<noteq> 0"
      unfolding compare_names_def by (simp add: compareCodePoints_eq)
    ultimately show ?thesis by linarith
  qed
  then show ?thesis by (simp add: ascending_def sorted_wrt_iff_nth_less)
qed

text \<open>After the entry at index \<open>k\<close> the next page starts at \<open>Suc k\<close>.\<close>

lemma page_start:
  assumes "ascending listed" "k < length listed"
  shows "(case List.find (\<lambda>i. 0 < compareCodePoints (entry_name (listed ! i)) (entry_name (listed ! k)))
            [0..<length listed] of None \<Rightarrow> length listed | Some i \<Rightarrow> i) = Suc k"
proof -
  have lt: "i < j \<Longrightarrow> j < length listed \<Longrightarrow> compare_names (listed ! i) (listed ! j) < 0" for i j
    using assms(1) by (simp add: ascending_def sorted_wrt_iff_nth_less)
  have before: "\<not> 0 < compareCodePoints (entry_name (listed ! i)) (entry_name (listed ! k))" if "i \<le> k" for i
  proof (cases "i = k")
    case True
    with compareCodePoints_eq [of "entry_name (listed ! k)" "entry_name (listed ! k)"] show ?thesis by simp
  next
    case False
    with lt [of i k] that assms(2) show ?thesis by (simp add: compare_names_def)
  qed
  show ?thesis
  proof (cases "Suc k < length listed")
    case True
    have "0 < compareCodePoints (entry_name (listed ! Suc k)) (entry_name (listed ! k))"
      using lt [of k "Suc k"] True compareCodePoints_flip [of "entry_name (listed ! Suc k)" "entry_name (listed ! k)"]
      by (simp add: compare_names_def)
    then have "List.find (\<lambda>i. 0 < compareCodePoints (entry_name (listed ! i)) (entry_name (listed ! k))) [0..<length listed]
        = Some (Suc k)"
      unfolding find_upt_Some using True before by (auto simp: less_Suc_eq_le)
    then show ?thesis by simp
  next
    case False
    with assms(2) have e: "length listed = Suc k" by simp
    then have "List.find (\<lambda>i. 0 < compareCodePoints (entry_name (listed ! i)) (entry_name (listed ! k))) [0..<length listed]
        = None"
      unfolding find_upt_None using before by (auto simp: less_Suc_eq_le)
    with e show ?thesis by simp
  qed
qed

text \<open>The page that starts at index \<open>k\<close>.\<close>

definition page_at :: "FilesystemListEntry list \<Rightarrow> nat \<Rightarrow> nat \<Rightarrow> jstr \<Rightarrow> FilesystemListResult" where
  "page_at listed k limit path =
     \<lparr>listed_path = path, listed_entries = take limit (drop k listed),
      listed_nextCursor =
        (if k + limit < length listed
         then Some (encodeListCursor \<lparr>cursor_path = path, cursor_after = entry_name (listed ! (k + limit - 1))\<rparr>)
         else None)\<rparr>"

lemma list_page_from:
  assumes "0 < limit" "k \<le> length listed"
    and "(case cursor of None \<Rightarrow> Some 0 | Some c \<Rightarrow>
            List.find (\<lambda>i. 0 < compareCodePoints (entry_name (listed ! i)) (cursor_after c)) [0..<length listed])
          = s"
    and "(case s of None \<Rightarrow> length listed | Some i \<Rightarrow> i) = k"
  shows "list_page listed cursor limit path = page_at listed k limit path"
proof -
  have sl: "slice listed k (k + limit) = take limit (drop k listed)" by (simp add: slice_def)
  show ?thesis
  proof (cases "k + limit < length listed")
    case True
    then have "length (take limit (drop k listed)) = limit" by simp
    moreover from this assms(1) True have "last (take limit (drop k listed)) = listed ! (k + limit - 1)"
      by (subst last_conv_nth) auto
    ultimately show ?thesis
      using True assms(1) unfolding list_page_def page_at_def assms(3) assms(4) Let_def sl by simp
  next
    case False
    then have "length (take limit (drop k listed)) = length listed - k" by simp
    with False assms(2) show ?thesis
      unfolding list_page_def page_at_def assms(3) assms(4) Let_def sl by simp
  qed
qed

lemma list_page_first: "0 < limit \<Longrightarrow> list_page listed None limit path = page_at listed 0 limit path"
  by (rule list_page_from [where s = "Some 0"]) simp_all

lemma list_page_next:
  assumes "ascending listed" "0 < limit" "k < length listed"
  shows "list_page listed (Some \<lparr>cursor_path = path, cursor_after = entry_name (listed ! k)\<rparr>) limit path
    = page_at listed (Suc k) limit path"
proof (rule list_page_from [OF assms(2) _ refl])
  show "Suc k \<le> length listed" using assms(3) by simp
qed (use page_start [OF assms(1,3)] in simp)

end
