(* ===== verification/ReadCalm.thy ===== *)
theory ReadCalm
  imports WriteCalm ReadList
begin

text \<open>
  What \<open>read\<close> and \<open>list\<close> return: their bounds under any interference, and their complete results when
  nothing interferes, up to a client that follows the cursors to the end.
\<close>

section \<open>Reads stay in bounds\<close>

lemma os_read_length:
  "os_read h n pos w = (Inr data, w') \<Longrightarrow> length data \<le> n"
  by (auto simp: os_read_def observe_def split: sum.splits if_splits option.splits dest!: syscall_log)

lemma boundedInteger_Inr:
  "boundedInteger v name lo hi = Inr n \<Longrightarrow> lo \<le> n \<and> n \<le> hi \<and> v = JInt (int n)"
  by (cases v) (auto simp: boundedInteger_def split: if_splits)

definition within :: "nat \<Rightarrow> nat \<Rightarrow> FilesystemReadResult \<Rightarrow> bool" where
  "within offset maxBytes r \<longleftrightarrow>
     read_offset r = offset \<and> read_bytesRead r \<le> maxBytes \<and> read_bytesRead r \<le> read_size r - offset
     \<and> (read_eof r \<longleftrightarrow> read_size r \<le> offset + read_bytesRead r) \<and> read_truncated r = (\<not> read_eof r)
     \<and> (read_content r = None \<longleftrightarrow> read_classification r = BinaryFile)"

lemma read_open_within: "io_rel (read_open path offset maxBytes h) (\<lambda>w x w'. case x of Inl _ \<Rightarrow> True | Inr r \<Rightarrow> within offset maxBytes r)"
proof (rule io_relI)
  fix w x w' assume r: "read_open path offset maxBytes h w = (x, w')"
  show "case x of Inl _ \<Rightarrow> True | Inr r \<Rightarrow> within offset maxBytes r"
    using r
    by (auto simp: read_open_def io_defs Let_def within_def classifyBuffer_def decodeUtf8_def
        split: prod.splits sum.splits if_splits option.splits dest!: os_read_length)
qed

text \<open>A computation that returned went through its parts.\<close>

lemma io_bind_returned:
  "io_bind m f w = (Inr r, w') \<Longrightarrow> \<exists>a w1. m w = (Inr a, w1) \<and> f a w1 = (Inr r, w')"
  by (auto simp: io_bind_def split: prod.splits sum.splits)

lemma io_finally_returned: "io_finally m f w = (Inr r, w') \<Longrightarrow> \<exists>w1. m w = (Inr r, w1)"
  by (auto simp: io_finally_def split: prod.splits sum.splits)

lemma io_result_returned: "io_result x w = (Inr a, w') \<longleftrightarrow> x = Inr a \<and> w' = w"
  by (auto simp: io_result_def)

text \<open>A read stays in its bounds, whatever happens to the file meanwhile and whichever calls fail: the
  offset and the number of bytes asked for were valid integers, the bytes returned are at most the
  number asked for, which is at most 1 MiB, and at most what the file had from the offset on when its
  size was taken; the end-of-file and truncation flags agree with those numbers; and there is text
  exactly when the bytes are classified as text.\<close>

theorem fs_read_bounded:
  "case fst (fs_read svc request w) of
     Inl _ \<Rightarrow> True
   | Inr r \<Rightarrow> \<exists>offset maxBytes.
       default_number (rr_offset request) 0 = JInt (int offset) \<and> offset \<le> MAX_SAFE_INTEGER
       \<and> default_number (rr_maxBytes request) DEFAULT_READ_BYTES = JInt (int maxBytes)
       \<and> 1 \<le> maxBytes \<and> maxBytes \<le> MAX_READ_BYTES
       \<and> read_offset r = offset \<and> read_bytesRead r \<le> maxBytes \<and> read_bytesRead r \<le> read_size r - offset
       \<and> (read_eof r \<longleftrightarrow> read_size r \<le> offset + read_bytesRead r) \<and> read_truncated r = (\<not> read_eof r)
       \<and> (read_content r = None \<longleftrightarrow> read_classification r = BinaryFile)"
proof (cases "fs_read svc request w")
  case (Pair x w')
  show ?thesis
  proof (cases x)
    case (Inr r)
    with Pair have "fs_read svc request w = (Inr r, w')" by simp
    from this [unfolded fs_read_def] obtain offset maxBytes path h w1 w2 where
      o: "boundedInteger (default_number (rr_offset request) 0) ''offset'' 0 MAX_SAFE_INTEGER = Inr offset"
      and m: "boundedInteger (default_number (rr_maxBytes request) DEFAULT_READ_BYTES) ''maxBytes'' 1 MAX_READ_BYTES
          = Inr maxBytes"
      and r: "read_open path offset maxBytes h w1 = (Inr r, w2)"
      by (blast dest!: io_bind_returned io_finally_returned iffD1 [OF io_result_returned])
    show ?thesis
      using boundedInteger_Inr [OF o] boundedInteger_Inr [OF m] io_relD [OF read_open_within r] Pair Inr
      by (auto simp: within_def)
  qed (use Pair in simp)
qed

section \<open>Reading a file when nothing interferes\<close>

lemma realpath_file:
  assumes "calm w" "is_dir_path (w_fs w) d" "plain c" "lookup (w_fs w) (d @ [c]) = Some n" "isFile (ino_body n)"
  shows "os_realpath (d @ [c]) w = (Inr (d @ [c]), w)"
  using existing_child [OF assms(2-5), of True] assms(1) by (simp add: os_realpath_def observe_calm)

lemma resolve_file_calm:
  assumes "calm w" "is_dir_path (w_fs w) (root @ ds)" "plain c"
    and "lookup (w_fs w) ((root @ ds) @ [c]) = Some n" "isFile (ino_body n)"
  shows "resolveExistingPath root (join_with slash (ds @ [c])) w = (Inr (root @ ds @ [c]), w)"
proof -
  have pl: "list_all plain root" "list_all plain (ds @ [c])" using assms(2,3) by (simp_all add: is_dir_path_def)
  have "isSameOrDescendant root (root @ ds @ [c])" using isSameOrDescendant_iff [of root "root @ ds @ [c]"] pl by simp
  moreover have sp: "split_on slash (join_with slash (ds @ [c])) = ds @ [c]"
    using split_join_plain [of "ds @ [c]"] pl(2) by simp
  moreover have "join_with slash (ds @ [c]) \<noteq> dot"
  proof
    assume "join_with slash (ds @ [c]) = dot"
    moreover have "split_on slash dot = [dot]" by (rule split_on_no_sep) (simp add: dot_def slash_def js_def cu_def)
    ultimately have "ds @ [c] = [dot]" using sp by simp
    with pl(2) show False by (simp add: plain_def)
  qed
  moreover have "resolve_segments root (filter (\<lambda>c. c \<noteq> []) (ds @ [c])) = root @ ds @ [c]"
    using resolve_plain [of "ds @ [c]" root] pl(2) by (simp add: list_all_iff plain_def filter_id_conv)
  ultimately show ?thesis
    using realpath_file [OF assms] by (auto simp: resolveExistingPath_def Let_def io_defs)
qed

text \<open>C23. A read with nothing interfering returns exactly the requested range of the file: the bytes from the
  offset on, at most as many as asked for; it classifies them, decodes them when they are text, and
  reports the file's size and whether the range reaches its end. The state is unchanged.\<close>

theorem fs_read_functional:
  assumes "calm w" and "available_workspace resolver (rr_workspaceId request) root w"
    and "is_dir_path (w_fs w) (root @ ds)" and "plain c"
    and "normalizeRelativePath (rr_path request) False = Inr (join_with slash (ds @ [c]))"
    and "lookup (w_fs w) (root @ ds @ [c]) = Some n" and "ino_body n = Regular bs" and "length bs \<le> MAX_SAFE_INTEGER"
    and "boundedInteger (default_number (rr_offset request) 0) ''offset'' 0 MAX_SAFE_INTEGER = Inr offset"
    and "boundedInteger (default_number (rr_maxBytes request) DEFAULT_READ_BYTES) ''maxBytes'' 1 MAX_READ_BYTES
      = Inr maxBytes"
  shows "fs_read (default_service resolver) request w =
    (Inr \<lparr>read_path = join_with slash (ds @ [c]), read_classification = classifyBuffer (take maxBytes (drop offset bs)),
          read_size = length bs, read_offset = offset, read_bytesRead = min maxBytes (length bs - offset),
          read_eof = (length bs \<le> offset + maxBytes), read_truncated = (offset + maxBytes < length bs),
          read_content = (if classifyBuffer (take maxBytes (drop offset bs)) = TextFile
                          then utf8_decode (take maxBytes (drop offset bs)) else None)\<rparr>, w)"
proof -
  let ?path = "join_with slash (ds @ [c])" and ?data = "take maxBytes (drop offset bs)"
  have lk: "lookup (w_fs w) ((root @ ds) @ [c]) = Some n" "isFile (ino_body n)"
    using assms(6,7) by (simp_all add: isFile_def)
  obtain h where h: "os_open_read ((root @ ds) @ [c]) w = (Inr h, w)" "map_of (inodes (w_fs w)) h = Some n"
    using open_file [OF assms(1,3,4) lk] by blast
  have st: "os_fstat h w = (Inr \<lparr>st_body = Regular bs, st_mode = ino_mode n\<rparr>, w)"
    using h(2) assms(1,7) by (simp add: os_fstat_def observe_calm handle_inode_def)
  have rd: "(if min maxBytes (length bs - offset) = 0 then io_return []
      else os_read h (min maxBytes (length bs - offset)) offset) w = (Inr ?data, w)"
    using read_calm [OF assms(1) h(2) assms(7)] by (auto simp: io_return_def min_def)
  have one: "1 \<le> maxBytes" using boundedInteger_Inr [OF assms(10)] by simp
  have len: "length ?data = min maxBytes (length bs - offset)" by simp
  have dec: "io_bind (if classifyBuffer ?data = TextFile then io_result (map_sum id Some (decodeUtf8 ?data))
        else io_return None) k w
      = k (if classifyBuffer ?data = TextFile then utf8_decode ?data else None) w" for k :: "jstr option \<Rightarrow> 'b os"
    by (simp add: io_bind_def io_result_def io_return_def classifyBuffer_def decodeUtf8_def split: option.split)
  have eof: "(length bs \<le> offset + min maxBytes (length bs - offset)) = (length bs \<le> offset + maxBytes)"
    by auto
  have "read_open ?path offset maxBytes h w = (Inr \<lparr>read_path = ?path, read_classification = classifyBuffer ?data,
      read_size = length bs, read_offset = offset, read_bytesRead = min maxBytes (length bs - offset),
      read_eof = (length bs \<le> offset + maxBytes), read_truncated = (offset + maxBytes < length bs),
      read_content = (if classifyBuffer ?data = TextFile then utf8_decode ?data else None)\<rparr>, w)"
    unfolding read_open_def io_bind_def [of "os_fstat h"] st
    using rd assms(8) by (simp add: isFile_def Let_def io_bind_def [of "if _ then io_return [] else _"] rd dec len eof io_return_def)
      (auto simp: not_le)
  then show ?thesis
    using access_calm [OF assms(1,2)] resolve_file_calm [OF assms(1,3,4) lk] assms(5,9,10) h(1) close_calm [OF assms(1), of h]
    by (simp add: fs_read_def io_defs)
qed

section \<open>Listing a directory when nothing interferes\<close>

text \<open>A file system whose names are distinct, plain and not dangling.\<close>

definition tree_ok :: "fsys \<Rightarrow> bool" where
  "tree_ok fs \<longleftrightarrow> fs_ok fs \<and> distinct (map fst (names fs)) \<and> (\<forall>(p, i) \<in> set (names fs). p \<noteq> [] \<and> list_all plain p)"

text \<open>What a listing says of the entry \<open>c\<close> of the directory \<open>d\<close>.\<close>

definition describe :: "fsys \<Rightarrow> abspath \<Rightarrow> jstr \<Rightarrow> jstr \<Rightarrow> FilesystemListEntry" where
  "describe fs d path c =
     (let body = (case lookup fs (d @ [c]) of Some n \<Rightarrow> ino_body n | None \<Rightarrow> Special) in
      \<lparr>entry_name = c, entry_path = joinPortable path c, entry_type = direntType body,
       entry_size = (case body of
          Regular bs \<Rightarrow> Some (if length bs \<le> MAX_SAFE_INTEGER then length bs else 0) | _ \<Rightarrow> None)\<rparr>)"

lemma children_lookup:
  assumes "tree_ok fs"
  shows "(c, k) \<in> set (children fs d) \<longleftrightarrow> (\<exists>n. lookup fs (d @ [c]) = Some n \<and> k = ino_body n)"
    and "(c, k) \<in> set (children fs d) \<Longrightarrow> plain c"
    and "distinct (map fst (children fs d))"
proof -
  have d: "distinct (map fst (names fs))" using assms by (simp add: tree_ok_def)
  have ok: "map_of (inodes fs) i \<noteq> None" if "(p, i) \<in> set (names fs)" for p i
    using assms that by (auto simp: tree_ok_def fs_ok_def)
  have mem: "(c, k) \<in> set (children fs d) \<longleftrightarrow>
      (\<exists>q i. (q, i) \<in> set (names fs) \<and> q \<noteq> [] \<and> butlast q = d \<and> last q = c
        \<and> k = (case map_of (inodes fs) i of Some n \<Rightarrow> ino_body n | None \<Rightarrow> Special))"
    by (force simp: children_def)
  also have "\<dots> \<longleftrightarrow> (\<exists>i. (d @ [c], i) \<in> set (names fs)
        \<and> k = (case map_of (inodes fs) i of Some n \<Rightarrow> ino_body n | None \<Rightarrow> Special))"
    by (metis butlast_snoc last_snoc snoc_eq_iff_butlast)
  finally have mem: "(c, k) \<in> set (children fs d) \<longleftrightarrow> (\<exists>i. (d @ [c], i) \<in> set (names fs)
        \<and> k = (case map_of (inodes fs) i of Some n \<Rightarrow> ino_body n | None \<Rightarrow> Special))" .
  show "(c, k) \<in> set (children fs d) \<longleftrightarrow> (\<exists>n. lookup fs (d @ [c]) = Some n \<and> k = ino_body n)"
    unfolding mem using d ok by (fastforce simp: lookup_def split: option.splits dest: map_of_SomeD)
  show "(c, k) \<in> set (children fs d) \<Longrightarrow> plain c"
    unfolding mem using assms by (fastforce simp: tree_ok_def)
  have "map fst (children fs d) = map last (filter (\<lambda>q. q \<noteq> [] \<and> butlast q = d) (map fst (names fs)))"
    by (simp add: children_def filter_map comp_def case_prod_unfold)
  moreover have "inj_on last {q. q \<noteq> [] \<and> butlast q = d}"
    by (auto simp: inj_on_def) (metis append_butlast_last_id)
  moreover from this have "inj_on last (set (filter (\<lambda>q. q \<noteq> [] \<and> butlast q = d) (map fst (names fs))))"
    by (rule inj_on_subset) auto
  moreover have "distinct (filter (\<lambda>q. q \<noteq> [] \<and> butlast q = d) (map fst (names fs)))"
    using d by (rule distinct_filter)
  ultimately show "distinct (map fst (children fs d))" by (simp only: distinct_map)
qed

lemma lstat_entry:
  assumes "calm w" "is_dir_path (w_fs w) d" "plain c" "lookup (w_fs w) (d @ [c]) = Some n"
  shows "os_lstat (d @ [c]) w = (Inr \<lparr>st_body = ino_body n, st_mode = ino_mode n\<rparr>, w)"
  using locate_child [OF assms(2,3)] assms(1,4)
  by (simp add: os_lstat_def observe_calm existing_def body_at_def)

lemma list_loop_calm:
  assumes "calm w" "is_dir_path (w_fs w) d"
    and "\<forall>(c, k) \<in> set entries. plain c \<and> (\<exists>n. lookup (w_fs w) (d @ [c]) = Some n \<and> k = ino_body n)"
  shows "list_loop d path entries w = (Inr (map (\<lambda>(c, k). describe (w_fs w) d path c) entries), w)"
  using assms(3)
proof (induction entries)
  case (Cons e entries)
  obtain c k where e: "e = (c, k)" by (cases e)
  with Cons.prems obtain n where n: "plain c" "lookup (w_fs w) (d @ [c]) = Some n" "k = ino_body n" by auto
  have meta: "readEntryMetadata (d @ [c]) (isSymbolicLink k) w =
      (Inr (if isSymbolicLink k then 0 else let m = st_size \<lparr>st_body = k, st_mode = ino_mode n\<rparr> in
              if m \<le> MAX_SAFE_INTEGER then m else 0), w)"
    using lstat_entry [OF assms(1,2) n(1,2)] n(3) by (simp add: readEntryMetadata_def io_defs Let_def)
  have "list_loop d path entries w = (Inr (map (\<lambda>(c, k). describe (w_fs w) d path c) entries), w)"
    using Cons by simp
  with meta n show ?case
    by (auto simp: e io_bind_def io_return_def describe_def Let_def direntType_def isFile_def isSymbolicLink_def
        isDirectory_def split: file_body.splits)
qed (simp add: io_return_def)

text \<open>The sorted listing, in terms of the file system alone.\<close>

lemma sorted_listing:
  assumes "tree_ok fs"
  shows "\<exists>ns. js_sort compare_names (map (\<lambda>(c, k). describe fs d path c) (children fs d)) = map (describe fs d path) ns
    \<and> sorted_wrt (\<lambda>a b. compareCodePoints a b < 0) ns \<and> set ns = {c. lookup fs (d @ [c]) \<noteq> None}"
proof -
  let ?l = "js_sort compare_names (map (\<lambda>(c, k). describe fs d path c) (children fs d))"
  have nm: "entry_name (describe fs d path c) = c" for c by (simp add: describe_def Let_def)
  have names: "map entry_name (map (\<lambda>(c, k). describe fs d path c) (children fs d)) = map fst (children fs d)"
    by (simp add: comp_def case_prod_beta nm)
  have asc: "ascending ?l"
    by (rule sort_ascending) (simp only: names children_lookup(3) [OF assms])
  have "?l = map (describe fs d path) (map entry_name ?l)"
    by (rule sym) (auto simp: comp_def nm intro!: map_idI)
  moreover have "sorted_wrt (\<lambda>a b. compareCodePoints a b < 0) (map entry_name ?l)"
    using asc by (simp add: ascending_def compare_names_def sorted_wrt_map)
  moreover have "set (map entry_name ?l) = {c. lookup fs (d @ [c]) \<noteq> None}"
    using children_lookup(1) [OF assms] by (force simp: nm)
  ultimately show ?thesis by blast
qed

lemma fs_list_calm:
  assumes path: "path = (if ds = [] then dot else join_with slash ds)"
    and "calm w" "tree_ok (w_fs w)" "available_workspace resolver (lr_workspaceId request) root w"
    and "is_dir_path (w_fs w) (root @ ds)"
    and "normalizeRelativePath (case lr_path request of None \<Rightarrow> dot | Some p \<Rightarrow> p) True = Inr path"
    and "boundedInteger (default_number (lr_limit request) DEFAULT_LIST_LIMIT) ''limit'' 1 MAX_LIST_LIMIT = Inr limit"
    and "list_cursor (lr_cursor request) path = Inr cursor"
  shows "fs_list (default_service resolver) request w =
    (Inr (list_page (js_sort compare_names (map (\<lambda>(c, k). describe (w_fs w) (root @ ds) path c)
            (children (w_fs w) (root @ ds)))) cursor limit path), w)"
proof -
  have rd: "os_readdir (root @ ds) w = (Inr (children (w_fs w) (root @ ds)), w)"
    using existing_dir [OF assms(5), of True] assms(2) by (simp add: os_readdir_def observe_calm)
  have "\<forall>(c, k) \<in> set (children (w_fs w) (root @ ds)).
      plain c \<and> (\<exists>n. lookup (w_fs w) ((root @ ds) @ [c]) = Some n \<and> k = ino_body n)"
    using children_lookup [OF assms(3)] by blast
  from list_loop_calm [OF assms(2,5) this, of path]
  show ?thesis
    using access_calm [OF assms(2,4)] resolve_calm [OF assms(2,5), folded path] rd assms(6-8)
    by (simp add: fs_list_def io_defs)
qed

text \<open>A client that asks for page after page, as many as \<open>fuel\<close>.\<close>

fun list_pages :: "service \<Rightarrow> FilesystemListRequest \<Rightarrow> nat \<Rightarrow> FilesystemListEntry list list os" where
  "list_pages svc request 0 = io_throw (JsError (js ''more pages than expected''))"
| "list_pages svc request (Suc fuel) =
     io_bind (fs_list svc request) (\<lambda>r.
       case listed_nextCursor r of
         None \<Rightarrow> io_return [listed_entries r]
       | Some cursor \<Rightarrow>
           io_bind (list_pages svc (request\<lparr>lr_cursor := Some cursor\<rparr>) fuel) (\<lambda>pages.
           io_return (listed_entries r # pages)))"

lemma strict_distinct: "sorted_wrt (\<lambda>a b. compareCodePoints a b < 0) ns \<Longrightarrow> distinct ns"
proof (induction ns)
  case (Cons a ns)
  have "compareCodePoints a a = 0" by (simp add: compareCodePoints_eq)
  with Cons show ?case by auto
qed simp

lemma list_pages_from:
  assumes step: "\<And>asked. lr_workspaceId asked = lr_workspaceId request \<Longrightarrow> lr_path asked = lr_path request \<Longrightarrow>
      lr_limit asked = lr_limit request \<Longrightarrow> \<exists>cursor. list_cursor (lr_cursor asked) path = Inr cursor \<Longrightarrow>
      fs_list svc asked w = (Inr (list_page listed (projr (list_cursor (lr_cursor asked) path)) limit path), w)"
    and asc: "ascending listed" and pos: "0 < limit" and named: "\<forall>e \<in> set listed. entry_name e \<noteq> []"
    and asked: "lr_workspaceId asked = lr_workspaceId request" "lr_path asked = lr_path request" "lr_limit asked = lr_limit request"
    and k: "k \<le> length listed"
    and cur: "(case lr_cursor asked of None \<Rightarrow> k = 0
        | Some s \<Rightarrow> 0 < k \<and> s = encodeListCursor \<lparr>cursor_path = path, cursor_after = entry_name (listed ! (k - 1))\<rparr>)"
    and fuel: "length listed - k < fuel"
  shows "\<exists>pages. list_pages svc asked fuel w = (Inr pages, w) \<and> concat pages = drop k listed \<and> pages \<noteq> []
    \<and> (\<forall>page \<in> set pages. length page \<le> limit) \<and> (\<forall>page \<in> set (butlast pages). length page = limit)"
  using asked k cur fuel
proof (induction fuel arbitrary: asked k)
  case (Suc fuel)
  have page: "fs_list svc asked w = (Inr (page_at listed k limit path), w)"
  proof (cases "lr_cursor asked")
    case None
    with Suc.prems step [of asked] show ?thesis by (simp add: list_cursor_def list_page_first [OF pos])
  next
    case (Some s)
    with Suc.prems(5) have s: "0 < k" "s = encodeListCursor \<lparr>cursor_path = path, cursor_after = entry_name (listed ! (k - 1))\<rparr>"
      by simp_all
    have kk: "k - 1 < length listed" "Suc (k - 1) = k" using s(1) Suc.prems(4) by simp_all
    have "entry_name (listed ! (k - 1)) \<noteq> []" using named kk(1) by (metis nth_mem)
    then have "list_cursor (lr_cursor asked) path = Inr (Some \<lparr>cursor_path = path, cursor_after = entry_name (listed ! (k - 1))\<rparr>)"
      using list_cursor_decode [of "\<lparr>cursor_path = path, cursor_after = entry_name (listed ! (k - 1))\<rparr>"]
      by (simp add: list_cursor_def Some s(2))
    with step [of asked] Suc.prems(1-3) list_page_next [OF asc pos kk(1), of path, unfolded kk(2)] show ?thesis by simp
  qed
  show ?case
  proof (cases "k + limit < length listed")
    case True
    let ?asked = "asked\<lparr>lr_cursor := Some (encodeListCursor \<lparr>cursor_path = path, cursor_after = entry_name (listed ! (k + limit - 1))\<rparr>)\<rparr>"
    have "\<exists>pages. list_pages svc ?asked fuel w = (Inr pages, w) \<and> concat pages = drop (k + limit) listed \<and> pages \<noteq> []
        \<and> (\<forall>page \<in> set pages. length page \<le> limit) \<and> (\<forall>page \<in> set (butlast pages). length page = limit)"
      using True Suc.prems pos by (intro Suc.IH) simp_all
    then obtain pages where p: "list_pages svc ?asked fuel w = (Inr pages, w)" "concat pages = drop (k + limit) listed"
      "pages \<noteq> []" "\<forall>page \<in> set pages. length page \<le> limit" "\<forall>page \<in> set (butlast pages). length page = limit"
      by blast
    have "take limit (drop k listed) @ drop (k + limit) listed = drop k listed"
      by (metis add.commute append_take_drop_id drop_drop)
    with p True page show ?thesis by (simp add: page_at_def io_bind_def io_return_def)
  next
    case False
    then show ?thesis using page by (auto simp: page_at_def io_bind_def io_return_def)
  qed
qed simp

text \<open>C20. Following the cursors of \<open>list\<close> from the first page ends, and yields the whole directory: with nothing
  interfering, a client that keeps asking with the cursor it was given gets, after at most one request
  more than there are entries, a page without a cursor; every page but the last has exactly the limit,
  none more; and the pages together are the directory's entries, each once, in strictly ascending
  order of the code points of their names, with their type and the size of files.\<close>

theorem list_pages_complete:
  assumes "calm w" and "tree_ok (w_fs w)" and "available_workspace resolver (lr_workspaceId request) root w"
    and "is_dir_path (w_fs w) (root @ ds)" and "path = (if ds = [] then dot else join_with slash ds)"
    and "normalizeRelativePath (case lr_path request of None \<Rightarrow> dot | Some p \<Rightarrow> p) True = Inr path"
    and "boundedInteger (default_number (lr_limit request) DEFAULT_LIST_LIMIT) ''limit'' 1 MAX_LIST_LIMIT = Inr limit"
    and "lr_cursor request = None"
    and "card {c. lookup (w_fs w) (root @ ds @ [c]) \<noteq> None} < fuel"
  shows "\<exists>pages ns. list_pages (default_service resolver) request fuel w = (Inr pages, w)
    \<and> concat pages = map (describe (w_fs w) (root @ ds) path) ns
    \<and> sorted_wrt (\<lambda>a b. compareCodePoints a b < 0) ns
    \<and> set ns = {c. lookup (w_fs w) (root @ ds @ [c]) \<noteq> None}
    \<and> (\<forall>page \<in> set pages. length page \<le> limit) \<and> (\<forall>page \<in> set (butlast pages). length page = limit)"
proof -
  let ?listed = "js_sort compare_names (map (\<lambda>(c, k). describe (w_fs w) (root @ ds) path c) (children (w_fs w) (root @ ds)))"
  obtain ns where ns: "?listed = map (describe (w_fs w) (root @ ds) path) ns"
    "sorted_wrt (\<lambda>a b. compareCodePoints a b < 0) ns" "set ns = {c. lookup (w_fs w) ((root @ ds) @ [c]) \<noteq> None}"
    using sorted_listing [OF assms(2)] by blast
  have nm: "entry_name (describe fs d path c) = c" for fs d c by (simp add: describe_def Let_def)
  have asc: "ascending ?listed"
    using ns(2) by (simp add: ns(1) ascending_def sorted_wrt_map compare_names_def nm)
  have "c \<noteq> []" if "c \<in> set ns" for c
  proof -
    from that ns(3) obtain n where "lookup (w_fs w) ((root @ ds) @ [c]) = Some n" by auto
    then have "(c, ino_body n) \<in> set (children (w_fs w) (root @ ds))"
      unfolding children_lookup(1) [OF assms(2)] by blast
    then show ?thesis using children_lookup(2) [OF assms(2)] by (simp add: plain_def)
  qed
  then have named: "\<forall>e \<in> set ?listed. entry_name e \<noteq> []" by (auto simp: ns(1) nm)
  have "distinct ns" using ns(2) by (rule strict_distinct)
  then have "length ?listed < fuel"
    using assms(9) ns(3) distinct_card [of ns] by (simp add: ns(1))
  moreover have "0 < limit" using boundedInteger_Inr [OF assms(7)] by simp
  moreover have "fs_list (default_service resolver) asked w =
      (Inr (list_page ?listed (projr (list_cursor (lr_cursor asked) path)) limit path), w)"
    if "lr_workspaceId asked = lr_workspaceId request" "lr_path asked = lr_path request"
      "lr_limit asked = lr_limit request" "\<exists>cursor. list_cursor (lr_cursor asked) path = Inr cursor" for asked
  proof -
    from that(4) obtain cursor where cursor: "list_cursor (lr_cursor asked) path = Inr cursor" ..
    with fs_list_calm [OF assms(5,1,2) _ assms(4), of resolver asked limit cursor] that(1-3) assms(3,6,7)
    show ?thesis by simp
  qed
  ultimately have "\<exists>pages. list_pages (default_service resolver) request fuel w = (Inr pages, w)
      \<and> concat pages = drop 0 ?listed \<and> pages \<noteq> []
      \<and> (\<forall>page \<in> set pages. length page \<le> limit) \<and> (\<forall>page \<in> set (butlast pages). length page = limit)"
    using asc named assms(8)
    by (intro list_pages_from [of request path "default_service resolver" w ?listed limit request 0 fuel]) simp_all
  then obtain pages where "list_pages (default_service resolver) request fuel w = (Inr pages, w)"
    "concat pages = ?listed" "\<forall>page \<in> set pages. length page \<le> limit"
    "\<forall>page \<in> set (butlast pages). length page = limit" by auto
  with ns show ?thesis by (intro exI [of _ pages] exI [of _ ns]) simp
qed

section \<open>The sample workspace\<close>

definition sample_read_request :: FilesystemReadRequest where
  "sample_read_request = \<lparr>rr_workspaceId = js ''ws'', rr_path = js ''a.txt'', rr_offset = Some (JInt 5), rr_maxBytes = None\<rparr>"

definition sample_list_request :: FilesystemListRequest where
  "sample_list_request = \<lparr>lr_workspaceId = js ''ws'', lr_path = None, lr_limit = None, lr_cursor = None\<rparr>"

lemma sample_calm: "calm sample_world"
  by (simp add: calm_def sample_world_def)

lemma sample_dir: "is_dir_path (w_fs sample_world) [js ''w'']"
  using sample_writable by (simp add: writable_def sample_world_def)

lemma sample_tree: "tree_ok (w_fs sample_world)"
  by (simp add: tree_ok_def fs_ok_def sample_world_def sample_fs_def sample_plain)

lemma sample_lookup: "lookup (w_fs sample_world) [js ''w'', js ''a.txt'']
    = Some \<lparr>ino_body = Regular sample_bytes, ino_mode = 0x1A4\<rparr>"
  by (simp add: sample_world_def sample_fs_def lookup_def)

lemma sample_defaults:
  "boundedInteger (default_number (Some (JInt 5)) 0) ''offset'' 0 MAX_SAFE_INTEGER = Inr 5"
  "boundedInteger (default_number None DEFAULT_READ_BYTES) ''maxBytes'' 1 MAX_READ_BYTES = Inr 65536"
  "boundedInteger (default_number None DEFAULT_LIST_LIMIT) ''limit'' 1 MAX_LIST_LIMIT = Inr 100"
  by (simp_all add: boundedInteger_def default_number_def MAX_SAFE_INTEGER_def DEFAULT_READ_BYTES_def MAX_READ_BYTES_def
      DEFAULT_LIST_LIMIT_def MAX_LIST_LIMIT_def)

theorem fs_read_functional_witness:
  "\<exists>r. fs_read (default_service sample_resolver) sample_read_request sample_world = (Inr r, sample_world)
     \<and> read_size r = 8 \<and> read_offset r = 5 \<and> read_bytesRead r = 3 \<and> read_eof r"
proof -
  have avail: "available_workspace sample_resolver (rr_workspaceId sample_read_request) [js ''w''] sample_world"
    using sample_available by (simp add: sample_read_request_def)
  have dir: "is_dir_path (w_fs sample_world) ([js ''w''] @ [])" using sample_dir by simp
  have path: "normalizeRelativePath (rr_path sample_read_request) False = Inr (join_with slash ([] @ [js ''a.txt'']))"
    using sample_norm by (simp add: sample_read_request_def)
  have there: "lookup (w_fs sample_world) ([js ''w''] @ [] @ [js ''a.txt''])
      = Some \<lparr>ino_body = Regular sample_bytes, ino_mode = 0x1A4\<rparr>"
    using sample_lookup by simp
  have body: "ino_body \<lparr>ino_body = Regular sample_bytes, ino_mode = 0x1A4\<rparr> = Regular sample_bytes" by simp
  have small: "length sample_bytes \<le> MAX_SAFE_INTEGER" by (simp add: sample_source MAX_SAFE_INTEGER_def)
  have numbers: "boundedInteger (default_number (rr_offset sample_read_request) 0) ''offset'' 0 MAX_SAFE_INTEGER = Inr 5"
    "boundedInteger (default_number (rr_maxBytes sample_read_request) DEFAULT_READ_BYTES) ''maxBytes'' 1 MAX_READ_BYTES
      = Inr 65536"
    by (simp_all only: sample_read_request_def FilesystemReadRequest.select_convs sample_defaults)
  from fs_read_functional [OF sample_calm avail dir sample_plain(2) path there body small numbers]
  show ?thesis by (simp add: sample_source)
qed

theorem list_pages_complete_witness:
  "\<exists>pages ns. list_pages (default_service sample_resolver) sample_list_request 2 sample_world = (Inr pages, sample_world)
    \<and> concat pages = map (describe (w_fs sample_world) [js ''w''] dot) ns \<and> set ns = {js ''a.txt''}"
proof -
  have avail: "available_workspace sample_resolver (lr_workspaceId sample_list_request) [js ''w''] sample_world"
    using sample_available by (simp add: sample_list_request_def)
  have dir: "is_dir_path (w_fs sample_world) ([js ''w''] @ [])" using sample_dir by simp
  have path: "dot = (if ([] :: jstr list) = [] then dot else join_with slash [])" by simp
  have "normalizeRelativePath dot True = Inr dot" by code_simp
  then have norm: "normalizeRelativePath (case lr_path sample_list_request of None \<Rightarrow> dot | Some p \<Rightarrow> p) True = Inr dot"
    by (simp add: sample_list_request_def)
  have limit: "boundedInteger (default_number (lr_limit sample_list_request) DEFAULT_LIST_LIMIT) ''limit'' 1 MAX_LIST_LIMIT
      = Inr 100" by (simp only: sample_list_request_def FilesystemListRequest.select_convs sample_defaults)
  have none: "lr_cursor sample_list_request = None" by (simp add: sample_list_request_def)
  have entries: "{c. lookup (w_fs sample_world) [js ''w'', c] \<noteq> None} = {js ''a.txt''}"
    by (auto simp: sample_world_def sample_fs_def lookup_def split: if_splits)
  then have few: "card {c. lookup (w_fs sample_world) ([js ''w''] @ [] @ [c]) \<noteq> None} < 2" by simp
  from list_pages_complete [OF sample_calm sample_tree avail dir path norm limit none few]
  show ?thesis unfolding append_Nil append_Nil2 append_Cons entries by blast
qed

end
