(* ===== verification/Search.thy ===== *)
theory Search
  imports ReadList
begin

text \<open>
  \<open>FilesystemService.search\<close> and \<open>#walkSearch\<close> (\<open>packages/filesystem/src/index.ts\<close>): a bounded walk in
  the order of code points that lists the files matching a glob, or the places in them where a text
  occurs. The glob matcher \<open>minimatch\<close> is a package outside the repository and stays a parameter.
\<close>

section \<open>Model\<close>

record FilesystemSearchRequest =
  sr_workspaceId :: jstr
  sr_path :: "jstr option"
  sr_glob :: "jstr option"
  sr_query :: "jstr option"
  sr_maxResults :: "jsnum option"
  sr_maxBytes :: "jsnum option"
  sr_maxDepth :: "jsnum option"
  sr_maxFileBytes :: "jsnum option"

record FilesystemSearchResult =
  found_path :: jstr
  found_glob :: jstr
  found_query :: "jstr option"
  found_matches :: "FilesystemSearchMatch list"
  found_truncated :: bool
  found_scannedFiles :: nat
  found_skippedBinary :: nat
  found_skippedOversized :: nat

text \<open>The options of \<open>#walkSearch\<close> that stay the same during the walk.\<close>

record walk_options =
  walk_root :: abspath
  walk_glob :: jstr
  walk_query :: "jstr option"
  walk_maxDepth :: nat
  walk_maxFileBytes :: nat
  walk_maxResults :: nat
  walk_maxBytes :: nat

definition append_match :: "walk_options \<Rightarrow> FilesystemSearchMatch \<Rightarrow> SearchState \<Rightarrow> SearchState" where
  "append_match opts m state = appendSearchMatch state m (walk_maxResults opts) (walk_maxBytes opts)"

text \<open>The inner loop over one line; on an empty query it would not end, hence the option.\<close>

partial_function (option) line_loop ::
    "walk_options \<Rightarrow> jstr \<Rightarrow> jstr \<Rightarrow> nat \<Rightarrow> jstr \<Rightarrow> nat \<Rightarrow> SearchState \<Rightarrow> SearchState option" where
  "line_loop opts query path lineIndex line pos state =
     (case indexOf line query pos of
        None \<Rightarrow> Some state
      | Some found \<Rightarrow>
          line_loop opts query path lineIndex line (found + max 1 (length query))
            (append_match opts
               \<lparr>match_path = path, match_line = Some (lineIndex + 1), match_column = Some (found + 1),
                match_preview = Some (boundedPreview line)\<rparr> state))"

fun lines_loop :: "walk_options \<Rightarrow> jstr \<Rightarrow> jstr \<Rightarrow> nat \<Rightarrow> jstr list \<Rightarrow> SearchState \<Rightarrow> SearchState option" where
  "lines_loop opts query path lineIndex [] state = Some state"
| "lines_loop opts query path lineIndex (line # lines) state =
     Option.bind (line_loop opts query path lineIndex line 0 state)
       (lines_loop opts query path (Suc lineIndex) lines)"

definition newline :: code_unit where "newline = cu (CHR 0x0A)"

text \<open>The \<open>try\<close> block on an open file.\<close>

definition search_handle :: "walk_options \<Rightarrow> jstr \<Rightarrow> jstr \<Rightarrow> SearchState \<Rightarrow> nat \<Rightarrow> SearchState os" where
  "search_handle opts query path state handle =
     io_bind (os_fstat handle) (\<lambda>stats.
     if \<not> isFile (st_body stats) then io_return state
     else if walk_maxFileBytes opts < st_size stats \<or> MAX_SAFE_INTEGER < st_size stats
     then io_return (state\<lparr>skippedOversized := skippedOversized state + 1\<rparr>)
     else io_bind (if st_size stats = 0 then io_return [] else os_read handle (st_size stats) 0) (\<lambda>bounded.
       if classifyBuffer bounded = BinaryFile
       then io_return (state\<lparr>skippedBinary := skippedBinary state + 1\<rparr>)
       else io_bind (io_result (decodeUtf8 bounded)) (\<lambda>text.
         case lines_loop opts query path 0 (split_on newline text) state of
           None \<Rightarrow> io_throw (NotAnError (js ''does not return''))
         | Some state' \<Rightarrow> io_return state')))"

definition attempt :: "'a os \<Rightarrow> 'a option os" where
  "attempt m = io_try (io_bind m (\<lambda>a. io_return (Some a))) (\<lambda>_. io_return None)"

definition search_file :: "walk_options \<Rightarrow> abspath \<Rightarrow> jstr \<Rightarrow> SearchState \<Rightarrow> SearchState os" where
  "search_file opts childPath path state =
     (case walk_query opts of
        None \<Rightarrow> io_return (append_match opts
          \<lparr>match_path = path, match_line = None, match_column = None, match_preview = None\<rparr> state)
      | Some query \<Rightarrow>
          io_bind (attempt (os_realpath childPath)) (\<lambda>canonical.
            case canonical of
              None \<Rightarrow> io_return state
            | Some canonicalFile \<Rightarrow>
                if \<not> isSameOrDescendant (walk_root opts) canonicalFile then io_return state
                else io_bind (attempt (os_open_read canonicalFile)) (\<lambda>opened.
                  case opened of
                    None \<Rightarrow> io_return state
                  | Some handle \<Rightarrow>
                      io_finally (search_handle opts query path state handle) (os_close handle))))"

text \<open>One turn of the loop over the entries. \<open>descend\<close> walks a directory one level down; it is absent where
  \<open>depth\<close> has reached \<open>maxDepth\<close>.\<close>

definition search_entry ::
    "(jstr \<Rightarrow> jstr \<Rightarrow> bool) \<Rightarrow> walk_options \<Rightarrow> (abspath \<Rightarrow> jstr \<Rightarrow> SearchState \<Rightarrow> SearchState os) option \<Rightarrow>
     abspath \<Rightarrow> jstr \<Rightarrow> dirent \<Rightarrow> SearchState \<Rightarrow> SearchState os" where
  "search_entry minimatch opts descend directory directoryPath entry state =
     (let relativePath = joinPortable directoryPath (fst entry); childPath = directory @ [fst entry]; kind = snd entry in
      if isSymbolicLink kind then io_return state
      else if isDirectory kind then
        (case descend of
           None \<Rightarrow> io_return state
         | Some walk_down \<Rightarrow>
             io_bind (attempt (os_realpath childPath)) (\<lambda>canonical.
               case canonical of
                 None \<Rightarrow> io_return state
               | Some canonicalDirectory \<Rightarrow>
                   if \<not> isSameOrDescendant (walk_root opts) canonicalDirectory then io_return state
                   else walk_down canonicalDirectory relativePath state))
      else if \<not> isFile kind then io_return state
      else if \<not> minimatch relativePath (walk_glob opts) then io_return state
      else search_file opts childPath relativePath (state\<lparr>scannedFiles := scannedFiles state + 1\<rparr>))"

fun entries_loop ::
    "(dirent \<Rightarrow> SearchState \<Rightarrow> SearchState os) \<Rightarrow> dirent list \<Rightarrow> SearchState \<Rightarrow> SearchState os" where
  "entries_loop visit [] state = io_return state"
| "entries_loop visit (entry # entries) state =
     (let state = state\<lparr>scannedEntries := scannedEntries state + 1\<rparr> in
      if MAX_SEARCH_ENTRIES < scannedEntries state then io_return (state\<lparr>truncated := True\<rparr>)
      else io_bind (visit entry state) (entries_loop visit entries))"

definition compare_dirents :: "dirent \<Rightarrow> dirent \<Rightarrow> int" where
  "compare_dirents left right = compareCodePoints (fst left) (fst right)"

definition search_directory ::
    "(jstr \<Rightarrow> jstr \<Rightarrow> bool) \<Rightarrow> walk_options \<Rightarrow> (abspath \<Rightarrow> jstr \<Rightarrow> SearchState \<Rightarrow> SearchState os) option \<Rightarrow>
     abspath \<Rightarrow> jstr \<Rightarrow> SearchState \<Rightarrow> SearchState os" where
  "search_directory minimatch opts descend directory directoryPath state =
     (if MAX_SEARCH_ENTRIES \<le> scannedEntries state then io_return (state\<lparr>truncated := True\<rparr>)
      else io_bind (os_readdir directory) (\<lambda>entries.
        entries_loop (search_entry minimatch opts descend directory directoryPath)
          (js_sort compare_dirents entries) state))"

text \<open>The recursion, on the number of levels that are left: \<open>maxDepth - depth\<close>.\<close>

primrec walkSearch ::
    "(jstr \<Rightarrow> jstr \<Rightarrow> bool) \<Rightarrow> walk_options \<Rightarrow> nat \<Rightarrow> abspath \<Rightarrow> jstr \<Rightarrow> SearchState \<Rightarrow> SearchState os" where
  "walkSearch minimatch opts 0 = search_directory minimatch opts None"
| "walkSearch minimatch opts (Suc left) = search_directory minimatch opts (Some (walkSearch minimatch opts left))"

definition initial_search :: SearchState where
  "initial_search = \<lparr>matches = [], truncated = False, outputBytes = 0, scannedEntries = 0, scannedFiles = 0,
     skippedBinary = 0, skippedOversized = 0\<rparr>"

definition search_options :: "FilesystemSearchRequest \<Rightarrow> abspath \<Rightarrow> walk_options result" where
  "search_options request root =
     bind_res (validateSearchString (case sr_glob request of None \<Rightarrow> js ''**/*'' | Some g \<Rightarrow> g) ''glob'' 1 1024) (\<lambda>glob.
     bind_res (case sr_query request of None \<Rightarrow> Inr None
               | Some q \<Rightarrow> map_sum id Some (validateSearchString q ''query'' 1 4096)) (\<lambda>query.
     bind_res (boundedInteger (default_number (sr_maxResults request) DEFAULT_SEARCH_RESULTS)
                 ''maxResults'' 1 MAX_SEARCH_RESULTS) (\<lambda>maxResults.
     bind_res (boundedInteger (default_number (sr_maxBytes request) DEFAULT_SEARCH_OUTPUT_BYTES)
                 ''maxBytes'' 1 MAX_SEARCH_OUTPUT_BYTES) (\<lambda>maxBytes.
     bind_res (boundedInteger (default_number (sr_maxDepth request) DEFAULT_SEARCH_DEPTH)
                 ''maxDepth'' 0 MAX_SEARCH_DEPTH) (\<lambda>maxDepth.
     bind_res (boundedInteger (default_number (sr_maxFileBytes request) DEFAULT_SEARCH_FILE_BYTES)
                 ''maxFileBytes'' 1 MAX_SEARCH_FILE_BYTES) (\<lambda>maxFileBytes.
     Inr \<lparr>walk_root = root, walk_glob = glob, walk_query = query, walk_maxDepth = maxDepth,
          walk_maxFileBytes = maxFileBytes, walk_maxResults = maxResults, walk_maxBytes = maxBytes\<rparr>))))))"

definition fs_search ::
    "(jstr \<Rightarrow> jstr \<Rightarrow> bool) \<Rightarrow> service \<Rightarrow> FilesystemSearchRequest \<Rightarrow> FilesystemSearchResult os" where
  "fs_search minimatch svc request =
     io_bind (accessWorkspace svc (sr_workspaceId request)) (\<lambda>root.
     io_bind (io_result (normalizeRelativePath (case sr_path request of None \<Rightarrow> dot | Some p \<Rightarrow> p) True)) (\<lambda>path.
     io_bind (io_result (search_options request root)) (\<lambda>opts.
     io_bind (resolveExistingPath root path) (\<lambda>absolutePath.
     io_bind (walkSearch minimatch opts (walk_maxDepth opts) absolutePath path initial_search) (\<lambda>state.
     io_return \<lparr>found_path = path, found_glob = walk_glob opts, found_query = walk_query opts,
                found_matches = matches state, found_truncated = truncated state,
                found_scannedFiles = scannedFiles state, found_skippedBinary = skippedBinary state,
                found_skippedOversized = skippedOversized state\<rparr>)))))"

end
