(* ===== verification/SearchBounds.thy ===== *)
theory SearchBounds
  imports Search ReadCalm
begin

text \<open>
  What every search keeps, under any interference: its limits on results, output and scanned files, and
  that each match is what was asked for. The locale \<open>search_relation\<close> is the interface between the walk
  and such an invariant: a relation on search states that every update of the walk stays in.
\<close>

section \<open>Relations the walk stays in\<close>

definition fits :: "(jstr \<Rightarrow> jstr \<Rightarrow> bool) \<Rightarrow> walk_options \<Rightarrow> FilesystemSearchMatch \<Rightarrow> bool" where
  "fits minimatch opts m \<longleftrightarrow> minimatch (match_path m) (walk_glob opts)
     \<and> (case walk_query opts of
          None \<Rightarrow> match_line m = None \<and> match_column m = None \<and> match_preview m = None
        | Some query \<Rightarrow> (\<exists>line l c. match_line m = Some l \<and> 0 < l \<and> match_column m = Some (Suc c)
            \<and> match_preview m = Some (boundedPreview line) \<and> occurs_at query line c))"

locale search_relation =
  fixes minimatch :: "jstr \<Rightarrow> jstr \<Rightarrow> bool" and opts :: walk_options
    and R :: "SearchState \<Rightarrow> SearchState \<Rightarrow> bool"
  assumes R_refl: "R st st"
    and R_trans: "R st st' \<Longrightarrow> R st' st'' \<Longrightarrow> R st st''"
    and R_truncate: "R st (st\<lparr>truncated := True\<rparr>)"
    and R_entry: "scannedEntries st < MAX_SEARCH_ENTRIES \<Longrightarrow> R st (st\<lparr>scannedEntries := scannedEntries st + 1\<rparr>)"
    and R_entry_last: "R st (st\<lparr>scannedEntries := scannedEntries st + 1, truncated := True\<rparr>)"
    and R_file: "R st (st\<lparr>scannedFiles := scannedFiles st + 1\<rparr>)"
    and R_binary: "R st (st\<lparr>skippedBinary := skippedBinary st + 1\<rparr>)"
    and R_oversized: "R st (st\<lparr>skippedOversized := skippedOversized st + 1\<rparr>)"
    and R_match: "fits minimatch opts m \<Longrightarrow> R st (append_match opts m st)"
begin

lemma line_loop_R:
  assumes "walk_query opts = Some query" "query \<noteq> []" "minimatch path (walk_glob opts)"
  shows "\<exists>st'. line_loop opts query path i line pos st = Some st' \<and> R st st'"
proof (induction "length line - pos" arbitrary: pos st rule: less_induct)
  case less
  show ?case
  proof (cases "indexOf line query pos")
    case None
    then show ?thesis by (subst line_loop.simps) (simp add: R_refl)
  next
    case (Some found)
    then have f: "pos \<le> found" "occurs_at query line found" using indexOf_Some [OF assms(2)] by blast+
    let ?m = "\<lparr>match_path = path, match_line = Some (i + 1), match_column = Some (found + 1),
        match_preview = Some (boundedPreview line)\<rparr>"
    have "fits minimatch opts ?m" using assms f(2) by (auto simp: fits_def)
    then have m: "R st (append_match opts ?m st)" by (rule R_match)
    have "found < length line" using occurs_at_bound [OF assms(2) f(2)] assms(2) by (cases query) auto
    then have "length line - (found + max 1 (length query)) < length line - pos" using f(1) by linarith
    from less [OF this, of "append_match opts ?m st"] obtain st' where
      "line_loop opts query path i line (found + max 1 (length query)) (append_match opts ?m st) = Some st'"
      "R (append_match opts ?m st) st'" by blast
    with Some m show ?thesis by (subst line_loop.simps) (auto intro: R_trans)
  qed
qed

lemma lines_loop_R:
  assumes "walk_query opts = Some query" "query \<noteq> []" "minimatch path (walk_glob opts)"
  shows "\<exists>st'. lines_loop opts query path i lines st = Some st' \<and> R st st'"
proof (induction lines arbitrary: i st)
  case (Cons line lines)
  from line_loop_R [OF assms] obtain st1 where "line_loop opts query path i line 0 st = Some st1" "R st st1" by blast
  moreover from Cons obtain st2 where "lines_loop opts query path (Suc i) lines st1 = Some st2" "R st1 st2" by blast
  ultimately show ?case by (auto intro: R_trans)
qed (simp add: R_refl)

text \<open>Every run that returns a state returns one related to the state it started from.\<close>

definition related :: "SearchState \<Rightarrow> SearchState os \<Rightarrow> bool" where
  "related st m \<longleftrightarrow> (\<forall>w st' w'. m w = (Inr st', w') \<longrightarrow> R st st')"

lemma related_return: "R st st' \<Longrightarrow> related st (io_return st')"
  by (simp add: related_def io_return_def)

lemma related_throw: "related st (io_throw e)"
  by (simp add: related_def io_throw_def)

lemma related_bind: "(\<And>a. related st (f a)) \<Longrightarrow> related st (io_bind m f)"
  by (auto simp: related_def dest!: io_bind_returned)

lemma related_then:
  assumes "related st m" "\<And>st'. R st st' \<Longrightarrow> related st (f st')"
  shows "related st (io_bind m f)"
proof -
  have "R st st'" if run: "io_bind m f w = (Inr st', w')" for w st' w'
  proof -
    from io_bind_returned [OF run] obtain st1 w1 where "m w = (Inr st1, w1)" "f st1 w1 = (Inr st', w')" by blast
    moreover from this assms(1) have "R st st1" by (auto simp: related_def)
    ultimately show ?thesis using assms(2) by (auto simp: related_def)
  qed
  then show ?thesis by (simp add: related_def)
qed

lemma related_finally: "related st m \<Longrightarrow> related st (io_finally m f)"
  by (auto simp: related_def dest!: io_finally_returned)

lemma related_from: "R st st' \<Longrightarrow> related st' m \<Longrightarrow> related st m"
  by (auto simp: related_def intro: R_trans)

lemma related_option: "related st m \<Longrightarrow> (\<And>a. related st (f a)) \<Longrightarrow> related st (case x of None \<Rightarrow> m | Some a \<Rightarrow> f a)"
  by (simp split: option.split)

lemma related_if: "(c \<Longrightarrow> related st m) \<Longrightarrow> (\<not> c \<Longrightarrow> related st n) \<Longrightarrow> related st (if c then m else n)"
  by simp

lemma search_handle_R:
  assumes "walk_query opts = Some query" "query \<noteq> []" "minimatch path (walk_glob opts)"
  shows "related st (search_handle opts query path st h)"
proof -
  have "related st (case lines_loop opts query path 0 lines st of
      None \<Rightarrow> io_throw (NotAnError (js ''does not return'')) | Some st' \<Rightarrow> io_return st')" for lines
    using lines_loop_R [OF assms, of 0 lines st] by (auto intro: related_return)
  then show ?thesis
    unfolding search_handle_def by (intro related_bind related_if related_return R_refl R_oversized R_binary)
qed

lemma search_file_R:
  assumes "walk_query opts \<noteq> Some []" "minimatch path (walk_glob opts)"
  shows "related st (search_file opts p path st)"
proof (cases "walk_query opts")
  case None
  then show ?thesis using assms(2) by (auto simp: search_file_def fits_def intro!: related_return R_match)
next
  case (Some query)
  with assms(1) have ne: "query \<noteq> []" by simp
  show ?thesis
    unfolding search_file_def Some option.simps
    by (intro related_bind related_option related_if related_return related_finally search_handle_R R_refl
        Some ne assms(2))
qed

lemma search_entry_R:
  assumes "walk_query opts \<noteq> Some []" "\<forall>f. descend = Some f \<longrightarrow> (\<forall>d p st. related st (f d p st))"
  shows "related st (search_entry minimatch opts descend d dp e st)"
proof -
  have down: "related st (case descend of None \<Rightarrow> io_return st | Some f \<Rightarrow>
      io_bind (attempt (os_realpath (d @ [fst e]))) (\<lambda>c. case c of None \<Rightarrow> io_return st
        | Some cd \<Rightarrow> if \<not> isSameOrDescendant (walk_root opts) cd then io_return st
                     else f cd (joinPortable dp (fst e)) st))"
  proof (cases descend)
    case (Some f)
    with assms(2) have "related st (f p q st)" for p q by blast
    then show ?thesis
      unfolding Some option.simps by (intro related_bind related_option related_if related_return R_refl)
  qed (simp add: related_return R_refl)
  have visit: "related st (search_file opts (d @ [fst e]) (joinPortable dp (fst e))
      (st\<lparr>scannedFiles := scannedFiles st + 1\<rparr>))" if "minimatch (joinPortable dp (fst e)) (walk_glob opts)"
    using related_from [OF R_file search_file_R [OF assms(1) that]] .
  show ?thesis
    unfolding search_entry_def Let_def
    by (intro related_if down related_return R_refl) (auto intro: visit [simplified])
qed

lemma entries_loop_R:
  assumes "\<And>e st. related st (visit e st)"
  shows "related st (entries_loop visit es st)"
proof (induction es arbitrary: st)
  case (Cons e es)
  let ?st = "st\<lparr>scannedEntries := scannedEntries st + 1\<rparr>"
  show ?case
  proof (cases "MAX_SEARCH_ENTRIES < scannedEntries ?st")
    case True
    then show ?thesis using R_entry_last [of st] by (auto simp: intro!: related_return)
  next
    case False
    then have "R st ?st" by (intro R_entry) simp
    moreover have "related ?st (io_bind (visit e ?st) (entries_loop visit es))"
      by (intro related_then assms related_from [OF _ Cons.IH])
    ultimately show ?thesis using False by (auto simp: Let_def intro: related_from)
  qed
qed (simp add: related_return R_refl)

lemma search_directory_R:
  assumes "walk_query opts \<noteq> Some []" "\<forall>f. descend = Some f \<longrightarrow> (\<forall>d p st. related st (f d p st))"
  shows "related st (search_directory minimatch opts descend d dp st)"
  unfolding search_directory_def
  by (intro related_if related_bind related_return R_truncate entries_loop_R search_entry_R [OF assms])

lemma walkSearch_R:
  assumes "walk_query opts \<noteq> Some []"
  shows "related st (walkSearch minimatch opts left d dp st)"
proof (induction left arbitrary: d dp st)
  case 0
  show ?case using search_directory_R [OF assms, of None] by simp
next
  case (Suc left)
  then show ?case using search_directory_R [OF assms, of "Some (walkSearch minimatch opts left)"] by simp
qed

end

section \<open>Limits\<close>

definition search_ok :: "(jstr \<Rightarrow> jstr \<Rightarrow> bool) \<Rightarrow> walk_options \<Rightarrow> SearchState \<Rightarrow> bool" where
  "search_ok minimatch opts st \<longleftrightarrow>
     length (matches st) \<le> walk_maxResults opts \<and> outputBytes st = sum_list (map estimatedBytes (matches st))
     \<and> outputBytes st \<le> walk_maxBytes opts \<and> list_all (fits minimatch opts) (matches st)
     \<and> (scannedEntries st \<le> MAX_SEARCH_ENTRIES \<or> truncated st)"

interpretation limits: search_relation minimatch opts
    "\<lambda>st st'. search_ok minimatch opts st \<longrightarrow> search_ok minimatch opts st'" for minimatch opts
  by unfold_locales (auto simp: search_ok_def append_match_def appendSearchMatch_def)

text \<open>Matches are only added, and a truncated search stays truncated.\<close>

definition search_grows :: "SearchState \<Rightarrow> SearchState \<Rightarrow> bool" where
  "search_grows st st' \<longleftrightarrow> prefix (matches st) (matches st') \<and> (truncated st \<longrightarrow> truncated st')
     \<and> scannedEntries st \<le> scannedEntries st' \<and> scannedFiles st \<le> scannedFiles st'"

interpretation growth: search_relation minimatch opts search_grows for minimatch opts
  by unfold_locales (auto simp: search_grows_def append_match_def appendSearchMatch_def intro: prefix_order.trans)

lemma search_options_Inr:
  assumes "search_options request root = Inr opts"
  shows "1 \<le> walk_maxResults opts" "walk_maxResults opts \<le> MAX_SEARCH_RESULTS"
    and "walk_maxBytes opts \<le> MAX_SEARCH_OUTPUT_BYTES" "walk_query opts \<noteq> Some []" "walk_root opts = root"
    and "default_number (sr_maxResults request) DEFAULT_SEARCH_RESULTS = JInt (int (walk_maxResults opts))"
    and "default_number (sr_maxBytes request) DEFAULT_SEARCH_OUTPUT_BYTES = JInt (int (walk_maxBytes opts))"
    and "walk_query opts = sr_query request" "walk_glob opts = (case sr_glob request of None \<Rightarrow> js ''**/*'' | Some g \<Rightarrow> g)"
  using assms
  by (auto simp: search_options_def result_simps validateSearchString_def split: option.splits sum.splits if_splits
      dest!: boundedInteger_Inr)

lemma search_file_limit: "search_options request root = Inr opts \<Longrightarrow> walk_maxFileBytes opts \<le> MAX_SEARCH_FILE_BYTES"
  by (auto simp: search_options_def result_simps dest!: boundedInteger_Inr)

text \<open>C22. A search stays in its limits and returns only what was asked for, whatever happens to the files
  meanwhile: it returns at most as many matches as asked for, at most 1000; their estimated size, the
  UTF-8 length of path and preview plus 64 each, is at most the number of bytes asked for, at most 1 MiB;
  each match's path matches the glob; without a query a match has no position, and with one it has a
  line number, a column at which the query occurs in some line, and the preview of that line.\<close>

theorem fs_search_bounded:
  "case fst (fs_search minimatch svc request w) of
     Inl _ \<Rightarrow> True
   | Inr r \<Rightarrow> \<exists>maxResults maxBytes.
       default_number (sr_maxResults request) DEFAULT_SEARCH_RESULTS = JInt (int maxResults)
       \<and> default_number (sr_maxBytes request) DEFAULT_SEARCH_OUTPUT_BYTES = JInt (int maxBytes)
       \<and> maxResults \<le> MAX_SEARCH_RESULTS \<and> maxBytes \<le> MAX_SEARCH_OUTPUT_BYTES
       \<and> length (found_matches r) \<le> maxResults
       \<and> sum_list (map estimatedBytes (found_matches r)) \<le> maxBytes
       \<and> list_all (\<lambda>m. minimatch (match_path m) (case sr_glob request of None \<Rightarrow> js ''**/*'' | Some g \<Rightarrow> g)
           \<and> (case sr_query request of
                None \<Rightarrow> match_line m = None \<and> match_column m = None \<and> match_preview m = None
              | Some query \<Rightarrow> (\<exists>line l c. match_line m = Some l \<and> 0 < l \<and> match_column m = Some (Suc c)
                  \<and> match_preview m = Some (boundedPreview line) \<and> occurs_at query line c))) (found_matches r)"
proof (cases "fs_search minimatch svc request w")
  case (Pair x w')
  show ?thesis
  proof (cases x)
    case (Inr r)
    with Pair have "fs_search minimatch svc request w = (Inr r, w')" by simp
    from this [unfolded fs_search_def] obtain root opts d path st w1 w2 where
      o: "search_options request root = Inr opts"
      and run: "walkSearch minimatch opts (walk_maxDepth opts) d path initial_search w1 = (Inr st, w2)"
      and r: "found_matches r = matches st"
      by (auto simp: io_return_def dest!: io_bind_returned iffD1 [OF io_result_returned])
    note opts = search_options_Inr [OF o]
    have "search_ok minimatch opts initial_search" by (simp add: search_ok_def initial_search_def)
    with limits.walkSearch_R [OF opts(4), of minimatch initial_search] run have "search_ok minimatch opts st"
      unfolding limits.related_def by blast
    with opts Pair Inr r show ?thesis by (simp add: search_ok_def fits_def [abs_def])
  qed (use Pair in simp)
qed

end
