(* ===== verification/SearchComplete.thy ===== *)
theory SearchComplete
  imports SearchBounds
begin

text \<open>
  When nothing interferes, a search that is not cut short finds everything: the files below the directory
  that match, and without a position or with every line in which the query occurs.
\<close>

section \<open>What there is to find\<close>

type_synonym search_key = "jstr \<times> nat option"

definition search_keys :: "SearchState \<Rightarrow> search_key set" where
  "search_keys st = (\<lambda>m. (match_path m, match_line m)) ` set (matches st)"

text \<open>The keys a file contributes.\<close>

definition file_keys :: "walk_options \<Rightarrow> jstr \<Rightarrow> bytes \<Rightarrow> search_key set" where
  "file_keys opts path bs =
     (case walk_query opts of
        None \<Rightarrow> {(path, None)}
      | Some query \<Rightarrow>
          if walk_maxFileBytes opts < length bs \<or> classifyBuffer bs = BinaryFile then {}
          else (case utf8_decode bs of
              None \<Rightarrow> {}
            | Some text \<Rightarrow> {(path, Some (Suc l)) | l. l < length (split_on newline text)
                              \<and> (\<exists>c. occurs_at query (split_on newline text ! l) c)}))"

fun below :: "fsys \<Rightarrow> abspath \<Rightarrow> jstr list \<Rightarrow> bytes \<Rightarrow> bool" where
  "below fs d [] bs \<longleftrightarrow> False"
| "below fs d [c] bs \<longleftrightarrow> body_at fs (d @ [c]) = Some (Regular bs)"
| "below fs d (c # p) bs \<longleftrightarrow> body_at fs (d @ [c]) = Some Directory \<and> below fs (d @ [c]) p bs"

definition hits ::
    "(jstr \<Rightarrow> jstr \<Rightarrow> bool) \<Rightarrow> walk_options \<Rightarrow> fsys \<Rightarrow> nat \<Rightarrow> abspath \<Rightarrow> jstr \<Rightarrow> search_key set" where
  "hits minimatch opts fs left d dp =
     \<Union> {file_keys opts (foldl joinPortable dp p) bs | p bs.
          below fs d p bs \<and> length p \<le> Suc left \<and> minimatch (foldl joinPortable dp p) (walk_glob opts)}"

section \<open>Finding it\<close>

text \<open>A step adds only keys of \<open>K\<close>, and all of them unless the search is cut short.\<close>

definition adds :: "search_key set \<Rightarrow> SearchState \<Rightarrow> SearchState \<Rightarrow> bool" where
  "adds K st st' \<longleftrightarrow> search_keys st \<subseteq> search_keys st' \<and> search_keys st' \<subseteq> search_keys st \<union> K
     \<and> (truncated st \<longrightarrow> truncated st') \<and> (truncated st' \<or> K \<subseteq> search_keys st')"

lemma adds_refl: "adds {} st st"
  by (simp add: adds_def)

lemma adds_trans: "adds K st st' \<Longrightarrow> adds L st' st'' \<Longrightarrow> adds (K \<union> L) st st''"
  unfolding adds_def by blast

lemma adds_fields:
  "adds K (st\<lparr>scannedEntries := n\<rparr>) st' = adds K st st'" "adds K (st\<lparr>scannedFiles := n\<rparr>) st' = adds K st st'"
  "adds {} st (st\<lparr>skippedBinary := n\<rparr>)" "adds {} st (st\<lparr>skippedOversized := n\<rparr>)"
  by (simp_all add: adds_def search_keys_def)

lemma adds_match: "adds {(match_path m, match_line m)} st (append_match opts m st)"
  by (auto simp: adds_def search_keys_def append_match_def appendSearchMatch_def)

lemma adds_truncated: "adds K st (st\<lparr>scannedEntries := n, truncated := True\<rparr>)" "adds K st (st\<lparr>truncated := True\<rparr>)"
  by (auto simp: adds_def search_keys_def)

lemma line_loop_adds:
  assumes "query \<noteq> []"
  shows "\<exists>st'. line_loop opts query path i line pos st = Some st'
     \<and> adds (if \<exists>c \<ge> pos. occurs_at query line c then {(path, Some (Suc i))} else {}) st st'"
proof (induction "length line - pos" arbitrary: pos st rule: less_induct)
  case less
  show ?case
  proof (cases "indexOf line query pos")
    case None
    then have "\<not> (\<exists>c \<ge> pos. occurs_at query line c)" using indexOf_None [OF assms] by blast
    with None show ?thesis by (subst line_loop.simps) (auto simp: adds_refl)
  next
    case (Some found)
    then have f: "pos \<le> found" "occurs_at query line found" using indexOf_Some [OF assms] by blast+
    let ?m = "\<lparr>match_path = path, match_line = Some (i + 1), match_column = Some (found + 1),
        match_preview = Some (boundedPreview line)\<rparr>" and ?pos = "found + max 1 (length query)"
    have "found < length line" using occurs_at_bound [OF assms f(2)] assms by (cases query) auto
    then have "length line - ?pos < length line - pos" using f(1) by linarith
    from less [OF this, of "append_match opts ?m st"] obtain st' where st':
      "line_loop opts query path i line ?pos (append_match opts ?m st) = Some st'"
      "adds (if \<exists>c \<ge> ?pos. occurs_at query line c then {(path, Some (Suc i))} else {}) (append_match opts ?m st) st'"
      by blast
    have "adds ({(path, Some (Suc i))} \<union> (if \<exists>c \<ge> ?pos. occurs_at query line c then {(path, Some (Suc i))} else {})) st st'"
      using adds_trans [OF adds_match [of ?m st opts] st'(2)] by simp
    moreover have "{(path, Some (Suc i))} \<union> (if \<exists>c \<ge> ?pos. occurs_at query line c then {(path, Some (Suc i))} else {})
        = (if \<exists>c \<ge> pos. occurs_at query line c then {(path, Some (Suc i))} else {})"
      using f by auto
    ultimately show ?thesis using Some st'(1) by (subst line_loop.simps) simp
  qed
qed

lemma up_to_Suc:
  "{f l | l. l < Suc n \<and> P l} = (if P 0 then {f 0} else {}) \<union> {f (Suc l) | l. l < n \<and> P (Suc l)}"
  by (auto simp: less_Suc_eq_0_disj)

lemma lines_loop_adds:
  assumes "query \<noteq> []"
  shows "\<exists>st'. lines_loop opts query path i lines st = Some st'
     \<and> adds {(path, Some (Suc (i + l))) | l. l < length lines \<and> (\<exists>c. occurs_at query (lines ! l) c)} st st'"
proof (induction lines arbitrary: i st)
  case (Cons line lines)
  let ?K = "if \<exists>c. occurs_at query line c then {(path, Some (Suc i))} else {}"
    and ?L = "{(path, Some (Suc (Suc i + l))) | l. l < length lines \<and> (\<exists>c. occurs_at query (lines ! l) c)}"
  from line_loop_adds [OF assms, of opts path i line 0 st] obtain st1 where st1:
    "line_loop opts query path i line 0 st = Some st1" "adds ?K st st1" by auto
  from Cons [of "Suc i" st1] obtain st2 where st2:
    "lines_loop opts query path (Suc i) lines st1 = Some st2" "adds ?L st1 st2" by blast
  have "?K \<union> ?L = {(path, Some (Suc (i + l))) | l. l < length (line # lines) \<and> (\<exists>c. occurs_at query ((line # lines) ! l) c)}"
    using up_to_Suc [of "\<lambda>l. (path, Some (Suc (i + l)))" "length lines" "\<lambda>l. \<exists>c. occurs_at query ((line # lines) ! l) c"]
    by simp
  with adds_trans [OF st1(2) st2(2)] st1(1) st2(1) show ?case by simp
qed (simp add: adds_refl)

text \<open>A computation that returns, leaves the world alone and adds the keys \<open>K\<close>.\<close>

definition finds :: "search_key set \<Rightarrow> SearchState \<Rightarrow> world \<Rightarrow> SearchState os \<Rightarrow> bool" where
  "finds K st w m \<longleftrightarrow> (\<exists>st'. m w = (Inr st', w) \<and> adds K st st')"

lemma finds_return: "adds K st st' \<Longrightarrow> finds K st w (io_return st')"
  by (simp add: finds_def io_return_def)

lemma finds_bind: "m w = (Inr a, w) \<Longrightarrow> finds K st w (f a) \<Longrightarrow> finds K st w (io_bind m f)"
  by (simp add: finds_def io_bind_def)

lemma finds_then:
  "finds K st w m \<Longrightarrow> (\<And>st'. finds L st' w (f st')) \<Longrightarrow> finds (K \<union> L) st w (io_bind m f)"
  unfolding finds_def io_bind_def using adds_trans by fastforce

lemma attempt_ok: "m w = (Inr a, w) \<Longrightarrow> attempt m w = (Inr (Some a), w)"
  by (simp add: attempt_def io_defs)

lemma search_handle_finds:
  assumes "calm w" "map_of (inodes (w_fs w)) h = Some n" "ino_body n = Regular bs"
    and "walk_query opts = Some query" "query \<noteq> []" "walk_maxFileBytes opts \<le> MAX_SAFE_INTEGER"
  shows "finds (file_keys opts path bs) st w (search_handle opts query path st h)"
proof -
  have st: "os_fstat h w = (Inr \<lparr>st_body = Regular bs, st_mode = ino_mode n\<rparr>, w)"
    using assms(1-3) by (simp add: os_fstat_def observe_calm handle_inode_def)
  have rd: "(if length bs = 0 then io_return [] else os_read h (length bs) 0) w = (Inr bs, w)"
    using read_calm [OF assms(1-3)] by (simp add: io_return_def)
  show ?thesis
  proof (cases "walk_maxFileBytes opts < length bs")
    case True
    then show ?thesis
      unfolding search_handle_def using st assms(4)
      by (intro finds_bind [where m = "os_fstat h", OF st]) (simp add: isFile_def file_keys_def finds_return adds_fields)
  next
    case False
    with assms(6) have small: "\<not> (walk_maxFileBytes opts < length bs \<or> MAX_SAFE_INTEGER < length bs)" by simp
    have "finds (file_keys opts path bs) st w
       (if classifyBuffer bs = BinaryFile then io_return (st\<lparr>skippedBinary := skippedBinary st + 1\<rparr>)
        else io_bind (io_result (decodeUtf8 bs)) (\<lambda>text.
          case lines_loop opts query path 0 (split_on newline text) st of
            None \<Rightarrow> io_throw (NotAnError (js ''does not return'')) | Some state' \<Rightarrow> io_return state'))"
    proof (cases "classifyBuffer bs = BinaryFile")
      case True
      then show ?thesis using assms(4) by (simp add: file_keys_def finds_return adds_fields)
    next
      case readable: False
      then obtain t where t: "utf8_decode bs = Some t"
        by (auto simp: classifyBuffer_def split: if_splits option.splits)
      from lines_loop_adds [OF assms(5), of opts path 0 "split_on newline t" st] obtain st' where
        "lines_loop opts query path 0 (split_on newline t) st = Some st'" "adds (file_keys opts path bs) st st'"
        using readable t False assms(4) by (auto simp: file_keys_def)
      with t readable show ?thesis
        by (simp add: finds_def io_bind_def io_result_def io_return_def decodeUtf8_def)
    qed
    then have "finds (file_keys opts path bs) st w (io_bind (if length bs = 0 then io_return [] else os_read h (length bs) 0)
       (\<lambda>bounded. if classifyBuffer bounded = BinaryFile then io_return (st\<lparr>skippedBinary := skippedBinary st + 1\<rparr>)
        else io_bind (io_result (decodeUtf8 bounded)) (\<lambda>text.
          case lines_loop opts query path 0 (split_on newline text) st of
            None \<Rightarrow> io_throw (NotAnError (js ''does not return'')) | Some state' \<Rightarrow> io_return state')))"
      by (rule finds_bind [where m = "if length bs = 0 then io_return [] else os_read h (length bs) 0", OF rd])
    then show ?thesis
      unfolding search_handle_def using small
      by (intro finds_bind [where m = "os_fstat h", OF st]) (simp add: isFile_def cong: if_cong)
  qed
qed

lemma search_file_finds:
  assumes "calm w" "is_dir_path (w_fs w) d" "plain c" "lookup (w_fs w) (d @ [c]) = Some n" "ino_body n = Regular bs"
    and "prefix (walk_root opts) d" "walk_query opts \<noteq> Some []" "walk_maxFileBytes opts \<le> MAX_SAFE_INTEGER"
  shows "finds (file_keys opts path bs) st w (search_file opts (d @ [c]) path st)"
proof (cases "walk_query opts")
  case None
  then show ?thesis
    using adds_match [of "\<lparr>match_path = path, match_line = None, match_column = None, match_preview = None\<rparr>" st opts]
    by (simp add: search_file_def file_keys_def finds_return)
next
  case (Some query)
  have f: "isFile (ino_body n)" using assms(5) by (simp add: isFile_def)
  obtain h where h: "os_open_read (d @ [c]) w = (Inr h, w)" "map_of (inodes (w_fs w)) h = Some n"
    using open_file [OF assms(1-4) f] by blast
  obtain st' where st': "search_handle opts query path st h w = (Inr st', w)" "adds (file_keys opts path bs) st st'"
    using search_handle_finds [OF assms(1) h(2) assms(5) Some _ assms(8), of path st] assms(7) Some
    by (auto simp: finds_def)
  have pl: "list_all plain (walk_root opts)" "list_all plain (d @ [c])"
    using assms(2,3,6) by (auto simp: is_dir_path_def prefix_def)
  have "isSameOrDescendant (walk_root opts) (d @ [c])"
    using isSameOrDescendant_iff [OF pl] assms(6) by simp
  then show ?thesis
    using st' attempt_ok [of "os_realpath (d @ [c])", OF realpath_file [OF assms(1-4) f]]
      attempt_ok [of "os_open_read (d @ [c])", OF h(1)] close_calm [OF assms(1), of h]
    by (simp add: search_file_def Some finds_def io_bind_def io_finally_def)
qed

definition entry_hits ::
    "(jstr \<Rightarrow> jstr \<Rightarrow> bool) \<Rightarrow> walk_options \<Rightarrow> fsys \<Rightarrow> nat \<Rightarrow> abspath \<Rightarrow> jstr \<Rightarrow> dirent \<Rightarrow> search_key set" where
  "entry_hits minimatch opts fs left d dp e =
     (case snd e of
        Directory \<Rightarrow> (case left of 0 \<Rightarrow> {} | Suc n \<Rightarrow> hits minimatch opts fs n (d @ [fst e]) (joinPortable dp (fst e)))
      | Regular bs \<Rightarrow> if minimatch (joinPortable dp (fst e)) (walk_glob opts)
                      then file_keys opts (joinPortable dp (fst e)) bs else {}
      | _ \<Rightarrow> {})"

lemma children_body:
  "tree_ok fs \<Longrightarrow> (c, k) \<in> set (children fs d) \<longleftrightarrow> body_at fs (d @ [c]) = Some k"
  by (auto simp: children_lookup(1) body_at_def)

lemma below_Cons:
  "below fs d (c # p) bs \<longleftrightarrow>
     (if p = [] then body_at fs (d @ [c]) = Some (Regular bs)
      else body_at fs (d @ [c]) = Some Directory \<and> below fs (d @ [c]) p bs)"
  by (cases p) simp_all

lemma hitsI:
  "below fs d p bs \<Longrightarrow> length p \<le> Suc left \<Longrightarrow> minimatch (foldl joinPortable dp p) (walk_glob opts) \<Longrightarrow>
   k \<in> file_keys opts (foldl joinPortable dp p) bs \<Longrightarrow> k \<in> hits minimatch opts fs left d dp"
  unfolding hits_def by blast

lemma hits_entries:
  assumes "tree_ok fs"
  shows "hits minimatch opts fs left d dp = \<Union> (entry_hits minimatch opts fs left d dp ` set (children fs d))"
proof (intro set_eqI iffI)
  fix k assume "k \<in> hits minimatch opts fs left d dp"
  then obtain p bs where p: "below fs d p bs" "length p \<le> Suc left" "minimatch (foldl joinPortable dp p) (walk_glob opts)"
    "k \<in> file_keys opts (foldl joinPortable dp p) bs" by (auto simp: hits_def)
  then obtain c p' where c: "p = c # p'" by (cases p) auto
  show "k \<in> \<Union> (entry_hits minimatch opts fs left d dp ` set (children fs d))"
  proof (cases "p' = []")
    case True
    with p c have "(c, Regular bs) \<in> set (children fs d)" by (simp add: children_body [OF assms])
    moreover have "k \<in> entry_hits minimatch opts fs left d dp (c, Regular bs)"
      using p c True by (simp add: entry_hits_def)
    ultimately show ?thesis by blast
  next
    case False
    with p c have d: "(c, Directory) \<in> set (children fs d)" "below fs (d @ [c]) p' bs"
      by (simp_all add: children_body [OF assms] below_Cons)
    from False p(2) c obtain n where n: "left = Suc n" "length p' \<le> Suc n" by (cases left) auto
    have "k \<in> hits minimatch opts fs n (d @ [c]) (joinPortable dp c)"
      using d(2) n(2) p(3,4) c unfolding hits_def by auto
    with d(1) n(1) show ?thesis by (force simp: entry_hits_def)
  qed
next
  fix k assume "k \<in> \<Union> (entry_hits minimatch opts fs left d dp ` set (children fs d))"
  then obtain c body where e: "(c, body) \<in> set (children fs d)" "k \<in> entry_hits minimatch opts fs left d dp (c, body)"
    by force
  then have b: "body_at fs (d @ [c]) = Some body" by (simp add: children_body [OF assms])
  show "k \<in> hits minimatch opts fs left d dp"
  proof (cases body)
    case (Regular bs)
    with e(2) b show ?thesis
      by (intro hitsI [of fs d "[c]" bs]) (auto simp: entry_hits_def split: if_splits)
  next
    case Directory
    with e(2) obtain n where n: "left = Suc n" "k \<in> hits minimatch opts fs n (d @ [c]) (joinPortable dp c)"
      by (auto simp: entry_hits_def split: nat.splits)
    then obtain p bs where p: "below fs (d @ [c]) p bs" "length p \<le> Suc n"
      "minimatch (foldl joinPortable (joinPortable dp c) p) (walk_glob opts)"
      "k \<in> file_keys opts (foldl joinPortable (joinPortable dp c) p) bs" by (auto simp: hits_def)
    then have "below fs d (c # p) bs" using b Directory by (cases p) (simp_all add: below_Cons)
    moreover have "foldl joinPortable dp (c # p) = foldl joinPortable (joinPortable dp c) p" by simp
    moreover have "length (c # p) \<le> Suc left" using p(2) n(1) by simp
    ultimately show ?thesis using p(3,4) by (intro hitsI [of fs d "c # p" bs]) simp_all
  qed (use e(2) in \<open>simp_all add: entry_hits_def\<close>)
qed

lemma entries_loop_finds:
  assumes "\<forall>e \<in> set es. \<forall>st. finds (H e) st w (visit e st)"
  shows "finds (\<Union> (H ` set es)) st w (entries_loop visit es st)"
  using assms
proof (induction es arbitrary: st)
  case (Cons e es)
  let ?st = "st\<lparr>scannedEntries := scannedEntries st + 1\<rparr>"
  show ?case
  proof (cases "MAX_SEARCH_ENTRIES < scannedEntries ?st")
    case True
    then show ?thesis by (simp add: finds_return adds_truncated)
  next
    case False
    have "finds (H e \<union> \<Union> (H ` set es)) ?st w (io_bind (visit e ?st) (entries_loop visit es))"
      using Cons by (intro finds_then) simp_all
    with False show ?thesis by (simp add: Let_def finds_def adds_fields)
  qed
qed (simp add: finds_return adds_refl)

lemma search_entry_finds:
  assumes "calm w" "tree_ok (w_fs w)" "is_dir_path (w_fs w) d" "(c, k) \<in> set (children (w_fs w) d)"
    and "prefix (walk_root opts) d" "walk_query opts \<noteq> Some []" "walk_maxFileBytes opts \<le> MAX_SAFE_INTEGER"
    and descend: "case left of
        0 \<Rightarrow> descend = None
      | Suc n \<Rightarrow> \<exists>f. descend = Some f \<and> (\<forall>d dp st. is_dir_path (w_fs w) d \<longrightarrow> prefix (walk_root opts) d \<longrightarrow>
                 finds (hits minimatch opts (w_fs w) n d dp) st w (f d dp st))"
  shows "finds (entry_hits minimatch opts (w_fs w) left d dp (c, k)) st w
      (search_entry minimatch opts descend d dp (c, k) st)"
proof -
  have pc: "plain c" using children_lookup(2) [OF assms(2,4)] .
  obtain n where n: "lookup (w_fs w) (d @ [c]) = Some n" "k = ino_body n"
    using children_lookup(1) [OF assms(2), of c k d] assms(4) by blast
  show ?thesis
  proof (cases k)
    case (Regular bs)
    have "finds (file_keys opts (joinPortable dp c) bs) (st\<lparr>scannedFiles := scannedFiles st + 1\<rparr>) w
        (search_file opts (d @ [c]) (joinPortable dp c) (st\<lparr>scannedFiles := scannedFiles st + 1\<rparr>))"
      using search_file_finds [OF assms(1,3) pc n(1) _ assms(5-7)] n(2) Regular by simp
    then show ?thesis
      using Regular by (auto simp: search_entry_def Let_def isSymbolicLink_def isDirectory_def isFile_def entry_hits_def
          finds_def adds_fields adds_refl io_return_def)
  next
    case Directory
    show ?thesis
    proof (cases left)
      case 0
      then show ?thesis using Directory descend
        by (simp add: search_entry_def Let_def isSymbolicLink_def isDirectory_def entry_hits_def finds_return adds_refl)
    next
      case (Suc m)
      with descend obtain f where f: "descend = Some f" "\<And>d dp st. is_dir_path (w_fs w) d \<Longrightarrow>
          prefix (walk_root opts) d \<Longrightarrow> finds (hits minimatch opts (w_fs w) m d dp) st w (f d dp st)" by auto
      have sub: "is_dir_path (w_fs w) (d @ [c])"
        using is_dir_path_snoc assms(3) pc n Directory by (simp add: body_at_def)
      have pre: "prefix (walk_root opts) (d @ [c])" using assms(5) by (auto simp: prefix_def)
      have "list_all plain (walk_root opts)" "list_all plain (d @ [c])"
        using sub assms(5) by (auto simp: is_dir_path_def prefix_def)
      then have "isSameOrDescendant (walk_root opts) (d @ [c])" using isSameOrDescendant_iff pre by blast
      then show ?thesis
        using f(2) [OF sub pre, of "joinPortable dp c" st] attempt_ok [of "os_realpath (d @ [c])", OF realpath_dir [OF assms(1) sub]]
        by (simp add: search_entry_def Let_def isSymbolicLink_def isDirectory_def Directory f(1) entry_hits_def Suc
            finds_def io_bind_def)
    qed
  qed (simp_all add: search_entry_def Let_def isSymbolicLink_def isDirectory_def isFile_def entry_hits_def
      finds_return adds_refl)
qed

lemma walkSearch_finds:
  assumes "calm w" "tree_ok (w_fs w)" "walk_query opts \<noteq> Some []" "walk_maxFileBytes opts \<le> MAX_SAFE_INTEGER"
    and "is_dir_path (w_fs w) d" "prefix (walk_root opts) d"
  shows "finds (hits minimatch opts (w_fs w) left d dp) st w (walkSearch minimatch opts left d dp st)"
  using assms(5,6)
proof (induction left arbitrary: d dp st)
  have one: "finds (hits minimatch opts (w_fs w) left d dp) st w (search_directory minimatch opts descend d dp st)"
    if dir: "is_dir_path (w_fs w) d" "prefix (walk_root opts) d"
    and descend: "case left of
        0 \<Rightarrow> descend = None
      | Suc n \<Rightarrow> \<exists>f. descend = Some f \<and> (\<forall>d dp st. is_dir_path (w_fs w) d \<longrightarrow> prefix (walk_root opts) d \<longrightarrow>
                 finds (hits minimatch opts (w_fs w) n d dp) st w (f d dp st))" for left d dp st descend
  proof (cases "MAX_SEARCH_ENTRIES \<le> scannedEntries st")
    case True
    then show ?thesis by (simp add: search_directory_def finds_return adds_truncated)
  next
    case False
    have rd: "os_readdir d w = (Inr (children (w_fs w) d), w)"
      using existing_dir [OF dir(1), of True] assms(1) by (simp add: os_readdir_def observe_calm)
    have "finds (\<Union> (entry_hits minimatch opts (w_fs w) left d dp ` set (js_sort compare_dirents (children (w_fs w) d)))) st w
        (entries_loop (search_entry minimatch opts descend d dp) (js_sort compare_dirents (children (w_fs w) d)) st)"
      using search_entry_finds [OF assms(1,2) dir(1) _ dir(2) assms(3,4) descend]
      by (intro entries_loop_finds) auto
    then show ?thesis
      using False unfolding search_directory_def hits_entries [OF assms(2)]
      by (simp add: finds_bind [where m = "os_readdir d", OF rd])
  qed
  {
    case 0
    then show ?case using one [where left = 0 and descend = None] by simp
  next
    case (Suc left)
    then show ?case using one [where left = "Suc left" and descend = "Some (walkSearch minimatch opts left)"] by simp
  }
qed

section \<open>The whole search\<close>

lemma join_snoc: "cs \<noteq> [] \<Longrightarrow> join_with slash (cs @ [c]) = join_with slash cs @ slash # c"
  by (induction cs rule: join_with.induct) simp_all

lemma join_not_dot: "cs \<noteq> [] \<Longrightarrow> list_all plain cs \<Longrightarrow> join_with slash cs \<noteq> dot"
proof
  assume cs: "cs \<noteq> []" "list_all plain cs" "join_with slash cs = dot"
  then have "split_on slash dot = cs" using split_join_plain by metis
  moreover have "split_on slash dot = [dot]" by (rule split_on_no_sep) (simp add: dot_def slash_def js_def cu_def)
  ultimately show False using cs(2) by (auto simp: plain_def)
qed

lemma joinPortable_plain:
  "list_all plain cs \<Longrightarrow> joinPortable (if cs = [] then dot else join_with slash cs) c = join_with slash (cs @ [c])"
  using join_not_dot [of cs] by (simp add: joinPortable_def join_snoc)

lemma foldl_joinPortable:
  "list_all plain (cs @ p) \<Longrightarrow> p \<noteq> [] \<Longrightarrow>
   foldl joinPortable (if cs = [] then dot else join_with slash cs) p = join_with slash (cs @ p)"
proof (induction p arbitrary: cs)
  case (Cons c p)
  show ?case
  proof (cases "p = []")
    case True
    with Cons.prems show ?thesis using joinPortable_plain [of cs c] by simp
  next
    case False
    from Cons.IH [of "cs @ [c]"] Cons.prems(1) False
    have "foldl joinPortable (join_with slash (cs @ [c])) p = join_with slash (cs @ c # p)" by simp
    with Cons.prems(1) joinPortable_plain [of cs c] show ?thesis by simp
  qed
qed simp

lemma is_dir_path_prefix: "is_dir_path fs (p @ q) \<Longrightarrow> is_dir_path fs p"
  unfolding is_dir_path_def by (auto simp: prefix_def)

lemma below_iff:
  assumes "tree_ok fs" "is_dir_path fs d"
  shows "below fs d p bs \<longleftrightarrow> p \<noteq> [] \<and> is_dir_path fs (d @ butlast p) \<and> body_at fs (d @ p) = Some (Regular bs)"
  using assms(2)
proof (induction p arbitrary: d)
  case (Cons c p)
  show ?case
  proof (cases "p = []")
    case False
    have dir: "body_at fs (d @ [c]) = Some Directory \<longleftrightarrow> is_dir_path fs (d @ [c])"
      using is_dir_path_snoc [of fs d c] Cons.prems children_body [OF assms(1), of c Directory d]
        children_lookup(2) [OF assms(1), of c Directory d] by blast
    have sub: "is_dir_path fs (d @ c # butlast p) \<Longrightarrow> is_dir_path fs (d @ [c])"
      using is_dir_path_prefix [of fs "d @ [c]" "butlast p"] by simp
    show ?thesis
      using False Cons.IH [of "d @ [c]"] dir sub by (auto simp: below_Cons)
  qed (use Cons.prems in \<open>simp add: below_Cons\<close>)
qed simp

lemma below_plain:
  assumes "tree_ok fs" "is_dir_path fs d" "below fs d p bs"
  shows "list_all plain p"
proof -
  from assms below_iff have p: "p \<noteq> []" "is_dir_path fs (d @ butlast p)" "body_at fs (d @ p) = Some (Regular bs)" by blast+
  have "(last p, Regular bs) \<in> set (children fs (d @ butlast p))"
    using p(1,3) by (simp add: children_body [OF assms(1)])
  then have "plain (last p)" by (rule children_lookup(2) [OF assms(1)])
  moreover have "list_all plain (butlast p)" using p(2) by (simp add: is_dir_path_def)
  ultimately have "list_all plain (butlast p @ [last p])" by simp
  with p(1) show ?thesis by simp
qed

text \<open>C21. A search with nothing interfering finds everything there is, unless it says that it was cut short. The
  files below the directory, at most as many levels down as asked for, reached through real
  directories and matching the glob are found: each with no position when there is no query, otherwise
  with the number of every line in which the query occurs, provided the file is text and not longer than
  the limit. Nothing else is found, and the state is unchanged.\<close>

theorem fs_search_complete:
  assumes "calm w" and "tree_ok (w_fs w)" and "available_workspace resolver (sr_workspaceId request) root w"
    and "is_dir_path (w_fs w) (root @ ds)" and "path = (if ds = [] then dot else join_with slash ds)"
    and "normalizeRelativePath (case sr_path request of None \<Rightarrow> dot | Some p \<Rightarrow> p) True = Inr path"
    and "search_options request root = Inr opts"
  shows "\<exists>r there. fs_search minimatch (default_service resolver) request w = (Inr r, w)
    \<and> there = {(q, line) | p q line bs. p \<noteq> [] \<and> length p \<le> Suc (walk_maxDepth opts)
         \<and> is_dir_path (w_fs w) (root @ ds @ butlast p) \<and> body_at (w_fs w) (root @ ds @ p) = Some (Regular bs)
         \<and> q = join_with slash (ds @ p) \<and> minimatch q (walk_glob opts) \<and> (q, line) \<in> file_keys opts q bs}
    \<and> (\<lambda>m. (match_path m, match_line m)) ` set (found_matches r) \<subseteq> there
    \<and> (found_truncated r \<or> (\<lambda>m. (match_path m, match_line m)) ` set (found_matches r) = there)"
proof -
  let ?d = "root @ ds"
  let ?there = "{(q, line) | p q line bs. p \<noteq> [] \<and> length p \<le> Suc (walk_maxDepth opts)
         \<and> is_dir_path (w_fs w) (root @ ds @ butlast p) \<and> body_at (w_fs w) (root @ ds @ p) = Some (Regular bs)
         \<and> q = join_with slash (ds @ p) \<and> minimatch q (walk_glob opts) \<and> (q, line) \<in> file_keys opts q bs}"
  have ds: "list_all plain ds" using assms(4) by (simp add: is_dir_path_def)
  have name: "foldl joinPortable path p = join_with slash (ds @ p)" if "below (w_fs w) ?d p bs" for p bs
    using foldl_joinPortable [of ds p] ds below_plain [OF assms(2,4) that] that assms(5) by (cases p) auto
  have key: "k \<in> file_keys opts q bs \<Longrightarrow> fst k = q" for k q bs
    by (auto simp: file_keys_def split: option.splits if_splits)
  have "hits minimatch opts (w_fs w) (walk_maxDepth opts) ?d path = ?there"
  proof (intro set_eqI iffI)
    fix k assume "k \<in> hits minimatch opts (w_fs w) (walk_maxDepth opts) ?d path"
    then obtain p bs where p: "below (w_fs w) ?d p bs" "length p \<le> Suc (walk_maxDepth opts)"
      "minimatch (foldl joinPortable path p) (walk_glob opts)" "k \<in> file_keys opts (foldl joinPortable path p) bs"
      by (auto simp: hits_def)
    then have "fst k = join_with slash (ds @ p)" using name key by metis
    then show "k \<in> ?there"
      using p below_iff [OF assms(2,4), of p bs] name [OF p(1)] by (cases k) auto
  next
    fix k assume "k \<in> ?there"
    then obtain p bs where p: "p \<noteq> []" "length p \<le> Suc (walk_maxDepth opts)"
      "is_dir_path (w_fs w) (?d @ butlast p)" "body_at (w_fs w) (?d @ p) = Some (Regular bs)"
      "minimatch (join_with slash (ds @ p)) (walk_glob opts)" "k \<in> file_keys opts (join_with slash (ds @ p)) bs"
      by auto
    then have "below (w_fs w) ?d p bs" using below_iff [OF assms(2,4)] by blast
    with p name show "k \<in> hits minimatch opts (w_fs w) (walk_maxDepth opts) ?d path"
      by (intro hitsI [of "w_fs w" ?d p bs]) simp_all
  qed
  moreover note opts = search_options_Inr [OF assms(7)]
  have "walk_maxFileBytes opts \<le> MAX_SAFE_INTEGER" using search_file_limit [OF assms(7)]
    by (simp add: MAX_SEARCH_FILE_BYTES_def MAX_SAFE_INTEGER_def)
  from walkSearch_finds [OF assms(1,2) opts(4) this assms(4), of minimatch "walk_maxDepth opts" path initial_search] opts(5)
  obtain st where st: "walkSearch minimatch opts (walk_maxDepth opts) ?d path initial_search w = (Inr st, w)"
    "adds (hits minimatch opts (w_fs w) (walk_maxDepth opts) ?d path) initial_search st"
    by (auto simp: finds_def)
  have "fs_search minimatch (default_service resolver) request w =
      (Inr \<lparr>found_path = path, found_glob = walk_glob opts, found_query = walk_query opts,
            found_matches = matches st, found_truncated = truncated st, found_scannedFiles = scannedFiles st,
            found_skippedBinary = skippedBinary st, found_skippedOversized = skippedOversized st\<rparr>, w)"
    using access_calm [OF assms(1,3)] resolve_calm [OF assms(1,4), folded assms(5)] assms(6,7) st(1)
    by (simp add: fs_search_def io_defs)
  moreover have "search_keys st \<subseteq> hits minimatch opts (w_fs w) (walk_maxDepth opts) ?d path"
    "truncated st \<or> search_keys st = hits minimatch opts (w_fs w) (walk_maxDepth opts) ?d path"
    using st(2) by (auto simp: adds_def search_keys_def initial_search_def)
  ultimately show ?thesis by (auto simp: search_keys_def)
qed

section \<open>The sample workspace\<close>

definition sample_search_request :: FilesystemSearchRequest where
  "sample_search_request = \<lparr>sr_workspaceId = js ''ws'', sr_path = None, sr_glob = None, sr_query = Some (js ''two''),
     sr_maxResults = None, sr_maxBytes = None, sr_maxDepth = Some (JInt 0), sr_maxFileBytes = None\<rparr>"

definition sample_walk :: walk_options where
  "sample_walk = \<lparr>walk_root = [js ''w''], walk_glob = js ''**/*'', walk_query = Some (js ''two''), walk_maxDepth = 0,
     walk_maxFileBytes = 1048576, walk_maxResults = 100, walk_maxBytes = 262144\<rparr>"

lemma sample_search_options: "search_options sample_search_request [js ''w''] = Inr sample_walk"
proof -
  have s: "validateSearchString (js ''**/*'') ''glob'' 1 1024 = Inr (js ''**/*'')"
    "validateSearchString (js ''two'') ''query'' 1 4096 = Inr (js ''two'')"
    by (simp_all add: validateSearchString_def) (simp_all add: js_def)
  have n: "boundedInteger (default_number None DEFAULT_SEARCH_RESULTS) ''maxResults'' 1 MAX_SEARCH_RESULTS = Inr 100"
    "boundedInteger (default_number None DEFAULT_SEARCH_OUTPUT_BYTES) ''maxBytes'' 1 MAX_SEARCH_OUTPUT_BYTES = Inr 262144"
    "boundedInteger (default_number (Some (JInt 0)) DEFAULT_SEARCH_DEPTH) ''maxDepth'' 0 MAX_SEARCH_DEPTH = Inr 0"
    "boundedInteger (default_number None DEFAULT_SEARCH_FILE_BYTES) ''maxFileBytes'' 1 MAX_SEARCH_FILE_BYTES = Inr 1048576"
    by (simp_all add: boundedInteger_def default_number_def DEFAULT_SEARCH_RESULTS_def MAX_SEARCH_RESULTS_def
        DEFAULT_SEARCH_OUTPUT_BYTES_def MAX_SEARCH_OUTPUT_BYTES_def DEFAULT_SEARCH_DEPTH_def MAX_SEARCH_DEPTH_def
        DEFAULT_SEARCH_FILE_BYTES_def MAX_SEARCH_FILE_BYTES_def MAX_SAFE_INTEGER_def)
  show ?thesis
    by (simp only: search_options_def sample_search_request_def FilesystemSearchRequest.select_convs option.simps s n
        bind_res.simps map_sum.simps id_apply sample_walk_def)
qed

theorem fs_search_complete_witness:
  "\<exists>r. fs_search (\<lambda>_ _. True) (default_service sample_resolver) sample_search_request sample_world = (Inr r, sample_world)
    \<and> (found_truncated r \<or> (js ''a.txt'', Some 1) \<in> (\<lambda>m. (match_path m, match_line m)) ` set (found_matches r))"
proof -
  have avail: "available_workspace sample_resolver (sr_workspaceId sample_search_request) [js ''w''] sample_world"
    using sample_available by (simp add: sample_search_request_def)
  have dir: "is_dir_path (w_fs sample_world) ([js ''w''] @ [])" using sample_dir by simp
  have path: "dot = (if ([] :: jstr list) = [] then dot else join_with slash [])" by simp
  have "normalizeRelativePath dot True = Inr dot" by code_simp
  then have norm: "normalizeRelativePath (case sr_path sample_search_request of None \<Rightarrow> dot | Some p \<Rightarrow> p) True = Inr dot"
    by (simp add: sample_search_request_def)
  have "split_on newline (js ''one, two'') = [js ''one, two'']"
    by (rule split_on_no_sep) (simp add: sample_chars newline_def cu_def)
  moreover have "occurs_at (js ''two'') (js ''one, two'') 5" by (simp add: occurs_at_def sample_chars) (simp add: js_def)
  moreover have "\<not> walk_maxFileBytes sample_walk < length sample_bytes" by (simp add: sample_walk_def sample_source)
  moreover have "classifyBuffer sample_bytes = TextFile" by (simp add: classifyBuffer_def sample_source)
  ultimately have key: "(js ''a.txt'', Some 1) \<in> file_keys sample_walk (js ''a.txt'') sample_bytes"
    by (auto simp: file_keys_def sample_source sample_walk_def)
  have body: "body_at (w_fs sample_world) ([js ''w''] @ [] @ [js ''a.txt'']) = Some (Regular sample_bytes)"
    using sample_lookup by (simp add: body_at_def)
  from fs_search_complete [OF sample_calm sample_tree avail dir path norm sample_search_options, of "\<lambda>_ _. True"]
  obtain r there where r: "fs_search (\<lambda>_ _. True) (default_service sample_resolver) sample_search_request sample_world
        = (Inr r, sample_world)"
    "there = {(q, line) | p q line bs. p \<noteq> [] \<and> length p \<le> Suc (walk_maxDepth sample_walk)
         \<and> is_dir_path (w_fs sample_world) ([js ''w''] @ [] @ butlast p)
         \<and> body_at (w_fs sample_world) ([js ''w''] @ [] @ p) = Some (Regular bs)
         \<and> q = join_with slash ([] @ p) \<and> True \<and> (q, line) \<in> file_keys sample_walk q bs}"
    "found_truncated r \<or> (\<lambda>m. (match_path m, match_line m)) ` set (found_matches r) = there"
    by (elim exE conjE) (rule that, assumption+)
  have "(js ''a.txt'', Some 1) \<in> there"
    unfolding r(2) using key body dir
    by (intro CollectI exI [of _ "[js ''a.txt'']"] exI [of _ "js ''a.txt''"] exI [of _ "Some 1"] exI [of _ sample_bytes]) simp
  with r show ?thesis by blast
qed

end
