(* ===== verification/WriteQueue.thy ===== *)
theory WriteQueue
  imports Traces World
begin

text \<open>
  \<open>FilesystemService.#serializeWrite\<close> (\<open>packages/filesystem/src/index.ts\<close>): the promise chains in
  \<open>#writeTails\<close> that run the writes of one target one after the other. A call is a number in the order of
  the calls; the promise \<open>tail\<close> of a call is known by that number. The promise reactions that the event
  loop runs are the steps of a transition system, in any order it may choose.
\<close>

section \<open>Model\<close>

datatype call_phase =
    Waiting       \<comment> \<open>\<open>previous\<close> has not resolved, or its reaction has not run yet\<close>
  | Operating     \<comment> \<open>\<open>operation\<close> has been called and has not settled\<close>
  | OpSettled     \<comment> \<open>\<open>result\<close> has settled, the \<open>finally\<close> block has not run yet\<close>
  | Left

record queue_call =
  call_key :: abspath
  call_previous :: "nat option"    \<comment> \<open>whose \<open>tail\<close> is \<open>previous\<close>; \<open>None\<close> for \<open>Promise.resolve()\<close>\<close>
  call_phase :: call_phase

record write_queue =
  writeTails :: "abspath \<rightharpoonup> nat"
  queue_calls :: "queue_call list"

definition empty_queue :: write_queue where
  "empty_queue = \<lparr>writeTails = Map.empty, queue_calls = []\<rparr>"

text \<open>The synchronous part of a call: look up the tail of the key and become it.\<close>

definition enter_queue :: "abspath \<Rightarrow> write_queue \<Rightarrow> write_queue" where
  "enter_queue key q =
     \<lparr>writeTails = (writeTails q)(key \<mapsto> length (queue_calls q)),
      queue_calls = queue_calls q @ [\<lparr>call_key = key, call_previous = writeTails q key, call_phase = Waiting\<rparr>]\<rparr>"

definition phase_of :: "write_queue \<Rightarrow> nat \<Rightarrow> call_phase" where
  "phase_of q i = call_phase (queue_calls q ! i)"

definition set_phase :: "nat \<Rightarrow> call_phase \<Rightarrow> write_queue \<Rightarrow> write_queue" where
  "set_phase i ph q = q\<lparr>queue_calls := (queue_calls q)[i := (queue_calls q ! i)\<lparr>call_phase := ph\<rparr>]\<rparr>"

definition op_settled :: "write_queue \<Rightarrow> nat \<Rightarrow> bool" where
  "op_settled q i \<longleftrightarrow> phase_of q i \<in> {OpSettled, Left}"

definition may_begin :: "write_queue \<Rightarrow> nat \<Rightarrow> bool" where
  "may_begin q i \<longleftrightarrow> i < length (queue_calls q) \<and> phase_of q i = Waiting
     \<and> (case call_previous (queue_calls q ! i) of None \<Rightarrow> True | Some j \<Rightarrow> op_settled q j)"

text \<open>The \<open>finally\<close> block.\<close>

definition leave_queue :: "nat \<Rightarrow> write_queue \<Rightarrow> write_queue" where
  "leave_queue i q =
     (let key = call_key (queue_calls q ! i); q' = set_phase i Left q in
      if writeTails q key = Some i then q'\<lparr>writeTails := (writeTails q')(key := None)\<rparr> else q')"

datatype queue_event =
    Entered nat abspath
  | Began nat
  | Settled nat
  | Returned nat

inductive queue_step :: "write_queue \<Rightarrow> queue_event \<Rightarrow> write_queue \<Rightarrow> bool" where
  enter: "queue_step q (Entered (length (queue_calls q)) key) (enter_queue key q)"
| begin_op: "may_begin q i \<Longrightarrow> queue_step q (Began i) (set_phase i Operating q)"
| settle: "i < length (queue_calls q) \<Longrightarrow> phase_of q i = Operating \<Longrightarrow> queue_step q (Settled i) (set_phase i OpSettled q)"
| return: "i < length (queue_calls q) \<Longrightarrow> phase_of q i = OpSettled \<Longrightarrow> queue_step q (Returned i) (leave_queue i q)"

inductive_simps queue_step_simps [simp]:
  "queue_step q (Entered i key) q'" "queue_step q (Began i) q'" "queue_step q (Settled i) q'"
  "queue_step q (Returned i) q'"

section \<open>The invariant of the chains\<close>

definition key_of :: "write_queue \<Rightarrow> nat \<Rightarrow> abspath" where
  "key_of q i = call_key (queue_calls q ! i)"

definition earlier :: "write_queue \<Rightarrow> nat \<Rightarrow> nat set" where
  "earlier q i = {j. j < i \<and> key_of q j = key_of q i}"

text \<open>The tail of a key is its last call, and without a tail all its calls have settled. A call comes right
  after its \<open>previous\<close>, or after calls that have all settled. A call that has begun comes after calls
  that have all settled.\<close>

definition chained :: "write_queue \<Rightarrow> nat \<Rightarrow> bool" where
  "chained q i \<longleftrightarrow>
     (case call_previous (queue_calls q ! i) of
        None \<Rightarrow> \<forall>j \<in> earlier q i. op_settled q j
      | Some p \<Rightarrow> p \<in> earlier q i \<and> (\<forall>j \<in> earlier q i. j \<le> p))
     \<and> (phase_of q i \<noteq> Waiting \<longrightarrow> (\<forall>j \<in> earlier q i. op_settled q j))"

definition tail_ok :: "write_queue \<Rightarrow> abspath \<Rightarrow> bool" where
  "tail_ok q key \<longleftrightarrow>
     (case writeTails q key of
        None \<Rightarrow> \<forall>j < length (queue_calls q). key_of q j = key \<longrightarrow> op_settled q j
      | Some t \<Rightarrow> t < length (queue_calls q) \<and> key_of q t = key \<and> phase_of q t \<noteq> Left
          \<and> (\<forall>j < length (queue_calls q). key_of q j = key \<longrightarrow> j \<le> t))"

definition queue_inv :: "write_queue \<Rightarrow> bool" where
  "queue_inv q \<longleftrightarrow> (\<forall>i < length (queue_calls q). chained q i) \<and> (\<forall>key. tail_ok q key)"

lemma queue_inv_empty: "queue_inv empty_queue"
  by (simp add: queue_inv_def empty_queue_def tail_ok_def)

lemma set_phase_simps [simp]:
  "length (queue_calls (set_phase i ph q)) = length (queue_calls q)"
  "writeTails (set_phase i ph q) = writeTails q"
  by (simp_all add: set_phase_def)

lemma set_phase_of: "j < length (queue_calls q) \<Longrightarrow> phase_of (set_phase i ph q) j = (if j = i then ph else phase_of q j)"
  by (simp add: set_phase_def phase_of_def nth_list_update)

lemma set_phase_key: "j < length (queue_calls q) \<Longrightarrow> key_of (set_phase i ph q) j = key_of q j"
  by (cases "j = i") (simp_all add: set_phase_def key_of_def)

lemma set_phase_previous:
  "j < length (queue_calls q) \<Longrightarrow> call_previous (queue_calls (set_phase i ph q) ! j) = call_previous (queue_calls q ! j)"
  by (cases "j = i") (simp_all add: set_phase_def)

lemma set_phase_earlier: "j < length (queue_calls q) \<Longrightarrow> earlier (set_phase i ph q) j = earlier q j"
  unfolding earlier_def by (auto simp: set_phase_key)

lemma set_phase_settled:
  assumes "j < length (queue_calls q)" "phase_of q i \<in> {OpSettled, Left} \<longrightarrow> ph \<in> {OpSettled, Left}"
  shows "op_settled q j \<Longrightarrow> op_settled (set_phase i ph q) j"
  using assms by (auto simp: op_settled_def set_phase_of)

lemma earlier_bound: "i < length (queue_calls q) \<Longrightarrow> j \<in> earlier q i \<Longrightarrow> j < length (queue_calls q)"
  by (simp add: earlier_def)

text \<open>Moving a call on keeps the chains, if it was free to begin or had begun.\<close>

lemma set_phase_chained:
  assumes inv: "\<forall>i < length (queue_calls q). chained q i"
    and i: "i < length (queue_calls q)" "\<forall>j \<in> earlier q i. op_settled q j"
    and up: "phase_of q i \<in> {OpSettled, Left} \<longrightarrow> ph \<in> {OpSettled, Left}"
    and j: "j < length (queue_calls q)"
  shows "chained (set_phase i ph q) j"
proof -
  have s: "op_settled (set_phase i ph q) k" if "k < length (queue_calls q)" "op_settled q k" for k
    using set_phase_settled [OF that(1) up that(2)] .
  have e: "k \<in> earlier q j \<Longrightarrow> k < length (queue_calls q)" for k using earlier_bound j by blast
  have "chained q j" using inv j by simp
  then show ?thesis
    unfolding chained_def set_phase_earlier [OF j] set_phase_previous [OF j]
    using s e i(2) by (auto simp: set_phase_of [OF j] split: option.splits)
qed

lemma set_phase_tail:
  assumes "tail_ok q key" "i < length (queue_calls q)" "ph \<noteq> Left"
    and "phase_of q i \<in> {OpSettled, Left} \<longrightarrow> ph \<in> {OpSettled, Left}"
  shows "tail_ok (set_phase i ph q) key"
  using assms set_phase_settled [OF _ assms(4)]
  by (auto simp: tail_ok_def set_phase_key set_phase_of split: option.splits)

section \<open>Every step keeps it\<close>

lemma previous_settled:
  assumes "queue_inv q" "may_begin q i"
  shows "\<forall>j \<in> earlier q i. op_settled q j"
proof -
  have i: "i < length (queue_calls q)" "phase_of q i = Waiting" using assms(2) by (simp_all add: may_begin_def)
  have c: "\<And>j. j < length (queue_calls q) \<Longrightarrow> chained q j" using assms(1) by (simp add: queue_inv_def)
  show ?thesis
  proof (cases "call_previous (queue_calls q ! i)")
    case None
    with c [OF i(1)] show ?thesis by (simp add: chained_def)
  next
    case (Some p)
    with c [OF i(1)] have p: "p \<in> earlier q i" "\<forall>j \<in> earlier q i. j \<le> p" by (simp_all add: chained_def)
    have s: "op_settled q p" using assms(2) Some by (simp add: may_begin_def)
    have "p < length (queue_calls q)" using p(1) i(1) earlier_bound by blast
    with c [of p] s have "\<forall>j \<in> earlier q p. op_settled q j" by (auto simp: chained_def op_settled_def)
    moreover have "j \<in> earlier q p" if "j \<in> earlier q i" "j \<noteq> p" for j
      using p that by (auto simp: earlier_def)
    ultimately show ?thesis using s by blast
  qed
qed

lemma begun_settled:
  "queue_inv q \<Longrightarrow> i < length (queue_calls q) \<Longrightarrow> phase_of q i \<noteq> Waiting \<Longrightarrow> \<forall>j \<in> earlier q i. op_settled q j"
  by (simp add: queue_inv_def chained_def)

lemma set_phase_inv:
  assumes "queue_inv q" "i < length (queue_calls q)" "\<forall>j \<in> earlier q i. op_settled q j" "ph \<noteq> Left"
    and "phase_of q i \<in> {OpSettled, Left} \<longrightarrow> ph \<in> {OpSettled, Left}"
  shows "queue_inv (set_phase i ph q)"
  using assms set_phase_chained [OF _ assms(2,3,5)] set_phase_tail [OF _ assms(2,4,5)]
  by (simp add: queue_inv_def)

lemma enter_inv:
  assumes "queue_inv q"
  shows "queue_inv (enter_queue key q)"
proof -
  let ?n = "length (queue_calls q)" and ?q = "enter_queue key q"
  have len: "length (queue_calls ?q) = Suc ?n" by (simp add: enter_queue_def)
  have old: "phase_of ?q j = phase_of q j" "key_of ?q j = key_of q j"
    "call_previous (queue_calls ?q ! j) = call_previous (queue_calls q ! j)" if "j < ?n" for j
    using that by (simp_all add: enter_queue_def phase_of_def key_of_def nth_append)
  have new: "phase_of ?q ?n = Waiting" "key_of ?q ?n = key" "call_previous (queue_calls ?q ! ?n) = writeTails q key"
    by (simp_all add: enter_queue_def phase_of_def key_of_def)
  have e: "earlier ?q j = earlier q j" if "j < ?n" for j using that by (auto simp: earlier_def old)
  have en: "earlier ?q ?n = {j. j < ?n \<and> key_of q j = key}" unfolding earlier_def new(2) by (rule Collect_cong) (metis old(2))
  have st: "op_settled ?q j = op_settled q j" if "j < ?n" for j using that by (simp add: op_settled_def old)
  have t: "tail_ok q k" for k using assms by (simp add: queue_inv_def)
  have "chained ?q i" if "i < Suc ?n" for i
  proof (cases "i = ?n")
    case True
    show ?thesis
      using t [of key] unfolding True chained_def new en tail_ok_def
      by (auto simp: st split: option.splits)
  next
    case False
    with that have i: "i < ?n" by simp
    then have "chained q i" using assms by (simp add: queue_inv_def)
    moreover have "op_settled ?q j = op_settled q j" if "j \<in> earlier q i" for j
      using that i by (intro st) (simp add: earlier_def)
    ultimately show ?thesis unfolding chained_def e [OF i] old [OF i] by (auto split: option.splits)
  qed
  moreover have "tail_ok ?q k" for k
  proof (cases "k = key")
    case True
    then show ?thesis by (auto simp: tail_ok_def len new enter_queue_def less_Suc_eq)
        (simp_all add: phase_of_def key_of_def)
  next
    case False
    have w: "writeTails ?q k = writeTails q k" using False by (simp add: enter_queue_def)
    show ?thesis
      using t [of k] False unfolding tail_ok_def w len
      by (auto simp: less_Suc_eq old st new split: option.splits)
  qed
  ultimately show ?thesis by (simp add: queue_inv_def len)
qed

lemma leave_inv:
  assumes "queue_inv q" "i < length (queue_calls q)" "phase_of q i = OpSettled"
  shows "queue_inv (leave_queue i q)"
proof -
  let ?key = "key_of q i" and ?q = "set_phase i Left q"
  have before: "\<forall>j \<in> earlier q i. op_settled q j" using begun_settled [OF assms(1,2)] assms(3) by simp
  have up: "phase_of q i \<in> {OpSettled, Left} \<longrightarrow> Left \<in> {OpSettled, Left}" by simp
  have chains: "\<forall>j < length (queue_calls q). chained ?q j"
    using assms(1) set_phase_chained [OF _ assms(2) before up] by (simp add: queue_inv_def)
  have same: "queue_calls (leave_queue i q) = queue_calls ?q"
    "writeTails (leave_queue i q) = (if writeTails q ?key = Some i then (writeTails q)(?key := None) else writeTails q)"
    by (simp_all add: leave_queue_def Let_def key_of_def)
  have ps: "phase_of (leave_queue i q) = phase_of ?q" "key_of (leave_queue i q) = key_of ?q"
    "op_settled (leave_queue i q) = op_settled ?q" "earlier (leave_queue i q) = earlier ?q"
    using same(1) by (auto simp: phase_of_def key_of_def op_settled_def earlier_def fun_eq_iff)
  have "chained (leave_queue i q) j = chained ?q j" for j unfolding chained_def ps same(1) ..
  moreover have "tail_ok (leave_queue i q) k" for k
  proof -
    have t: "tail_ok q k" using assms(1) by (simp add: queue_inv_def)
    have settles: "op_settled ?q j" if "j < length (queue_calls q)" "op_settled q j" for j
      using set_phase_settled [OF that(1) up that(2)] .
    show ?thesis
    proof (cases "k = ?key \<and> writeTails q k = Some i")
      case True
      have "op_settled ?q j" if j: "j < length (queue_calls q)" "key_of q j = k" for j
      proof (cases "j = i")
        case False
        with t True j have "j \<in> earlier q i" by (auto simp: tail_ok_def earlier_def le_less)
        with before settles j(1) show ?thesis by blast
      qed (use assms(2) in \<open>simp add: op_settled_def set_phase_of\<close>)
      moreover have "writeTails (leave_queue i q) k = None" using True by (auto simp: same)
      ultimately show ?thesis by (simp add: tail_ok_def same(1) ps set_phase_key)
    next
      case False
      then have w: "writeTails (leave_queue i q) k = writeTails q k" by (auto simp: same)
      have "k = key_of q t \<Longrightarrow> writeTails q k = Some t \<Longrightarrow> t \<noteq> i" for t using False by auto
      with t settles show ?thesis
        unfolding tail_ok_def w by (auto simp: same ps set_phase_key set_phase_of split: option.splits)
    qed
  qed
  ultimately show ?thesis using chains by (simp add: queue_inv_def same)
qed

lemma queue_step_inv: "queue_step q l q' \<Longrightarrow> queue_inv q \<Longrightarrow> queue_inv q'"
proof (induction rule: queue_step.induct)
  case (begin_op q i)
  then show ?case using previous_settled [OF begin_op.prems begin_op.hyps] by (intro set_phase_inv) (auto simp: may_begin_def)
next
  case (settle i q)
  then show ?case using begun_settled [OF settle.prems settle.hyps(1)] by (intro set_phase_inv) auto
qed (auto intro: enter_inv leave_inv)

interpretation chains: step_invariant queue_step "\<lambda>_. True" queue_inv
  by unfold_locales (rule queue_step_inv)

lemma run_queue_inv: "run queue_step empty_queue tr q \<Longrightarrow> queue_inv q"
  using chains.run_inv [OF _ _ queue_inv_empty] by (simp add: list_all_iff)

section \<open>Order and exclusion\<close>

text \<open>What a run has done to a call.\<close>

definition entered_as :: "write_queue \<Rightarrow> queue_event list \<Rightarrow> bool" where
  "entered_as q tr \<longleftrightarrow>
     (\<forall>i key. Entered i key \<in> set tr \<longleftrightarrow> i < length (queue_calls q) \<and> key_of q i = key)
     \<and> (\<forall>i. Began i \<in> set tr \<longleftrightarrow> i < length (queue_calls q) \<and> phase_of q i \<noteq> Waiting)
     \<and> (\<forall>i. Settled i \<in> set tr \<longleftrightarrow> i < length (queue_calls q) \<and> op_settled q i)
     \<and> (\<forall>i. Returned i \<in> set tr \<longleftrightarrow> i < length (queue_calls q) \<and> phase_of q i = Left)"

lemma leave_queue_calls: "queue_calls (leave_queue i q) = queue_calls (set_phase i Left q)"
  by (simp add: leave_queue_def Let_def)

lemma entered_step:
  assumes "queue_step q l q'" "entered_as q tr"
  shows "entered_as q' (tr @ [l])"
proof -
  have move: "entered_as q'' (tr @ [l])"
    if i: "i < length (queue_calls q)" and c: "queue_calls q'' = queue_calls (set_phase i ph q)"
      and lab: "(phase_of q i = Waiting \<and> ph = Operating \<and> l = Began i) \<or> (phase_of q i = Operating \<and> ph = OpSettled \<and> l = Settled i)
          \<or> (phase_of q i = OpSettled \<and> ph = Left \<and> l = Returned i)" for i ph q''
  proof -
    have "phase_of q'' j = (if j = i then ph else phase_of q j)" "key_of q'' j = key_of q j"
      if "j < length (queue_calls q)" for j
      using that c set_phase_of [OF that, of i ph] set_phase_key [OF that, of i ph] by (simp_all add: phase_of_def key_of_def)
    moreover have "length (queue_calls q'') = length (queue_calls q)" by (simp add: c)
    ultimately show ?thesis using assms(2) i lab by (auto simp: entered_as_def op_settled_def split: if_splits)
  qed
  from assms(1) show ?thesis
  proof cases
    case (enter key)
    have "phase_of q' j = (if j = length (queue_calls q) then Waiting else phase_of q j)"
      "key_of q' j = (if j = length (queue_calls q) then key else key_of q j)" if "j < Suc (length (queue_calls q))" for j
      using that by (auto simp: enter enter_queue_def phase_of_def key_of_def nth_append)
    moreover have "length (queue_calls q') = Suc (length (queue_calls q))" by (simp add: enter enter_queue_def)
    ultimately show ?thesis using assms(2) enter(1)
      by (auto simp: entered_as_def op_settled_def less_Suc_eq split: if_splits)
  next
    case (begin_op i)
    then show ?thesis by (intro move [of i q' Operating]) (auto simp: may_begin_def)
  next
    case (settle i)
    then show ?thesis by (intro move [of i q' OpSettled]) auto
  next
    case (return i)
    then show ?thesis by (intro move [of i q' Left]) (auto simp: leave_queue_calls)
  qed
qed

lemma run_entered_as:
  assumes "run queue_step empty_queue tr q"
  shows "entered_as q tr"
  using assms
proof (induction tr arbitrary: q rule: rev_induct)
  case Nil
  then show ?case by (simp add: entered_as_def empty_queue_def)
next
  case (snoc l tr)
  then obtain q1 where "run queue_step empty_queue tr q1" "queue_step q1 l q" by (auto simp: run_append run_Cons_iff)
  with snoc.IH entered_step show ?case by blast
qed

text \<open>C18. Writes of one target run one after the other, in the order of their calls: in every run, when the
  operation of a call begins, the operations of all earlier calls with the same target have already
  settled. So no two operations on one target overlap, whatever the event loop interleaves and whether
  they succeed or fail.\<close>

theorem writes_in_order:
  assumes "run queue_step empty_queue (before @ Began j # after) q"
    and "Entered i key \<in> set before" and "Entered j key \<in> set before" and "i < j"
  shows "Settled i \<in> set before"
proof -
  from assms(1) obtain q1 where q1: "run queue_step empty_queue before q1" "may_begin q1 j"
    by (auto simp: run_append run_Cons_iff)
  note e = run_entered_as [OF q1(1), unfolded entered_as_def]
  with assms(2-4) have "i \<in> earlier q1 j" by (auto simp: earlier_def)
  with previous_settled [OF run_queue_inv [OF q1(1)] q1(2)] have "op_settled q1 i" by blast
  moreover have "i < length (queue_calls q1)" using e assms(2) by blast
  ultimately show ?thesis using e by blast
qed

lemma sample_queue_run:
  "run queue_step empty_queue
     ([Entered 0 [js ''a''], Entered 1 [js ''a''], Began 0, Settled 0] @ Began 1 # [])
     (set_phase 1 Operating (set_phase 0 OpSettled (set_phase 0 Operating
       (enter_queue [js ''a''] (enter_queue [js ''a''] empty_queue)))))"
  by (simp add: run_Cons_iff empty_queue_def enter_queue_def set_phase_def phase_of_def may_begin_def op_settled_def)

theorem writes_in_order_witness:
  "Settled 0 \<in> set [Entered 0 [js ''a''], Entered 1 [js ''a''], Began 0, Settled 0]"
  by (rule writes_in_order [OF sample_queue_run]) simp_all

section \<open>Progress\<close>

fun is_enter :: "queue_event \<Rightarrow> bool" where
  "is_enter (Entered _ _) \<longleftrightarrow> True"
| "is_enter _ \<longleftrightarrow> False"

fun phase_weight :: "call_phase \<Rightarrow> nat" where
  "phase_weight Waiting = 3"
| "phase_weight Operating = 2"
| "phase_weight OpSettled = 1"
| "phase_weight Left = 0"

definition queue_weight :: "write_queue \<Rightarrow> nat" where
  "queue_weight q = sum_list (map (phase_weight \<circ> call_phase) (queue_calls q))"

lemma queue_weight_bound: "queue_weight q \<le> 3 * length (queue_calls q)"
proof -
  have "sum_list (map (phase_weight \<circ> call_phase) cs) \<le> 3 * length cs" for cs
  proof (induction cs)
    case (Cons c cs)
    have "phase_weight (call_phase c) \<le> 3" by (cases "call_phase c") simp_all
    with Cons show ?case by simp
  qed simp
  then show ?thesis by (simp add: queue_weight_def)
qed

lemma set_phase_weight:
  assumes "i < length (queue_calls q)"
  shows "queue_weight (set_phase i ph q) + phase_weight (phase_of q i) = queue_weight q + phase_weight ph"
proof -
  have "sum_list ((map (phase_weight \<circ> call_phase) cs)[i := n]) + (map (phase_weight \<circ> call_phase) cs) ! i
      = sum_list (map (phase_weight \<circ> call_phase) cs) + n" if "i < length cs" for cs n
    using that member_le_sum_list [of "map (phase_weight \<circ> call_phase) cs ! i" "map (phase_weight \<circ> call_phase) cs"]
    by (simp add: sum_list_update)
  from this [of "queue_calls q" "phase_weight ph"] assms show ?thesis
    by (simp add: queue_weight_def set_phase_def phase_of_def map_update)
qed

lemma queue_step_weight:
  "queue_step q l q' \<Longrightarrow> \<not> is_enter l \<Longrightarrow> queue_weight q' + 1 = queue_weight q \<and> length (queue_calls q') = length (queue_calls q)"
proof (induction rule: queue_step.induct)
  case (begin_op q i)
  then show ?case using set_phase_weight [of i q Operating] by (simp add: may_begin_def)
next
  case (settle i q)
  then show ?case using set_phase_weight [of i q OpSettled] by simp
next
  case (return i q)
  then show ?case using set_phase_weight [of i q Left] by (simp add: queue_weight_def leave_queue_calls)
qed simp

lemma run_weight:
  "run queue_step q ls q' \<Longrightarrow> list_all (\<lambda>l. \<not> is_enter l) ls \<Longrightarrow> queue_weight q' + length ls = queue_weight q"
  by (induction rule: run.induct) (auto dest: queue_step_weight)

lemma queue_progress:
  assumes "queue_inv q" "\<not> list_all (\<lambda>c. call_phase c = Left) (queue_calls q)"
  shows "\<exists>l q'. queue_step q l q' \<and> \<not> is_enter l"
proof -
  define i where "i = (LEAST i. i < length (queue_calls q) \<and> phase_of q i \<noteq> Left)"
  have "\<exists>i. i < length (queue_calls q) \<and> phase_of q i \<noteq> Left"
    using assms(2) by (auto simp: list_all_length phase_of_def)
  then have i: "i < length (queue_calls q)" "phase_of q i \<noteq> Left"
    unfolding i_def by (metis (mono_tags, lifting) LeastI_ex)+
  have least: "phase_of q j = Left" if "j < i" for j
    using not_less_Least [of j "\<lambda>i. i < length (queue_calls q) \<and> phase_of q i \<noteq> Left"] that i(1) by (auto simp: i_def)
  show ?thesis
  proof (cases "phase_of q i")
    case Waiting
    have "chained q i" using assms(1) i(1) by (simp add: queue_inv_def)
    then have "may_begin q i"
      using i(1) Waiting least by (auto simp: may_begin_def chained_def earlier_def op_settled_def split: option.splits)
    then show ?thesis by (intro exI [of _ "Began i"]) auto
  next
    case Operating
    with i show ?thesis by (intro exI [of _ "Settled i"]) auto
  next
    case OpSettled
    with i show ?thesis by (intro exI [of _ "Returned i"]) auto
  qed (use i in simp)
qed

lemma all_left_no_tails:
  assumes "queue_inv q" "list_all (\<lambda>c. call_phase c = Left) (queue_calls q)"
  shows "writeTails q = Map.empty"
proof
  fix key
  have "tail_ok q key" using assms(1) by (simp add: queue_inv_def)
  then show "writeTails q key = None"
    using assms(2) by (cases "writeTails q key") (auto simp: tail_ok_def list_all_length phase_of_def)
qed

text \<open>C19. The queue drains and leaks nothing. After any history, once no further call arrives, at most three
  steps per call can follow; and as long as some call has not returned some step can be taken, so no call
  waits for ever; and when all calls have returned, no tail is left in the map.\<close>

theorem write_queue_drains:
  assumes "run queue_step empty_queue tr q" and "run queue_step q ls q'" and "list_all (\<lambda>l. \<not> is_enter l) ls"
  shows "length ls \<le> 3 * length (queue_calls q)
    \<and> ((\<exists>l q''. queue_step q' l q'' \<and> \<not> is_enter l)
       \<or> list_all (\<lambda>c. call_phase c = Left) (queue_calls q') \<and> writeTails q' = Map.empty)"
proof -
  have "queue_inv q'" using run_queue_inv [of "tr @ ls" q'] assms(1,2) by (auto simp: run_append)
  with queue_progress all_left_no_tails run_weight [OF assms(2,3)] queue_weight_bound [of q] show ?thesis by fastforce
qed

theorem write_queue_drains_witness:
  "\<exists>q. run queue_step empty_queue [Entered 0 [js ''a'']] q
     \<and> ((\<exists>l q''. queue_step q l q'' \<and> \<not> is_enter l)
        \<or> list_all (\<lambda>c. call_phase c = Left) (queue_calls q) \<and> writeTails q = Map.empty)"
proof -
  have r: "run queue_step empty_queue [Entered 0 [js ''a'']] (enter_queue [js ''a''] empty_queue)"
    by (simp add: run_Cons_iff empty_queue_def)
  with write_queue_drains [OF r run_done] show ?thesis by auto
qed

end
