(* ===== verification/RegistryTables.thy ===== *)
theory RegistryTables
  imports Contracts Storage
begin

text \<open>
  The tables of \<open>packages/workspace/src/index.ts\<close>: \<open>workspace_registry\<close>, \<open>managed_worktrees\<close> and
  \<open>worktree_cleanup_journal\<close> with their constraints, the two migrations that create them, and the
  statements the registry runs. \<open>registry_ok\<close> is what the schema promises; every statement keeps it.
\<close>

section \<open>Rows\<close>

record WorkspaceRow =
  ws_workspace_id :: jstr
  ws_canonical_path :: jstr
  ws_requested_path :: jstr
  ws_filesystem_identity :: jstr
  ws_mode :: jstr
  ws_repo_root :: "jstr option"
  ws_worktree_path :: "jstr option"
  ws_base_ref :: "jstr option"
  ws_branch :: "jstr option"
  ws_created_at :: jstr
  ws_last_used_at :: jstr
  ws_owner_instance :: "jstr option"
  ws_status :: jstr
  ws_metadata_version :: int

record ManagedWorktreeRow =
  mw_ownership_key :: jstr
  mw_workspace_id :: jstr
  mw_source_repo_root :: jstr
  mw_source_filesystem_identity :: jstr
  mw_requested_base_ref :: jstr
  mw_base_commit :: jstr
  mw_branch :: jstr
  mw_worktree_path :: jstr
  mw_status :: jstr
  mw_created_at :: jstr
  mw_updated_at :: jstr

datatype worktree_action =
    CreateIntent | WorktreeCreated | CreateFailed | CleanupIntent | Cleaned | CleanupFailed | Reconciled

fun action_text :: "worktree_action \<Rightarrow> jstr" where
  "action_text CreateIntent = js ''create-intent''"
| "action_text WorktreeCreated = js ''created''"
| "action_text CreateFailed = js ''create-failed''"
| "action_text CleanupIntent = js ''cleanup-intent''"
| "action_text Cleaned = js ''cleaned''"
| "action_text CleanupFailed = js ''cleanup-failed''"
| "action_text Reconciled = js ''reconciled''"

lemma action_text_eq [simp]: "action_text a = action_text b \<longleftrightarrow> a = b"
  by (cases a; cases b) simp_all

text \<open>The column \<open>created_at\<close> of the journal is filled by the database and never read.\<close>

record JournalRow =
  jr_event_id :: nat
  jr_ownership_key :: jstr
  jr_workspace_id :: "jstr option"
  jr_action :: jstr
  jr_details_json :: "jstr option"

record registry_db =
  registry_rows :: "WorkspaceRow list"
  managed_rows :: "ManagedWorktreeRow list"
  journal_rows :: "JournalRow list"
  next_event :: nat

section \<open>Constraints\<close>

definition constraint_error :: "string \<Rightarrow> thrown" where
  "constraint_error what = PlainError (js ''SqliteError'') (js what)"

definition registry_checks :: "WorkspaceRow \<Rightarrow> bool" where
  "registry_checks r \<longleftrightarrow> ws_mode r \<in> {js ''checkout'', js ''worktree''}
     \<and> ws_status r \<in> {js ''available'', js ''missing'', js ''inaccessible'', js ''invalid''}
     \<and> 1 \<le> ws_metadata_version r"

definition registry_key :: "WorkspaceRow \<Rightarrow> jstr \<times> jstr \<times> jstr" where
  "registry_key r = (ws_canonical_path r, ws_filesystem_identity r, ws_mode r)"

definition managed_checks :: "ManagedWorktreeRow \<Rightarrow> bool" where
  "managed_checks m \<longleftrightarrow> mw_status m \<in> {js ''active'', js ''cleanup-required''}"

definition source_key :: "ManagedWorktreeRow \<Rightarrow> jstr \<times> jstr" where
  "source_key m = (mw_source_filesystem_identity m, mw_base_commit m)"

definition registry_rows_ok :: "WorkspaceRow list \<Rightarrow> bool" where
  "registry_rows_ok rs \<longleftrightarrow> list_all registry_checks rs \<and> distinct (map ws_workspace_id rs)
     \<and> distinct (map registry_key rs)"

definition managed_rows_ok :: "ManagedWorktreeRow list \<Rightarrow> bool" where
  "managed_rows_ok ms \<longleftrightarrow> list_all managed_checks ms \<and> distinct (map mw_ownership_key ms)
     \<and> distinct (map mw_workspace_id ms) \<and> distinct (map mw_branch ms) \<and> distinct (map mw_worktree_path ms)
     \<and> distinct (map source_key ms)"

definition journal_rows_ok :: "nat \<Rightarrow> JournalRow list \<Rightarrow> bool" where
  "journal_rows_ok n js_rows \<longleftrightarrow> sorted_wrt (<) (map jr_event_id js_rows)
     \<and> list_all (\<lambda>j. jr_event_id j < n \<and> jr_action j \<in> range action_text) js_rows"

definition registry_ok :: "registry_db \<Rightarrow> bool" where
  "registry_ok db \<longleftrightarrow> registry_rows_ok (registry_rows db) \<and> managed_rows_ok (managed_rows db)
     \<and> journal_rows_ok (next_event db) (journal_rows db)
     \<and> (\<forall>m \<in> set (managed_rows db). mw_workspace_id m \<in> ws_workspace_id ` set (registry_rows db))"

section \<open>Statements\<close>

definition find_workspace :: "jstr \<Rightarrow> registry_db \<Rightarrow> WorkspaceRow option" where
  "find_workspace i db = List.find (\<lambda>r. ws_workspace_id r = i) (registry_rows db)"

definition insert_workspace :: "WorkspaceRow \<Rightarrow> registry_db \<Rightarrow> unit result \<times> registry_db" where
  "insert_workspace row db =
     (if \<not> registry_checks row then (Inl (constraint_error ''CHECK constraint failed''), db)
      else if ws_workspace_id row \<in> ws_workspace_id ` set (registry_rows db)
      then (Inl (constraint_error ''UNIQUE constraint failed: workspace_registry.workspace_id''), db)
      else if registry_key row \<in> registry_key ` set (registry_rows db)
      then (Inl (constraint_error ''UNIQUE constraint failed: workspace_registry.canonical_path''), db)
      else (Inr (), db\<lparr>registry_rows := registry_rows db @ [row]\<rparr>))"

text \<open>\<open>UPDATE ... WHERE\<close> on a list of rows, with its \<open>changes\<close> count.\<close>

definition update_rows :: "('r \<Rightarrow> bool) \<Rightarrow> ('r \<Rightarrow> 'r) \<Rightarrow> 'r list \<Rightarrow> nat \<times> 'r list" where
  "update_rows cond set_row rs =
     (length (filter cond rs), map (\<lambda>r. if cond r then set_row r else r) rs)"

definition update_workspaces ::
    "(WorkspaceRow \<Rightarrow> bool) \<Rightarrow> (WorkspaceRow \<Rightarrow> WorkspaceRow) \<Rightarrow> registry_db \<Rightarrow> nat \<times> registry_db" where
  "update_workspaces cond set_row db =
     (case update_rows cond set_row (registry_rows db) of (changes, rs) \<Rightarrow> (changes, db\<lparr>registry_rows := rs\<rparr>))"

definition update_managed ::
    "(ManagedWorktreeRow \<Rightarrow> bool) \<Rightarrow> (ManagedWorktreeRow \<Rightarrow> ManagedWorktreeRow) \<Rightarrow> registry_db \<Rightarrow> nat \<times> registry_db" where
  "update_managed cond set_row db =
     (case update_rows cond set_row (managed_rows db) of (changes, ms) \<Rightarrow> (changes, db\<lparr>managed_rows := ms\<rparr>))"

text \<open>\<open>INSERT ... ON CONFLICT(canonical_path, filesystem_identity, mode) DO UPDATE SET ... RETURNING *\<close>: the
  conflict target is checked before the primary key.\<close>

definition refresh_checkout :: "WorkspaceRow \<Rightarrow> WorkspaceRow \<Rightarrow> WorkspaceRow" where
  "refresh_checkout excluded r = r\<lparr>ws_requested_path := ws_requested_path excluded,
     ws_repo_root := ws_repo_root excluded, ws_last_used_at := ws_last_used_at excluded,
     ws_owner_instance := ws_owner_instance excluded, ws_status := js ''available'',
     ws_metadata_version := ws_metadata_version r + 1\<rparr>"

definition upsert_checkout :: "WorkspaceRow \<Rightarrow> registry_db \<Rightarrow> WorkspaceRow result \<times> registry_db" where
  "upsert_checkout row db =
     (case List.find (\<lambda>r. registry_key r = registry_key row) (registry_rows db) of
        Some r \<Rightarrow>
          (Inr (refresh_checkout row r),
           snd (update_workspaces (\<lambda>r. registry_key r = registry_key row) (refresh_checkout row) db))
      | None \<Rightarrow>
          (case insert_workspace row db of
             (Inl e, db') \<Rightarrow> (Inl e, db')
           | (Inr _, db') \<Rightarrow> (Inr row, db')))"

definition find_managed :: "jstr \<Rightarrow> registry_db \<Rightarrow> ManagedWorktreeRow option" where
  "find_managed key db = List.find (\<lambda>m. mw_ownership_key m = key) (managed_rows db)"

definition insert_managed :: "ManagedWorktreeRow \<Rightarrow> registry_db \<Rightarrow> unit result \<times> registry_db" where
  "insert_managed row db =
     (let ms = managed_rows db in
      if \<not> managed_checks row then (Inl (constraint_error ''CHECK constraint failed''), db)
      else if mw_ownership_key row \<in> mw_ownership_key ` set ms \<or> mw_workspace_id row \<in> mw_workspace_id ` set ms
        \<or> mw_branch row \<in> mw_branch ` set ms \<or> mw_worktree_path row \<in> mw_worktree_path ` set ms
        \<or> source_key row \<in> source_key ` set ms
      then (Inl (constraint_error ''UNIQUE constraint failed: managed_worktrees''), db)
      else if mw_workspace_id row \<notin> ws_workspace_id ` set (registry_rows db)
      then (Inl (constraint_error ''FOREIGN KEY constraint failed''), db)
      else (Inr (), db\<lparr>managed_rows := ms @ [row]\<rparr>))"

definition appendWorktreeJournal ::
    "jstr \<Rightarrow> jstr option \<Rightarrow> worktree_action \<Rightarrow> (jstr \<times> json) list \<Rightarrow> registry_db \<Rightarrow> registry_db" where
  "appendWorktreeJournal key workspace action details db =
     db\<lparr>journal_rows := journal_rows db @ [\<lparr>jr_event_id = next_event db, jr_ownership_key = key,
          jr_workspace_id = workspace, jr_action = action_text action,
          jr_details_json = Some (JSON_stringify (JObj details))\<rparr>],
        next_event := Suc (next_event db)\<rparr>"

definition hasWorktreeJournalAction :: "registry_db \<Rightarrow> jstr \<Rightarrow> worktree_action \<Rightarrow> bool" where
  "hasWorktreeJournalAction db key action \<longleftrightarrow>
     list_ex (\<lambda>j. jr_ownership_key j = key \<and> jr_action j = action_text action) (journal_rows db)"

section \<open>Migrations\<close>

text \<open>The tables the two scripts find and leave. The text of the scripts is not part of the model: each
  script is named by the constructor of its effect.\<close>

datatype registry_schema =
    NoTables
  | CheckoutTables "WorkspaceRow list"      \<comment> \<open>after \<open>0002-workspace-registry\<close>\<close>
  | WorktreeTables registry_db              \<comment> \<open>after \<open>0003-worktree-manager\<close>\<close>

fun migrate_0002 :: "registry_schema \<Rightarrow> unit result \<times> registry_schema" where
  "migrate_0002 NoTables = (Inr (), CheckoutTables [])"
| "migrate_0002 t = (Inl (constraint_error ''table workspace_registry already exists''), t)"

text \<open>The rows are copied into the table with the wider \<open>mode\<close> constraint, under the new constraints.\<close>

fun copy_rows :: "WorkspaceRow list \<Rightarrow> registry_db \<Rightarrow> unit result \<times> registry_db" where
  "copy_rows [] db = (Inr (), db)"
| "copy_rows (r # rs) db =
     (case insert_workspace r db of
        (Inl e, db') \<Rightarrow> (Inl e, db')
      | (Inr _, db') \<Rightarrow> copy_rows rs db')"

definition empty_registry :: registry_db where
  "empty_registry = \<lparr>registry_rows = [], managed_rows = [], journal_rows = [], next_event = 1\<rparr>"

fun migrate_0003 :: "registry_schema \<Rightarrow> unit result \<times> registry_schema" where
  "migrate_0003 (CheckoutTables rs) =
     (case copy_rows rs empty_registry of
        (Inl e, db) \<Rightarrow> (Inl e, CheckoutTables rs)
      | (Inr _, db) \<Rightarrow> (Inr (), WorktreeTables db))"
| "migrate_0003 t = (Inl (constraint_error ''no such index: workspace_registry_status_idx''), t)"

definition registry_exec :: "jstr \<Rightarrow> jstr \<Rightarrow> jstr \<Rightarrow> registry_schema \<Rightarrow> unit result \<times> registry_schema" where
  "registry_exec sql_0002 sql_0003 sql t =
     (if sql = sql_0002 then migrate_0002 t else if sql = sql_0003 then migrate_0003 t
      else (Inl (constraint_error ''unknown script''), t))"

definition WORKSPACE_REGISTRY_MIGRATION :: "jstr \<Rightarrow> SqliteMigration" where
  "WORKSPACE_REGISTRY_MIGRATION sql_0002 = \<lparr>migration_id = js ''0002-workspace-registry'', migration_sql = sql_0002\<rparr>"

definition WORKTREE_MANAGER_MIGRATION :: "jstr \<Rightarrow> SqliteMigration" where
  "WORKTREE_MANAGER_MIGRATION sql_0003 = \<lparr>migration_id = js ''0003-worktree-manager'', migration_sql = sql_0003\<rparr>"

section \<open>The statements keep the constraints\<close>

lemma insert_workspace_ok:
  assumes "registry_ok db" "insert_workspace row db = (x, db')"
  shows "registry_ok db'"
  using assms
  by (auto simp: insert_workspace_def registry_ok_def registry_rows_ok_def split: if_splits)

lemma insert_workspace_Inr:
  "insert_workspace row db = (Inr u, db') \<Longrightarrow> db' = db\<lparr>registry_rows := registry_rows db @ [row]\<rparr>"
  by (auto simp: insert_workspace_def split: if_splits)

lemma insert_workspace_Inl: "insert_workspace row db = (Inl e, db') \<Longrightarrow> db' = db"
  by (auto simp: insert_workspace_def split: if_splits)

lemma update_workspaces_ok:
  assumes "registry_ok db" "update_workspaces cond f db = (n, db')"
    and "\<And>r. registry_checks r \<Longrightarrow> cond r \<Longrightarrow> registry_checks (f r)"
    and "\<And>r. ws_workspace_id (f r) = ws_workspace_id r" "\<And>r. registry_key (f r) = registry_key r"
  shows "registry_ok db'"
proof -
  let ?g = "\<lambda>r. if cond r then f r else r"
  have db': "db' = db\<lparr>registry_rows := map ?g (registry_rows db)\<rparr>"
    using assms(2) by (simp add: update_workspaces_def update_rows_def)
  have "ws_workspace_id \<circ> ?g = ws_workspace_id" "registry_key \<circ> ?g = registry_key"
    using assms(4,5) by (auto simp: fun_eq_iff)
  moreover have "ws_workspace_id ` ?g ` A = ws_workspace_id ` A" for A
    unfolding image_comp calculation(1) ..
  ultimately show ?thesis
    using assms(1,3) by (auto simp: db' registry_ok_def registry_rows_ok_def list_all_iff)
qed

lemma update_managed_ok:
  assumes "registry_ok db" "update_managed cond f db = (n, db')"
    and "\<And>m. managed_checks m \<Longrightarrow> cond m \<Longrightarrow> managed_checks (f m)"
    and "\<And>m. mw_ownership_key (f m) = mw_ownership_key m" "\<And>m. mw_workspace_id (f m) = mw_workspace_id m"
    and "\<And>m. mw_branch (f m) = mw_branch m" "\<And>m. mw_worktree_path (f m) = mw_worktree_path m"
    and "\<And>m. source_key (f m) = source_key m"
  shows "registry_ok db'"
proof -
  let ?g = "\<lambda>m. if cond m then f m else m"
  have db': "db' = db\<lparr>managed_rows := map ?g (managed_rows db)\<rparr>"
    using assms(2) by (simp add: update_managed_def update_rows_def)
  have "mw_ownership_key \<circ> ?g = mw_ownership_key" "mw_workspace_id \<circ> ?g = mw_workspace_id"
    "mw_branch \<circ> ?g = mw_branch" "mw_worktree_path \<circ> ?g = mw_worktree_path" "source_key \<circ> ?g = source_key"
    using assms(4-) by (auto simp: fun_eq_iff)
  then show ?thesis
    using assms(1,3,5) by (auto simp: db' registry_ok_def managed_rows_ok_def list_all_iff)
qed

lemma refresh_checkout_keys [simp]:
  "ws_workspace_id (refresh_checkout row r) = ws_workspace_id r"
  "registry_key (refresh_checkout row r) = registry_key r"
  by (simp_all add: refresh_checkout_def registry_key_def)

lemma upsert_checkout_ok:
  assumes "registry_ok db" "upsert_checkout row db = (x, db')"
  shows "registry_ok db'"
proof (cases "List.find (\<lambda>r. registry_key r = registry_key row) (registry_rows db)")
  case None
  with assms show ?thesis by (auto simp: upsert_checkout_def split: prod.splits sum.splits intro: insert_workspace_ok)
next
  case (Some r)
  obtain n where "update_workspaces (\<lambda>r. registry_key r = registry_key row) (refresh_checkout row) db = (n, db')"
    using assms(2) Some by (auto simp: upsert_checkout_def) (metis prod.collapse)
  then show ?thesis
    by (rule update_workspaces_ok [OF assms(1)])
      (auto simp: refresh_checkout_def registry_checks_def registry_key_def)
qed

lemma insert_managed_ok:
  assumes "registry_ok db" "insert_managed row db = (x, db')"
  shows "registry_ok db'"
  using assms
  by (auto simp: insert_managed_def registry_ok_def managed_rows_ok_def Let_def split: if_splits)

lemma insert_managed_Inr:
  "insert_managed row db = (Inr u, db') \<Longrightarrow> db' = db\<lparr>managed_rows := managed_rows db @ [row]\<rparr>"
  by (auto simp: insert_managed_def Let_def split: if_splits)

lemma journal_append_ok: "registry_ok db \<Longrightarrow> registry_ok (appendWorktreeJournal key ws act details db)"
  by (auto simp: registry_ok_def appendWorktreeJournal_def journal_rows_ok_def sorted_wrt_append list_all_iff
      dest: less_SucI)

lemma hasWorktreeJournalAction_append:
  "hasWorktreeJournalAction (appendWorktreeJournal key ws act details db) k a \<longleftrightarrow>
     hasWorktreeJournalAction db k a \<or> k = key \<and> a = act"
  by (auto simp: hasWorktreeJournalAction_def appendWorktreeJournal_def)

lemma find_managed_Some:
  "find_managed key db = Some m \<Longrightarrow> m \<in> set (managed_rows db) \<and> mw_ownership_key m = key"
  by (auto simp: find_managed_def find_Some_iff)

lemma find_workspace_iff:
  assumes "registry_ok db"
  shows "find_workspace i db = Some r \<longleftrightarrow> r \<in> set (registry_rows db) \<and> ws_workspace_id r = i"
proof -
  have "inj_on ws_workspace_id (set (registry_rows db))"
    using assms by (simp add: registry_ok_def registry_rows_ok_def distinct_map)
  moreover have "find_workspace i db = None \<longleftrightarrow> (\<forall>r \<in> set (registry_rows db). ws_workspace_id r \<noteq> i)"
    by (auto simp: find_workspace_def find_None_iff)
  moreover have "find_workspace i db = Some r \<Longrightarrow> r \<in> set (registry_rows db) \<and> ws_workspace_id r = i" for r
    by (auto simp: find_workspace_def find_Some_iff)
  ultimately show ?thesis by (cases "find_workspace i db") (auto dest: inj_onD)
qed

end
