(* ===== verification/GitWorktree.thy ===== *)
theory GitWorktree
  imports FsText
begin

text \<open>
  \<open>packages/workspace/src/git-worktree.ts\<close>: the git commands the worktree manager runs and the parser of
  \<open>git worktree list --porcelain -z\<close>. Git is outside the repository: running the program is the
  parameter \<open>exec\<close>, a computation that takes the argument list and gives the standard output or the
  rejection of \<open>execFile\<close>.
\<close>

section \<open>Running git\<close>

text \<open>What the rejection of \<open>execFile\<close> carries: the text of standard error (the output encoding is set to
  UTF-8, so it is a string when there is one) and the exit code when the program ran and failed.\<close>

record exec_error =
  exec_stderr :: "jstr option"
  exec_code :: "int option"

type_synonym 'w execFile = "jstr list \<Rightarrow> ('w, exec_error + jstr) io"

record GitWorktreeInfo =
  info_path :: jstr
  info_head :: "jstr option"
  info_branch :: "jstr option"
  info_lockedReason :: "jstr option"
  info_prunableReason :: "jstr option"

text \<open>\<open>String.prototype.trim\<close>: white space and line terminators at both ends.\<close>

definition is_trimmed_unit :: "code_unit \<Rightarrow> bool" where
  "is_trimmed_unit u \<longleftrightarrow> (let n = unat u in
     9 \<le> n \<and> n \<le> 13 \<or> n = 0x20 \<or> n = 0xA0 \<or> n = 0x1680 \<or> 0x2000 \<le> n \<and> n \<le> 0x200A
     \<or> n = 0x2028 \<or> n = 0x2029 \<or> n = 0x202F \<or> n = 0x205F \<or> n = 0x3000 \<or> n = 0xFEFF)"

definition trim :: "jstr \<Rightarrow> jstr" where
  "trim s = rev (dropWhile is_trimmed_unit (rev (dropWhile is_trimmed_unit s)))"

definition extractStderr :: "exec_error \<Rightarrow> jstr" where
  "extractStderr error = (case exec_stderr error of Some s \<Rightarrow> s | None \<Rightarrow> [])"

definition extractExitCode :: "exec_error \<Rightarrow> int option" where
  "extractExitCode error = exec_code error"

text \<open>The message of a failed command: standard error when there is any.\<close>

definition failure_message :: "jstr \<Rightarrow> jstr \<Rightarrow> jstr" where
  "failure_message stderr fallback = (if length stderr > 0 then trim stderr else fallback)"

definition runGit :: "'w execFile \<Rightarrow> jstr \<Rightarrow> jstr list \<Rightarrow> string \<Rightarrow> ('w, jstr) io" where
  "runGit exec cwd args errorCode =
     io_bind (exec ([js ''-C'', cwd] @ args)) (\<lambda>result.
       case result of
         Inr stdout \<Rightarrow> io_return stdout
       | Inl error \<Rightarrow>
           (let stderr = extractStderr error in
            io_throw (GitWorktreeError (js errorCode)
              (failure_message stderr
                (js ''git '' @ (case args of a # _ \<Rightarrow> a | [] \<Rightarrow> js ''command'') @ js '' failed''))
              stderr)))"

text \<open>The test \<open>/^[0-9a-f]{40,64}$/i\<close>.\<close>

definition is_commit_id :: "jstr \<Rightarrow> bool" where
  "is_commit_id s \<longleftrightarrow> 40 \<le> length s \<and> length s \<le> 64 \<and> list_all is_hex_unit s"

definition peel_commit :: "jstr \<Rightarrow> jstr" where
  "peel_commit ref = ref @ js ''^{commit}''"

definition resolveGitCommit :: "'w execFile \<Rightarrow> jstr \<Rightarrow> jstr \<Rightarrow> ('w, jstr) io" where
  "resolveGitCommit exec root ref =
     (if length ref = 0
      then io_throw (GitWorktreeError (js ''WORKTREE_BASE_REF_INVALID'') (js ''baseRef must not be empty'') [])
      else
        io_bind (runGit exec root
            [js ''rev-parse'', js ''--verify'', js ''--end-of-options'', peel_commit ref]
            ''WORKTREE_BASE_REF_INVALID'') (\<lambda>stdout.
          let commit = trim stdout in
          if \<not> is_commit_id commit
          then io_throw (GitWorktreeError (js ''WORKTREE_BASE_REF_INVALID'')
                 (js ''Git resolved an invalid commit id for baseRef '' @ JSON_stringify (JStr ref)) [])
          else io_return (map lower_unit commit)))"

definition lock_reason :: "jstr \<Rightarrow> jstr" where
  "lock_reason key = js ''benchhand:'' @ key"

definition createLockedWorktree ::
    "'w execFile \<Rightarrow> jstr \<Rightarrow> jstr \<Rightarrow> jstr \<Rightarrow> jstr \<Rightarrow> jstr \<Rightarrow> ('w, unit) io" where
  "createLockedWorktree exec root path branch_name commit key =
     io_bind (runGit exec root
         [js ''worktree'', js ''add'', js ''--lock'', js ''--reason'', lock_reason key,
          js ''-b'', branch_name, path, commit]
         ''WORKTREE_CREATE_FAILED'') (\<lambda>_. io_return ())"

definition readLocalBranchCommit :: "'w execFile \<Rightarrow> jstr \<Rightarrow> jstr \<Rightarrow> ('w, jstr option) io" where
  "readLocalBranchCommit exec root branch_name =
     io_bind (exec [js ''-C'', root, js ''rev-parse'', js ''--verify'', js ''--quiet'', js ''--end-of-options'',
                    peel_commit (js ''refs/heads/'' @ branch_name)]) (\<lambda>result.
       case result of
         Inr stdout \<Rightarrow>
           (let commit = trim stdout in
            if \<not> is_commit_id commit
            then io_throw (GitWorktreeError (js ''WORKTREE_BRANCH_CHECK_FAILED'')
                   (js ''Git resolved an invalid commit id for branch '' @ JSON_stringify (JStr branch_name)) [])
            else io_return (Some (map lower_unit commit)))
       | Inl error \<Rightarrow>
           if extractExitCode error = Some 1 then io_return None
           else (let stderr = extractStderr error in
             io_throw (GitWorktreeError (js ''WORKTREE_BRANCH_CHECK_FAILED'')
               (failure_message stderr (js ''failed to inspect branch '' @ JSON_stringify (JStr branch_name)))
               stderr)))"

section \<open>The listing\<close>

definition new_info :: "jstr \<Rightarrow> GitWorktreeInfo" where
  "new_info path = \<lparr>info_path = path, info_head = None, info_branch = None, info_lockedReason = None,
     info_prunableReason = None\<rparr>"

text \<open>\<open>token.startsWith(word)\<close> and \<open>token.slice(word.length)\<close>.\<close>

definition has_word :: "string \<Rightarrow> jstr \<Rightarrow> bool" where
  "has_word word token \<longleftrightarrow> startsWith token (js word)"

definition after_word :: "string \<Rightarrow> jstr \<Rightarrow> jstr" where
  "after_word word token = drop (length word) token"

text \<open>What a token other than \<open>worktree ...\<close> does to the record under construction.\<close>

definition read_attribute :: "jstr \<Rightarrow> GitWorktreeInfo \<Rightarrow> GitWorktreeInfo" where
  "read_attribute token current =
     (if has_word ''HEAD '' token then current\<lparr>info_head := Some (after_word ''HEAD '' token)\<rparr>
      else if has_word ''branch '' token then current\<lparr>info_branch := Some (after_word ''branch '' token)\<rparr>
      else if token = js ''locked'' then current\<lparr>info_lockedReason := Some []\<rparr>
      else if has_word ''locked '' token then current\<lparr>info_lockedReason := Some (after_word ''locked '' token)\<rparr>
      else if token = js ''prunable'' then current\<lparr>info_prunableReason := Some []\<rparr>
      else if has_word ''prunable '' token then current\<lparr>info_prunableReason := Some (after_word ''prunable '' token)\<rparr>
      else current)"

text \<open>The loop's state: the records pushed so far and the current one.\<close>

type_synonym porcelain_state = "GitWorktreeInfo list \<times> GitWorktreeInfo option"

fun flush :: "porcelain_state \<Rightarrow> GitWorktreeInfo list" where
  "flush (worktrees, None) = worktrees"
| "flush (worktrees, Some current) = worktrees @ [current]"

definition read_token :: "jstr \<Rightarrow> porcelain_state \<Rightarrow> porcelain_state" where
  "read_token token st =
     (if length token = 0 then (flush st, None)
      else if has_word ''worktree '' token then (flush st, Some (new_info (after_word ''worktree '' token)))
      else (case st of
          (worktrees, None) \<Rightarrow> (worktrees, None)
        | (worktrees, Some current) \<Rightarrow> (worktrees, Some (read_attribute token current))))"

definition parseWorktreePorcelain :: "jstr \<Rightarrow> GitWorktreeInfo list" where
  "parseWorktreePorcelain output = flush (fold read_token (split_on 0 output) ([], None))"

definition listGitWorktrees :: "'w execFile \<Rightarrow> jstr \<Rightarrow> ('w, GitWorktreeInfo list) io" where
  "listGitWorktrees exec root =
     io_bind (runGit exec root [js ''worktree'', js ''list'', js ''--porcelain'', js ''-z''] ''WORKTREE_LIST_FAILED'')
       (\<lambda>stdout. io_return (parseWorktreePorcelain stdout))"

section \<open>What the commands answer\<close>

definition commit_text :: "jstr \<Rightarrow> bool" where
  "commit_text s \<longleftrightarrow> is_commit_id s \<and> map lower_unit s = s"

lemma hex_unit_lower: "is_hex_unit u \<Longrightarrow> is_hex_unit (lower_unit u) \<and> lower_unit (lower_unit u) = lower_unit u"
proof -
  assume h: "is_hex_unit u"
  show ?thesis
  proof (cases "65 \<le> unat u \<and> unat u \<le> 90")
    case True
    then have "unat (u + 32) = unat u + 32" by (simp add: unat_word_ariths)
    with h True show ?thesis
      by (auto simp: is_hex_unit_def hex_value_def is_digit_def lower_unit_def Let_def split: if_splits)
  next
    case False
    with h show ?thesis by (auto simp: lower_unit_def)
  qed
qed

lemma commit_lower: "is_commit_id s \<Longrightarrow> commit_text (map lower_unit s)"
  by (auto simp: commit_text_def is_commit_id_def list_all_iff hex_unit_lower)

text \<open>The three outcomes of a command: not run to an answer, failed, printed.\<close>

definition git_failure :: "string \<Rightarrow> jstr list \<Rightarrow> exec_error \<Rightarrow> thrown" where
  "git_failure code args error = GitWorktreeError (js code)
     (failure_message (extractStderr error)
       (js ''git '' @ (case args of a # _ \<Rightarrow> a | [] \<Rightarrow> js ''command'') @ js '' failed''))
     (extractStderr error)"

lemma runGit_eq:
  "runGit exec cwd args code w = (x, w') \<longleftrightarrow>
     (\<exists>e. exec ([js ''-C'', cwd] @ args) w = (Inl e, w') \<and> x = Inl e)
   \<or> (\<exists>error. exec ([js ''-C'', cwd] @ args) w = (Inr (Inl error), w') \<and> x = Inl (git_failure code args error))
   \<or> (\<exists>out. exec ([js ''-C'', cwd] @ args) w = (Inr (Inr out), w') \<and> x = Inr out)"
  by (auto simp: runGit_def io_bind_def git_failure_def Let_def io_throw_def io_return_def
      split: prod.splits sum.splits)

lemma resolveGitCommit_outcome:
  assumes "resolveGitCommit exec root ref w = (x, w')"
  shows "case x of
     Inr commit \<Rightarrow> ref \<noteq> [] \<and> commit_text commit
   | Inl e \<Rightarrow> (\<exists>m stderr. e = GitWorktreeError (js ''WORKTREE_BASE_REF_INVALID'') m stderr)
       \<or> (\<exists>args w1 w2. exec args w1 = (Inl e, w2))"
  using assms
  by (fastforce simp: resolveGitCommit_def io_eqs runGit_eq Let_def commit_lower git_failure_def
      split: if_splits sum.splits)

section \<open>The printed form\<close>

text \<open>The format git documents for \<open>--porcelain -z\<close>: attribute lines ended by NUL, records ended by an empty
  line. A worktree is bare, detached or on a branch; lock and prune reasons may be missing; attributes
  of newer versions (\<open>gw_extra\<close>) may follow.\<close>

datatype git_head = BareWorktree | Detached jstr | OnBranch jstr jstr

record git_worktree =
  gw_path :: jstr
  gw_head :: git_head
  gw_locked :: "jstr option"
  gw_prunable :: "jstr option"
  gw_extra :: "jstr list"

fun head_tokens :: "git_head \<Rightarrow> jstr list" where
  "head_tokens BareWorktree = [js ''bare'']"
| "head_tokens (Detached commit) = [js ''HEAD '' @ commit, js ''detached'']"
| "head_tokens (OnBranch commit ref) = [js ''HEAD '' @ commit, js ''branch '' @ ref]"

fun reason_tokens :: "string \<Rightarrow> jstr option \<Rightarrow> jstr list" where
  "reason_tokens word None = []"
| "reason_tokens word (Some r) = [if r = [] then js word else js word @ js '' '' @ r]"

definition worktree_tokens :: "git_worktree \<Rightarrow> jstr list" where
  "worktree_tokens g = (js ''worktree '' @ gw_path g) # head_tokens (gw_head g)
     @ reason_tokens ''locked'' (gw_locked g) @ reason_tokens ''prunable'' (gw_prunable g) @ gw_extra g"

definition print_worktree :: "git_worktree \<Rightarrow> jstr" where
  "print_worktree g = concat (map (\<lambda>t. t @ [0]) (worktree_tokens g)) @ [0]"

definition print_worktrees :: "git_worktree list \<Rightarrow> jstr" where
  "print_worktrees gs = concat (map print_worktree gs)"

text \<open>The attributes a reader of the format has to know.\<close>

definition known_attribute :: "jstr \<Rightarrow> bool" where
  "known_attribute t \<longleftrightarrow> t = js ''locked'' \<or> t = js ''prunable''
     \<or> (\<exists>w \<in> {''worktree '', ''HEAD '', ''branch '', ''locked '', ''prunable ''}. startsWith t (js w))"

definition printable :: "git_worktree \<Rightarrow> bool" where
  "printable g \<longleftrightarrow> list_all (\<lambda>t. 0 \<notin> set t) (worktree_tokens g)
     \<and> list_all (\<lambda>t. t \<noteq> [] \<and> \<not> known_attribute t) (gw_extra g)"

fun head_commit :: "git_head \<Rightarrow> jstr option" where
  "head_commit BareWorktree = None"
| "head_commit (Detached commit) = Some commit"
| "head_commit (OnBranch commit ref) = Some commit"

fun head_ref :: "git_head \<Rightarrow> jstr option" where
  "head_ref (OnBranch commit ref) = Some ref"
| "head_ref _ = None"

definition worktree_info :: "git_worktree \<Rightarrow> GitWorktreeInfo" where
  "worktree_info g = \<lparr>info_path = gw_path g, info_head = head_commit (gw_head g), info_branch = head_ref (gw_head g),
     info_lockedReason = gw_locked g, info_prunableReason = gw_prunable g\<rparr>"

text \<open>Which words a token of the format starts with.\<close>

lemma take_js_append: "take n (js s @ v) = js (take n s) @ take (n - length s) v"
  by (simp add: js_def take_map)

lemma take_js: "take n (js s) = js (take n s)"
  by (simp add: js_def take_map)

lemma has_word_self: "has_word w (js w @ v)"
  by (simp add: has_word_def startsWith_def)

lemma after_word_self: "after_word w (js w @ v) = v"
  by (simp add: after_word_def)

lemma has_word_literal: "has_word w (js k) \<longleftrightarrow> take (length w) k = w"
  by (simp add: has_word_def startsWith_def take_js)

lemma has_word_other: "length w \<le> length k \<Longrightarrow> has_word w (js k @ v) \<longleftrightarrow> take (length w) k = w"
  by (simp add: has_word_def startsWith_def take_js_append take_js)

lemma has_word_longer: "length k < length w \<Longrightarrow> take (length k) w \<noteq> k \<Longrightarrow> \<not> has_word w (js k @ v)"
proof
  assume "length k < length w" "take (length k) w \<noteq> k" "has_word w (js k @ v)"
  then have "take (length k) (take (length w) (js k @ v)) = take (length k) (js w)"
    by (simp add: has_word_def startsWith_def)
  then have "js k = js (take (length k) w)" using \<open>length k < length w\<close> by (simp add: js_def take_map)
  with \<open>take (length k) w \<noteq> k\<close> show False by simp
qed

lemmas word_simps = has_word_self after_word_self has_word_literal has_word_other has_word_longer

lemma longer_literal: "length v > length k \<Longrightarrow> js v @ x \<noteq> js k"
  by (auto dest!: arg_cong [of _ _ length])

lemma token_effects:
  "read_attribute (js ''bare'') c = c"
  "read_attribute (js ''detached'') c = c"
  "read_attribute (js ''HEAD '' @ v) c = c\<lparr>info_head := Some v\<rparr>"
  "read_attribute (js ''branch '' @ v) c = c\<lparr>info_branch := Some v\<rparr>"
  "read_attribute (js ''locked'') c = c\<lparr>info_lockedReason := Some []\<rparr>"
  "read_attribute (js ''locked '' @ v) c = c\<lparr>info_lockedReason := Some v\<rparr>"
  "read_attribute (js ''prunable'') c = c\<lparr>info_prunableReason := Some []\<rparr>"
  "read_attribute (js ''prunable '' @ v) c = c\<lparr>info_prunableReason := Some v\<rparr>"
  by (simp_all add: read_attribute_def word_simps longer_literal)

lemma not_worktree_tokens:
  "\<not> has_word ''worktree '' (js ''bare'')" "\<not> has_word ''worktree '' (js ''detached'')"
  "\<not> has_word ''worktree '' (js ''HEAD '' @ v)" "\<not> has_word ''worktree '' (js ''branch '' @ v)"
  "\<not> has_word ''worktree '' (js ''locked'')" "\<not> has_word ''worktree '' (js ''locked '' @ v)"
  "\<not> has_word ''worktree '' (js ''prunable'')" "\<not> has_word ''worktree '' (js ''prunable '' @ v)"
  by (simp_all add: word_simps)

text \<open>Tokens after the first, none empty and none opening a record, act on the current record.\<close>

lemma fold_attributes:
  "list_all (\<lambda>t. t \<noteq> [] \<and> \<not> has_word ''worktree '' t) ts \<Longrightarrow>
   fold read_token ts (ws, Some c) = (ws, Some (fold read_attribute ts c))"
  by (induction ts arbitrary: c) (auto simp: read_token_def)

lemma head_effects:
  "fold read_attribute (head_tokens h) c = (case h of
     BareWorktree \<Rightarrow> c
   | Detached commit \<Rightarrow> c\<lparr>info_head := Some commit\<rparr>
   | OnBranch commit ref \<Rightarrow> c\<lparr>info_head := Some commit, info_branch := Some ref\<rparr>)"
  by (cases h) (simp_all add: token_effects)

lemma reason_effects:
  "fold read_attribute (reason_tokens ''locked'' r) c =
     (case r of None \<Rightarrow> c | Some s \<Rightarrow> c\<lparr>info_lockedReason := Some s\<rparr>)"
  "fold read_attribute (reason_tokens ''prunable'' r) c =
     (case r of None \<Rightarrow> c | Some s \<Rightarrow> c\<lparr>info_prunableReason := Some s\<rparr>)"
proof -
  have j: "js ''locked'' @ js '' '' @ s = js ''locked '' @ s" "js ''prunable'' @ js '' '' @ s = js ''prunable '' @ s" for s
    by (simp_all add: js_def)
  show "fold read_attribute (reason_tokens ''locked'' r) c =
     (case r of None \<Rightarrow> c | Some s \<Rightarrow> c\<lparr>info_lockedReason := Some s\<rparr>)"
    by (cases r) (simp_all add: j token_effects del: append_assoc)
  show "fold read_attribute (reason_tokens ''prunable'' r) c =
     (case r of None \<Rightarrow> c | Some s \<Rightarrow> c\<lparr>info_prunableReason := Some s\<rparr>)"
    by (cases r) (simp_all add: j token_effects del: append_assoc)
qed

lemma unknown_effects:
  "list_all (\<lambda>t. t \<noteq> [] \<and> \<not> known_attribute t) ts \<Longrightarrow> fold read_attribute ts c = c"
  by (induction ts) (simp_all add: read_attribute_def known_attribute_def has_word_def)

lemma attributes_ok:
  "list_all (\<lambda>t. t \<noteq> [] \<and> \<not> has_word ''worktree '' t) (head_tokens h)"
  "list_all (\<lambda>t. t \<noteq> [] \<and> \<not> has_word ''worktree '' t) (reason_tokens ''locked'' r)"
  "list_all (\<lambda>t. t \<noteq> [] \<and> \<not> has_word ''worktree '' t) (reason_tokens ''prunable'' r)"
  by ((cases h; simp add: not_worktree_tokens), (cases r; simp add: word_simps)+)

lemma read_worktree:
  assumes "printable g"
  shows "fold read_token (worktree_tokens g @ [[]]) (ws, None) = (ws @ [worktree_info g], None)"
proof -
  have extra: "list_all (\<lambda>t. t \<noteq> [] \<and> \<not> known_attribute t) (gw_extra g)" using assms by (simp add: printable_def)
  then have "list_all (\<lambda>t. t \<noteq> [] \<and> \<not> has_word ''worktree '' t) (gw_extra g)"
    by (auto simp: list_all_iff known_attribute_def has_word_def)
  then have "fold read_token (worktree_tokens g) (ws, None) =
      (ws, Some (fold read_attribute (tl (worktree_tokens g)) (new_info (gw_path g))))"
    by (simp add: worktree_tokens_def read_token_def word_simps fold_attributes attributes_ok del: fold_append)
  also have "fold read_attribute (tl (worktree_tokens g)) (new_info (gw_path g)) = worktree_info g"
    by (simp add: worktree_tokens_def head_effects reason_effects unknown_effects [OF extra] worktree_info_def new_info_def
        split: git_head.split option.split)
  finally have "fold read_token (worktree_tokens g) (ws, None) = (ws, Some (worktree_info g))" .
  moreover have "read_token [] (ws, Some i) = (ws @ [i], None)" for i by (simp add: read_token_def)
  ultimately show ?thesis by simp
qed

lemma split_terminated:
  "list_all (\<lambda>t. 0 \<notin> set t) ts \<Longrightarrow> split_on 0 (concat (map (\<lambda>t. t @ [0]) ts) @ rest) = ts @ split_on 0 rest"
  by (induction ts) (simp_all add: split_on_append)

lemma split_printed:
  "list_all printable gs \<Longrightarrow>
   split_on 0 (print_worktrees gs) = concat (map (\<lambda>g. worktree_tokens g @ [[]]) gs) @ [[]]"
proof (induction gs)
  case (Cons g gs)
  have "list_all (\<lambda>t. 0 \<notin> set t) (worktree_tokens g)" using Cons.prems by (simp add: printable_def)
  from split_terminated [OF this, of "0 # print_worktrees gs"] Cons show ?case
    by (simp add: print_worktrees_def print_worktree_def)
qed (simp add: print_worktrees_def)

lemma read_worktrees:
  "list_all printable gs \<Longrightarrow>
   fold read_token (concat (map (\<lambda>g. worktree_tokens g @ [[]]) gs)) (ws, None) = (ws @ map worktree_info gs, None)"
proof (induction gs arbitrary: ws)
  case (Cons g gs)
  have "printable g" "list_all printable gs" using Cons.prems by simp_all
  from read_worktree [OF this(1), of ws] Cons.IH [OF this(2)] show ?case by simp
qed simp

text \<open>C34. The listing parser inverts git's documented porcelain format: whatever worktrees git prints (bare,
  detached or on a branch, locked or prunable with or without a reason, with attributes the parser does
  not know), parsing the text gives back their paths, heads, branches and reasons, in order.\<close>

theorem porcelain_roundtrip:
  assumes "list_all printable gs"
  shows "parseWorktreePorcelain (print_worktrees gs) = map worktree_info gs"
  using read_worktrees [OF assms, of "[]"]
  by (simp add: parseWorktreePorcelain_def split_printed [OF assms] read_token_def)

definition sample_worktrees :: "git_worktree list" where
  "sample_worktrees = [
     \<lparr>gw_path = js ''/r'', gw_head = OnBranch (js ''ab'') (js ''refs/heads/main''), gw_locked = None, gw_prunable = None,
      gw_extra = []\<rparr>,
     \<lparr>gw_path = js ''/m/k'', gw_head = Detached (js ''cd''), gw_locked = Some (js ''benchhand:k''), gw_prunable = Some [],
      gw_extra = [js ''future thing'']\<rparr>]"

lemma sample_printable: "list_all printable sample_worktrees"
  by code_simp

theorem porcelain_roundtrip_witness:
  "map info_lockedReason (parseWorktreePorcelain (print_worktrees sample_worktrees)) = [None, Some (js ''benchhand:k'')]"
  by (simp add: porcelain_roundtrip [OF sample_printable]) (simp add: sample_worktrees_def worktree_info_def)

end
