(* ===== verification/Registry.thy ===== *)
theory Registry
  imports RegistryTables GitWorktree
begin

text \<open>
  \<open>class WorkspaceRegistry\<close> of \<open>packages/workspace/src/index.ts\<close>. The state holds the operating system,
  the tables, and what other tasks and connections will do to the tables at each \<open>await\<close>; database
  calls are synchronous, so nothing happens between two of them without an \<open>await\<close> in between. Runs
  of git, answers of \<open>realpath\<close> and registrations of managed worktrees are recorded in \<open>rw_log\<close>, which the
  code does not read. Git, SHA-256, the schema checker and the device and birth time of inodes are parameters.
\<close>

section \<open>State\<close>

datatype registry_event =
    RanGit "jstr list" registry_db "exec_error + jstr"     \<comment> \<open>arguments, tables at the call, answer\<close>
  | Resolved abspath abspath                              \<comment> \<open>a path given to \<open>realpath\<close> and its answer\<close>
  | Registered ManagedWorktreeRow worktree_action

record rworld =
  rw_os :: world
  rw_db :: registry_db
  rw_others :: "(registry_db \<Rightarrow> registry_db) list"
  rw_clock :: "nat \<Rightarrow> jstr"
  rw_ticks :: nat
  rw_log :: "registry_event list"

type_synonym 'a reg = "(rworld, 'a) io"

record registry =
  cfg_ownerInstance :: "jstr option"
  cfg_worktreeRoot :: "abspath option"
  cfg_cwd :: abspath
  cfg_chk :: checker
  cfg_sha256 :: "bytes \<Rightarrow> jstr"
  cfg_git :: "jstr list \<Rightarrow> fsys \<Rightarrow> (exec_error + jstr) \<times> fsys"
  cfg_meta :: "fsys \<Rightarrow> nat \<Rightarrow> nat \<times> nat"

text \<open>What the others do while this task waits, then the rest of the task.\<close>

definition others_act :: "rworld \<Rightarrow> rworld" where
  "others_act rw =
     (case rw_others rw of
        [] \<Rightarrow> rw
      | f # fs \<Rightarrow> rw\<lparr>rw_db := f (rw_db rw), rw_others := fs\<rparr>)"

definition await :: "'a os \<Rightarrow> 'a reg" where
  "await m rw = (case m (rw_os rw) of (x, w') \<Rightarrow> (x, others_act (rw\<lparr>rw_os := w'\<rparr>)))"

definition sync_os :: "'a os \<Rightarrow> 'a reg" where
  "sync_os m rw = (case m (rw_os rw) of (x, w') \<Rightarrow> (x, rw\<lparr>rw_os := w'\<rparr>))"

definition in_db :: "(registry_db \<Rightarrow> 'a result \<times> registry_db) \<Rightarrow> 'a reg" where
  "in_db f rw = (case f (rw_db rw) of (x, db') \<Rightarrow> (x, rw\<lparr>rw_db := db'\<rparr>))"

definition query :: "(registry_db \<Rightarrow> 'a result) \<Rightarrow> 'a reg" where
  "query f rw = (f (rw_db rw), rw)"

definition emit :: "registry_event \<Rightarrow> unit reg" where
  "emit ev rw = (Inr (), rw\<lparr>rw_log := rw_log rw @ [ev]\<rparr>)"

definition real_path :: "abspath \<Rightarrow> abspath reg" where
  "real_path p =
     io_bind (await (os_realpath p)) (\<lambda>q. io_bind (emit (Resolved p q)) (\<lambda>_. io_return q))"

definition now :: "jstr reg" where
  "now rw = (Inr (rw_clock rw (rw_ticks rw)), rw\<lparr>rw_ticks := Suc (rw_ticks rw)\<rparr>)"

definition createWorkspaceId :: "jstr reg" where
  "createWorkspaceId = io_bind (sync_os randomUUID) (\<lambda>uuid. io_result (parseEntityId Workspace (js ''ws_'' @ uuid)))"

text \<open>Git acts on the file system; a program that could not be run has no output and no exit code.\<close>

definition run_git_program :: "registry \<Rightarrow> jstr list \<Rightarrow> (exec_error + jstr) os" where
  "run_git_program cfg args w =
     (case syscall (\<lambda>_ fs. case cfg_git cfg args fs of (r, fs') \<Rightarrow> Inr (r, fs', [])) w of
        (Inl e, w') \<Rightarrow> (Inr (Inl \<lparr>exec_stderr = Some [], exec_code = None\<rparr>), w')
      | (Inr r, w') \<Rightarrow> (Inr r, w'))"

definition git_exec :: "registry \<Rightarrow> rworld execFile" where
  "git_exec cfg args =
     io_bind (query Inr) (\<lambda>db.
     io_bind (await (run_git_program cfg args)) (\<lambda>answer.
     io_bind (emit (RanGit args db answer)) (\<lambda>_. io_return answer)))"

section \<open>Errors and paths\<close>

definition registry_error :: "string \<Rightarrow> jstr \<Rightarrow> jstr \<Rightarrow> thrown" where
  "registry_error code path msg = WorkspaceRegistryError (js code) path msg"

definition classifyOpenPathError :: "jstr \<Rightarrow> thrown \<Rightarrow> thrown" where
  "classifyOpenPathError path error =
     (if hasErrnoCode error ENOENT
      then registry_error ''WORKSPACE_PATH_NOT_FOUND'' path (js ''workspace path does not exist: '' @ path)
      else if hasErrnoCode error EACCES \<or> hasErrnoCode error EPERM
      then registry_error ''WORKSPACE_PATH_INACCESSIBLE'' path (js ''workspace path is inaccessible: '' @ path)
      else if hasErrnoCode error ENOTDIR
      then registry_error ''WORKSPACE_PATH_NOT_DIRECTORY'' path (js ''workspace path is not a directory: '' @ path)
      else if is_error error
      then registry_error ''WORKSPACE_PATH_FAILURE'' path (error_message error)
      else registry_error ''WORKSPACE_PATH_FAILURE'' path (js ''workspace path could not be inspected: '' @ path))"

fun is_registry_error :: "thrown \<Rightarrow> bool" where
  "is_registry_error (WorkspaceRegistryError _ _ _) \<longleftrightarrow> True"
| "is_registry_error _ \<longleftrightarrow> False"

text \<open>\<open>if (error instanceof GitWorktreeError) throw new WorkspaceRegistryError(error.code, path, error.message)\<close>\<close>

fun from_git_error :: "jstr \<Rightarrow> thrown \<Rightarrow> thrown" where
  "from_git_error path (GitWorktreeError code msg stderr) = WorkspaceRegistryError code path msg"
| "from_git_error path e = e"

definition resolve_path :: "registry \<Rightarrow> jstr \<Rightarrow> abspath" where
  "resolve_path cfg s = resolve_segments (if posix_isAbsolute s then [] else cfg_cwd cfg) (split_on slash s)"

record BigIntStats =
  bs_body :: file_body
  bs_dev :: nat
  bs_ino :: nat
  bs_birthtimeNs :: nat

text \<open>\<open>stat(path, { bigint: true })\<close>; the root directory has no entry of its own and gets inode number 0.\<close>

definition os_stat :: "(fsys \<Rightarrow> nat \<Rightarrow> nat \<times> nat) \<Rightarrow> abspath \<Rightarrow> BigIntStats os" where
  "os_stat meta p = observe (\<lambda>_ fs.
     bind_res (existing fs True p) (\<lambda>(q, b).
       let ino = (case map_of (names fs) q of Some i \<Rightarrow> i | None \<Rightarrow> 0) in
       Inr \<lparr>bs_body = b, bs_dev = fst (meta fs ino), bs_ino = ino, bs_birthtimeNs = snd (meta fs ino)\<rparr>))"

definition filesystemIdentityFromStats :: "BigIntStats \<Rightarrow> jstr" where
  "filesystemIdentityFromStats st =
     js_nat (bs_dev st) @ js '':'' @ js_nat (bs_ino st) @ js '':'' @ js_nat (bs_birthtimeNs st)"

definition resolveWorkspaceDirectory :: "registry \<Rightarrow> abspath \<Rightarrow> (abspath \<times> jstr) reg" where
  "resolveWorkspaceDirectory cfg requested =
     io_bind (io_map_error (classifyOpenPathError (path_text requested)) (real_path requested))
       (\<lambda>canonical.
     io_try
       (io_bind (await (os_stat (cfg_meta cfg) canonical)) (\<lambda>st.
          if \<not> isDirectory (bs_body st)
          then io_throw (registry_error ''WORKSPACE_PATH_NOT_DIRECTORY'' (path_text requested)
                 (js ''workspace path is not a directory: '' @ path_text requested))
          else io_return (canonical, filesystemIdentityFromStats st)))
       (\<lambda>e. if is_registry_error e then io_throw e
            else io_throw (classifyOpenPathError (path_text requested) e)))"

text \<open>The walk up to the nearest directory that holds \<open>.git\<close>.\<close>

function findRepoRoot :: "abspath \<Rightarrow> abspath option reg" where
  "findRepoRoot current =
     io_try (io_bind (await (os_lstat (current @ [js ''.git'']))) (\<lambda>_. io_return (Some current)))
       (\<lambda>e. if \<not> hasErrnoCode e ENOENT \<and> \<not> hasErrnoCode e ENOTDIR
            then (if hasErrnoCode e EACCES \<or> hasErrnoCode e EPERM then io_return None else io_throw e)
            else if current = [] then io_return None
            else findRepoRoot (butlast current))"
  by pat_completeness auto
termination
  by (relation "measure length") auto

declare findRepoRoot.simps [simp del]

definition inspectPersistedWorkspacePath :: "registry \<Rightarrow> jstr \<Rightarrow> jstr \<Rightarrow> WorkspaceStatus reg" where
  "inspectPersistedWorkspacePath cfg path identity =
     io_try
       (io_bind (await (os_stat (cfg_meta cfg) (components path))) (\<lambda>st.
          io_return (if \<not> isDirectory (bs_body st) then Invalid
                     else if filesystemIdentityFromStats st = identity then Available else Invalid)))
       (\<lambda>e. if hasErrnoCode e ENOENT \<or> hasErrnoCode e ENOTDIR then io_return Missing
            else if hasErrnoCode e EACCES \<or> hasErrnoCode e EPERM then io_return Inaccessible
            else io_throw e)"

text \<open>The longest existing prefix made canonical, the missing rest appended as it is.\<close>

function canonicalize_from :: "abspath \<Rightarrow> jstr list \<Rightarrow> abspath reg" where
  "canonicalize_from cursor missing =
     io_try (io_bind (real_path cursor) (\<lambda>existing_part. io_return (existing_part @ missing)))
       (\<lambda>e. if \<not> hasErrnoCode e ENOENT then io_throw e
            else if cursor = [] then io_throw e
            else canonicalize_from (butlast cursor) (last cursor # missing))"
  by pat_completeness auto
termination
  by (relation "measure (\<lambda>(cursor, missing). length cursor)") auto

declare canonicalize_from.simps [simp del]

definition canonicalizePotentialPath :: "abspath \<Rightarrow> abspath reg" where
  "canonicalizePotentialPath path = canonicalize_from path []"

definition isSameOrDescendantPath :: "abspath \<Rightarrow> abspath \<Rightarrow> bool" where
  "isSameOrDescendantPath parent candidate =
     (let pathFromParent = relative_path parent candidate in
      pathFromParent = [] \<or> (pathFromParent \<noteq> dotdot \<and> \<not> startsWith pathFromParent (dotdot @ [slash])
        \<and> \<not> posix_isAbsolute pathFromParent))"

definition delay :: "unit reg" where
  "delay = await (io_return ())"

definition worktreeOwnershipKey :: "registry \<Rightarrow> jstr \<Rightarrow> jstr \<Rightarrow> jstr" where
  "worktreeOwnershipKey cfg identity commit =
     take 20 (cfg_sha256 cfg (utf8_encode identity @ [0] @ utf8_encode commit))"

text \<open>\<open>mkdir(path, { recursive: true })\<close>: \<open>cur\<close> is the directory reached.\<close>

fun make_dirs :: "fsys \<Rightarrow> abspath \<Rightarrow> jstr list \<Rightarrow> errno + fsys \<times> event list" where
  "make_dirs fs cur [] = Inr (fs, [])"
| "make_dirs fs cur (c # cs) =
     (case existing fs True (cur @ [c]) of
        Inr (q, b) \<Rightarrow>
          if b = Directory then make_dirs fs q cs
          else if cs = [] then Inl EEXIST else Inl ENOTDIR
      | Inl ENOENT \<Rightarrow>
          if taken fs (cur @ [c]) then Inl EEXIST
          else
            (let i = next_inode fs;
                 fs' = (add_name (cur @ [c]) i (set_inode i \<lparr>ino_body = Directory, ino_mode = 0x1ED\<rparr> fs))
                         \<lparr>next_inode := Suc i\<rparr> in
             map_sum id (\<lambda>(fs'', evs). (fs'', Created (cur @ [c]) (cur @ [c]) i # evs)) (make_dirs fs' (cur @ [c]) cs))
      | Inl e \<Rightarrow> Inl e)"

definition os_mkdir_recursive :: "abspath \<Rightarrow> unit os" where
  "os_mkdir_recursive p = syscall (\<lambda>_ fs. map_sum id (\<lambda>(fs', evs). ((), fs', evs)) (make_dirs fs [] p))"

section \<open>Reading rows\<close>

definition nullable_json :: "jstr option \<Rightarrow> json" where
  "nullable_json v = (case v of None \<Rightarrow> JNull | Some s \<Rightarrow> JStr s)"

definition row_tree :: "WorkspaceRow \<Rightarrow> json" where
  "row_tree r = JObj
     [(js ''workspaceId'', JStr (ws_workspace_id r)), (js ''canonicalPath'', JStr (ws_canonical_path r)),
      (js ''requestedPath'', JStr (ws_requested_path r)), (js ''mode'', JStr (ws_mode r)),
      (js ''repoRoot'', nullable_json (ws_repo_root r)), (js ''worktreePath'', nullable_json (ws_worktree_path r)),
      (js ''baseRef'', nullable_json (ws_base_ref r)), (js ''branch'', nullable_json (ws_branch r)),
      (js ''createdAt'', JStr (ws_created_at r)), (js ''lastUsedAt'', JStr (ws_last_used_at r)),
      (js ''ownerInstance'', nullable_json (ws_owner_instance r)), (js ''status'', JStr (ws_status r)),
      (js ''metadataVersion'', JNum (JInt (ws_metadata_version r)))]"

fun mode_text :: "WorkspaceMode \<Rightarrow> jstr" where
  "mode_text Checkout = js ''checkout''"
| "mode_text Worktree = js ''worktree''"

definition mode_of_text :: "jstr \<Rightarrow> WorkspaceMode option" where
  "mode_of_text s = List.find (\<lambda>m. mode_text m = s) [Checkout, Worktree]"

definition status_of_text :: "jstr \<Rightarrow> WorkspaceStatus option" where
  "status_of_text s = List.find (\<lambda>st. workspace_status_text st = s) [Available, Missing, Inaccessible, Invalid]"

text \<open>The parser returns the object it is given, so the record has the fields of the row.\<close>

definition rowToWorkspaceRecord :: "checker \<Rightarrow> WorkspaceRow \<Rightarrow> WorkspaceRecord result" where
  "rowToWorkspaceRecord chk r =
     bind_res (parseWorkspaceRecord chk (row_tree r)) (\<lambda>_.
       case (mode_of_text (ws_mode r), status_of_text (ws_status r)) of
         (Some m, Some st) \<Rightarrow> Inr \<lparr>workspaceId = ws_workspace_id r, canonicalPath = ws_canonical_path r,
           requestedPath = ws_requested_path r, mode = m, repoRoot = ws_repo_root r,
           worktreePath = ws_worktree_path r, baseRef = ws_base_ref r, branch = ws_branch r,
           createdAt = ws_created_at r, lastUsedAt = ws_last_used_at r, ownerInstance = ws_owner_instance r,
           status = st, metadataVersion = nat (ws_metadata_version r)\<rparr>
       | _ \<Rightarrow> Inl (invalid_label (js ''workspace record'')))"

definition registry_read :: "registry \<Rightarrow> jstr \<Rightarrow> registry_db \<Rightarrow> WorkspaceRecord option result" where
  "registry_read cfg i db =
     (case find_workspace i db of
        None \<Rightarrow> Inr None
      | Some row \<Rightarrow> map_sum id Some (rowToWorkspaceRecord (cfg_chk cfg) row))"

definition readRequired :: "registry \<Rightarrow> jstr \<Rightarrow> registry_db \<Rightarrow> WorkspaceRecord result" where
  "readRequired cfg i db =
     bind_res (registry_read cfg i db) (\<lambda>workspace. case workspace of
         Some r \<Rightarrow> Inr r
       | None \<Rightarrow> Inl (JsError (js ''workspace '' @ i @ js '' disappeared from registry'')))"

definition readFilesystemIdentity :: "jstr \<Rightarrow> registry_db \<Rightarrow> jstr result" where
  "readFilesystemIdentity i db =
     (case find_workspace i db of
        Some row \<Rightarrow> Inr (ws_filesystem_identity row)
      | None \<Rightarrow> Inl (JsError (js ''workspace '' @ i @ js '' disappeared from registry'')))"

section \<open>\<open>open\<close> in checkout mode and \<open>get\<close>\<close>

definition open_checkout :: "registry \<Rightarrow> jstr \<Rightarrow> WorkspaceRecord reg" where
  "open_checkout cfg requested =
     (let absolute = resolve_path cfg requested in
      io_bind (resolveWorkspaceDirectory cfg absolute) (\<lambda>(canonical, identity).
      io_bind (findRepoRoot canonical) (\<lambda>root.
      io_bind now (\<lambda>timestamp.
      io_bind createWorkspaceId (\<lambda>candidate.
      io_bind (in_db (upsert_checkout
        \<lparr>ws_workspace_id = candidate, ws_canonical_path = path_text canonical,
         ws_requested_path = path_text absolute, ws_filesystem_identity = identity,
         ws_mode = js ''checkout'', ws_repo_root = map_option path_text root, ws_worktree_path = None,
         ws_base_ref = None, ws_branch = None, ws_created_at = timestamp, ws_last_used_at = timestamp,
         ws_owner_instance = cfg_ownerInstance cfg, ws_status = js ''available'', ws_metadata_version = 1\<rparr>)) (\<lambda>row.
      io_result (rowToWorkspaceRecord (cfg_chk cfg) row)))))))"

definition registry_get :: "registry \<Rightarrow> jstr \<Rightarrow> WorkspaceRecord option reg" where
  "registry_get cfg i =
     io_bind (query (registry_read cfg i)) (\<lambda>existing. case existing of None \<Rightarrow> io_return None | Some old \<Rightarrow>
     io_bind (query (\<lambda>db. Inr (find_workspace i db))) (\<lambda>found. case found of None \<Rightarrow> io_return None | Some row \<Rightarrow>
     io_bind (inspectPersistedWorkspacePath cfg (canonicalPath old) (ws_filesystem_identity row)) (\<lambda>current.
       if current \<noteq> status old
       then
         io_bind (in_db (\<lambda>db. case update_workspaces (\<lambda>r. ws_workspace_id r = i)
             (\<lambda>r. r\<lparr>ws_status := workspace_status_text current, ws_metadata_version := ws_metadata_version r + 1\<rparr>) db of
               (changes, db') \<Rightarrow> (Inr changes, db'))) (\<lambda>changes.
         if changes \<noteq> 1
         then io_throw (JsError (js ''workspace '' @ i @ js '' disappeared during revalidation''))
         else query (registry_read cfg i))
       else io_return (Some old))))"

section \<open>Managed worktrees\<close>

record ManagedWorktreeRegistration =
  reg_ownershipKey :: jstr
  reg_absoluteRequestedPath :: abspath
  reg_repoRoot :: abspath
  reg_sourceFilesystemIdentity :: jstr
  reg_requestedBaseRef :: jstr
  reg_baseCommit :: jstr
  reg_branch :: jstr
  reg_worktreePath :: abspath

definition worktree_row :: "registry \<Rightarrow> ManagedWorktreeRegistration \<Rightarrow> abspath \<Rightarrow> jstr \<Rightarrow> jstr \<Rightarrow> jstr \<Rightarrow> WorkspaceRow" where
  "worktree_row cfg r canonical identity timestamp candidate =
     \<lparr>ws_workspace_id = candidate, ws_canonical_path = path_text canonical,
      ws_requested_path = path_text (reg_absoluteRequestedPath r), ws_filesystem_identity = identity,
      ws_mode = js ''worktree'', ws_repo_root = Some (path_text (reg_repoRoot r)),
      ws_worktree_path = Some (path_text canonical), ws_base_ref = Some (reg_baseCommit r),
      ws_branch = Some (reg_branch r), ws_created_at = timestamp, ws_last_used_at = timestamp,
      ws_owner_instance = cfg_ownerInstance cfg, ws_status = js ''available'', ws_metadata_version = 1\<rparr>"

definition managed_row :: "ManagedWorktreeRegistration \<Rightarrow> abspath \<Rightarrow> jstr \<Rightarrow> jstr \<Rightarrow> ManagedWorktreeRow" where
  "managed_row r canonical timestamp candidate =
     \<lparr>mw_ownership_key = reg_ownershipKey r, mw_workspace_id = candidate,
      mw_source_repo_root = path_text (reg_repoRoot r),
      mw_source_filesystem_identity = reg_sourceFilesystemIdentity r,
      mw_requested_base_ref = reg_requestedBaseRef r, mw_base_commit = reg_baseCommit r,
      mw_branch = reg_branch r, mw_worktree_path = path_text canonical, mw_status = js ''active'',
      mw_created_at = timestamp, mw_updated_at = timestamp\<rparr>"

text \<open>The work of the registering transaction; \<open>Some m\<close> when it inserted \<open>m\<close>.\<close>

definition register_work ::
    "registry \<Rightarrow> ManagedWorktreeRegistration \<Rightarrow> worktree_action \<Rightarrow> abspath \<Rightarrow> jstr \<Rightarrow> jstr \<Rightarrow> jstr \<Rightarrow>
     registry_db \<Rightarrow> (jstr \<times> ManagedWorktreeRow option) result \<times> registry_db" where
  "register_work cfg r action canonical identity timestamp candidate db =
     (case List.find (\<lambda>m. mw_ownership_key m = reg_ownershipKey r \<and> mw_status m = js ''active'') (managed_rows db) of
        Some active \<Rightarrow>
          (map_sum id (\<lambda>i. (i, None)) (parseEntityId Workspace (mw_workspace_id active)), db)
      | None \<Rightarrow>
          (case insert_workspace (worktree_row cfg r canonical identity timestamp candidate) db of
             (Inl e, db1) \<Rightarrow> (Inl e, db1)
           | (Inr _, db1) \<Rightarrow>
               (case insert_managed (managed_row r canonical timestamp candidate) db1 of
                  (Inl e, db2) \<Rightarrow> (Inl e, db2)
                | (Inr _, db2) \<Rightarrow>
                    (Inr (candidate, Some (managed_row r canonical timestamp candidate)),
                     appendWorktreeJournal (reg_ownershipKey r) (Some candidate) action
                       [(js ''canonicalPath'', JStr (path_text canonical))] db2))))"

definition registerManagedWorktree ::
    "registry \<Rightarrow> ManagedWorktreeRegistration \<Rightarrow> worktree_action \<Rightarrow> WorkspaceRecord reg" where
  "registerManagedWorktree cfg r action =
     io_bind (resolveWorkspaceDirectory cfg (reg_worktreePath r)) (\<lambda>(canonical, identity).
     io_bind now (\<lambda>timestamp.
     io_bind createWorkspaceId (\<lambda>candidate.
     io_bind (in_db (transaction (register_work cfg r action canonical identity timestamp candidate))) (\<lambda>(i, inserted).
     io_bind (case inserted of Some m \<Rightarrow> emit (Registered m action) | None \<Rightarrow> io_return ()) (\<lambda>_.
     query (readRequired cfg i))))))"

text \<open>A listed worktree is this one when its path resolves to the expected one and head, branch and lock
  reason agree. (\<open>toLowerCase\<close> of text outside ASCII never is a lower-case hexadecimal commit id.)\<close>

definition owned_entry :: "ManagedWorktreeRegistration \<Rightarrow> GitWorktreeInfo \<Rightarrow> bool" where
  "owned_entry r g \<longleftrightarrow> map_option (map lower_unit) (info_head g) = Some (reg_baseCommit r)
     \<and> info_branch g = Some (js ''refs/heads/'' @ reg_branch r)
     \<and> info_lockedReason g = Some (lock_reason (reg_ownershipKey r))"

definition absolute_path :: "registry \<Rightarrow> jstr \<Rightarrow> abspath" where
  "absolute_path cfg s = (if posix_isAbsolute s then components s else cfg_cwd cfg @ components s)"

fun match_worktree ::
    "registry \<Rightarrow> ManagedWorktreeRegistration \<Rightarrow> abspath \<Rightarrow> GitWorktreeInfo list \<Rightarrow> WorkspaceRecord option reg" where
  "match_worktree cfg r expected [] = io_return None"
| "match_worktree cfg r expected (g # gs) =
     io_bind (io_try (io_bind (real_path (absolute_path cfg (info_path g))) (\<lambda>p. io_return (Some p)))
                (\<lambda>_. io_return None)) (\<lambda>canonical.
       if canonical \<noteq> Some expected then match_worktree cfg r expected gs
       else if \<not> owned_entry r g then match_worktree cfg r expected gs
       else io_bind (registerManagedWorktree cfg r Reconciled) (\<lambda>w. io_return (Some w)))"

definition tryReconcilePartialWorktree ::
    "registry \<Rightarrow> ManagedWorktreeRegistration \<Rightarrow> WorkspaceRecord option reg" where
  "tryReconcilePartialWorktree cfg r =
     io_bind (query (\<lambda>db. Inr (hasWorktreeJournalAction db (reg_ownershipKey r) CreateIntent))) (\<lambda>intent.
       if \<not> intent then io_return None
       else
         io_bind (io_try (io_bind (real_path (reg_worktreePath r)) (\<lambda>p. io_return (Some p)))
                    (\<lambda>_. io_return None)) (\<lambda>expected. case expected of None \<Rightarrow> io_return None | Some p \<Rightarrow>
         io_bind (io_map_error (from_git_error (path_text (reg_repoRoot r)))
                    (listGitWorktrees (git_exec cfg) (path_text (reg_repoRoot r)))) (\<lambda>worktrees.
         match_worktree cfg r p worktrees)))"

definition WORKTREE_INFLIGHT_RECONCILE_ATTEMPTS :: nat where
  "WORKTREE_INFLIGHT_RECONCILE_ATTEMPTS = 40"

text \<open>\<open>left\<close> is the number of attempts still to make.\<close>

fun wait_loop :: "registry \<Rightarrow> ManagedWorktreeRegistration \<Rightarrow> nat \<Rightarrow> WorkspaceRecord option reg" where
  "wait_loop cfg r 0 = tryReconcilePartialWorktree cfg r"
| "wait_loop cfg r (Suc left) =
     io_bind (tryReconcilePartialWorktree cfg r) (\<lambda>reconciled. case reconciled of Some w \<Rightarrow> io_return (Some w) | None \<Rightarrow>
     io_bind (query (\<lambda>db. Inr (hasWorktreeJournalAction db (reg_ownershipKey r) CreateFailed
                           \<or> hasWorktreeJournalAction db (reg_ownershipKey r) CleanupIntent))) (\<lambda>given_up.
       if given_up then io_return None
       else io_bind (if 0 < left then delay else io_return ()) (\<lambda>_. wait_loop cfg r left)))"

definition waitForInflightWorktree :: "registry \<Rightarrow> ManagedWorktreeRegistration \<Rightarrow> WorkspaceRecord option reg" where
  "waitForInflightWorktree cfg r = wait_loop cfg r WORKTREE_INFLIGHT_RECONCILE_ATTEMPTS"

end
