(* ===== verification/Worktrees.thy ===== *)
theory Worktrees
  imports Registry
begin

text \<open>
  \<open>open\<close> in worktree mode (\<open>#openWorktree\<close> of \<open>packages/workspace/src/index.ts\<close>), the dispatch of \<open>open\<close>
  and the constructor. The stages of \<open>#openWorktree\<close> are named after what they find out.
\<close>

section \<open>The request\<close>

definition cleanup_required :: "jstr \<Rightarrow> thrown" where
  "cleanup_required path = registry_error ''WORKTREE_CLEANUP_REQUIRED'' path
     (js ''managed worktree requires explicit cleanup or recovery: '' @ path)"

text \<open>Up to the ownership key: the source repository, the managed root and the commit.\<close>

definition identify_source :: "registry \<Rightarrow> jstr \<Rightarrow> jstr \<Rightarrow> (abspath \<times> ManagedWorktreeRegistration) reg" where
  "identify_source cfg requested requestedBaseRef =
     (let absolute = resolve_path cfg requested in
      io_bind (resolveWorkspaceDirectory cfg absolute) (\<lambda>(source, _).
      io_bind (findRepoRoot source) (\<lambda>found. case found of
        None \<Rightarrow> io_throw (registry_error ''WORKTREE_REPO_REQUIRED'' (path_text absolute)
                  (js ''worktree mode requires a Git repository: '' @ path_text absolute))
      | Some root \<Rightarrow>
      (case cfg_worktreeRoot cfg of
        None \<Rightarrow> io_throw (registry_error ''WORKTREE_ROOT_UNCONFIGURED'' (path_text absolute)
                  (js ''worktree mode requires a configured managed worktree root''))
      | Some configured \<Rightarrow>
      io_bind (canonicalizePotentialPath configured) (\<lambda>managed.
      if isSameOrDescendantPath root managed
      then io_throw (registry_error ''WORKTREE_ROOT_CONFLICT'' (path_text managed)
             (js ''managed worktree root must not be inside the source repository: '' @ path_text managed))
      else
      io_bind (await (os_stat (cfg_meta cfg) root)) (\<lambda>st.
      io_bind (io_map_error (from_git_error requestedBaseRef)
                 (resolveGitCommit (git_exec cfg) (path_text root) requestedBaseRef)) (\<lambda>commit.
      let identity = filesystemIdentityFromStats st;
          key = worktreeOwnershipKey cfg identity commit in
      io_return (managed,
        \<lparr>reg_ownershipKey = key, reg_absoluteRequestedPath = absolute, reg_repoRoot = root,
         reg_sourceFilesystemIdentity = identity, reg_requestedBaseRef = requestedBaseRef,
         reg_baseCommit = commit, reg_branch = js ''benchhand/'' @ key, reg_worktreePath = managed @ [key]\<rparr>))))))))"

section \<open>A worktree that is already registered\<close>

definition touch_worktree :: "registry \<Rightarrow> abspath \<Rightarrow> jstr \<Rightarrow> jstr \<Rightarrow> WorkspaceRecord reg" where
  "touch_worktree cfg requested timestamp i =
     io_bind (in_db (\<lambda>db. case update_workspaces (\<lambda>r. ws_workspace_id r = i)
         (\<lambda>r. r\<lparr>ws_requested_path := path_text requested, ws_last_used_at := timestamp,
                ws_owner_instance := cfg_ownerInstance cfg, ws_status := js ''available'',
                ws_metadata_version := ws_metadata_version r + 1\<rparr>) db of (_, db') \<Rightarrow> (Inr (), db'))) (\<lambda>_.
     query (readRequired cfg i))"

text \<open>The transaction that marks a worktree whose path is gone.\<close>

definition mark_unavailable :: "jstr \<Rightarrow> ManagedWorktreeRow \<Rightarrow> jstr \<Rightarrow> registry_db \<Rightarrow> unit result \<times> registry_db" where
  "mark_unavailable key m timestamp db =
     (case update_managed (\<lambda>r. mw_ownership_key r = key \<and> mw_status r = js ''active'')
         (\<lambda>r. r\<lparr>mw_status := js ''cleanup-required'', mw_updated_at := timestamp\<rparr>) db of
        (changes, db1) \<Rightarrow>
          if changes = 1
          then (case parseEntityId Workspace (mw_workspace_id m) of
              Inl e \<Rightarrow> (Inl e, db1)
            | Inr i \<Rightarrow> (Inr (), appendWorktreeJournal key (Some i) CleanupIntent
                         [(js ''reason'', JStr (js ''managed-worktree-path-unavailable''))] db1))
          else (Inr (), db1))"

definition reuse_managed ::
    "registry \<Rightarrow> ManagedWorktreeRegistration \<Rightarrow> ManagedWorktreeRow \<Rightarrow> WorkspaceRecord reg" where
  "reuse_managed cfg r m =
     (if mw_status m = js ''cleanup-required'' then io_throw (cleanup_required (mw_worktree_path m))
      else
        io_bind (io_result (parseEntityId Workspace (mw_workspace_id m))) (\<lambda>i.
        io_bind (query (registry_read cfg i)) (\<lambda>workspace.
        io_bind (case workspace of
            None \<Rightarrow> io_return None
          | Some w \<Rightarrow>
              io_bind (query (readFilesystemIdentity (workspaceId w))) (\<lambda>identity.
              io_bind (inspectPersistedWorkspacePath cfg (canonicalPath w) identity) (\<lambda>st.
                if st = Available
                then io_bind now (\<lambda>timestamp.
                     io_bind (touch_worktree cfg (reg_absoluteRequestedPath r) timestamp (workspaceId w)) (\<lambda>w'.
                     io_return (Some w')))
                else io_return None))) (\<lambda>reused.
        case reused of Some w \<Rightarrow> io_return w | None \<Rightarrow>
        io_bind now (\<lambda>timestamp.
        io_bind (in_db (transaction (mark_unavailable (reg_ownershipKey r) m timestamp))) (\<lambda>_.
        io_throw (cleanup_required (mw_worktree_path m))))))))"

section \<open>A worktree that is not registered\<close>

text \<open>The path may be taken, by a worktree whose registration is still missing or by something else.\<close>

definition adopt_occupied :: "registry \<Rightarrow> ManagedWorktreeRegistration \<Rightarrow> WorkspaceRecord option reg" where
  "adopt_occupied cfg r =
     io_try
       (io_bind (await (os_lstat (reg_worktreePath r))) (\<lambda>_.
        io_bind (tryReconcilePartialWorktree cfg r) (\<lambda>reconciled. case reconciled of
          Some w \<Rightarrow> io_return (Some w)
        | None \<Rightarrow> io_throw (registry_error ''WORKTREE_PATH_OCCUPIED'' (path_text (reg_worktreePath r))
            (js ''managed worktree path is already occupied without matching ownership: ''
              @ path_text (reg_worktreePath r))))))
       (\<lambda>e. if is_registry_error e then io_throw e
            else if \<not> hasErrnoCode e ENOENT then io_throw (classifyOpenPathError (path_text (reg_worktreePath r)) e)
            else io_return None)"

text \<open>So may the branch: by a creation in flight, by one that was interrupted, or by a foreign branch.\<close>

definition branch_conflict ::
    "registry \<Rightarrow> ManagedWorktreeRegistration \<Rightarrow> jstr \<Rightarrow> WorkspaceRecord reg" where
  "branch_conflict cfg r branchCommit =
     (let key = reg_ownershipKey r in
      io_bind (query (\<lambda>db. Inr (hasWorktreeJournalAction db key CreateIntent))) (\<lambda>intent.
      if intent then
        io_bind (query (\<lambda>db. Inr (branchCommit = reg_baseCommit r
            \<and> \<not> hasWorktreeJournalAction db key CreateFailed
            \<and> \<not> hasWorktreeJournalAction db key CleanupIntent))) (\<lambda>canStillBeInFlight.
        io_bind (if canStillBeInFlight then waitForInflightWorktree cfg r else io_return None) (\<lambda>reconciled.
        case reconciled of Some w \<Rightarrow> io_return w | None \<Rightarrow>
        io_bind (in_db (\<lambda>db.
            (Inr (), if \<not> hasWorktreeJournalAction db key CleanupIntent
                     then appendWorktreeJournal key None CleanupIntent
                            [(js ''reason'', JStr (js ''orphaned-managed-branch'')), (js ''branch'', JStr (reg_branch r)),
                             (js ''branchCommit'', JStr branchCommit)] db
                     else db))) (\<lambda>_.
        io_throw (registry_error ''WORKTREE_CLEANUP_REQUIRED'' (path_text (reg_repoRoot r))
          (js ''managed worktree branch requires explicit cleanup or recovery: '' @ reg_branch r)))))
      else
        io_throw (registry_error ''WORKTREE_BRANCH_OCCUPIED'' (path_text (reg_repoRoot r))
          (js ''managed worktree branch is already occupied without durable ownership: '' @ reg_branch r))))"

text \<open>The journal entry first, then git, then the registration.\<close>

definition create_worktree :: "registry \<Rightarrow> ManagedWorktreeRegistration \<Rightarrow> WorkspaceRecord reg" where
  "create_worktree cfg r =
     io_bind (in_db (\<lambda>db. (Inr (), appendWorktreeJournal (reg_ownershipKey r) None CreateIntent
         [(js ''repoRoot'', JStr (path_text (reg_repoRoot r))),
          (js ''requestedBaseRef'', JStr (reg_requestedBaseRef r)), (js ''baseCommit'', JStr (reg_baseCommit r)),
          (js ''branch'', JStr (reg_branch r)), (js ''worktreePath'', JStr (path_text (reg_worktreePath r)))] db))) (\<lambda>_.
     io_bind
       (io_try
         (io_bind (createLockedWorktree (git_exec cfg) (path_text (reg_repoRoot r)) (path_text (reg_worktreePath r))
                     (reg_branch r) (reg_baseCommit r) (reg_ownershipKey r)) (\<lambda>_. io_return None))
         (\<lambda>error.
           io_bind (tryReconcilePartialWorktree cfg r) (\<lambda>reconciled. case reconciled of Some w \<Rightarrow> io_return (Some w) | None \<Rightarrow>
           io_bind (in_db (\<lambda>db. (Inr (), appendWorktreeJournal (reg_ownershipKey r) None CreateFailed
               [(js ''message'', JStr (error_message error))] db))) (\<lambda>_.
           io_throw (from_git_error (path_text (reg_worktreePath r)) error))))) (\<lambda>reconciled.
     case reconciled of Some w \<Rightarrow> io_return w | None \<Rightarrow> registerManagedWorktree cfg r WorktreeCreated))"

definition openWorktree :: "registry \<Rightarrow> jstr \<Rightarrow> jstr \<Rightarrow> WorkspaceRecord reg" where
  "openWorktree cfg requested requestedBaseRef =
     io_bind (identify_source cfg requested requestedBaseRef) (\<lambda>(managed, r).
     io_bind (query (\<lambda>db. Inr (find_managed (reg_ownershipKey r) db))) (\<lambda>found. case found of
       Some m \<Rightarrow> reuse_managed cfg r m
     | None \<Rightarrow>
     io_bind (await (os_mkdir_recursive managed)) (\<lambda>_.
     io_bind (adopt_occupied cfg r) (\<lambda>adopted. case adopted of Some w \<Rightarrow> io_return w | None \<Rightarrow>
     io_bind (io_map_error (from_git_error (path_text (reg_repoRoot r)))
                (readLocalBranchCommit (git_exec cfg) (path_text (reg_repoRoot r)) (reg_branch r))) (\<lambda>branchCommit.
     case branchCommit of
       Some commit \<Rightarrow> branch_conflict cfg r commit
     | None \<Rightarrow> create_worktree cfg r)))))"

section \<open>\<open>open\<close> and the constructor\<close>

record WorkspaceOpenOptions =
  opt_mode :: "WorkspaceMode option"
  opt_baseRef :: "jstr option"

definition registry_open :: "registry \<Rightarrow> jstr \<Rightarrow> WorkspaceOpenOptions \<Rightarrow> WorkspaceRecord reg" where
  "registry_open cfg requested options =
     (if length requested = 0 then io_throw (TypeError (js ''workspace path must not be empty''))
      else if (case opt_mode options of None \<Rightarrow> Checkout | Some m \<Rightarrow> m) = Worktree
      then openWorktree cfg requested (case opt_baseRef options of None \<Rightarrow> js ''HEAD'' | Some ref \<Rightarrow> ref)
      else if opt_baseRef options \<noteq> None
      then io_throw (registry_error ''WORKSPACE_BASE_REF_REQUIRES_WORKTREE'' requested
             (js ''baseRef is only valid for worktree mode''))
      else open_checkout cfg requested)"

record WorkspaceRegistryOptions =
  opt_ownerInstance :: "jstr option"
  opt_worktreeRoot :: "jstr option"

text \<open>The constructor validates its options, fixes the worktree root and brings the tables up to date.
  \<open>base\<close> holds the parameters that stand for the world outside.\<close>

definition newWorkspaceRegistry ::
    "registry \<Rightarrow> WorkspaceRegistryOptions \<Rightarrow> (jstr \<Rightarrow> jstr) \<Rightarrow> jstr \<Rightarrow> jstr \<Rightarrow> registry_schema sqlite \<Rightarrow>
     registry result \<times> registry_schema sqlite" where
  "newWorkspaceRegistry base options sha sql_0002 sql_0003 db =
     (if opt_ownerInstance options = Some []
      then (Inl (TypeError (js ''ownerInstance must not be empty'')), db)
      else
        (let cfg = base\<lparr>cfg_ownerInstance := opt_ownerInstance options,
                        cfg_worktreeRoot := map_option (resolve_path base) (opt_worktreeRoot options)\<rparr> in
         case applyMigrations (registry_exec sql_0002 sql_0003) sha
             [WORKSPACE_REGISTRY_MIGRATION sql_0002, WORKTREE_MANAGER_MIGRATION sql_0003] db of
           (Inl e, db') \<Rightarrow> (Inl e, db')
         | (Inr _, db') \<Rightarrow> (Inr cfg, db')))"

end
