(* ===== verification/RegistryInvariant.thy ===== *)
theory RegistryInvariant
  imports Worktrees
begin

text \<open>
  The schema's promises hold in every reachable state: each operation of the registry keeps
  \<open>registry_ok\<close>, whatever the operating system answers, whichever calls fail, and whatever other tasks
  and connections that respect the schema do at the awaits in between.
\<close>

definition lawful :: "rworld \<Rightarrow> bool" where
  "lawful rw \<longleftrightarrow> registry_ok (rw_db rw) \<and> (\<forall>f \<in> set (rw_others rw). \<forall>db. registry_ok db \<longrightarrow> registry_ok (f db))"

definition keeps :: "rworld \<Rightarrow> rworld \<Rightarrow> bool" where
  "keeps rw rw' \<longleftrightarrow> (lawful rw \<longrightarrow> lawful rw')"

interpretation keeps: state_order keeps
  by unfold_locales (auto simp: keeps_def)

lemma keeps_await: "keeps.stays (await m)"
  by (rule keeps.staysI)
    (auto simp: keeps_def lawful_def await_def others_act_def split: prod.splits list.splits)

lemma keeps_sync_os: "keeps.stays (sync_os m)"
  by (rule keeps.staysI) (auto simp: keeps_def lawful_def sync_os_def split: prod.splits)

lemma keeps_query: "keeps.stays (query f)"
  by (rule keeps.staysI) (auto simp: keeps_def query_def)

lemma keeps_emit: "keeps.stays (emit ev)"
  by (rule keeps.staysI) (auto simp: keeps_def lawful_def emit_def)

lemma keeps_now: "keeps.stays now"
  by (rule keeps.staysI) (auto simp: keeps_def lawful_def now_def)

lemma keeps_in_db:
  "(\<And>db x db'. registry_ok db \<Longrightarrow> f db = (x, db') \<Longrightarrow> registry_ok db') \<Longrightarrow> keeps.stays (in_db f)"
  by (rule keeps.staysI) (auto simp: keeps_def lawful_def in_db_def split: prod.splits)

lemma keeps_real_path: "keeps.stays (real_path p)"
  unfolding real_path_def by (intro keeps.stays_intros keeps_await keeps_emit)

lemmas keeps_basic = keeps.stays_intros keeps_await keeps_sync_os keeps_query keeps_emit keeps_now keeps_real_path

section \<open>Helpers\<close>

lemma keeps_prod: "(\<And>a b. keeps.stays (f a b)) \<Longrightarrow> keeps.stays (case p of (a, b) \<Rightarrow> f a b)"
  by (simp split: prod.split)

lemma keeps_createWorkspaceId: "keeps.stays createWorkspaceId"
  unfolding createWorkspaceId_def by (intro keeps_basic)

lemma keeps_git_exec: "keeps.stays (git_exec cfg args)"
  unfolding git_exec_def by (intro keeps_basic)

lemma keeps_runGit: "keeps.stays (runGit (git_exec cfg) cwd args code)"
  unfolding runGit_def
  by (intro keeps_basic keeps_git_exec) (auto split: sum.split simp: Let_def intro: keeps_basic)

lemma keeps_resolveWorkspaceDirectory: "keeps.stays (resolveWorkspaceDirectory cfg p)"
  unfolding resolveWorkspaceDirectory_def by (intro keeps_basic)

lemma keeps_findRepoRoot: "keeps.stays (findRepoRoot p)"
proof (induction p rule: findRepoRoot.induct)
  case (1 p)
  show ?case
    by (subst findRepoRoot.simps, intro keeps_basic) (auto intro: 1)
qed

lemma keeps_canonicalize: "keeps.stays (canonicalize_from p m)"
proof (induction p m rule: canonicalize_from.induct)
  case (1 p m)
  show ?case
    by (subst canonicalize_from.simps, intro keeps_basic) (auto intro: 1)
qed

lemma keeps_inspect: "keeps.stays (inspectPersistedWorkspacePath cfg path identity)"
  unfolding inspectPersistedWorkspacePath_def by (intro keeps_basic)

lemma keeps_listGitWorktrees: "keeps.stays (listGitWorktrees (git_exec cfg) root)"
  unfolding listGitWorktrees_def by (intro keeps_basic keeps_runGit)

lemma keeps_createLockedWorktree: "keeps.stays (createLockedWorktree (git_exec cfg) root path b c key)"
  unfolding createLockedWorktree_def by (intro keeps_basic keeps_runGit)

lemma keeps_resolveGitCommit: "keeps.stays (resolveGitCommit (git_exec cfg) root ref)"
  unfolding resolveGitCommit_def Let_def by (intro keeps_basic keeps_runGit)

lemma keeps_readLocalBranchCommit: "keeps.stays (readLocalBranchCommit (git_exec cfg) root b)"
  unfolding readLocalBranchCommit_def
  by (intro keeps_basic keeps_git_exec) (auto split: sum.split simp: Let_def intro: keeps_basic)

lemmas keeps_helpers = keeps_createWorkspaceId keeps_resolveWorkspaceDirectory keeps_findRepoRoot
  keeps_inspect keeps_listGitWorktrees keeps_createLockedWorktree keeps_resolveGitCommit
  keeps_readLocalBranchCommit keeps_canonicalize

section \<open>Writes\<close>

lemma keeps_append: "keeps.stays (in_db (\<lambda>db. (Inr (), appendWorktreeJournal key ws act details db)))"
  by (rule keeps_in_db) (auto intro: journal_append_ok)

lemma keeps_transaction:
  "(\<And>db x db'. registry_ok db \<Longrightarrow> f db = (x, db') \<Longrightarrow> registry_ok db') \<Longrightarrow> keeps.stays (in_db (transaction f))"
  by (rule keeps_in_db) (fastforce simp: transaction_def split: prod.splits sum.splits)

lemma register_work_ok:
  "registry_ok db \<Longrightarrow> register_work cfg r act can ident ts cand db = (x, db') \<Longrightarrow> registry_ok db'"
  by (auto simp: register_work_def split: option.splits prod.splits sum.splits
      intro!: journal_append_ok intro: insert_managed_ok insert_workspace_ok)

lemma mark_unavailable_ok:
  assumes "registry_ok db" "mark_unavailable key m ts db = (x, db')"
  shows "registry_ok db'"
proof -
  let ?cond = "\<lambda>r. mw_ownership_key r = key \<and> mw_status r = js ''active''"
  let ?f = "\<lambda>r. r\<lparr>mw_status := js ''cleanup-required'', mw_updated_at := ts\<rparr>"
  obtain n db1 where u: "update_managed ?cond ?f db = (n, db1)" by fastforce
  have "registry_ok db1"
    by (rule update_managed_ok [OF assms(1) u]) (simp_all add: managed_checks_def source_key_def)
  with assms(2) u show ?thesis
    by (auto simp: mark_unavailable_def split: if_splits sum.splits intro: journal_append_ok)
qed

lemma status_update_ok:
  assumes "registry_ok db"
    and "update_workspaces (\<lambda>r. ws_workspace_id r = i)
      (\<lambda>r. r\<lparr>ws_status := workspace_status_text st, ws_metadata_version := ws_metadata_version r + 1\<rparr>) db = (n, db')"
  shows "registry_ok db'"
  by (rule update_workspaces_ok [OF assms]) (cases st; auto simp: registry_checks_def registry_key_def)+

lemma keeps_register: "keeps.stays (registerManagedWorktree cfg r act)"
  unfolding registerManagedWorktree_def
  by (intro keeps_basic keeps_helpers keeps_prod keeps_transaction) (auto intro: register_work_ok)

lemma keeps_match: "keeps.stays (match_worktree cfg r expected gs)"
proof (induction gs)
  case Nil
  show ?case unfolding match_worktree.simps by (intro keeps_basic)
next
  case (Cons g gs)
  then show ?case unfolding match_worktree.simps by (intro keeps_basic keeps_register)
qed

lemma keeps_reconcile: "keeps.stays (tryReconcilePartialWorktree cfg r)"
  unfolding tryReconcilePartialWorktree_def by (intro keeps_basic keeps_helpers keeps_match)

lemma keeps_wait: "keeps.stays (wait_loop cfg r n)"
proof (induction n)
  case 0
  show ?case using keeps_reconcile by simp
next
  case (Suc n)
  have "keeps.stays delay" unfolding delay_def by (intro keeps_basic)
  then show ?case unfolding wait_loop.simps by (intro keeps_basic keeps_reconcile Suc)
qed

section \<open>Operations\<close>

lemma keeps_open_checkout: "keeps.stays (open_checkout cfg p)"
  unfolding open_checkout_def Let_def
  by (intro keeps_basic keeps_helpers keeps_prod keeps_in_db) (rule upsert_checkout_ok)

lemma keeps_get: "keeps.stays (registry_get cfg i)"
  unfolding registry_get_def
  by (intro keeps_basic keeps_helpers keeps_in_db) (auto split: prod.splits intro: status_update_ok)

lemma keeps_identify_source: "keeps.stays (identify_source cfg p ref)"
  unfolding identify_source_def Let_def canonicalizePotentialPath_def
  by (intro keeps_basic keeps_helpers keeps_prod)

lemma keeps_touch: "keeps.stays (touch_worktree cfg p ts i)"
  unfolding touch_worktree_def
  by (intro keeps_basic keeps_in_db)
    (auto split: prod.splits elim!: update_workspaces_ok simp: registry_checks_def registry_key_def)

lemma keeps_reuse: "keeps.stays (reuse_managed cfg r m)"
  unfolding reuse_managed_def
  by (intro keeps_basic keeps_helpers keeps_touch keeps_transaction) (rule mark_unavailable_ok)

lemma keeps_adopt: "keeps.stays (adopt_occupied cfg r)"
  unfolding adopt_occupied_def by (intro keeps_basic keeps_reconcile)

lemma keeps_branch_conflict: "keeps.stays (branch_conflict cfg r c)"
  unfolding branch_conflict_def Let_def waitForInflightWorktree_def
  by (intro keeps_basic keeps_wait keeps_in_db) (auto split: if_splits intro: journal_append_ok)

lemma keeps_create: "keeps.stays (create_worktree cfg r)"
  unfolding create_worktree_def
  by (intro keeps_basic keeps_helpers keeps_append keeps_reconcile keeps_register)

lemma keeps_openWorktree: "keeps.stays (openWorktree cfg p ref)"
  unfolding openWorktree_def
  by (intro keeps_basic keeps_prod keeps_identify_source keeps_reuse keeps_adopt keeps_branch_conflict
      keeps_create keeps_helpers)

lemma keeps_open: "keeps.stays (registry_open cfg p options)"
  unfolding registry_open_def by (intro keeps_basic keeps_openWorktree keeps_open_checkout)

section \<open>Reachable states\<close>

text \<open>Any sequence of calls; the world, the clock and the others may change in between as they like, as long
  as the others respect the schema.\<close>

inductive registry_reaches :: "registry \<Rightarrow> rworld \<Rightarrow> rworld \<Rightarrow> bool" for cfg rw0 where
  start: "registry_reaches cfg rw0 rw0"
| opened: "registry_reaches cfg rw0 rw \<Longrightarrow> registry_open cfg p options rw = (x, rw') \<Longrightarrow> registry_reaches cfg rw0 rw'"
| got: "registry_reaches cfg rw0 rw \<Longrightarrow> registry_get cfg i rw = (y, rw') \<Longrightarrow> registry_reaches cfg rw0 rw'"
| elsewhere: "registry_reaches cfg rw0 rw \<Longrightarrow> lawful rw' \<Longrightarrow> rw_db rw' = rw_db rw \<Longrightarrow> registry_reaches cfg rw0 rw'"

lemma reaches_lawful: "registry_reaches cfg rw rw' \<Longrightarrow> lawful rw \<Longrightarrow> lawful rw'"
proof (induction rule: registry_reaches.induct)
  case (opened rw p options x rw')
  with keeps.staysD [OF keeps_open opened.hyps(2)] show ?case by (simp add: keeps_def)
next
  case (got rw i y rw')
  with keeps.staysD [OF keeps_get got.hyps(2)] show ?case by (simp add: keeps_def)
qed

section \<open>The constructor\<close>

lemma copy_rows_ok:
  "registry_rows_ok (registry_rows db @ rs) \<Longrightarrow>
   copy_rows rs db = (Inr (), db\<lparr>registry_rows := registry_rows db @ rs\<rparr>)"
proof (induction rs arbitrary: db)
  case (Cons r rs)
  have "insert_workspace r db = (Inr (), db\<lparr>registry_rows := registry_rows db @ [r]\<rparr>)"
    using Cons.prems by (auto simp: insert_workspace_def registry_rows_ok_def)
  with Cons.IH [of "db\<lparr>registry_rows := registry_rows db @ [r]\<rparr>"] Cons.prems show ?case by simp
qed simp

text \<open>The rows a database holds, and a ledger that agrees with its tables.\<close>

fun schema_rows :: "registry_schema \<Rightarrow> WorkspaceRow list" where
  "schema_rows NoTables = []"
| "schema_rows (CheckoutTables rs) = rs"
| "schema_rows (WorktreeTables db) = registry_rows db"

definition schema_state_ok :: "(jstr \<Rightarrow> jstr) \<Rightarrow> jstr \<Rightarrow> jstr \<Rightarrow> registry_schema sqlite \<Rightarrow> bool" where
  "schema_state_ok sha sql_0002 sql_0003 db \<longleftrightarrow>
     (let l2 = ledger db (js ''0002-workspace-registry''); l3 = ledger db (js ''0003-worktree-manager'') in
      case tables db of
        NoTables \<Rightarrow> l2 = None \<and> l3 = None
      | CheckoutTables rs \<Rightarrow> l2 = Some (sha sql_0002) \<and> l3 = None \<and> registry_rows_ok rs
      | WorktreeTables d \<Rightarrow> l2 = Some (sha sql_0002) \<and> l3 = Some (sha sql_0003) \<and> registry_ok d)"

lemma ledger_create [simp]: "ledger (create_ledger db) m = ledger db m" "tables (create_ledger db) = tables db"
  by (auto simp: ledger_def create_ledger_def split: option.splits)

lemma create_ledger_exists: "\<exists>l. schema_migrations (create_ledger db) = Some l"
  by (auto simp: create_ledger_def split: option.splits)

lemma run_migration_ok:
  assumes "exec (migration_sql m) (tables db) = (Inr u, d)" "schema_migrations db = Some l"
  shows "transaction (run_migration exec sha m) db =
     (Inr (), \<lparr>schema_migrations = Some ((migration_id m, sha (migration_sql m)) # l), tables = d\<rparr>)"
  using assms by (cases db) (simp add: transaction_def run_migration_def insert_ledger_def)

lemma registry_ok_empty: "registry_rows_ok rs \<Longrightarrow> registry_ok (empty_registry\<lparr>registry_rows := rs\<rparr>)"
  by (simp add: registry_ok_def empty_registry_def managed_rows_ok_def journal_rows_ok_def)

lemma registry_upgrades:
  assumes "schema_state_ok sha sql_0002 sql_0003 db" "sql_0002 \<noteq> sql_0003" "opt_ownerInstance options \<noteq> Some []"
  shows "\<exists>cfg db' d. newWorkspaceRegistry base options sha sql_0002 sql_0003 db = (Inr cfg, db')
     \<and> tables db' = WorktreeTables d \<and> registry_ok d \<and> registry_rows d = schema_rows (tables db)"
proof -
  let ?exec = "registry_exec sql_0002 sql_0003"
  let ?ms = "[WORKSPACE_REGISTRY_MIGRATION sql_0002, WORKTREE_MANAGER_MIGRATION sql_0003]"
  obtain l where l: "schema_migrations (create_ledger db) = Some l" using create_ledger_exists by blast
  have led: "ledger (create_ledger db) m = map_of l m" for m using l by (simp add: ledger_def)
  have "\<exists>r db' d. applyMigrations ?exec sha ?ms db = (Inr r, db') \<and> tables db' = WorktreeTables d
      \<and> registry_ok d \<and> registry_rows d = schema_rows (tables db)"
  proof (cases "tables db")
    case NoTables
    with assms(1) led have n: "map_of l (js ''0002-workspace-registry'') = None"
      "map_of l (js ''0003-worktree-manager'') = None" by (simp_all add: schema_state_ok_def)
    have "?exec sql_0002 NoTables = (Inr (), CheckoutTables [])" by (simp add: registry_exec_def)
    have "?exec sql_0003 (CheckoutTables []) = (Inr (), WorktreeTables empty_registry)"
      using assms(2) by (simp add: registry_exec_def)
    then show ?thesis
      using NoTables n l led assms(2) registry_ok_empty [of "[]"]
      by (simp add: applyMigrations_def run_migration_ok registry_exec_def WORKSPACE_REGISTRY_MIGRATION_def
          WORKTREE_MANAGER_MIGRATION_def ledger_def empty_registry_def registry_rows_ok_def)
  next
    case (CheckoutTables rs)
    with assms(1) led have n: "map_of l (js ''0002-workspace-registry'') = Some (sha sql_0002)"
      "map_of l (js ''0003-worktree-manager'') = None" "registry_rows_ok rs" by (simp_all add: schema_state_ok_def)
    have "?exec sql_0003 (CheckoutTables rs) = (Inr (), WorktreeTables (empty_registry\<lparr>registry_rows := rs\<rparr>))"
      using assms(2) copy_rows_ok [of empty_registry rs] n(3) by (simp add: registry_exec_def empty_registry_def)
    then show ?thesis
      using CheckoutTables n l led registry_ok_empty [OF n(3)]
      by (simp add: applyMigrations_def run_migration_ok WORKSPACE_REGISTRY_MIGRATION_def
          WORKTREE_MANAGER_MIGRATION_def ledger_def)
  next
    case (WorktreeTables d)
    with assms(1) led have n: "map_of l (js ''0002-workspace-registry'') = Some (sha sql_0002)"
      "map_of l (js ''0003-worktree-manager'') = Some (sha sql_0003)" "registry_ok d" by (simp_all add: schema_state_ok_def)
    with WorktreeTables l show ?thesis
      by (simp add: applyMigrations_def WORKSPACE_REGISTRY_MIGRATION_def WORKTREE_MANAGER_MIGRATION_def ledger_def)
  qed
  then show ?thesis using assms(3) by (auto simp: newWorkspaceRegistry_def Let_def)
qed

text \<open>C29. Opening a registry brings the tables up to date without losing a workspace: on a fresh database, on
  one with the checkout-only table and on a current one, the constructor succeeds, the new tables satisfy
  every constraint and hold the same workspace rows.\<close>

theorem registry_upgrade:
  assumes "schema_state_ok sha sql_0002 sql_0003 db" "sql_0002 \<noteq> sql_0003" "opt_ownerInstance options \<noteq> Some []"
  shows "\<exists>cfg db' d. newWorkspaceRegistry base options sha sql_0002 sql_0003 db = (Inr cfg, db')
     \<and> tables db' = WorktreeTables d \<and> registry_ok d \<and> registry_rows d = schema_rows (tables db)"
  using assms by (rule registry_upgrades)

definition sample_checkout_row :: WorkspaceRow where
  "sample_checkout_row = \<lparr>ws_workspace_id = js ''ws_1'', ws_canonical_path = js ''/w'', ws_requested_path = js ''/w'',
     ws_filesystem_identity = js ''1:2:3'', ws_mode = js ''checkout'', ws_repo_root = None, ws_worktree_path = None,
     ws_base_ref = None, ws_branch = None, ws_created_at = js ''t'', ws_last_used_at = js ''t'', ws_owner_instance = None,
     ws_status = js ''available'', ws_metadata_version = 4\<rparr>"

definition sample_schema :: "registry_schema sqlite" where
  "sample_schema = \<lparr>schema_migrations = Some [(js ''0002-workspace-registry'', js ''b'')],
     tables = CheckoutTables [sample_checkout_row]\<rparr>"

definition bare_registry :: registry where
  "bare_registry = \<lparr>cfg_ownerInstance = None, cfg_worktreeRoot = None, cfg_cwd = [], cfg_chk = json_schema_check,
     cfg_sha256 = (\<lambda>bs. []), cfg_git = (\<lambda>args fs. (Inr [], fs)), cfg_meta = (\<lambda>fs ino. (0, 0))\<rparr>"

theorem registry_upgrade_witness:
  "\<exists>cfg db' d. newWorkspaceRegistry bare_registry \<lparr>opt_ownerInstance = None, opt_worktreeRoot = Some (js ''/m'')\<rparr>
       (\<lambda>s. js ''b'') (js ''2'') (js ''3'') sample_schema = (Inr cfg, db')
     \<and> tables db' = WorktreeTables d \<and> registry_ok d \<and> registry_rows d = [sample_checkout_row]"
proof -
  have "schema_state_ok (\<lambda>s. js ''b'') (js ''2'') (js ''3'') sample_schema"
    by (simp add: schema_state_ok_def sample_schema_def ledger_def registry_rows_ok_def registry_checks_def
        sample_checkout_row_def)
  from registry_upgrade [OF this, where base = bare_registry and options = "\<lparr>opt_ownerInstance = None, opt_worktreeRoot = Some (js ''/m'')\<rparr>"]
  show ?thesis by (simp add: sample_schema_def)
qed

end
