(* ===== verification/RegistryCalm.thy ===== *)
theory RegistryCalm
  imports RegistryInvariant WriteCalm
begin

text \<open>
  What the registry does when nothing else acts: the directory a request names, its identity and its
  repository, the record of a first and of a repeated \<open>open\<close>, and the revalidation by \<open>get\<close>.
\<close>

definition calm_reg :: "rworld \<Rightarrow> bool" where
  "calm_reg rw \<longleftrightarrow> calm (rw_os rw) \<and> rw_others rw = []"

definition reg_fs :: "rworld \<Rightarrow> fsys" where
  "reg_fs rw = w_fs (rw_os rw)"

lemma await_calm: "calm_reg rw \<Longrightarrow> m (rw_os rw) = (x, w') \<Longrightarrow> await m rw = (x, rw\<lparr>rw_os := w'\<rparr>)"
  by (simp add: await_def others_act_def calm_reg_def)

lemma await_observe:
  "calm_reg rw \<Longrightarrow> await (observe f) rw = (map_sum sys_error id (f None (reg_fs rw)), rw)"
  by (auto simp: await_def others_act_def calm_reg_def observe_calm reg_fs_def split: sum.splits)

section \<open>Directories\<close>

definition logged :: "registry_event \<Rightarrow> rworld \<Rightarrow> rworld" where
  "logged ev rw = rw\<lparr>rw_log := rw_log rw @ [ev]\<rparr>"

lemma logged_simps [simp]:
  "calm_reg (logged ev rw) = calm_reg rw" "reg_fs (logged ev rw) = reg_fs rw" "rw_db (logged ev rw) = rw_db rw"
  "rw_os (logged ev rw) = rw_os rw" "rw_log (logged ev rw) = rw_log rw @ [ev]"
  by (simp_all add: calm_reg_def logged_def reg_fs_def)

lemma real_path_calm:
  "calm_reg rw \<Longrightarrow> existing (reg_fs rw) True p = Inr (q, b) \<Longrightarrow> real_path p rw = (Inr q, logged (Resolved p q) rw)"
  by (simp add: real_path_def io_defs os_realpath_def await_observe emit_def logged_def)

text \<open>The identity of a directory.\<close>

definition dir_identity :: "registry \<Rightarrow> fsys \<Rightarrow> abspath \<Rightarrow> jstr" where
  "dir_identity cfg fs p =
     (let ino = (case map_of (names fs) p of Some i \<Rightarrow> i | None \<Rightarrow> 0) in
      filesystemIdentityFromStats \<lparr>bs_body = Directory, bs_dev = fst (cfg_meta cfg fs ino), bs_ino = ino,
        bs_birthtimeNs = snd (cfg_meta cfg fs ino)\<rparr>)"

lemma stat_calm:
  assumes "calm_reg rw" "existing (reg_fs rw) True p = Inr (q, b)"
  shows "\<exists>st. await (os_stat (cfg_meta cfg) p) rw = (Inr st, rw) \<and> bs_body st = b
     \<and> (b = Directory \<longrightarrow> filesystemIdentityFromStats st = dir_identity cfg (reg_fs rw) q)"
  using assms by (simp add: os_stat_def await_observe dir_identity_def Let_def)

lemma resolveWorkspaceDirectory_calm:
  assumes "calm_reg rw" "existing (reg_fs rw) True requested = Inr (p, Directory)" "is_dir_path (reg_fs rw) p"
  shows "resolveWorkspaceDirectory cfg requested rw =
    (Inr (p, dir_identity cfg (reg_fs rw) p), logged (Resolved requested p) rw)"
proof -
  let ?rw = "logged (Resolved requested p) rw"
  obtain st where "await (os_stat (cfg_meta cfg) p) ?rw = (Inr st, ?rw)" "bs_body st = Directory"
    "filesystemIdentityFromStats st = dir_identity cfg (reg_fs rw) p"
    using stat_calm [of ?rw p p Directory cfg] assms(1) existing_dir [OF assms(3)] by auto
  then show ?thesis
    using real_path_calm [OF assms(1,2)]
    by (simp add: resolveWorkspaceDirectory_def io_defs isDirectory_def)
qed

section \<open>Repositories\<close>

text \<open>The nearest directory at or above \<open>p\<close> that holds \<open>.git\<close>.\<close>

definition ancestors :: "abspath \<Rightarrow> abspath list" where
  "ancestors p = map (\<lambda>n. take n p) (rev [0..<Suc (length p)])"

definition nearest_repo :: "fsys \<Rightarrow> abspath \<Rightarrow> abspath option" where
  "nearest_repo fs p = List.find (\<lambda>q. body_at fs (q @ [js ''.git'']) \<noteq> None) (ancestors p)"

lemma ancestors_Nil: "ancestors [] = [[]]"
  by (simp add: ancestors_def)

lemma ancestors_snoc: "ancestors (p @ [c]) = (p @ [c]) # ancestors p"
  by (simp add: ancestors_def)

lemma git_plain: "plain (js ''.git'')"
  by code_simp

lemma dir_path_prefix: "is_dir_path fs (p @ q) \<Longrightarrow> is_dir_path fs p"
  by (auto simp: is_dir_path_def)

lemma lstat_calm:
  assumes "calm_reg rw" "is_dir_path (reg_fs rw) d" "plain c"
  shows "case body_at (reg_fs rw) (d @ [c]) of
      None \<Rightarrow> await (os_lstat (d @ [c])) rw = (Inl (sys_error ENOENT), rw)
    | Some b \<Rightarrow> \<exists>st. await (os_lstat (d @ [c])) rw = (Inr st, rw)"
  using assms locate_child [OF assms(2,3)]
  by (auto simp: os_lstat_def await_observe existing_def split: option.splits)

lemma findRepoRoot_calm:
  "calm_reg rw \<Longrightarrow> is_dir_path (reg_fs rw) p \<Longrightarrow> findRepoRoot p rw = (Inr (nearest_repo (reg_fs rw) p), rw)"
proof (induction p rule: rev_induct)
  case Nil
  with lstat_calm [OF Nil git_plain] show ?case
    by (auto simp: findRepoRoot.simps [of "[]"] io_defs nearest_repo_def ancestors_Nil sys_error_def
        split: option.splits)
next
  case (snoc c p)
  have "is_dir_path (reg_fs rw) p" using snoc.prems(2) dir_path_prefix by blast
  with snoc.IH snoc.prems(1) have IH: "findRepoRoot p rw = (Inr (nearest_repo (reg_fs rw) p), rw)" by blast
  from lstat_calm [OF snoc.prems git_plain] IH show ?case
    by (auto simp: findRepoRoot.simps [of "p @ [c]"] io_defs nearest_repo_def ancestors_snoc sys_error_def
        split: option.splits)
qed

section \<open>Rows and records\<close>

definition text_ok :: "jstr option \<Rightarrow> bool" where
  "text_ok v \<longleftrightarrow> v \<noteq> Some []"

definition row_valid :: "(jstr \<Rightarrow> nat) \<Rightarrow> WorkspaceRow \<Rightarrow> bool" where
  "row_valid str_len r \<longleftrightarrow> ws_workspace_id r \<noteq> [] \<and> str_len (ws_workspace_id r) \<le> 256 \<and> ws_canonical_path r \<noteq> []
     \<and> ws_requested_path r \<noteq> [] \<and> text_ok (ws_repo_root r) \<and> text_ok (ws_worktree_path r) \<and> text_ok (ws_base_ref r)
     \<and> text_ok (ws_branch r) \<and> ws_created_at r \<noteq> [] \<and> ws_last_used_at r \<noteq> [] \<and> text_ok (ws_owner_instance r)
     \<and> registry_checks r"

definition record_of :: "WorkspaceRow \<Rightarrow> WorkspaceMode \<Rightarrow> WorkspaceStatus \<Rightarrow> WorkspaceRecord" where
  "record_of r m st = \<lparr>workspaceId = ws_workspace_id r, canonicalPath = ws_canonical_path r,
     requestedPath = ws_requested_path r, mode = m, repoRoot = ws_repo_root r, worktreePath = ws_worktree_path r,
     baseRef = ws_base_ref r, branch = ws_branch r, createdAt = ws_created_at r, lastUsedAt = ws_last_used_at r,
     ownerInstance = ws_owner_instance r, status = st, metadataVersion = nat (ws_metadata_version r)\<rparr>"

lemma str_len_text:
  assumes "checks_schemas str_len chk"
  shows "1 \<le> str_len s \<longleftrightarrow> s \<noteq> []" and "str_len s \<le> length s"
proof -
  have "\<forall>s. str_len s \<le> length s \<and> (str_len s = 0 \<longleftrightarrow> s = [])"
    using assms unfolding checks_schemas_def by (rule conjunct1)
  then have "str_len s \<le> length s \<and> (str_len s = 0 \<longleftrightarrow> s = [])" by (rule spec)
  then show "1 \<le> str_len s \<longleftrightarrow> s \<noteq> []" and "str_len s \<le> length s" by (cases "str_len s"; simp)+
qed

lemma text_schema:
  assumes "checks_schemas str_len chk"
  shows "chk (TString 1 None) (JStr s) \<longleftrightarrow> s \<noteq> []"
  by (simp add: checks_simps(5) [OF assms] str_len_text [OF assms] del: One_nat_def)

lemma nullable_schema:
  assumes "checks_schemas str_len chk"
  shows "chk nullable_string (nullable_json v) \<longleftrightarrow> text_ok v"
  using text_schema [OF assms]
  by (cases v) (simp_all add: nullable_string_def nullable_json_def checks_simps(1,6) [OF assms] text_ok_def
      checks_simps(5) [OF assms])

lemma checks_object_list:
  "checks_object chk ps (JObj kvs) \<longleftrightarrow> fst ` set kvs \<subseteq> fst ` set ps
     \<and> list_all (\<lambda>(k, optional, s). case map_of kvs k of None \<Rightarrow> optional | Some w \<Rightarrow> chk s w) ps"
  by (simp add: checks_object_def list_all_iff)

lemma row_schema:
  assumes "checks_schemas str_len chk"
  shows "chk WorkspaceRecordSchema (row_tree r) \<longleftrightarrow> row_valid str_len r"
proof -
  have id: "chk (TString 1 (Some 256)) (JStr s) \<longleftrightarrow> s \<noteq> [] \<and> str_len s \<le> 256" for s
    using assms by (simp add: checks_simps(5) [OF assms] str_len_text [OF assms] del: One_nat_def)
  have modes: "chk WorkspaceModeSchema (JStr s) \<longleftrightarrow> s \<in> {js ''checkout'', js ''worktree''}" for s
    by (auto simp: WorkspaceModeSchema_def checks_simps [OF assms])
  have states: "chk WorkspaceStatusSchema (JStr s) \<longleftrightarrow>
      s \<in> {js ''available'', js ''missing'', js ''inaccessible'', js ''invalid''}" for s
    by (auto simp: WorkspaceStatusSchema_def checks_simps [OF assms])
  have "chk WorkspaceRecordSchema (row_tree r) \<longleftrightarrow>
      chk (TString 1 (Some 256)) (JStr (ws_workspace_id r)) \<and> chk (TString 1 None) (JStr (ws_canonical_path r))
    \<and> chk (TString 1 None) (JStr (ws_requested_path r)) \<and> chk WorkspaceModeSchema (JStr (ws_mode r))
    \<and> chk nullable_string (nullable_json (ws_repo_root r)) \<and> chk nullable_string (nullable_json (ws_worktree_path r))
    \<and> chk nullable_string (nullable_json (ws_base_ref r)) \<and> chk nullable_string (nullable_json (ws_branch r))
    \<and> chk (TString 1 None) (JStr (ws_created_at r)) \<and> chk (TString 1 None) (JStr (ws_last_used_at r))
    \<and> chk nullable_string (nullable_json (ws_owner_instance r)) \<and> chk WorkspaceStatusSchema (JStr (ws_status r))
    \<and> chk (TInteger 1) (JNum (JInt (ws_metadata_version r)))"
    unfolding WorkspaceRecordSchema_def checks_simps(10) [OF assms] row_tree_def checks_object_list req_def
    by simp
  then show ?thesis
    unfolding id modes states nullable_schema [OF assms] text_schema [OF assms] checks_simps(7) [OF assms]
      row_valid_def registry_checks_def by blast
qed

lemma mode_of_text_Some: "mode_of_text s = Some m \<longleftrightarrow> s = mode_text m"
  by (cases m) (auto simp: mode_of_text_def)

lemma status_of_text_Some: "status_of_text s = Some st \<longleftrightarrow> s = workspace_status_text st"
  by (cases st) (auto simp: status_of_text_def)

lemma rowToWorkspaceRecord_iff:
  assumes "checks_schemas str_len chk"
  shows "rowToWorkspaceRecord chk r = Inr w \<longleftrightarrow>
     row_valid str_len r \<and> (\<exists>m st. ws_mode r = mode_text m \<and> ws_status r = workspace_status_text st \<and> w = record_of r m st)"
proof -
  have "rowToWorkspaceRecord chk r = Inr w \<longleftrightarrow> row_valid str_len r
     \<and> (\<exists>m st. mode_of_text (ws_mode r) = Some m \<and> status_of_text (ws_status r) = Some st \<and> w = record_of r m st)"
    by (auto simp: rowToWorkspaceRecord_def parseWorkspaceRecord_def parseTree_def row_schema [OF assms] record_of_def
        split: option.splits if_splits)
  then show ?thesis by (simp add: mode_of_text_Some status_of_text_Some)
qed

lemma row_record:
  assumes "checks_schemas str_len chk" "row_valid str_len r" "ws_mode r = mode_text m" "ws_status r = workspace_status_text st"
  shows "rowToWorkspaceRecord chk r = Inr (record_of r m st)"
  unfolding rowToWorkspaceRecord_iff [OF assms(1)] using assms(2-4) by blast

lemma version_Suc: "row_valid str_len r \<Longrightarrow> nat (ws_metadata_version r + 1) = nat (ws_metadata_version r) + 1"
  by (simp add: row_valid_def registry_checks_def nat_add_distrib)

section \<open>Opening a checkout\<close>

definition new_id :: "rworld \<Rightarrow> jstr" where
  "new_id rw = js ''ws_'' @ w_uuid (rw_os rw) (w_uuids_used (rw_os rw))"

definition stamp :: "rworld \<Rightarrow> jstr" where
  "stamp rw = rw_clock rw (rw_ticks rw)"

definition used_supplies :: "rworld \<Rightarrow> rworld" where
  "used_supplies rw = rw\<lparr>rw_os := (rw_os rw)\<lparr>w_uuids_used := Suc (w_uuids_used (rw_os rw))\<rparr>, rw_ticks := Suc (rw_ticks rw)\<rparr>"

definition checkout_row :: "registry \<Rightarrow> rworld \<Rightarrow> jstr \<Rightarrow> abspath \<Rightarrow> WorkspaceRow" where
  "checkout_row cfg rw requested p =
     \<lparr>ws_workspace_id = new_id rw, ws_canonical_path = path_text p,
      ws_requested_path = path_text (resolve_path cfg requested),
      ws_filesystem_identity = dir_identity cfg (reg_fs rw) p, ws_mode = js ''checkout'',
      ws_repo_root = map_option path_text (nearest_repo (reg_fs rw) p), ws_worktree_path = None, ws_base_ref = None,
      ws_branch = None, ws_created_at = stamp rw, ws_last_used_at = stamp rw,
      ws_owner_instance = cfg_ownerInstance cfg, ws_status = js ''available'', ws_metadata_version = 1\<rparr>"

text \<open>The request names the directory \<open>p\<close>.\<close>

definition names_dir :: "registry \<Rightarrow> rworld \<Rightarrow> jstr \<Rightarrow> abspath \<Rightarrow> bool" where
  "names_dir cfg rw requested p \<longleftrightarrow> calm_reg rw
     \<and> existing (reg_fs rw) True (resolve_path cfg requested) = Inr (p, Directory) \<and> is_dir_path (reg_fs rw) p"

lemma createWorkspaceId_run:
  "createWorkspaceId rw = (Inr (new_id rw), rw\<lparr>rw_os := (rw_os rw)\<lparr>w_uuids_used := Suc (w_uuids_used (rw_os rw))\<rparr>\<rparr>)"
proof -
  have "new_id rw \<noteq> []" by (simp add: new_id_def)
  then show ?thesis
    by (simp add: createWorkspaceId_def io_defs sync_os_def randomUUID_def parseEntityId_def new_id_def)
qed

lemma stamp_logged [simp]: "stamp (logged ev rw) = stamp rw" "new_id (logged ev rw) = new_id rw"
  by (simp_all add: stamp_def new_id_def logged_def)

lemma now_run: "now rw = (Inr (stamp rw), rw\<lparr>rw_ticks := Suc (rw_ticks rw)\<rparr>)"
  by (simp add: now_def stamp_def)

lemma open_checkout_run:
  assumes "names_dir cfg rw requested p"
  shows "open_checkout cfg requested rw =
     (case upsert_checkout (checkout_row cfg rw requested p) (rw_db rw) of
        (Inl e, db) \<Rightarrow> (Inl e, (used_supplies (logged (Resolved (resolve_path cfg requested) p) rw))\<lparr>rw_db := db\<rparr>)
      | (Inr row, db) \<Rightarrow> (rowToWorkspaceRecord (cfg_chk cfg) row, (used_supplies (logged (Resolved (resolve_path cfg requested) p) rw))\<lparr>rw_db := db\<rparr>))"
proof -
  let ?rw = "logged (Resolved (resolve_path cfg requested) p) rw"
  have a: "calm_reg rw" "existing (reg_fs rw) True (resolve_path cfg requested) = Inr (p, Directory)" "is_dir_path (reg_fs rw) p"
    using assms by (simp_all add: names_dir_def)
  have row: "checkout_row cfg rw requested p = \<lparr>ws_workspace_id = new_id (?rw\<lparr>rw_ticks := Suc (rw_ticks ?rw)\<rparr>), ws_canonical_path = path_text p,
      ws_requested_path = path_text (resolve_path cfg requested),
      ws_filesystem_identity = dir_identity cfg (reg_fs rw) p, ws_mode = js ''checkout'',
      ws_repo_root = map_option path_text (nearest_repo (reg_fs rw) p), ws_worktree_path = None, ws_base_ref = None,
      ws_branch = None, ws_created_at = stamp rw, ws_last_used_at = stamp rw,
      ws_owner_instance = cfg_ownerInstance cfg, ws_status = js ''available'', ws_metadata_version = 1\<rparr>"
    by (simp add: checkout_row_def new_id_def logged_def)
  have calm: "calm_reg ?rw" "is_dir_path (reg_fs ?rw) p" using a by simp_all
  show ?thesis
    unfolding open_checkout_def Let_def row
    by (simp add: io_bind_def resolveWorkspaceDirectory_calm [OF a] findRepoRoot_calm [OF calm] now_run
        createWorkspaceId_run in_db_def io_result_def used_supplies_def split: prod.split sum.split)
qed

lemma upsert_again:
  assumes "upsert_checkout row db = (Inr row', db')"
  shows "List.find (\<lambda>r. registry_key r = registry_key row) (registry_rows db') = Some row'"
    and "registry_key row' = registry_key row"
proof -
  have find_map: "List.find P (map (\<lambda>r. if P r then f r else r) rs) = map_option f (List.find P rs)"
    if "\<And>r. P r \<Longrightarrow> P (f r)" for P and f :: "WorkspaceRow \<Rightarrow> WorkspaceRow" and rs
    using that by (induction rs) auto
  have find_snoc: "List.find P (rs @ [r]) = (case List.find P rs of None \<Rightarrow> if P r then Some r else None | x \<Rightarrow> x)"
    for P and r :: WorkspaceRow and rs by (induction rs) auto
  show "List.find (\<lambda>r. registry_key r = registry_key row) (registry_rows db') = Some row'"
    using assms
    by (auto simp: upsert_checkout_def update_workspaces_def update_rows_def find_map find_snoc
        split: option.splits prod.splits sum.splits dest: insert_workspace_Inr)
  then show "registry_key row' = registry_key row" by (auto simp: find_Some_iff)
qed

definition checkout_options :: "WorkspaceOpenOptions \<Rightarrow> bool" where
  "checkout_options options \<longleftrightarrow> opt_mode options \<noteq> Some Worktree \<and> opt_baseRef options = None"

lemma registry_open_checkout:
  "checkout_options options \<Longrightarrow> requested \<noteq> [] \<Longrightarrow> registry_open cfg requested options = open_checkout cfg requested"
  by (auto simp: registry_open_def checkout_options_def split: option.splits)

text \<open>C26. Opening a directory twice gives one workspace: when a checkout has been opened, opening any path that
  leads to the same directory again succeeds with the same id and creation time, the new path, the
  repository found now and the next metadata version, and the table has the same workspaces as before.\<close>

theorem open_checkout_idempotent:
  assumes chk: "checks_schemas str_len (cfg_chk cfg)" and owner: "cfg_ownerInstance cfg \<noteq> Some []"
    and opts: "checkout_options options" "checkout_options options'"
    and first: "names_dir cfg rw requested p" "registry_open cfg requested options rw = (Inr r, rw1)"
    and second: "names_dir cfg rw2 requested' p" "requested' \<noteq> []" "stamp rw2 \<noteq> []"
    and same: "rw_db rw2 = rw_db rw1" "dir_identity cfg (reg_fs rw2) p = dir_identity cfg (reg_fs rw) p"
  shows "\<exists>r' rw3. registry_open cfg requested' options' rw2 = (Inr r', rw3)
     \<and> r' = r\<lparr>requestedPath := path_text (resolve_path cfg requested'),
              repoRoot := map_option path_text (nearest_repo (reg_fs rw2) p), lastUsedAt := stamp rw2,
              ownerInstance := cfg_ownerInstance cfg, status := Available,
              metadataVersion := metadataVersion r + 1\<rparr>
     \<and> map ws_workspace_id (registry_rows (rw_db rw3)) = map ws_workspace_id (registry_rows (rw_db rw1))"
proof -
  let ?row = "checkout_row cfg rw requested p" and ?row2 = "checkout_row cfg rw2 requested' p"
  have "requested \<noteq> []" using first(2) by (auto simp: registry_open_def io_throw_def)
  with first(2) have run: "open_checkout cfg requested rw = (Inr r, rw1)"
    by (simp add: registry_open_checkout [OF opts(1)])
  then obtain row db where up: "upsert_checkout ?row (rw_db rw) = (Inr row, db)"
    and rec: "rowToWorkspaceRecord (cfg_chk cfg) row = Inr r" and db: "rw_db rw1 = db"
    by (auto simp: open_checkout_run [OF first(1)] split: prod.splits sum.splits)
  have key: "registry_key ?row2 = registry_key ?row" using same(2) by (simp add: registry_key_def checkout_row_def)
  note again = upsert_again [OF up]
  let ?new = "refresh_checkout ?row2 row"
  have up2: "upsert_checkout ?row2 (rw_db rw2) =
      (Inr ?new, snd (update_workspaces (\<lambda>r. registry_key r = registry_key ?row2) (refresh_checkout ?row2) db))"
    using again(1) by (simp add: upsert_checkout_def key same(1) db)
  from rec obtain m st where valid: "row_valid str_len row" and m: "ws_mode row = mode_text m" "r = record_of row m st"
    by (auto simp: rowToWorkspaceRecord_iff [OF chk])
  have "path_text q \<noteq> []" for q by (simp add: path_text_def)
  then have "row_valid str_len ?new"
    using valid second(3) owner
    by (auto simp: row_valid_def refresh_checkout_def checkout_row_def text_ok_def registry_checks_def)
  moreover have "ws_mode ?new = mode_text m" "ws_status ?new = workspace_status_text Available"
    using m(1) by (simp_all add: refresh_checkout_def)
  ultimately have "rowToWorkspaceRecord (cfg_chk cfg) ?new = Inr (record_of ?new m Available)"
    by (rule row_record [OF chk])
  moreover have "record_of ?new m Available = r\<lparr>requestedPath := path_text (resolve_path cfg requested'),
              repoRoot := map_option path_text (nearest_repo (reg_fs rw2) p), lastUsedAt := stamp rw2,
              ownerInstance := cfg_ownerInstance cfg, status := Available,
              metadataVersion := metadataVersion r + 1\<rparr>"
    using version_Suc [OF valid] by (simp add: m(2) record_of_def refresh_checkout_def checkout_row_def)
  moreover have "map ws_workspace_id (registry_rows
      (snd (update_workspaces (\<lambda>r. registry_key r = registry_key ?row2) (refresh_checkout ?row2) db)))
      = map ws_workspace_id (registry_rows db)"
    by (simp add: update_workspaces_def update_rows_def)
  ultimately show ?thesis
    by (simp add: registry_open_checkout [OF opts(2) second(2)] open_checkout_run [OF second(1)] up2 db)
qed

section \<open>Revalidation\<close>

text \<open>What the stored path is now; \<open>None\<close> for the system errors \<open>get\<close> passes on.\<close>

definition path_status :: "registry \<Rightarrow> fsys \<Rightarrow> jstr \<Rightarrow> jstr \<Rightarrow> WorkspaceStatus option" where
  "path_status cfg fs path identity =
     (case existing fs True (components path) of
        Inr (q, b) \<Rightarrow> Some (if b = Directory \<and> dir_identity cfg fs q = identity then Available else Invalid)
      | Inl e \<Rightarrow>
          if e = ENOENT \<or> e = ENOTDIR then Some Missing
          else if e = EACCES \<or> e = EPERM then Some Inaccessible else None)"

lemma inspect_calm:
  assumes "calm_reg rw" "path_status cfg (reg_fs rw) path identity = Some st"
  shows "inspectPersistedWorkspacePath cfg path identity rw = (Inr st, rw)"
proof (cases "existing (reg_fs rw) True (components path)")
  case (Inl e)
  with assms show ?thesis
    by (auto simp: inspectPersistedWorkspacePath_def path_status_def os_stat_def await_observe io_defs sys_error_def
        split: if_splits)
next
  case (Inr qb)
  obtain q b where qb: "qb = (q, b)" by fastforce
  from stat_calm [OF assms(1) Inr [unfolded qb], of cfg] obtain s where
    "await (os_stat (cfg_meta cfg) (components path)) rw = (Inr s, rw)" "bs_body s = b"
    "b = Directory \<longrightarrow> filesystemIdentityFromStats s = dir_identity cfg (reg_fs rw) q" by blast
  with assms(2) Inr qb show ?thesis
    by (auto simp: inspectPersistedWorkspacePath_def path_status_def io_defs isDirectory_def split: if_splits)
qed

lemma update_found:
  assumes "find_workspace i db = Some row" "distinct (map ws_workspace_id (registry_rows db))"
    and "update_workspaces (\<lambda>r. ws_workspace_id r = i) f db = (n, db')" "\<And>r. ws_workspace_id (f r) = ws_workspace_id r"
  shows "n = 1" and "find_workspace i db' = Some (f row)"
    and "k \<noteq> i \<Longrightarrow> find_workspace k db' = find_workspace k db"
proof -
  let ?g = "\<lambda>r. if ws_workspace_id r = i then f r else r"
  have n: "n = length (filter (\<lambda>r. ws_workspace_id r = i) (registry_rows db))"
    and db': "registry_rows db' = map ?g (registry_rows db)"
    using assms(3) by (auto simp: update_workspaces_def update_rows_def)
  have "length (filter (\<lambda>r. ws_workspace_id r = i) rs) = 1"
    if "List.find (\<lambda>r. ws_workspace_id r = i) rs = Some x" "distinct (map ws_workspace_id rs)" for rs and x :: WorkspaceRow
    using that
  proof (induction rs)
    case (Cons r rs)
    show ?case
    proof (cases "ws_workspace_id r = i")
      case True
      with Cons.prems(2) have "filter (\<lambda>r. ws_workspace_id r = i) rs = []"
        by (auto simp: filter_empty_conv) (metis image_eqI)
      with True show ?thesis by simp
    qed (use Cons in simp)
  qed simp
  with assms(1,2) n show "n = 1" by (simp add: find_workspace_def)
  have found: "List.find (\<lambda>r. ws_workspace_id r = k) (map ?g rs) =
      (if k = i then map_option f (List.find (\<lambda>r. ws_workspace_id r = k) rs) else List.find (\<lambda>r. ws_workspace_id r = k) rs)"
    for k rs
    by (induction rs) (auto simp: assms(4))
  show "find_workspace i db' = Some (f row)" using assms(1) found [of i] by (simp add: find_workspace_def db')
  show "k \<noteq> i \<Longrightarrow> find_workspace k db' = find_workspace k db" using found [of k] by (simp add: find_workspace_def db')
qed

text \<open>C27. \<open>get\<close> tells what is on disk: the record it returns carries the status of the stored path as it is now
  (available only when the path is a directory with the recorded identity), the table is brought to that
  status, the metadata version grows exactly when the status changed, and no other workspace changes.\<close>

theorem registry_get_revalidates:
  assumes chk: "checks_schemas str_len (cfg_chk cfg)" and calm: "calm_reg rw" and ok: "registry_ok (rw_db rw)"
    and row: "find_workspace i (rw_db rw) = Some row" "rowToWorkspaceRecord (cfg_chk cfg) row = Inr old"
    and now: "path_status cfg (reg_fs rw) (canonicalPath old) (ws_filesystem_identity row) = Some st"
  shows "\<exists>rw'. registry_get cfg i rw =
       (Inr (Some (old\<lparr>status := st, metadataVersion := (if st = status old then metadataVersion old
                                                        else metadataVersion old + 1)\<rparr>)), rw')
     \<and> registry_ok (rw_db rw')
     \<and> registry_read cfg i (rw_db rw') = Inr (Some (old\<lparr>status := st,
          metadataVersion := (if st = status old then metadataVersion old else metadataVersion old + 1)\<rparr>))
     \<and> (\<forall>k. k \<noteq> i \<longrightarrow> find_workspace k (rw_db rw') = find_workspace k (rw_db rw))"
proof -
  have read: "registry_read cfg i (rw_db rw) = Inr (Some old)" using row by (simp add: registry_read_def)
  note look = inspect_calm [OF calm now]
  show ?thesis
  proof (cases "st = status old")
    case True
    then have "registry_get cfg i rw = (Inr (Some old), rw)"
      by (simp add: registry_get_def io_defs query_def read row(1) look)
    moreover have "old\<lparr>status := st, metadataVersion := metadataVersion old\<rparr> = old" using True by simp
    ultimately show ?thesis using True read ok by simp
  next
    case False
    let ?f = "\<lambda>r. r\<lparr>ws_status := workspace_status_text st, ws_metadata_version := ws_metadata_version r + 1\<rparr>"
    obtain n db' where u: "update_workspaces (\<lambda>r. ws_workspace_id r = i) ?f (rw_db rw) = (n, db')" by fastforce
    have "distinct (map ws_workspace_id (registry_rows (rw_db rw)))" using ok by (simp add: registry_ok_def registry_rows_ok_def)
    note upd = update_found [OF row(1) this u]
    have n: "n = 1" and row': "find_workspace i db' = Some (?f row)" by (simp_all add: upd)
    from row(2) obtain m st0 where valid: "row_valid str_len row" "ws_mode row = mode_text m" "old = record_of row m st0"
      unfolding rowToWorkspaceRecord_iff [OF chk] by blast
    have "row_valid str_len (?f row)" using valid(1) by (cases st) (auto simp: row_valid_def registry_checks_def)
    then have "rowToWorkspaceRecord (cfg_chk cfg) (?f row) = Inr (record_of (?f row) m st)"
      using valid(2) by (intro row_record [OF chk]) simp_all
    moreover have "record_of (?f row) m st = old\<lparr>status := st, metadataVersion := metadataVersion old + 1\<rparr>"
      using version_Suc [OF valid(1)] by (simp add: valid(3) record_of_def)
    ultimately have read': "registry_read cfg i db' = Inr (Some (old\<lparr>status := st, metadataVersion := metadataVersion old + 1\<rparr>))"
      by (simp add: registry_read_def row')
    have "registry_get cfg i rw = (registry_read cfg i db', rw\<lparr>rw_db := db'\<rparr>)"
      using False by (simp add: registry_get_def io_defs query_def read row(1) look in_db_def u n)
    with False read' status_update_ok [OF ok u] upd(3) show ?thesis by simp
  qed
qed

end
