(* ===== verification/WorktreeProtocol.thy ===== *)
theory WorktreeProtocol
  imports Worktrees
begin

text \<open>
  The protocol between the journal, git and the registrations, for every run of \<open>open\<close> and \<open>get\<close> under
  any interference: which git commands are run, that a worktree is only added once its intent is in the
  journal, and that a worktree is only registered on evidence from git.
\<close>

section \<open>Logs\<close>

definition commit_query :: "jstr \<Rightarrow> jstr \<Rightarrow> jstr list" where
  "commit_query root ref = [js ''-C'', root, js ''rev-parse'', js ''--verify'', js ''--end-of-options'', peel_commit ref]"

definition branch_query :: "jstr \<Rightarrow> jstr \<Rightarrow> jstr list" where
  "branch_query root b = [js ''-C'', root, js ''rev-parse'', js ''--verify'', js ''--quiet'', js ''--end-of-options'',
     peel_commit (js ''refs/heads/'' @ b)]"

definition list_query :: "jstr \<Rightarrow> jstr list" where
  "list_query root = [js ''-C'', root, js ''worktree'', js ''list'', js ''--porcelain'', js ''-z'']"

definition add_command :: "jstr \<Rightarrow> jstr \<Rightarrow> jstr \<Rightarrow> jstr \<Rightarrow> jstr \<Rightarrow> jstr list" where
  "add_command root key b path commit = [js ''-C'', root, js ''worktree'', js ''add'', js ''--lock'', js ''--reason'',
     lock_reason key, js ''-b'', b, path, commit]"

text \<open>The managed root: the configured path, the part of it that exists replaced by what \<open>realpath\<close> answered;
  \<open>K\<close> holds the answers.\<close>

definition managed_root :: "registry \<Rightarrow> (abspath \<times> abspath) set \<Rightarrow> abspath \<Rightarrow> bool" where
  "managed_root cfg K managed \<longleftrightarrow>
     (\<exists>cursor q missing. cfg_worktreeRoot cfg = Some (cursor @ missing) \<and> (cursor, q) \<in> K \<and> managed = q @ missing)"

definition resolutions :: "registry_event list \<Rightarrow> (abspath \<times> abspath) set" where
  "resolutions evs = {(p, q). Resolved p q \<in> set evs}"

text \<open>The branch and the directory asked for of git have the ownership key as their names; a worktree is only
  added while the journal holds a create intent under that key.\<close>

definition git_permitted :: "registry \<Rightarrow> (abspath \<times> abspath) set \<Rightarrow> jstr list \<Rightarrow> registry_db \<Rightarrow> bool" where
  "git_permitted cfg K args db \<longleftrightarrow>
     (\<exists>root ref. args = commit_query root ref) \<or> (\<exists>root b. args = branch_query root b)
     \<or> (\<exists>root. args = list_query root)
     \<or> (\<exists>root key managed commit.
          args = add_command root key (js ''benchhand/'' @ key) (path_text (managed @ [key])) commit
          \<and> managed_root cfg K managed \<and> hasWorktreeJournalAction db key CreateIntent)"

text \<open>What must come before the registration of \<open>m\<close>, with \<open>asked\<close> the directory of its key in the managed root
  and \<open>canonical\<close> the path that is registered, to which \<open>asked\<close> resolved in the end. Either git has added
  \<open>asked\<close> with the branch, commit and lock reason of \<open>m\<close>, or git has listed a worktree with them whose path
  resolved to what \<open>asked\<close> resolved to.\<close>

definition evidence ::
    "registry \<Rightarrow> (abspath \<times> abspath) set \<Rightarrow> registry_event list \<Rightarrow> ManagedWorktreeRow \<Rightarrow> worktree_action \<Rightarrow> bool" where
  "evidence cfg K past m action \<longleftrightarrow>
     (\<exists>managed canonical asked.
        managed_root cfg K managed \<and> asked = managed @ [mw_ownership_key m]
        \<and> mw_branch m = js ''benchhand/'' @ mw_ownership_key m \<and> mw_worktree_path m = path_text canonical
        \<and> (action = WorktreeCreated \<and>
             (\<exists>before after db out.
                past = before @ RanGit (add_command (mw_source_repo_root m) (mw_ownership_key m) (mw_branch m)
                                   (path_text asked) (mw_base_commit m)) db (Inr out) # after
                \<and> Resolved asked canonical \<in> set after)
           \<or> action = Reconciled \<and>
             (\<exists>before after db out g q.
                past = before @ RanGit (list_query (mw_source_repo_root m)) db (Inr out) # after
                \<and> Resolved asked q \<in> set before \<and> Resolved (absolute_path cfg (info_path g)) q \<in> set after
                \<and> Resolved asked canonical \<in> set after
                \<and> g \<in> set (parseWorktreePorcelain out)
                \<and> map_option (map lower_unit) (info_head g) = Some (mw_base_commit m)
                \<and> info_branch g = Some (js ''refs/heads/'' @ mw_branch m)
                \<and> info_lockedReason g = Some (lock_reason (mw_ownership_key m)))))"

definition protocol :: "registry \<Rightarrow> (abspath \<times> abspath) set \<Rightarrow> registry_event list \<Rightarrow> bool" where
  "protocol cfg K evs \<longleftrightarrow>
     (\<forall>past args db ans rest. evs = past @ RanGit args db ans # rest \<longrightarrow>
        git_permitted cfg (K \<union> resolutions past) args db)
   \<and> (\<forall>past m action rest. evs = past @ Registered m action # rest \<longrightarrow>
        evidence cfg (K \<union> resolutions past) past m action)"

lemma protocol_Nil [simp]: "protocol cfg K []"
  by (simp add: protocol_def)

lemma resolutions_simps [simp]:
  "resolutions [] = {}" "resolutions (as @ bs) = resolutions as \<union> resolutions bs"
  "resolutions (Resolved p q # evs) = insert (p, q) (resolutions evs)"
  by (auto simp: resolutions_def)

lemma managed_root_mono: "managed_root cfg K managed \<Longrightarrow> K \<subseteq> K' \<Longrightarrow> managed_root cfg K' managed"
  unfolding managed_root_def by blast

lemma permitted_mono: "git_permitted cfg K args db \<Longrightarrow> K \<subseteq> K' \<Longrightarrow> git_permitted cfg K' args db"
  unfolding git_permitted_def using managed_root_mono by metis

lemma evidence_mono:
  assumes "evidence cfg K past m a" "K \<subseteq> K'"
  shows "evidence cfg K' (before @ past) m a"
proof -
  from assms(1) obtain managed canonical where e: "managed_root cfg K managed"
      "mw_branch m = js ''benchhand/'' @ mw_ownership_key m" "mw_worktree_path m = path_text canonical"
    and c: "a = WorktreeCreated \<and>
             (\<exists>before after db out.
                past = before @ RanGit (add_command (mw_source_repo_root m) (mw_ownership_key m) (mw_branch m)
                                   (path_text (managed @ [mw_ownership_key m])) (mw_base_commit m)) db (Inr out) # after
                \<and> Resolved (managed @ [mw_ownership_key m]) canonical \<in> set after)
           \<or> a = Reconciled \<and>
             (\<exists>before after db out g q.
                past = before @ RanGit (list_query (mw_source_repo_root m)) db (Inr out) # after
                \<and> Resolved (managed @ [mw_ownership_key m]) q \<in> set before
                \<and> Resolved (absolute_path cfg (info_path g)) q \<in> set after
                \<and> Resolved (managed @ [mw_ownership_key m]) canonical \<in> set after
                \<and> g \<in> set (parseWorktreePorcelain out)
                \<and> map_option (map lower_unit) (info_head g) = Some (mw_base_commit m)
                \<and> info_branch g = Some (js ''refs/heads/'' @ mw_branch m)
                \<and> info_lockedReason g = Some (lock_reason (mw_ownership_key m)))" (is "?created past \<or> ?reconciled past")
    unfolding evidence_def by metis
  have "?created (before @ past) \<or> ?reconciled (before @ past)"
    using c
  proof (elim disjE)
    assume c: "?created past"
    then obtain b after db out where "past = b @ RanGit (add_command (mw_source_repo_root m) (mw_ownership_key m)
        (mw_branch m) (path_text (managed @ [mw_ownership_key m])) (mw_base_commit m)) db (Inr out) # after"
      "Resolved (managed @ [mw_ownership_key m]) canonical \<in> set after" by blast
    with c show ?thesis
      by (intro disjI1 conjI exI [of _ "before @ b"] exI [of _ after] exI [of _ db] exI [of _ out]) simp_all
  next
    assume c: "?reconciled past"
    then obtain b after db out g q where "past = b @ RanGit (list_query (mw_source_repo_root m)) db (Inr out) # after"
      "Resolved (managed @ [mw_ownership_key m]) q \<in> set b"
      "Resolved (absolute_path cfg (info_path g)) q \<in> set after"
      "Resolved (managed @ [mw_ownership_key m]) canonical \<in> set after"
      "g \<in> set (parseWorktreePorcelain out)"
      "map_option (map lower_unit) (info_head g) = Some (mw_base_commit m)"
      "info_branch g = Some (js ''refs/heads/'' @ mw_branch m)"
      "info_lockedReason g = Some (lock_reason (mw_ownership_key m))" by blast
    with c show ?thesis
      by (intro disjI2 conjI, blast, intro exI [of _ "before @ b"] exI [of _ after] exI [of _ db] exI [of _ out]
          exI [of _ g] exI [of _ q]) simp_all
  qed
  with e managed_root_mono [OF e(1) assms(2)] show ?thesis unfolding evidence_def by metis
qed

text \<open>A run that keeps the protocol can be followed by one that keeps it given the answers of the first.\<close>

lemma protocol_append:
  assumes "protocol cfg K as" "protocol cfg (K \<union> resolutions as) bs"
  shows "protocol cfg K (as @ bs)"
  unfolding protocol_def
proof (intro conjI allI impI)
  fix past m action rest
  assume "as @ bs = past @ Registered m action # rest"
  then consider (left) us where "as = past @ Registered m action # us"
    | (right) us where "past = as @ us" "bs = us @ Registered m action # rest"
    by (auto simp: append_eq_append_conv2 Cons_eq_append_conv append_eq_Cons_conv)
  then show "evidence cfg (K \<union> resolutions past) past m action"
  proof cases
    case left
    with assms(1) show ?thesis by (auto simp: protocol_def)
  next
    case right
    with assms(2) have "evidence cfg (K \<union> resolutions as \<union> resolutions us) us m action" by (auto simp: protocol_def)
    from evidence_mono [OF this, of "K \<union> resolutions past" as] right(1) show ?thesis by (simp add: Un_assoc)
  qed
next
  fix past args db ans rest
  assume "as @ bs = past @ RanGit args db ans # rest"
  then consider (left) us where "as = past @ RanGit args db ans # us"
    | (right) us where "past = as @ us" "bs = us @ RanGit args db ans # rest"
    by (auto simp: append_eq_append_conv2 Cons_eq_append_conv append_eq_Cons_conv)
  then show "git_permitted cfg (K \<union> resolutions past) args db"
  proof cases
    case left
    with assms(1) show ?thesis by (auto simp: protocol_def)
  next
    case right
    with assms(2) show ?thesis by (auto simp: protocol_def Un_assoc)
  qed
qed

lemma protocol_mono:
  assumes "protocol cfg K evs" "K \<subseteq> K'"
  shows "protocol cfg K' evs"
proof -
  have k: "K \<union> resolutions past \<subseteq> K' \<union> resolutions past" for past using assms(2) by blast
  have "evidence cfg (K' \<union> resolutions past) past m a" if "evidence cfg (K \<union> resolutions past) past m a" for past m a
    using evidence_mono [OF that k, of "[]"] by simp
  with assms(1) permitted_mono [OF _ k] show ?thesis unfolding protocol_def by blast
qed

lemma protocol_git: "git_permitted cfg K args db \<Longrightarrow> protocol cfg K [RanGit args db ans]"
  by (auto simp: protocol_def Cons_eq_append_conv)

lemma protocol_registered:
  assumes "protocol cfg K evs" "evidence cfg (K \<union> resolutions evs) evs m a"
  shows "protocol cfg K (evs @ [Registered m a])"
  unfolding protocol_def
proof (intro conjI allI impI)
  fix past m' action rest
  assume e: "evs @ [Registered m a] = past @ Registered m' action # rest"
  show "evidence cfg (K \<union> resolutions past) past m' action"
  proof (cases rest rule: rev_cases)
    case Nil
    with e assms(2) show ?thesis by simp
  next
    case (snoc us u)
    with e have "evs = past @ Registered m' action # us" by simp
    with assms(1) show ?thesis by (auto simp: protocol_def)
  qed
next
  fix past args db ans rest
  assume e: "evs @ [Registered m a] = past @ RanGit args db ans # rest"
  then obtain us where "evs = past @ RanGit args db ans # us"
    by (cases rest rule: rev_cases) auto
  with assms(1) show "git_permitted cfg (K \<union> resolutions past) args db" by (auto simp: protocol_def)
qed

definition logs :: "registry \<Rightarrow> (abspath \<times> abspath) set \<Rightarrow> rworld \<Rightarrow> rworld \<Rightarrow> bool" where
  "logs cfg K rw rw' \<longleftrightarrow> (\<exists>evs. rw_log rw' = rw_log rw @ evs \<and> protocol cfg K evs)"

interpretation logs: state_order "logs cfg K" for cfg K
proof
  show "logs cfg K u v \<Longrightarrow> logs cfg K v w \<Longrightarrow> logs cfg K u w" for u v w
    unfolding logs_def using protocol_append protocol_mono [of cfg K] by (metis Un_upper1 append.assoc)
qed (simp add: logs_def)

lemma logs_mono: "logs cfg K rw rw' \<Longrightarrow> K \<subseteq> K' \<Longrightarrow> logs cfg K' rw rw'"
  unfolding logs_def using protocol_mono by blast

text \<open>Runs that log nothing but answers of \<open>realpath\<close>.\<close>

definition is_resolved :: "registry_event \<Rightarrow> bool" where
  "is_resolved ev \<longleftrightarrow> (\<exists>p q. ev = Resolved p q)"

definition resolves :: "rworld \<Rightarrow> rworld \<Rightarrow> bool" where
  "resolves rw rw' \<longleftrightarrow> (\<exists>evs. rw_log rw' = rw_log rw @ evs \<and> list_all is_resolved evs)"

interpretation resolves: state_order resolves
proof
  show "resolves u v \<Longrightarrow> resolves v w \<Longrightarrow> resolves u w" for u v w
    unfolding resolves_def by fastforce
qed (simp add: resolves_def)

lemma protocol_resolved: "list_all is_resolved evs \<Longrightarrow> protocol cfg K evs"
  by (auto simp: protocol_def is_resolved_def list_all_iff)

lemma resolves_logs: "resolves rw rw' \<Longrightarrow> logs cfg K rw rw'"
  by (auto simp: logs_def resolves_def protocol_resolved)

lemma logs_resolves: "resolves.stays m \<Longrightarrow> logs.stays cfg K m"
  by (rule logs.staysI) (auto intro: resolves_logs dest: resolves.staysD)

lemma unlogged: "rw_log rw' = rw_log rw \<Longrightarrow> resolves rw rw'"
  by (simp add: resolves_def)

lemma resolves_await: "resolves.stays (await m)"
  by (rule resolves.staysI) (auto intro!: unlogged simp: await_def others_act_def split: prod.splits list.splits)

lemma resolves_sync_os: "resolves.stays (sync_os m)"
  by (rule resolves.staysI) (auto intro!: unlogged simp: sync_os_def split: prod.splits)

lemma resolves_query: "resolves.stays (query f)"
  by (rule resolves.staysI) (auto intro!: unlogged simp: query_def)

lemma resolves_in_db: "resolves.stays (in_db f)"
  by (rule resolves.staysI) (auto intro!: unlogged simp: in_db_def split: prod.splits)

lemma resolves_now: "resolves.stays now"
  by (rule resolves.staysI) (auto intro!: unlogged simp: now_def)

lemma resolves_real_path: "resolves.stays (real_path p)"
proof -
  have "resolves.stays (emit (Resolved p q))" for q
    by (rule resolves.staysI) (auto simp: resolves_def emit_def is_resolved_def)
  then show ?thesis unfolding real_path_def by (intro resolves.stays_intros resolves_await)
qed

lemmas resolves_basic = resolves.stays_intros resolves_await resolves_sync_os resolves_query resolves_in_db
  resolves_now resolves_real_path

lemma resolves_prod: "(\<And>a b. resolves.stays (f a b)) \<Longrightarrow> resolves.stays (case p of (a, b) \<Rightarrow> f a b)"
  by (simp split: prod.split)

lemma logs_prod: "(\<And>a b. logs.stays cfg K (f a b)) \<Longrightarrow> logs.stays cfg K (case p of (a, b) \<Rightarrow> f a b)"
  by (simp split: prod.split)

text \<open>What follows may use what the first part found out.\<close>

lemma logs_bind_known:
  assumes "m rw = (y, rw1)" "logs cfg K rw rw1"
    and "\<And>a. y = Inr a \<Longrightarrow> logs cfg K rw1 (snd (f a rw1))"
  shows "logs cfg K rw (snd (io_bind m f rw))"
  using assms logs.le_trans by (cases y) (auto simp: io_bind_def)

lemma real_path_log:
  "real_path p rw = (x, rw') \<Longrightarrow> case x of Inl _ \<Rightarrow> rw_log rw' = rw_log rw | Inr q \<Rightarrow> rw_log rw' = rw_log rw @ [Resolved p q]"
  by (auto simp: real_path_def io_eqs emit_def await_def others_act_def split: prod.splits list.splits sum.splits)

lemma await_log: "await m rw = (x, rw') \<Longrightarrow> rw_log rw' = rw_log rw"
  by (auto simp: await_def others_act_def split: prod.splits list.splits)

lemma resolveWorkspaceDirectory_log:
  assumes "resolveWorkspaceDirectory cfg p rw = (Inr (canonical, identity), rw')"
  shows "rw_log rw' = rw_log rw @ [Resolved p canonical]"
  using assms
  by (auto simp: resolveWorkspaceDirectory_def io_eqs io_map_error_def split: if_splits dest!: real_path_log await_log)

lemma resolves_createWorkspaceId: "resolves.stays createWorkspaceId"
  unfolding createWorkspaceId_def by (intro resolves_basic)

lemma createWorkspaceId_log: "createWorkspaceId rw = (x, rw') \<Longrightarrow> rw_log rw' = rw_log rw"
  by (auto simp: createWorkspaceId_def io_eqs sync_os_def split: prod.splits)

lemma resolves_resolveWorkspaceDirectory: "resolves.stays (resolveWorkspaceDirectory cfg p)"
  unfolding resolveWorkspaceDirectory_def by (intro resolves_basic)

lemma resolves_findRepoRoot: "resolves.stays (findRepoRoot p)"
proof (induction p rule: findRepoRoot.induct)
  case (1 p)
  show ?case by (subst findRepoRoot.simps, intro resolves_basic) (auto intro: 1)
qed

lemma resolves_canonicalize: "resolves.stays (canonicalize_from p m)"
proof (induction p m rule: canonicalize_from.induct)
  case (1 p m)
  show ?case by (subst canonicalize_from.simps, intro resolves_basic) (auto intro: 1)
qed

lemma resolves_inspect: "resolves.stays (inspectPersistedWorkspacePath cfg path identity)"
  unfolding inspectPersistedWorkspacePath_def by (intro resolves_basic)

lemma resolves_delay: "resolves.stays delay"
  unfolding delay_def by (intro resolves_basic)

lemma resolves_touch: "resolves.stays (touch_worktree cfg p ts i)"
  unfolding touch_worktree_def by (intro resolves_basic)

lemma resolves_reuse: "resolves.stays (reuse_managed cfg r m)"
  unfolding reuse_managed_def by (intro resolves_basic resolves_inspect resolves_touch)

lemma resolves_open_checkout: "resolves.stays (open_checkout cfg p)"
  unfolding open_checkout_def Let_def
  by (intro resolves_basic resolves_prod resolves_resolveWorkspaceDirectory resolves_findRepoRoot resolves_createWorkspaceId)

section \<open>Git\<close>

text \<open>Runs that register nothing.\<close>

definition harmless :: "registry \<Rightarrow> (abspath \<times> abspath) set \<Rightarrow> registry_event \<Rightarrow> bool" where
  "harmless cfg K ev \<longleftrightarrow> is_resolved ev \<or> (\<exists>args db ans. ev = RanGit args db ans \<and> git_permitted cfg K args db)"

lemma protocol_harmless: "list_all (harmless cfg K) evs \<Longrightarrow> protocol cfg K evs"
  by (auto simp: protocol_def harmless_def is_resolved_def list_all_iff intro: permitted_mono)

lemma harmless_simps [simp]:
  "harmless cfg K (Resolved p q)" "harmless cfg K (RanGit (commit_query root ref) db ans)"
  "harmless cfg K (RanGit (branch_query root b) db ans)" "harmless cfg K (RanGit (list_query root) db ans)"
  by (auto simp: harmless_def is_resolved_def git_permitted_def)

lemma resolved_harmless: "list_all is_resolved evs \<Longrightarrow> list_all (harmless cfg K) evs"
  by (auto simp: list_all_iff harmless_def)

lemma git_exec_log:
  "git_exec cfg args rw = (x, rw') \<Longrightarrow>
   \<exists>ans. x = Inr ans \<and> rw_log rw' = rw_log rw @ [RanGit args (rw_db rw) ans]"
  by (fastforce simp: git_exec_def run_git_program_def io_eqs query_def emit_def await_def others_act_def
      split: prod.splits sum.splits list.splits)

lemma runGit_log:
  assumes "runGit (git_exec cfg) cwd args code rw = (x, rw')"
  shows "\<exists>ans. rw_log rw' = rw_log rw @ [RanGit ([js ''-C'', cwd] @ args) (rw_db rw) ans] \<and> (\<forall>out. x = Inr out \<longrightarrow> ans = Inr out)"
  using assms by (auto simp: runGit_eq dest!: git_exec_log)

lemma logs_resolveGitCommit: "logs.stays cfg K (resolveGitCommit (git_exec cfg) root ref)"
proof -
  have "logs.stays cfg K (runGit (git_exec cfg) root
      [js ''rev-parse'', js ''--verify'', js ''--end-of-options'', peel_commit ref] ''WORKTREE_BASE_REF_INVALID'')"
  proof (rule logs.staysI)
    fix rw x rw'
    assume "runGit (git_exec cfg) root [js ''rev-parse'', js ''--verify'', js ''--end-of-options'', peel_commit ref]
        ''WORKTREE_BASE_REF_INVALID'' rw = (x, rw')"
    from runGit_log [OF this] obtain ans where
      "rw_log rw' = rw_log rw @ [RanGit (commit_query root ref) (rw_db rw) ans]" by (auto simp: commit_query_def)
    then show "logs cfg K rw rw'" by (auto simp: logs_def intro: protocol_harmless)
  qed
  then show ?thesis unfolding resolveGitCommit_def Let_def by (intro logs.stays_intros)
qed

lemma logs_readLocalBranchCommit: "logs.stays cfg K (readLocalBranchCommit (git_exec cfg) root b)"
proof -
  have "logs.stays cfg K (git_exec cfg (branch_query root b))"
    by (rule logs.staysI) (auto simp: logs_def intro!: protocol_harmless dest!: git_exec_log)
  then show ?thesis
    unfolding readLocalBranchCommit_def branch_query_def
    by (rule logs.stays_bind) (auto split: sum.split simp: Let_def intro: logs.stays_intros)
qed

section \<open>Registrations\<close>

text \<open>Branch and path of a registration come from its key and the managed root.\<close>

definition keyed :: "registry \<Rightarrow> (abspath \<times> abspath) set \<Rightarrow> ManagedWorktreeRegistration \<Rightarrow> bool" where
  "keyed cfg K r \<longleftrightarrow> reg_branch r = js ''benchhand/'' @ reg_ownershipKey r
     \<and> (\<exists>managed. managed_root cfg K managed \<and> reg_worktreePath r = managed @ [reg_ownershipKey r])"

lemma keyed_mono: "keyed cfg K r \<Longrightarrow> K \<subseteq> K' \<Longrightarrow> keyed cfg K' r"
  unfolding keyed_def using managed_root_mono by blast

text \<open>A registered row is the one of the registration that was asked for, at the path it resolved to.\<close>

definition row_of :: "ManagedWorktreeRegistration \<Rightarrow> abspath \<Rightarrow> ManagedWorktreeRow \<Rightarrow> bool" where
  "row_of r canonical m \<longleftrightarrow> mw_ownership_key m = reg_ownershipKey r \<and> mw_source_repo_root m = path_text (reg_repoRoot r)
     \<and> mw_branch m = reg_branch r \<and> mw_base_commit m = reg_baseCommit r \<and> mw_worktree_path m = path_text canonical"

lemma register_log:
  assumes "registerManagedWorktree cfg r a rw = (x, rw')"
  shows "resolves rw rw' \<or> (\<exists>m canonical. row_of r canonical m
    \<and> rw_log rw' = rw_log rw @ [Resolved (reg_worktreePath r) canonical, Registered m a])"
proof -
  from assms consider (failed) e where "resolveWorkspaceDirectory cfg (reg_worktreePath r) rw = (Inl e, rw')"
    | (resolved) p rw1 where "resolveWorkspaceDirectory cfg (reg_worktreePath r) rw = (Inr p, rw1)"
    unfolding registerManagedWorktree_def by (auto simp: io_bind_eq)
  then show ?thesis
  proof cases
    case failed
    with resolves.staysD [OF resolves_resolveWorkspaceDirectory failed] show ?thesis by simp
  next
    case (resolved p rw1)
    obtain canonical identity where p: "p = (canonical, identity)" by fastforce
    have l1: "rw_log rw1 = rw_log rw @ [Resolved (reg_worktreePath r) canonical]"
      using resolveWorkspaceDirectory_log resolved p by simp
    have one: "list_all is_resolved [Resolved q c]" for q c by (simp add: is_resolved_def)
    have ins: "register_work cfg r a canonical identity ts cand db = (Inr (i, Some m), db') \<Longrightarrow> row_of r canonical m"
      for ts cand db i m db'
      by (auto simp: register_work_def row_of_def managed_row_def map_sum_Inr split: option.splits prod.splits sum.splits)
    have "rw_log rw' = rw_log rw1 \<or> (\<exists>m. row_of r canonical m \<and> rw_log rw' = rw_log rw1 @ [Registered m a])"
      using assms resolved p
      unfolding registerManagedWorktree_def
      by (auto simp: io_bind_eq io_return_eq now_def in_db_def emit_def query_def transaction_def
          split: prod.splits sum.splits option.splits dest!: createWorkspaceId_log ins)
    with l1 one show ?thesis by (auto simp: resolves_def)
  qed
qed

lemma look_log:
  assumes "io_try (io_bind (real_path p) (\<lambda>q. io_return (Some q))) (\<lambda>_. io_return None) rw = (c, rw')"
  shows "c = Inr None \<and> rw_log rw' = rw_log rw \<or> (\<exists>q. c = Inr (Some q) \<and> rw_log rw' = rw_log rw @ [Resolved p q])"
  using assms by (auto simp: io_eqs dest!: real_path_log)

lemma match_log:
  assumes "match_worktree cfg r expected gs rw = (x, rw')"
  shows "resolves rw rw' \<or>
     (\<exists>evs g m canonical. list_all is_resolved evs \<and> g \<in> set gs \<and> owned_entry r g \<and> row_of r canonical m
        \<and> Resolved (absolute_path cfg (info_path g)) expected \<in> set evs
        \<and> rw_log rw' = rw_log rw @ evs @ [Resolved (reg_worktreePath r) canonical, Registered m Reconciled])"
  using assms
proof (induction gs arbitrary: rw)
  case Nil
  then show ?case by (simp add: io_return_eq resolves_def)
next
  case (Cons g gs)
  let ?at = "absolute_path cfg (info_path g)"
  let ?look = "io_try (io_bind (real_path ?at) (\<lambda>p. io_return (Some p))) (\<lambda>_. io_return None)"
  obtain c rw1 where c: "?look rw = (c, rw1)" by fastforce
  obtain p evs where p: "c = Inr p" and l1: "rw_log rw1 = rw_log rw @ evs"
    and evs: "list_all is_resolved evs" "p = Some expected \<Longrightarrow> Resolved ?at expected \<in> set evs"
  proof -
    from look_log [OF c] consider "c = Inr None" "rw_log rw1 = rw_log rw"
      | q where "c = Inr (Some q)" "rw_log rw1 = rw_log rw @ [Resolved ?at q]" by blast
    then show ?thesis
    proof cases
      case 1
      then show ?thesis by (intro that [of None "[]"]) simp_all
    next
      case (2 q)
      then show ?thesis by (intro that [of "Some q" "[Resolved ?at q]"]) (simp_all add: is_resolved_def)
    qed
  qed
  from c p Cons.prems have run: "(if p \<noteq> Some expected then match_worktree cfg r expected gs
       else if \<not> owned_entry r g then match_worktree cfg r expected gs
       else io_bind (registerManagedWorktree cfg r Reconciled) (\<lambda>w. io_return (Some w))) rw1 = (x, rw')"
    by (simp add: io_bind_def)
  have le: "resolves rw rw1" using l1 evs(1) by (auto simp: resolves_def)
  show ?case
  proof (cases "p \<noteq> Some expected \<or> \<not> owned_entry r g")
    case True
    with run have "match_worktree cfg r expected gs rw1 = (x, rw')" by (auto split: if_splits)
    from Cons.IH [OF this] show ?thesis
    proof (elim disjE exE conjE)
      assume "resolves rw1 rw'"
      with le show ?thesis using resolves.le_trans by blast
    next
      fix evs' g' m canonical
      assume "list_all is_resolved evs'" "g' \<in> set gs" "owned_entry r g'" "row_of r canonical m"
        "Resolved (absolute_path cfg (info_path g')) expected \<in> set evs'"
        "rw_log rw' = rw_log rw1 @ evs' @ [Resolved (reg_worktreePath r) canonical, Registered m Reconciled]"
      with l1 evs(1) show ?thesis
        by (intro disjI2 exI [of _ "evs @ evs'"] exI [of _ g'] exI [of _ m] exI [of _ canonical]) auto
    qed
  next
    case False
    with run obtain y where "registerManagedWorktree cfg r Reconciled rw1 = (y, rw')"
      by (auto simp: io_eqs)
    from register_log [OF this] show ?thesis
    proof (elim disjE exE conjE)
      assume "resolves rw1 rw'"
      with le show ?thesis using resolves.le_trans by blast
    next
      fix m canonical
      assume "row_of r canonical m"
        "rw_log rw' = rw_log rw1 @ [Resolved (reg_worktreePath r) canonical, Registered m Reconciled]"
      with l1 evs False show ?thesis
        by (intro disjI2 exI [of _ evs] exI [of _ g] exI [of _ m] exI [of _ canonical]) auto
    qed
  qed
qed

lemma reconciled_protocol:
  assumes k: "keyed cfg K r" and m: "row_of r canonical m" and g: "g \<in> set (parseWorktreePorcelain out)" "owned_entry r g"
    and evs: "list_all is_resolved evs" "Resolved (absolute_path cfg (info_path g)) q \<in> set evs"
  shows "protocol cfg K (Resolved (reg_worktreePath r) q # RanGit (list_query (path_text (reg_repoRoot r))) db (Inr out) #
      evs @ [Resolved (reg_worktreePath r) canonical, Registered m Reconciled])"
proof -
  let ?past = "Resolved (reg_worktreePath r) q # RanGit (list_query (path_text (reg_repoRoot r))) db (Inr out) #
      evs @ [Resolved (reg_worktreePath r) canonical]"
  obtain managed where managed: "managed_root cfg K managed" "reg_worktreePath r = managed @ [reg_ownershipKey r]"
    "reg_branch r = js ''benchhand/'' @ reg_ownershipKey r" using k by (auto simp: keyed_def)
  have "evidence cfg (K \<union> resolutions ?past) ?past m Reconciled"
    unfolding evidence_def
  proof (intro exI conjI disjI2 refl)
    show "managed_root cfg (K \<union> resolutions ?past) managed" using managed(1) by (rule managed_root_mono) (rule Un_upper1)
    show "?past = [Resolved (reg_worktreePath r) q] @ RanGit (list_query (mw_source_repo_root m)) db (Inr out) #
      evs @ [Resolved (reg_worktreePath r) canonical]" using m by (simp add: row_of_def)
  qed (use m g evs(2) managed in \<open>auto simp: row_of_def owned_entry_def\<close>)
  moreover have "protocol cfg K ?past" using evs(1) resolved_harmless by (intro protocol_harmless) simp
  ultimately show ?thesis using protocol_registered [of cfg K ?past m Reconciled] by simp
qed

lemma list_log:
  assumes "io_map_error h (listGitWorktrees (git_exec cfg) root) rw = (y, rw')"
  shows "\<exists>ans. rw_log rw' = rw_log rw @ [RanGit (list_query root) (rw_db rw) ans]
    \<and> (\<forall>gs. y = Inr gs \<longrightarrow> (\<exists>out. ans = Inr out \<and> gs = parseWorktreePorcelain out))"
proof -
  from assms obtain z where "runGit (git_exec cfg) root
      [js ''worktree'', js ''list'', js ''--porcelain'', js ''-z''] ''WORKTREE_LIST_FAILED'' rw = (z, rw')"
    and z: "\<And>gs. y = Inr gs \<Longrightarrow> \<exists>out. z = Inr out \<and> gs = parseWorktreePorcelain out"
    by (auto simp: listGitWorktrees_def io_map_error_def io_eqs)
  from runGit_log [OF this(1)] z show ?thesis by (fastforce simp: list_query_def)
qed

lemma logs_reconcile:
  assumes "keyed cfg K r"
  shows "logs.stays cfg K (tryReconcilePartialWorktree cfg r)"
proof (rule logs.staysI)
  fix rw x rw'
  let ?asked = "reg_worktreePath r"
  let ?look = "io_try (io_bind (real_path ?asked) (\<lambda>p. io_return (Some p))) (\<lambda>_. io_return None)"
  let ?list = "io_map_error (from_git_error (path_text (reg_repoRoot r)))
      (listGitWorktrees (git_exec cfg) (path_text (reg_repoRoot r)))"
  assume run: "tryReconcilePartialWorktree cfg r rw = (x, rw')"
  obtain c rw1 where c: "?look rw = (c, rw1)" by fastforce
  from look_log [OF c] show "logs cfg K rw rw'"
  proof (elim disjE exE conjE)
    assume "c = Inr None" "rw_log rw1 = rw_log rw"
    with run c show ?thesis
      by (auto simp: tryReconcilePartialWorktree_def io_bind_eq query_def io_return_eq logs_def split: if_splits)
  next
    fix q
    assume q: "c = Inr (Some q)" "rw_log rw1 = rw_log rw @ [Resolved ?asked q]"
    obtain y rw2 where y: "?list rw1 = (y, rw2)" by fastforce
    from list_log [OF y] obtain ans where
      l2: "rw_log rw2 = rw_log rw @ [Resolved ?asked q, RanGit (list_query (path_text (reg_repoRoot r))) (rw_db rw1) ans]"
      and ans: "\<And>gs. y = Inr gs \<Longrightarrow> \<exists>out. ans = Inr out \<and> gs = parseWorktreePorcelain out" using q(2) by auto
    have p2: "logs cfg K rw rw2" unfolding logs_def using l2 by (auto intro: protocol_harmless)
    from run c q(1) y consider "rw' = rw" | "rw' = rw2" | gs where "y = Inr gs" "match_worktree cfg r q gs rw2 = (x, rw')"
      by (cases y) (auto simp: tryReconcilePartialWorktree_def io_bind_eq query_def io_return_eq split: if_splits)
    then show ?thesis
    proof cases
      case 3
      from ans [OF 3(1)] obtain out where out: "ans = Inr out" "gs = parseWorktreePorcelain out" by blast
      from match_log [OF 3(2)] show ?thesis
      proof (elim disjE exE conjE)
        assume "resolves rw2 rw'"
        from resolves_logs [OF this] p2 show ?thesis using logs.le_trans by blast
      next
        fix evs g m canonical
        assume "list_all is_resolved evs" "g \<in> set gs" "owned_entry r g" "row_of r canonical m"
          "Resolved (absolute_path cfg (info_path g)) q \<in> set evs"
          "rw_log rw' = rw_log rw2 @ evs @ [Resolved ?asked canonical, Registered m Reconciled]"
        with reconciled_protocol [OF assms, of canonical m g out evs q "rw_db rw1"] out l2
        show ?thesis unfolding logs_def by auto
      qed
    qed (use p2 logs.le_refl in simp_all)
  qed
qed

lemma logs_wait: "keyed cfg K r \<Longrightarrow> logs.stays cfg K (wait_loop cfg r n)"
proof (induction n)
  case 0
  then show ?case using logs_reconcile by simp
next
  case (Suc n)
  then show ?case
    unfolding wait_loop.simps
    by (intro logs.stays_intros logs_reconcile logs_resolves [OF resolves_query] logs_resolves [OF resolves_delay])
qed

lemma create_log:
  assumes "createLockedWorktree (git_exec cfg) root path b c key rw = (x, rw')"
  shows "\<exists>ans. rw_log rw' = rw_log rw @ [RanGit (add_command root key b path c) (rw_db rw) ans]
     \<and> (x = Inr () \<longrightarrow> (\<exists>out. ans = Inr out))"
proof -
  from assms(1) obtain y where "runGit (git_exec cfg) root
     [js ''worktree'', js ''add'', js ''--lock'', js ''--reason'', lock_reason key, js ''-b'', b, path, c]
     ''WORKTREE_CREATE_FAILED'' rw = (y, rw')" and y: "x = Inr () \<Longrightarrow> \<exists>out. y = Inr out"
    by (auto simp: createLockedWorktree_def io_eqs)
  from runGit_log [OF this(1)] y show ?thesis by (fastforce simp: add_command_def)
qed

lemma add_permitted:
  assumes "keyed cfg K r" "hasWorktreeJournalAction db (reg_ownershipKey r) CreateIntent"
  shows "git_permitted cfg K (add_command root (reg_ownershipKey r) (reg_branch r) (path_text (reg_worktreePath r)) c) db"
proof -
  from assms(1) obtain managed where "managed_root cfg K managed" and
    eqs: "reg_branch r = js ''benchhand/'' @ reg_ownershipKey r" "reg_worktreePath r = managed @ [reg_ownershipKey r]"
    by (auto simp: keyed_def)
  with assms(2) show ?thesis unfolding git_permitted_def eqs by blast
qed

lemma created_protocol:
  assumes k: "keyed cfg K r" and m: "row_of r canonical m"
    and intent: "hasWorktreeJournalAction db (reg_ownershipKey r) CreateIntent"
  shows "protocol cfg K [RanGit (add_command (path_text (reg_repoRoot r)) (reg_ownershipKey r) (reg_branch r)
      (path_text (reg_worktreePath r)) (reg_baseCommit r)) db (Inr out), Resolved (reg_worktreePath r) canonical,
      Registered m WorktreeCreated]"
proof -
  let ?add = "RanGit (add_command (path_text (reg_repoRoot r)) (reg_ownershipKey r) (reg_branch r)
      (path_text (reg_worktreePath r)) (reg_baseCommit r)) db (Inr out)"
  let ?past = "[?add, Resolved (reg_worktreePath r) canonical]"
  obtain managed where managed: "managed_root cfg K managed" "reg_worktreePath r = managed @ [reg_ownershipKey r]"
    "reg_branch r = js ''benchhand/'' @ reg_ownershipKey r" using k by (auto simp: keyed_def)
  have "evidence cfg (K \<union> resolutions ?past) ?past m WorktreeCreated"
    unfolding evidence_def
  proof (intro exI conjI disjI1 refl)
    show "managed_root cfg (K \<union> resolutions ?past) managed" using managed(1) by (rule managed_root_mono) (rule Un_upper1)
    show "?past = [] @ RanGit (add_command (mw_source_repo_root m) (mw_ownership_key m) (mw_branch m)
        (path_text (managed @ [mw_ownership_key m])) (mw_base_commit m)) db (Inr out) # [Resolved (reg_worktreePath r) canonical]"
      using m managed(2) by (simp add: row_of_def)
  qed (use m managed in \<open>auto simp: row_of_def\<close>)
  moreover have "protocol cfg K ?past"
    using add_permitted [OF k intent] by (intro protocol_harmless) (auto simp: harmless_def is_resolved_def)
  ultimately show ?thesis using protocol_registered [of cfg K ?past m WorktreeCreated] by simp
qed

lemma logs_create:
  assumes k: "keyed cfg K r"
  shows "logs.stays cfg K (create_worktree cfg r)"
proof (rule logs.staysI)
  fix rw x rw'
  let ?key = "reg_ownershipKey r"
  let ?root = "path_text (reg_repoRoot r)"
  let ?add = "createLockedWorktree (git_exec cfg) ?root (path_text (reg_worktreePath r)) (reg_branch r) (reg_baseCommit r) ?key"
  assume run: "create_worktree cfg r rw = (x, rw')"
  define rw0 where "rw0 = rw\<lparr>rw_db := appendWorktreeJournal ?key None CreateIntent
         [(js ''repoRoot'', JStr ?root),
          (js ''requestedBaseRef'', JStr (reg_requestedBaseRef r)), (js ''baseCommit'', JStr (reg_baseCommit r)),
          (js ''branch'', JStr (reg_branch r)), (js ''worktreePath'', JStr (path_text (reg_worktreePath r)))] (rw_db rw)\<rparr>"
  have l0: "rw_log rw0 = rw_log rw" by (simp add: rw0_def)
  obtain y rw1 where add: "?add rw0 = (y, rw1)" by fastforce
  have intent: "hasWorktreeJournalAction (rw_db rw0) ?key CreateIntent"
    by (simp add: rw0_def hasWorktreeJournalAction_append)
  from create_log [OF add] obtain ans where
    l1: "rw_log rw1 = rw_log rw @ [RanGit (add_command ?root ?key (reg_branch r) (path_text (reg_worktreePath r)) (reg_baseCommit r)) (rw_db rw0) ans]"
    and ok: "y = Inr () \<Longrightarrow> \<exists>out. ans = Inr out" using l0 by auto
  have le1: "logs cfg K rw rw1"
    unfolding logs_def using l1 add_permitted [OF k intent] by (auto intro!: protocol_harmless simp: harmless_def)
  show "logs cfg K rw rw'"
  proof (cases y)
    case (Inl e)
    let ?recover = "io_bind (tryReconcilePartialWorktree cfg r) (\<lambda>reconciled. case reconciled of Some w \<Rightarrow> io_return (Some w) | None \<Rightarrow>
           io_bind (in_db (\<lambda>db. (Inr (), appendWorktreeJournal ?key None CreateFailed
               [(js ''message'', JStr (error_message e))] db))) (\<lambda>_.
           io_throw (from_git_error (path_text (reg_worktreePath r)) e)))"
    have st: "logs.stays cfg K ?recover"
      by (intro logs.stays_intros logs_reconcile k logs_resolves [OF resolves_in_db])
    obtain z rw2 where z: "?recover rw1 = (z, rw2)" by fastforce
    have never: "z \<noteq> Inr None"
      using z by (auto simp: io_bind_eq io_return_eq io_throw_eq split: option.splits)
    have "logs cfg K rw1 rw2" using logs.staysD [OF st z] .
    moreover have "rw' = rw2"
    proof (cases z)
      case (Inl e')
      with run add z \<open>y = Inl e\<close> show ?thesis
        by (simp add: create_worktree_def io_bind_def in_db_def io_try_def rw0_def)
    next
      case (Inr o')
      with never obtain w where "z = Inr (Some w)" by auto
      with run add z \<open>y = Inl e\<close> show ?thesis
        by (simp add: create_worktree_def io_bind_def in_db_def io_try_def rw0_def io_return_def)
    qed
    ultimately show ?thesis using logs.le_trans [OF le1] by simp
  next
    case (Inr u)
    with run add have "registerManagedWorktree cfg r WorktreeCreated rw1 = (x, rw')"
      by (simp add: create_worktree_def io_bind_def in_db_def io_try_def rw0_def io_return_def)
    from register_log [OF this] show ?thesis
    proof (elim disjE exE conjE)
      assume "resolves rw1 rw'"
      from resolves_logs [OF this] le1 show ?thesis using logs.le_trans by blast
    next
      fix m canonical
      assume m: "row_of r canonical m"
        "rw_log rw' = rw_log rw1 @ [Resolved (reg_worktreePath r) canonical, Registered m WorktreeCreated]"
      from ok Inr obtain out where "ans = Inr out" by auto
      with created_protocol [OF k m(1) intent, of out] m(2) l1 show ?thesis unfolding logs_def by auto
    qed
  qed
qed

section \<open>Opening\<close>

lemma canonicalize_log:
  assumes "canonicalize_from cursor missing rw = (Inr managed, rw')"
  shows "\<exists>evs c q rest. rw_log rw' = rw_log rw @ evs \<and> list_all is_resolved evs \<and> Resolved c q \<in> set evs
     \<and> cursor @ missing = c @ rest \<and> managed = q @ rest"
  using assms
proof (induction cursor missing arbitrary: rw rule: canonicalize_from.induct)
  case (1 cursor missing)
  obtain y rw1 where y: "real_path cursor rw = (y, rw1)" by fastforce
  show ?case
  proof (cases y)
    case (Inr q)
    with "1.prems" y have "managed = q @ missing" "rw' = rw1"
      by (auto simp: canonicalize_from.simps [of cursor] io_bind_def io_try_def io_return_def)
    with real_path_log [OF y] Inr show ?thesis
      by (intro exI [of _ "[Resolved cursor q]"] exI [of _ cursor] exI [of _ q] exI [of _ missing])
        (simp add: is_resolved_def)
  next
    case (Inl e)
    with "1.prems" y have "hasErrnoCode e ENOENT" "cursor \<noteq> []"
      and run: "canonicalize_from (butlast cursor) (last cursor # missing) rw1 = (Inr managed, rw')"
      by (auto simp: canonicalize_from.simps [of cursor] io_bind_def io_try_def io_throw_def split: if_splits)
    from \<open>cursor \<noteq> []\<close> have eq: "butlast cursor @ last cursor # missing = cursor @ missing"
      by (metis append.assoc append_Cons append_Nil append_butlast_last_id)
    note ih = "1.IH" [of e, OF _ \<open>cursor \<noteq> []\<close> run, unfolded eq]
    with \<open>hasErrnoCode e ENOENT\<close> real_path_log [OF y] Inl show ?thesis by simp
  qed
qed

lemma io_bind_Inr:
  assumes "io_bind m f w = (Inr b, w')"
  obtains a w1 where "m w = (Inr a, w1)" "f a w1 = (Inr b, w')"
  using assms by (auto simp: io_bind_eq)

text \<open>The registration an \<open>open\<close> works with is keyed.\<close>

lemma identify_source_log:
  assumes "identify_source cfg requested ref rw = (x, rw')"
  shows "\<exists>evs. rw_log rw' = rw_log rw @ evs \<and> protocol cfg K evs
    \<and> (case x of Inl _ \<Rightarrow> True | Inr (managed, r) \<Rightarrow> keyed cfg (resolutions evs) r)"
proof -
  have "logs.stays cfg K (identify_source cfg requested ref)"
    unfolding identify_source_def Let_def canonicalizePotentialPath_def
    by (intro logs.stays_intros logs_prod logs_resolveGitCommit logs_resolves [OF resolves_resolveWorkspaceDirectory]
        logs_resolves [OF resolves_findRepoRoot] logs_resolves [OF resolves_canonicalize] logs_resolves [OF resolves_await])
  from logs.staysD [OF this assms] obtain evs where evs: "rw_log rw' = rw_log rw @ evs" "protocol cfg K evs"
    by (auto simp: logs_def)
  have grows: "\<exists>evs. rw_log w' = rw_log w @ evs" if "logs.stays cfg K m" "m w = (z, w')"
    for m :: "'z reg" and w z w'
    using logs.staysD [OF that] by (auto simp: logs_def)
  have "keyed cfg (resolutions evs) r" if ok: "x = Inr (managed, r)" for managed r
  proof -
    from assms ok obtain source identity rw1 root rw2 configured rw3 st rw4 commit where
      s: "resolveWorkspaceDirectory cfg (resolve_path cfg requested) rw = (Inr (source, identity), rw1)"
      and f: "findRepoRoot source rw1 = (Inr (Some root), rw2)" and conf: "cfg_worktreeRoot cfg = Some configured"
      and c: "canonicalizePotentialPath configured rw2 = (Inr managed, rw3)"
      and t: "await (os_stat (cfg_meta cfg) root) rw3 = (Inr st, rw4)"
      and g: "io_map_error (from_git_error ref) (resolveGitCommit (git_exec cfg) (path_text root) ref) rw4 = (Inr commit, rw')"
      and r: "reg_branch r = js ''benchhand/'' @ reg_ownershipKey r" "reg_worktreePath r = managed @ [reg_ownershipKey r]"
      unfolding identify_source_def Let_def
      by (fastforce simp: io_return_eq io_throw_eq elim!: io_bind_Inr split: option.splits if_splits prod.splits)
    from c obtain before cu q missing where
      l3: "rw_log rw3 = rw_log rw2 @ before" "Resolved cu q \<in> set before" "configured = cu @ missing" "managed = q @ missing"
      using canonicalize_log [of configured "[]"] unfolding canonicalizePotentialPath_def by fastforce
    obtain e2 where "rw_log rw2 = rw_log rw @ e2"
      using resolves.le_trans [OF resolves.staysD [OF resolves_resolveWorkspaceDirectory s] resolves.staysD [OF resolves_findRepoRoot f]]
      by (auto simp: resolves_def)
    moreover obtain e4 where "rw_log rw' = rw_log rw3 @ e4"
      using grows [OF logs.stays_map_error [OF logs_resolveGitCommit] g] await_log [OF t] by auto
    ultimately have "Resolved cu q \<in> set evs" using evs(1) l3(1,2) by auto
    then have "managed_root cfg (resolutions evs) managed"
      using conf l3(3,4) by (auto simp: managed_root_def resolutions_def)
    with r show ?thesis by (auto simp: keyed_def)
  qed
  with evs show ?thesis by (intro exI [of _ evs]) (auto split: sum.splits)
qed

lemma openWorktree_log: "logs cfg K rw (snd (openWorktree cfg p ref rw))"
proof -
  obtain x rw1 where x: "identify_source cfg p ref rw = (x, rw1)" by fastforce
  from identify_source_log [OF x, of K] obtain evs where evs: "rw_log rw1 = rw_log rw @ evs" "protocol cfg K evs"
    and k: "case x of Inl _ \<Rightarrow> True | Inr (managed, r) \<Rightarrow> keyed cfg (resolutions evs) r" by blast
  show ?thesis
  proof (cases x)
    case (Inl e)
    with x evs show ?thesis by (auto simp: openWorktree_def io_bind_def logs_def)
  next
    case (Inr mr)
    obtain managed r where mr: "mr = (managed, r)" by fastforce
    let ?K = "K \<union> resolutions evs"
    have kr: "keyed cfg ?K r" using k Inr mr by (auto intro: keyed_mono)
    let ?rest = "io_bind (query (\<lambda>db. Inr (find_managed (reg_ownershipKey r) db))) (\<lambda>found. case found of
       Some m \<Rightarrow> reuse_managed cfg r m
     | None \<Rightarrow>
     io_bind (await (os_mkdir_recursive managed)) (\<lambda>_.
     io_bind (adopt_occupied cfg r) (\<lambda>adopted. case adopted of Some w \<Rightarrow> io_return w | None \<Rightarrow>
     io_bind (io_map_error (from_git_error (path_text (reg_repoRoot r)))
                (readLocalBranchCommit (git_exec cfg) (path_text (reg_repoRoot r)) (reg_branch r))) (\<lambda>branchCommit.
     case branchCommit of
       Some commit \<Rightarrow> branch_conflict cfg r commit
     | None \<Rightarrow> create_worktree cfg r))))"
    have "logs.stays cfg ?K (adopt_occupied cfg r)"
      unfolding adopt_occupied_def by (intro logs.stays_intros logs_reconcile kr logs_resolves [OF resolves_await])
    moreover have "logs.stays cfg ?K (branch_conflict cfg r c)" for c
      unfolding branch_conflict_def Let_def waitForInflightWorktree_def
      by (intro logs.stays_intros logs_wait kr logs_resolves [OF resolves_query] logs_resolves [OF resolves_in_db])
    ultimately have "logs.stays cfg ?K ?rest"
      by (intro logs.stays_intros logs_create kr logs_readLocalBranchCommit logs_resolves [OF resolves_reuse]
          logs_resolves [OF resolves_query] logs_resolves [OF resolves_await])
    then have "logs cfg ?K rw1 (snd (?rest rw1))" by (rule logs.staysD) (rule prod.collapse [symmetric])
    moreover have "openWorktree cfg p ref rw = ?rest rw1"
      using x Inr mr by (simp add: openWorktree_def io_bind_def)
    ultimately show ?thesis
      using evs protocol_append [of cfg K evs] by (fastforce simp: logs_def)
  qed
qed

lemma open_log: "logs cfg K rw (snd (registry_open cfg p options rw))"
proof -
  have "logs cfg K rw (snd (open_checkout cfg p rw))"
    by (rule resolves_logs, rule resolves.staysD [OF resolves_open_checkout], rule prod.collapse [symmetric])
  with openWorktree_log show ?thesis by (auto simp: registry_open_def io_throw_def logs.le_refl)
qed

text \<open>C24. Managed worktrees follow the journal: in every run of \<open>open\<close>, whatever fails and whatever other tasks
  do in between, the only git commands are the two commit queries, the listing and \<open>worktree add\<close>. Each
  \<open>worktree add\<close> is for the directory of an ownership key in the canonical managed root and for the branch of that
  key, and at that moment the journal holds a create intent for the key. A managed worktree is registered
  with the branch of its key and the path to which the directory of its key has resolved, and only after
  git has added that very directory with its branch, commit and lock, or has listed a worktree
  with its commit, branch and lock reason whose path resolves to the same place as that directory.\<close>

theorem worktree_protocol:
  "\<exists>evs. rw_log (snd (registry_open cfg p options rw)) = rw_log rw @ evs \<and> protocol cfg {} evs"
  using open_log [of cfg "{}" rw p options] by (simp add: logs_def)

end
