(* ===== verification/WorktreeCalm.thy ===== *)
theory WorktreeCalm
  imports RegistryCalm WorktreeProtocol
begin

text \<open>
  \<open>open\<close> in worktree mode when nothing else acts and git behaves as documented: a new managed worktree is
  created, registered and journalled, and concrete runs of the registry that the properties apply to.
\<close>

section \<open>Git when nothing else acts\<close>

definition set_fs :: "fsys \<Rightarrow> rworld \<Rightarrow> rworld" where
  "set_fs fs rw = rw\<lparr>rw_os := (rw_os rw)\<lparr>w_fs := fs\<rparr>\<rparr>"

lemma same_fs: "set_fs (reg_fs rw) rw = rw"
  by (simp add: set_fs_def reg_fs_def)

lemma calm_simps [simp]:
  "calm_reg (set_fs fs rw) = calm_reg rw" "calm_reg (rw\<lparr>rw_db := db\<rparr>) = calm_reg rw"
  "reg_fs (set_fs fs rw) = fs" "reg_fs (rw\<lparr>rw_db := db\<rparr>) = reg_fs rw"
  "rw_db (set_fs fs rw) = rw_db rw"
  "stamp (set_fs fs rw) = stamp rw" "stamp (rw\<lparr>rw_db := db\<rparr>) = stamp rw"
  "new_id (set_fs fs rw) = new_id rw" "new_id (rw\<lparr>rw_db := db\<rparr>) = new_id rw"
  by (simp_all add: calm_reg_def set_fs_def calm_def reg_fs_def stamp_def new_id_def)

lemma relogged_simps [simp]:
  "calm_reg (rw\<lparr>rw_log := l\<rparr>) = calm_reg rw" "reg_fs (rw\<lparr>rw_log := l\<rparr>) = reg_fs rw"
  "stamp (rw\<lparr>rw_log := l\<rparr>) = stamp rw" "new_id (rw\<lparr>rw_log := l\<rparr>) = new_id rw"
  by (simp_all add: calm_reg_def reg_fs_def stamp_def new_id_def)

lemma git_exec_calm:
  assumes "calm_reg rw" "cfg_git cfg args (reg_fs rw) = (ans, fs')"
  shows "git_exec cfg args rw = (Inr ans, logged (RanGit args (rw_db rw) ans) (set_fs fs' rw))"
proof -
  have "run_git_program cfg args (rw_os rw) = (Inr ans, (rw_os rw)\<lparr>w_fs := fs'\<rparr>)"
    using assms by (simp add: run_git_program_def syscall_calm calm_reg_def reg_fs_def)
  from await_calm [where m = "run_git_program cfg args", OF assms(1) this] show ?thesis
    by (simp add: git_exec_def io_defs query_def emit_def logged_def set_fs_def)
qed

lemma runGit_calm:
  assumes "calm_reg rw" "cfg_git cfg ([js ''-C'', cwd] @ args) (reg_fs rw) = (Inr out, fs')"
  shows "runGit (git_exec cfg) cwd args code rw =
    (Inr out, logged (RanGit ([js ''-C'', cwd] @ args) (rw_db rw) (Inr out)) (set_fs fs' rw))"
  unfolding runGit_def io_bind_def git_exec_calm [OF assms] by (simp add: io_return_def)

section \<open>The source\<close>

lemma isSameOrDescendantPath_iff:
  "list_all plain root \<Longrightarrow> list_all plain p \<Longrightarrow> isSameOrDescendantPath root p \<longleftrightarrow> prefix root p"
  using isSameOrDescendant_iff [of root p] by (simp add: isSameOrDescendantPath_def isSameOrDescendant_def)

lemma canonicalize_calm:
  "calm_reg rw \<Longrightarrow> existing (reg_fs rw) True p = Inr (q, b) \<Longrightarrow>
     canonicalizePotentialPath p rw = (Inr q, logged (Resolved p q) rw)"
  by (simp add: canonicalizePotentialPath_def canonicalize_from.simps [of p] io_defs real_path_calm)

lemma nearest_repo_prefix: "nearest_repo fs p = Some root \<Longrightarrow> prefix root p"
  by (auto simp: nearest_repo_def ancestors_def find_Some_iff nth_append take_is_prefix rev_nth simp del: upt_Suc)

definition registration_of :: "registry \<Rightarrow> jstr \<Rightarrow> abspath \<Rightarrow> jstr \<Rightarrow> jstr \<Rightarrow> jstr \<Rightarrow> abspath \<Rightarrow> ManagedWorktreeRegistration" where
  "registration_of cfg requested root identity ref commit managed =
     (let key = worktreeOwnershipKey cfg identity commit in
      \<lparr>reg_ownershipKey = key, reg_absoluteRequestedPath = resolve_path cfg requested, reg_repoRoot = root,
       reg_sourceFilesystemIdentity = identity, reg_requestedBaseRef = ref, reg_baseCommit = commit,
       reg_branch = js ''benchhand/'' @ key, reg_worktreePath = managed @ [key]\<rparr>)"

text \<open>The request names a directory of a repository, the managed root is a directory outside it, and git
  resolves the reference to \<open>commit\<close>.\<close>

definition source_ok :: "registry \<Rightarrow> rworld \<Rightarrow> jstr \<Rightarrow> jstr \<Rightarrow> abspath \<Rightarrow> abspath \<Rightarrow> abspath \<Rightarrow> jstr \<Rightarrow> bool" where
  "source_ok cfg rw requested ref p root managed out \<longleftrightarrow>
     names_dir cfg rw requested p \<and> nearest_repo (reg_fs rw) p = Some root
     \<and> (\<exists>conf. cfg_worktreeRoot cfg = Some conf \<and> existing (reg_fs rw) True conf = Inr (managed, Directory))
     \<and> is_dir_path (reg_fs rw) managed \<and> \<not> prefix root managed
     \<and> ref \<noteq> [] \<and> is_commit_id (trim out)
     \<and> cfg_git cfg (commit_query (path_text root) ref) (reg_fs rw) = (Inr out, reg_fs rw)"

lemma identify_source_calm:
  assumes "source_ok cfg rw requested ref p root managed out"
  shows "\<exists>l. identify_source cfg requested ref rw =
     (Inr (managed, registration_of cfg requested root (dir_identity cfg (reg_fs rw) root) ref
              (map lower_unit (trim out)) managed), rw\<lparr>rw_log := l\<rparr>)"
proof -
  obtain conf where a: "names_dir cfg rw requested p" "nearest_repo (reg_fs rw) p = Some root"
    "cfg_worktreeRoot cfg = Some conf" "existing (reg_fs rw) True conf = Inr (managed, Directory)"
    "is_dir_path (reg_fs rw) managed" "\<not> prefix root managed" "ref \<noteq> []" "is_commit_id (trim out)"
    "cfg_git cfg (commit_query (path_text root) ref) (reg_fs rw) = (Inr out, reg_fs rw)"
    using assms by (auto simp: source_ok_def)
  from a(1) have n: "calm_reg rw" "existing (reg_fs rw) True (resolve_path cfg requested) = Inr (p, Directory)"
    "is_dir_path (reg_fs rw) p" by (simp_all add: names_dir_def)
  obtain rest where "p = root @ rest" using nearest_repo_prefix [OF a(2)] by (auto simp: prefix_def)
  with n(3) have root: "is_dir_path (reg_fs rw) root" using dir_path_prefix by blast
  have outside: "\<not> isSameOrDescendantPath root managed"
    using root a(5,6) by (simp add: isSameOrDescendantPath_iff is_dir_path_def)
  let ?rw1 = "logged (Resolved (resolve_path cfg requested) p) rw"
  let ?rw2 = "logged (Resolved conf managed) ?rw1"
  have found: "findRepoRoot p ?rw1 = (Inr (Some root), ?rw1)"
    using findRepoRoot_calm [of ?rw1 p] n a(2) by simp
  have canon: "canonicalizePotentialPath conf ?rw1 = (Inr managed, ?rw2)"
    using canonicalize_calm [of ?rw1 conf] n(1) a(4) by simp
  obtain st where st: "await (os_stat (cfg_meta cfg) root) ?rw2 = (Inr st, ?rw2)"
    "filesystemIdentityFromStats st = dir_identity cfg (reg_fs rw) root"
    using stat_calm [of ?rw2 root root Directory cfg] n(1) existing_dir [OF root] by auto
  let ?rw3 = "logged (RanGit (commit_query (path_text root) ref) (rw_db rw) (Inr out)) ?rw2"
  have "runGit (git_exec cfg) (path_text root)
      [js ''rev-parse'', js ''--verify'', js ''--end-of-options'', peel_commit ref] ''WORKTREE_BASE_REF_INVALID'' ?rw2
    = (Inr out, ?rw3)"
    using runGit_calm [of ?rw2 cfg "path_text root"
        "[js ''rev-parse'', js ''--verify'', js ''--end-of-options'', peel_commit ref]" out "reg_fs rw"] a(9) n(1)
      same_fs [of ?rw2]
    by (simp add: commit_query_def)
  then have git: "resolveGitCommit (git_exec cfg) (path_text root) ref ?rw2 = (Inr (map lower_unit (trim out)), ?rw3)"
    using a(7,8) by (simp add: resolveGitCommit_def io_bind_def io_return_def Let_def)
  have "identify_source cfg requested ref rw =
     (Inr (managed, registration_of cfg requested root (dir_identity cfg (reg_fs rw) root) ref
              (map lower_unit (trim out)) managed), ?rw3)"
    by (simp add: identify_source_def Let_def io_bind_def resolveWorkspaceDirectory_calm [OF n] found
        a(3) canon outside st io_map_error_def io_try_def git io_return_def registration_of_def)
  moreover have "?rw3 = rw\<lparr>rw_log := rw_log ?rw3\<rparr>" by (simp add: logged_def)
  ultimately show ?thesis by metis
qed

section \<open>Creating a worktree\<close>

lemma make_dirs_existing: "is_dir_path fs (cur @ p) \<Longrightarrow> make_dirs fs cur p = Inr (fs, [])"
proof (induction p arbitrary: cur)
  case (Cons c p)
  have "is_dir_path fs (cur @ [c])" using Cons.prems dir_path_prefix [of fs "cur @ [c]" p] by simp
  with existing_dir [OF this] Cons.IH [of "cur @ [c]"] Cons.prems show ?case by simp
qed simp

lemma mkdir_existing:
  assumes "calm_reg rw" "is_dir_path (reg_fs rw) p"
  shows "await (os_mkdir_recursive p) rw = (Inr (), rw)"
proof -
  have "os_mkdir_recursive p (rw_os rw) = (Inr (), rw_os rw)"
    using assms make_dirs_existing [of "reg_fs rw" "[]" p]
    by (simp add: os_mkdir_recursive_def syscall_calm calm_reg_def reg_fs_def)
  from await_calm [where m = "os_mkdir_recursive p", OF assms(1) this] show ?thesis by simp
qed

text \<open>No constraint stands in the way of the two new rows.\<close>

definition unclaimed :: "WorkspaceRow \<Rightarrow> ManagedWorktreeRow \<Rightarrow> registry_db \<Rightarrow> bool" where
  "unclaimed w m db \<longleftrightarrow> ws_workspace_id w \<notin> ws_workspace_id ` set (registry_rows db)
     \<and> registry_key w \<notin> registry_key ` set (registry_rows db)
     \<and> mw_ownership_key m \<notin> mw_ownership_key ` set (managed_rows db)
     \<and> mw_workspace_id m \<notin> mw_workspace_id ` set (managed_rows db)
     \<and> mw_branch m \<notin> mw_branch ` set (managed_rows db)
     \<and> mw_worktree_path m \<notin> mw_worktree_path ` set (managed_rows db)
     \<and> source_key m \<notin> source_key ` set (managed_rows db)"

lemma register_work_fresh:
  assumes "unclaimed (worktree_row cfg r canonical identity ts cand) (managed_row r canonical ts cand) db"
  shows "register_work cfg r act canonical identity ts cand db =
     (Inr (cand, Some (managed_row r canonical ts cand)),
      appendWorktreeJournal (reg_ownershipKey r) (Some cand) act [(js ''canonicalPath'', JStr (path_text canonical))]
        (db\<lparr>registry_rows := registry_rows db @ [worktree_row cfg r canonical identity ts cand],
            managed_rows := managed_rows db @ [managed_row r canonical ts cand]\<rparr>))"
proof -
  have "List.find (\<lambda>m. mw_ownership_key m = reg_ownershipKey r \<and> mw_status m = js ''active'') (managed_rows db) = None"
    using assms by (auto simp: find_None_iff unclaimed_def managed_row_def) (metis image_eqI)
  moreover have "insert_workspace (worktree_row cfg r canonical identity ts cand) db =
      (Inr (), db\<lparr>registry_rows := registry_rows db @ [worktree_row cfg r canonical identity ts cand]\<rparr>)"
    using assms by (simp add: insert_workspace_def unclaimed_def) (simp add: registry_checks_def worktree_row_def)
  moreover have "insert_managed (managed_row r canonical ts cand)
      (db\<lparr>registry_rows := registry_rows db @ [worktree_row cfg r canonical identity ts cand]\<rparr>) =
      (Inr (), db\<lparr>registry_rows := registry_rows db @ [worktree_row cfg r canonical identity ts cand],
        managed_rows := managed_rows db @ [managed_row r canonical ts cand]\<rparr>)"
    using assms by (simp add: insert_managed_def Let_def unclaimed_def)
      (simp add: managed_checks_def managed_row_def worktree_row_def)
  ultimately show ?thesis by (simp add: register_work_def)
qed

lemma find_snoc_fresh:
  "ws_workspace_id w \<notin> ws_workspace_id ` set rs \<Longrightarrow>
   List.find (\<lambda>r. ws_workspace_id r = ws_workspace_id w) (rs @ [w]) = Some w"
  by (induction rs) auto

lemma register_calm:
  assumes chk: "checks_schemas str_len (cfg_chk cfg)"
    and calm: "calm_reg rw" and dir: "is_dir_path (reg_fs rw) (reg_worktreePath r)"
  defines "w \<equiv> worktree_row cfg r (reg_worktreePath r) (dir_identity cfg (reg_fs rw) (reg_worktreePath r)) (stamp rw) (new_id rw)"
    and "m \<equiv> managed_row r (reg_worktreePath r) (stamp rw) (new_id rw)"
  assumes free: "unclaimed w m (rw_db rw)" and valid: "row_valid str_len w"
  shows "\<exists>rw'. registerManagedWorktree cfg r act rw = (Inr (record_of w Worktree Available), rw')
     \<and> rw_db rw' = appendWorktreeJournal (reg_ownershipKey r) (Some (new_id rw)) act
         [(js ''canonicalPath'', JStr (path_text (reg_worktreePath r)))]
         ((rw_db rw)\<lparr>registry_rows := registry_rows (rw_db rw) @ [w], managed_rows := managed_rows (rw_db rw) @ [m]\<rparr>)
     \<and> reg_fs rw' = reg_fs rw"
proof -
  let ?db = "appendWorktreeJournal (reg_ownershipKey r) (Some (new_id rw)) act
         [(js ''canonicalPath'', JStr (path_text (reg_worktreePath r)))]
         ((rw_db rw)\<lparr>registry_rows := registry_rows (rw_db rw) @ [w], managed_rows := managed_rows (rw_db rw) @ [m]\<rparr>)"
  have work: "register_work cfg r act (reg_worktreePath r) (dir_identity cfg (reg_fs rw) (reg_worktreePath r))
      (stamp rw) (new_id rw) (rw_db rw) = (Inr (new_id rw, Some m), ?db)"
    using register_work_fresh [OF free [unfolded w_def m_def]] by (simp add: w_def m_def)
  let ?rw1 = "logged (Resolved (reg_worktreePath r) (reg_worktreePath r)) rw"
  have id: "new_id (?rw1\<lparr>rw_ticks := t\<rparr>) = new_id rw" for t by (simp add: new_id_def)
  have "ws_workspace_id w = new_id rw" by (simp add: w_def worktree_row_def)
  then have "find_workspace (new_id rw) ?db = Some w"
    using find_snoc_fresh [of w] free by (simp add: find_workspace_def appendWorktreeJournal_def unclaimed_def)
  moreover have "rowToWorkspaceRecord (cfg_chk cfg) w = Inr (record_of w Worktree Available)"
    using valid by (rule row_record [OF chk]) (simp_all add: w_def worktree_row_def)
  ultimately have read: "readRequired cfg (new_id rw) ?db = Inr (record_of w Worktree Available)"
    by (simp add: readRequired_def registry_read_def)
  show ?thesis
    unfolding registerManagedWorktree_def
    by (simp add: io_bind_def resolveWorkspaceDirectory_calm [OF calm existing_dir [OF dir] dir] now_run
        createWorkspaceId_run id in_db_def transaction_def work [unfolded reg_fs_def] emit_def query_def read reg_fs_def)
qed

text \<open>How git answers around the creation of a worktree: the branch does not exist (exit code 1), and adding it
  succeeds and leaves a directory at its path in the file system \<open>fs'\<close>.\<close>

definition git_creates ::
    "registry \<Rightarrow> abspath \<Rightarrow> jstr \<Rightarrow> jstr \<Rightarrow> abspath \<Rightarrow> jstr \<Rightarrow> fsys \<Rightarrow> fsys \<Rightarrow> bool" where
  "git_creates cfg root key br path commit fs fs' \<longleftrightarrow>
     (\<exists>err. cfg_git cfg (branch_query (path_text root) br) fs = (Inl err, fs) \<and> exec_code err = Some 1)
   \<and> (\<exists>out. cfg_git cfg (add_command (path_text root) key br (path_text path) commit) fs = (Inr out, fs'))
   \<and> is_dir_path fs' path"

lemma branch_free:
  assumes "calm_reg rw" "cfg_git cfg (branch_query root b) (reg_fs rw) = (Inl err, reg_fs rw)" "exec_code err = Some 1"
  shows "readLocalBranchCommit (git_exec cfg) root b rw =
     (Inr None, logged (RanGit (branch_query root b) (rw_db rw) (Inl err)) rw)"
  using git_exec_calm [OF assms(1,2)] assms(3)
  by (simp add: readLocalBranchCommit_def branch_query_def io_bind_def same_fs extractExitCode_def io_return_def)

lemma adopt_free:
  assumes "calm_reg rw" "is_dir_path (reg_fs rw) d" "plain key" "body_at (reg_fs rw) (d @ [key]) = None"
    and "reg_worktreePath r = d @ [key]"
  shows "adopt_occupied cfg r rw = (Inr None, rw)"
  using lstat_calm [OF assms(1-3)] assms(4,5)
  by (simp add: adopt_occupied_def io_defs sys_error_def)

definition intent_details :: "ManagedWorktreeRegistration \<Rightarrow> (jstr \<times> json) list" where
  "intent_details r = [(js ''repoRoot'', JStr (path_text (reg_repoRoot r))),
          (js ''requestedBaseRef'', JStr (reg_requestedBaseRef r)), (js ''baseCommit'', JStr (reg_baseCommit r)),
          (js ''branch'', JStr (reg_branch r)), (js ''worktreePath'', JStr (path_text (reg_worktreePath r)))]"

lemma create_worktree_calm:
  assumes chk: "checks_schemas str_len (cfg_chk cfg)" and calm: "calm_reg rw"
    and git: "git_creates cfg (reg_repoRoot r) (reg_ownershipKey r) (reg_branch r) (reg_worktreePath r) (reg_baseCommit r)
        (reg_fs rw) fs'"
  defines "w \<equiv> worktree_row cfg r (reg_worktreePath r) (dir_identity cfg fs' (reg_worktreePath r)) (stamp rw) (new_id rw)"
    and "m \<equiv> managed_row r (reg_worktreePath r) (stamp rw) (new_id rw)"
  assumes free: "unclaimed w m (rw_db rw)" and valid: "row_valid str_len w"
  shows "\<exists>rw'. create_worktree cfg r rw = (Inr (record_of w Worktree Available), rw')
     \<and> rw_db rw' = appendWorktreeJournal (reg_ownershipKey r) (Some (new_id rw)) WorktreeCreated
         [(js ''canonicalPath'', JStr (path_text (reg_worktreePath r)))]
         ((appendWorktreeJournal (reg_ownershipKey r) None CreateIntent (intent_details r) (rw_db rw))
            \<lparr>registry_rows := registry_rows (rw_db rw) @ [w], managed_rows := managed_rows (rw_db rw) @ [m]\<rparr>)
     \<and> reg_fs rw' = fs'"
proof -
  let ?db = "appendWorktreeJournal (reg_ownershipKey r) None CreateIntent (intent_details r) (rw_db rw)"
  let ?add = "add_command (path_text (reg_repoRoot r)) (reg_ownershipKey r) (reg_branch r)
           (path_text (reg_worktreePath r)) (reg_baseCommit r)"
  define rw0 where "rw0 = rw\<lparr>rw_db := ?db\<rparr>"
  obtain out where out: "cfg_git cfg ?add (reg_fs rw) = (Inr out, fs')" and dir: "is_dir_path fs' (reg_worktreePath r)"
    using git by (auto simp: git_creates_def)
  define rw1 where "rw1 = logged (RanGit ?add (rw_db rw0) (Inr out)) (set_fs fs' rw0)"
  have calm0: "calm_reg rw0" and fs0: "reg_fs rw0 = reg_fs rw" using calm by (simp_all add: rw0_def)
  have add: "createLockedWorktree (git_exec cfg) (path_text (reg_repoRoot r)) (path_text (reg_worktreePath r))
      (reg_branch r) (reg_baseCommit r) (reg_ownershipKey r) rw0 = (Inr (), rw1)"
    using runGit_calm [OF calm0, of cfg "path_text (reg_repoRoot r)" "tl (tl ?add)" out fs' "''WORKTREE_CREATE_FAILED''"] out
    by (simp add: createLockedWorktree_def add_command_def io_bind_def io_return_def fs0 rw1_def)
  have keep: "calm_reg rw1" "reg_fs rw1 = fs'" "stamp rw1 = stamp rw" "new_id rw1 = new_id rw" "rw_db rw1 = ?db"
    using calm by (simp_all add: rw1_def rw0_def)
  have free1: "unclaimed w m (rw_db rw1)"
    using free unfolding keep by (simp add: unclaimed_def appendWorktreeJournal_def)
  from register_calm [OF chk keep(1), of r WorktreeCreated, unfolded keep, OF dir free1 [unfolded w_def m_def keep] valid [unfolded w_def]]
  obtain rw' where rw': "registerManagedWorktree cfg r WorktreeCreated rw1 = (Inr (record_of w Worktree Available), rw')"
    "rw_db rw' = appendWorktreeJournal (reg_ownershipKey r) (Some (new_id rw)) WorktreeCreated
         [(js ''canonicalPath'', JStr (path_text (reg_worktreePath r)))]
         (?db\<lparr>registry_rows := registry_rows ?db @ [w], managed_rows := managed_rows ?db @ [m]\<rparr>)"
    "reg_fs rw' = fs'"
    by (auto simp: w_def m_def)
  have "create_worktree cfg r rw = (Inr (record_of w Worktree Available), rw')"
    using rw'(1) add
    by (simp add: create_worktree_def io_bind_def in_db_def io_try_def io_return_def rw0_def intent_details_def)
  moreover have "registry_rows ?db = registry_rows (rw_db rw)" "managed_rows ?db = managed_rows (rw_db rw)"
    by (simp_all add: appendWorktreeJournal_def)
  ultimately show ?thesis using rw'(2,3) by auto
qed

text \<open>C25. A new managed worktree, when git behaves as documented and nothing else acts. Let the key be the first 20
  digits of the hash of the repository's identity, a zero byte and the commit the reference resolved to. The
  worktree is at the key's name in the managed root, on the branch \<open>benchhand/\<close> with the key. The call returns
  the record of one new workspace row, and the tables gain exactly that row and one managed row, with the values
  spelled out here, and the journal gains exactly two rows, both under the key: the create intent, of no
  workspace, with the details of the request, and then the creation, of the new workspace, with its path.\<close>

theorem worktree_created:
  assumes chk: "checks_schemas str_len (cfg_chk cfg)"
    and src: "source_ok cfg rw requested ref p root managed out" and requested: "requested \<noteq> []"
  defines "identity \<equiv> dir_identity cfg (reg_fs rw) root"
    and "commit \<equiv> map lower_unit (trim out)"
  defines "key \<equiv> take 20 (cfg_sha256 cfg (utf8_encode identity @ [0] @ utf8_encode commit))"
  defines "path \<equiv> managed @ [key]" and "br \<equiv> js ''benchhand/'' @ key"
  assumes new: "find_managed key (rw_db rw) = None" "plain key" "body_at (reg_fs rw) path = None"
    and git: "git_creates cfg root key br path commit (reg_fs rw) fs'"
  defines "w \<equiv> \<lparr>ws_workspace_id = new_id rw, ws_canonical_path = path_text path,
      ws_requested_path = path_text (resolve_path cfg requested), ws_filesystem_identity = dir_identity cfg fs' path,
      ws_mode = js ''worktree'', ws_repo_root = Some (path_text root), ws_worktree_path = Some (path_text path),
      ws_base_ref = Some commit, ws_branch = Some br, ws_created_at = stamp rw, ws_last_used_at = stamp rw,
      ws_owner_instance = cfg_ownerInstance cfg, ws_status = js ''available'', ws_metadata_version = 1\<rparr>"
    and "m \<equiv> \<lparr>mw_ownership_key = key, mw_workspace_id = new_id rw, mw_source_repo_root = path_text root,
      mw_source_filesystem_identity = identity, mw_requested_base_ref = ref, mw_base_commit = commit,
      mw_branch = br, mw_worktree_path = path_text path, mw_status = js ''active'',
      mw_created_at = stamp rw, mw_updated_at = stamp rw\<rparr>"
  assumes free: "unclaimed w m (rw_db rw)" and valid: "row_valid str_len w"
  shows "\<exists>rw'. registry_open cfg requested \<lparr>opt_mode = Some Worktree, opt_baseRef = Some ref\<rparr> rw =
       (Inr (record_of w Worktree Available), rw')
     \<and> registry_rows (rw_db rw') = registry_rows (rw_db rw) @ [w]
     \<and> managed_rows (rw_db rw') = managed_rows (rw_db rw) @ [m]
     \<and> journal_rows (rw_db rw') = journal_rows (rw_db rw) @
         [\<lparr>jr_event_id = next_event (rw_db rw), jr_ownership_key = key, jr_workspace_id = None,
           jr_action = js ''create-intent'',
           jr_details_json = Some (JSON_stringify (JObj [(js ''repoRoot'', JStr (path_text root)),
             (js ''requestedBaseRef'', JStr ref), (js ''baseCommit'', JStr commit), (js ''branch'', JStr br),
             (js ''worktreePath'', JStr (path_text path))]))\<rparr>,
          \<lparr>jr_event_id = Suc (next_event (rw_db rw)), jr_ownership_key = key, jr_workspace_id = Some (new_id rw),
           jr_action = js ''created'',
           jr_details_json = Some (JSON_stringify (JObj [(js ''canonicalPath'', JStr (path_text path))]))\<rparr>]
     \<and> reg_fs rw' = fs'"
proof -
  define r where "r = registration_of cfg requested root identity ref commit managed"
  have r: "reg_ownershipKey r = key" "reg_worktreePath r = path" "reg_branch r = br" "reg_baseCommit r = commit"
    "reg_repoRoot r = root" "reg_requestedBaseRef r = ref"
    by (simp_all add: r_def registration_of_def Let_def worktreeOwnershipKey_def key_def path_def br_def)
  have rows: "worktree_row cfg r path (dir_identity cfg fs' path) (stamp rw) (new_id rw) = w"
    "managed_row r path (stamp rw) (new_id rw) = m"
    by (simp_all add: w_def m_def worktree_row_def managed_row_def r) (simp_all add: r_def registration_of_def Let_def)
  obtain l where id: "identify_source cfg requested ref rw = (Inr (managed, r), rw\<lparr>rw_log := l\<rparr>)"
    using identify_source_calm [OF src] by (auto simp: r_def identity_def commit_def)
  let ?rw1 = "rw\<lparr>rw_log := l\<rparr>"
  have calm: "calm_reg ?rw1" and managed: "is_dir_path (reg_fs ?rw1) managed"
    using src by (simp_all add: source_ok_def names_dir_def)
  obtain err where err: "cfg_git cfg (branch_query (path_text root) br) (reg_fs rw) = (Inl err, reg_fs rw)"
    "exec_code err = Some 1" using git by (auto simp: git_creates_def)
  let ?rw2 = "logged (RanGit (branch_query (path_text root) br) (rw_db rw) (Inl err)) ?rw1"
  have adopt: "adopt_occupied cfg r ?rw1 = (Inr None, ?rw1)"
    using adopt_free [OF calm managed new(2), of r cfg] new(3) by (simp add: r path_def)
  have free_branch: "readLocalBranchCommit (git_exec cfg) (path_text root) br ?rw1 = (Inr None, ?rw2)"
    using branch_free [OF calm, of cfg _ _ err] err by simp
  have mkdir: "await (os_mkdir_recursive managed) ?rw1 = (Inr (), ?rw1)"
    using mkdir_existing calm managed by blast
  have "git_creates cfg (reg_repoRoot r) (reg_ownershipKey r) (reg_branch r) (reg_worktreePath r) (reg_baseCommit r)
      (reg_fs ?rw2) fs'" using git by (simp add: r)
  from create_worktree_calm [OF chk _ this] free valid calm rows obtain rw' where
    rw': "create_worktree cfg r ?rw2 = (Inr (record_of w Worktree Available), rw')"
    "rw_db rw' = appendWorktreeJournal key (Some (new_id rw)) WorktreeCreated
         [(js ''canonicalPath'', JStr (path_text path))]
         ((appendWorktreeJournal key None CreateIntent (intent_details r) (rw_db rw))
            \<lparr>registry_rows := registry_rows (rw_db rw) @ [w], managed_rows := managed_rows (rw_db rw) @ [m]\<rparr>)"
    "reg_fs rw' = fs'"
    by (auto simp: r)
  have "registry_open cfg requested \<lparr>opt_mode = Some Worktree, opt_baseRef = Some ref\<rparr> rw =
      (Inr (record_of w Worktree Available), rw')"
    using requested new(1) rw'(1) mkdir adopt free_branch id
    by (simp add: registry_open_def openWorktree_def io_bind_def query_def io_map_error_def io_try_def io_return_def r)
  then show ?thesis using rw'(2,3) by (simp add: appendWorktreeJournal_def intent_details_def r)
qed

end
