(* ===== verification/RegistrySamples.thy ===== *)
theory RegistrySamples
  imports WorktreeCalm
begin

text \<open>
  A concrete registry: the repository \<open>/w\<close>, the managed root \<open>/m\<close>, a git that knows one commit, and empty
  tables. The registry's properties are applied to it here.
\<close>

definition registry_fs :: fsys where
  "registry_fs = \<lparr>names = [([js ''w''], 1), ([js ''w'', js ''.git''], 2), ([js ''m''], 3)],
     inodes = [(1, \<lparr>ino_body = Directory, ino_mode = 0x1ED\<rparr>), (2, \<lparr>ino_body = Directory, ino_mode = 0x1ED\<rparr>),
       (3, \<lparr>ino_body = Directory, ino_mode = 0x1ED\<rparr>)],
     next_inode = 4\<rparr>"

definition sample_key :: jstr where
  "sample_key = replicate 20 (cu CHR ''a'')"

definition sample_commit :: jstr where
  "sample_commit = replicate 40 (cu CHR ''c'')"

definition worktree_fs :: fsys where
  "worktree_fs = (add_name [js ''m'', sample_key] 4 (set_inode 4 \<lparr>ino_body = Directory, ino_mode = 0x1ED\<rparr> registry_fs))
     \<lparr>next_inode := 5\<rparr>"

definition sample_git :: "jstr list \<Rightarrow> fsys \<Rightarrow> (exec_error + jstr) \<times> fsys" where
  "sample_git args fs =
     (if args = commit_query (js ''/w'') (js ''HEAD'') then (Inr sample_commit, fs)
      else if args = branch_query (js ''/w'') (js ''benchhand/'' @ sample_key)
      then (Inl \<lparr>exec_stderr = Some [], exec_code = Some 1\<rparr>, fs)
      else if args = add_command (js ''/w'') sample_key (js ''benchhand/'' @ sample_key)
          (path_text [js ''m'', sample_key]) sample_commit
      then (Inr [], worktree_fs)
      else (Inl \<lparr>exec_stderr = Some [], exec_code = Some 128\<rparr>, fs))"

definition sample_registry :: registry where
  "sample_registry = \<lparr>cfg_ownerInstance = None, cfg_worktreeRoot = Some [js ''m''], cfg_cwd = [],
     cfg_chk = json_schema_check, cfg_sha256 = (\<lambda>bs. replicate 64 (cu CHR ''a'')), cfg_git = sample_git,
     cfg_meta = (\<lambda>fs ino. (1, 9))\<rparr>"

definition sample_rw :: rworld where
  "sample_rw = \<lparr>rw_os = \<lparr>w_fs = registry_fs, w_sched = [], w_log = [], w_pid = 7, w_uuid = (\<lambda>n. js ''u''),
       w_uuids_used = 0, w_umask = 0x12\<rparr>, rw_db = empty_registry, rw_others = [], rw_clock = (\<lambda>n. js ''t''),
     rw_ticks = 0, rw_log = []\<rparr>"

definition sample_start :: rworld where
  "sample_start = logged (Resolved [js ''w''] [js ''w'']) sample_rw"

lemma sample_chk: "checks_schemas length (cfg_chk sample_registry)"
  using checks_schemas_reference by (simp add: sample_registry_def)

lemma registry_dirs: "is_dir_path registry_fs [js ''w'']" "is_dir_path registry_fs [js ''m'']"
  using is_dir_path_snoc [of registry_fs "[]" "js ''w''"] is_dir_path_snoc [of registry_fs "[]" "js ''m''"] sample_plain
  by (simp_all add: is_dir_path_Nil registry_fs_def body_at_def lookup_def) code_simp

lemma sample_calm_reg: "calm_reg sample_rw" "reg_fs sample_rw = registry_fs"
  by (simp_all add: calm_reg_def sample_rw_def calm_def reg_fs_def)

lemma sample_resolve: "resolve_path sample_registry (js ''/w'') = [js ''w'']" "resolve_path sample_registry (js ''/w/.'') = [js ''w'']"
  by code_simp+

lemma sample_names:
  assumes "calm_reg rw" "reg_fs rw = registry_fs" "requested = js ''/w'' \<or> requested = js ''/w/.''"
  shows "names_dir sample_registry rw requested [js ''w'']"
  using assms registry_dirs(1) existing_dir [OF registry_dirs(1)] sample_resolve by (auto simp: names_dir_def)

lemma path_text_not_Nil: "path_text p \<noteq> []"
  by (simp add: path_text_def)

lemma sample_first_row:
  "row_valid length (checkout_row sample_registry sample_rw (js ''/w'') [js ''w''])"
  by (simp add: row_valid_def checkout_row_def path_text_not_Nil new_id_def sample_rw_def stamp_def text_ok_def
      sample_registry_def registry_checks_def)

lemma sample_open:
  obtains rw1 where
    "registry_open sample_registry (js ''/w'') \<lparr>opt_mode = None, opt_baseRef = None\<rparr> sample_rw =
       (Inr (record_of (checkout_row sample_registry sample_rw (js ''/w'') [js ''w'']) Checkout Available), rw1)"
    "rw1 = (used_supplies sample_start)\<lparr>rw_db := empty_registry\<lparr>registry_rows :=
       [checkout_row sample_registry sample_rw (js ''/w'') [js ''w'']]\<rparr>\<rparr>"
proof
  let ?row = "checkout_row sample_registry sample_rw (js ''/w'') [js ''w'']"
  have "upsert_checkout ?row (rw_db sample_rw) = (Inr ?row, empty_registry\<lparr>registry_rows := [?row]\<rparr>)"
  proof -
    have "registry_checks ?row" using sample_first_row unfolding row_valid_def by blast
    moreover have "rw_db sample_rw = empty_registry" "registry_rows empty_registry = []"
      by (simp_all add: sample_rw_def empty_registry_def)
    ultimately show ?thesis by (simp add: upsert_checkout_def insert_workspace_def)
  qed
  moreover have "rowToWorkspaceRecord (cfg_chk sample_registry) ?row = Inr (record_of ?row Checkout Available)"
    by (rule row_record [OF sample_chk sample_first_row]) (simp_all add: checkout_row_def)
  ultimately show "registry_open sample_registry (js ''/w'') \<lparr>opt_mode = None, opt_baseRef = None\<rparr> sample_rw =
       (Inr (record_of ?row Checkout Available), (used_supplies sample_start)\<lparr>rw_db := empty_registry\<lparr>registry_rows := [?row]\<rparr>\<rparr>)"
    using open_checkout_run [OF sample_names [OF sample_calm_reg], of "js ''/w''"]
    by (simp add: registry_open_checkout checkout_options_def sample_resolve sample_start_def [symmetric])
qed simp

section \<open>The schema\<close>

text \<open>C28. Well-formed tables: in every state the registry can reach, by any opens and gets interleaved with
  anything else that respects the schema, the tables satisfy all their constraints: the CHECK columns
  have legal values, ids and unique keys are distinct (one workspace per directory and mode, one managed
  worktree per repository and commit, per branch and per path), every managed worktree belongs to a
  registered workspace, and journal events are in order.\<close>

theorem registry_schema_invariant:
  assumes "lawful rw" "registry_reaches cfg rw rw'"
  shows "registry_ok (rw_db rw')"
  using reaches_lawful [OF assms(2,1)] by (simp add: lawful_def)

theorem registry_schema_invariant_witness:
  "registry_ok (empty_registry\<lparr>registry_rows := [checkout_row sample_registry sample_rw (js ''/w'') [js ''w'']]\<rparr>)"
proof -
  obtain rw1 where run: "registry_open sample_registry (js ''/w'') \<lparr>opt_mode = None, opt_baseRef = None\<rparr> sample_rw =
       (Inr (record_of (checkout_row sample_registry sample_rw (js ''/w'') [js ''w'']) Checkout Available), rw1)"
    and rw1: "rw1 = (used_supplies sample_start)\<lparr>rw_db := empty_registry\<lparr>registry_rows :=
       [checkout_row sample_registry sample_rw (js ''/w'') [js ''w'']]\<rparr>\<rparr>"
    by (rule sample_open)
  have "registry_ok empty_registry"
    by (simp add: registry_ok_def empty_registry_def managed_rows_ok_def journal_rows_ok_def registry_rows_ok_def)
  then have "lawful sample_rw" by (simp add: lawful_def sample_rw_def)
  from registry_schema_invariant [OF this registry_reaches.opened [OF registry_reaches.start run]]
  show ?thesis by (simp add: rw1)
qed

section \<open>The other properties at this registry\<close>

theorem open_checkout_idempotent_witness:
  "\<exists>r rw1 r' rw3. registry_open sample_registry (js ''/w'') \<lparr>opt_mode = None, opt_baseRef = None\<rparr> sample_rw = (Inr r, rw1)
     \<and> registry_open sample_registry (js ''/w/.'') \<lparr>opt_mode = Some Checkout, opt_baseRef = None\<rparr> rw1 = (Inr r', rw3)
     \<and> workspaceId r' = workspaceId r \<and> metadataVersion r' = 2"
proof -
  obtain rw1 where run: "registry_open sample_registry (js ''/w'') \<lparr>opt_mode = None, opt_baseRef = None\<rparr> sample_rw =
       (Inr (record_of (checkout_row sample_registry sample_rw (js ''/w'') [js ''w'']) Checkout Available), rw1)"
    and rw1: "rw1 = (used_supplies sample_start)\<lparr>rw_db := empty_registry\<lparr>registry_rows :=
       [checkout_row sample_registry sample_rw (js ''/w'') [js ''w'']]\<rparr>\<rparr>"
    by (rule sample_open)
  have calm1: "calm_reg rw1" "reg_fs rw1 = registry_fs"
    by (simp_all add: rw1 used_supplies_def sample_start_def logged_def calm_reg_def calm_def reg_fs_def sample_rw_def)
  have "stamp rw1 \<noteq> []" by (simp add: rw1 used_supplies_def sample_start_def logged_def stamp_def sample_rw_def)
  have second: "names_dir sample_registry rw1 (js ''/w/.'') [js ''w'']" using sample_names [OF calm1] by simp
  have first: "names_dir sample_registry sample_rw (js ''/w'') [js ''w'']" using sample_names [OF sample_calm_reg] by simp
  have opts: "checkout_options \<lparr>opt_mode = None, opt_baseRef = None\<rparr>" "checkout_options \<lparr>opt_mode = Some Checkout, opt_baseRef = None\<rparr>"
    by (simp_all add: checkout_options_def)
  have owner: "cfg_ownerInstance sample_registry \<noteq> Some []" by (simp add: sample_registry_def)
  have ne: "js ''/w/.'' \<noteq> []" by simp
  have same: "dir_identity sample_registry (reg_fs rw1) [js ''w''] = dir_identity sample_registry (reg_fs sample_rw) [js ''w'']"
    using calm1 sample_calm_reg by simp
  from open_checkout_idempotent [OF sample_chk owner opts first run second ne \<open>stamp rw1 \<noteq> []\<close> refl same] run
  show ?thesis by (fastforce simp: record_of_def checkout_row_def)
qed

lemma sample_nearest: "nearest_repo registry_fs [js ''w''] = Some [js ''w'']"
  by (simp add: nearest_repo_def ancestors_def registry_fs_def body_at_def lookup_def)

theorem registry_get_revalidates_witness:
  "\<exists>old rw'. registry_get sample_registry (js ''ws_1'')
       (sample_rw\<lparr>rw_db := empty_registry\<lparr>registry_rows := [sample_checkout_row]\<rparr>\<rparr>) =
     (Inr (Some (old\<lparr>status := Invalid, metadataVersion := 5\<rparr>)), rw')
     \<and> registry_read sample_registry (js ''ws_1'') (rw_db rw') = Inr (Some (old\<lparr>status := Invalid, metadataVersion := 5\<rparr>))"
proof -
  let ?rw = "sample_rw\<lparr>rw_db := empty_registry\<lparr>registry_rows := [sample_checkout_row]\<rparr>\<rparr>"
  have calm: "calm_reg ?rw" "reg_fs ?rw = registry_fs" using sample_calm_reg by simp_all
  have checks: "registry_checks sample_checkout_row" by (simp add: registry_checks_def sample_checkout_row_def)
  have ok: "registry_ok (rw_db ?rw)"
    using registry_ok_empty [of "[sample_checkout_row]"] checks by (simp add: registry_rows_ok_def)
  have found: "find_workspace (js ''ws_1'') (rw_db ?rw) = Some sample_checkout_row"
    by (simp add: find_workspace_def sample_checkout_row_def)
  have "row_valid length sample_checkout_row"
    using checks by (simp add: row_valid_def sample_checkout_row_def text_ok_def)
  then have rec: "rowToWorkspaceRecord (cfg_chk sample_registry) sample_checkout_row
      = Inr (record_of sample_checkout_row Checkout Available)"
    by (rule row_record [OF sample_chk]) (simp_all add: sample_checkout_row_def)
  let ?old = "record_of sample_checkout_row Checkout Available"
  have "dir_identity sample_registry registry_fs [js ''w''] \<noteq> js ''1:2:3''" by code_simp
  moreover have "components (js ''/w'') = [js ''w'']" by code_simp
  ultimately have "path_status sample_registry (reg_fs ?rw) (canonicalPath ?old) (ws_filesystem_identity sample_checkout_row)
      = Some Invalid"
    unfolding calm(2) by (simp add: path_status_def record_of_def sample_checkout_row_def existing_dir [OF registry_dirs(1)])
  from registry_get_revalidates [OF sample_chk calm(1) ok found rec this]
  have "\<exists>rw'. registry_get sample_registry (js ''ws_1'') ?rw =
     (Inr (Some (?old\<lparr>status := Invalid, metadataVersion := 5\<rparr>)), rw')
     \<and> registry_read sample_registry (js ''ws_1'') (rw_db rw') = Inr (Some (?old\<lparr>status := Invalid, metadataVersion := 5\<rparr>))"
    by (simp add: record_of_def sample_checkout_row_def) blast
  then show ?thesis by blast
qed

lemma sample_commit_id: "is_commit_id (trim sample_commit)" "map lower_unit (trim sample_commit) = sample_commit"
proof -
  have "unat (cu CHR ''c'') = 99" by (simp add: cu_def)
  then have c: "\<not> is_trimmed_unit (cu CHR ''c'')" "is_hex_unit (cu CHR ''c'')" "lower_unit (cu CHR ''c'') = cu CHR ''c''"
    by (simp_all add: is_trimmed_unit_def is_hex_unit_def hex_value_def is_digit_def lower_unit_def)
  have "trim sample_commit = sample_commit"
    by (simp add: trim_def sample_commit_def c(1) dropWhile_eq_self_iff)
  then show "is_commit_id (trim sample_commit)" "map lower_unit (trim sample_commit) = sample_commit"
    by (simp_all add: is_commit_id_def sample_commit_def c list_all_iff)
qed

lemma sample_identity_key: "worktreeOwnershipKey sample_registry identity commit = sample_key"
  by (simp add: worktreeOwnershipKey_def sample_registry_def sample_key_def)

lemma sample_source_ok: "source_ok sample_registry sample_rw (js ''/w'') (js ''HEAD'') [js ''w''] [js ''w''] [js ''m''] sample_commit"
proof -
  have "path_text [js ''w''] = js ''/w''" by code_simp
  then show ?thesis
    using sample_names [OF sample_calm_reg] sample_nearest sample_calm_reg registry_dirs existing_dir [OF registry_dirs(2)]
      sample_commit_id
    by (simp add: source_ok_def) (simp add: sample_registry_def sample_git_def)
qed

lemma worktree_fs_dir: "is_dir_path worktree_fs [js ''m'', sample_key]"
proof -
  have "plain sample_key" by code_simp
  then show ?thesis
    using is_dir_path_snoc [of worktree_fs "[]" "js ''m''"] is_dir_path_snoc [of worktree_fs "[js ''m'']" sample_key]
      registry_dirs(2)
    by (simp add: is_dir_path_Nil worktree_fs_def body_at_def lookup_def add_name_def set_inode_def registry_fs_def
        is_dir_path_def)
qed

lemma sample_worktree_row:
  "row_valid length \<lparr>ws_workspace_id = new_id sample_rw, ws_canonical_path = path_text p,
      ws_requested_path = path_text q, ws_filesystem_identity = identity,
      ws_mode = js ''worktree'', ws_repo_root = Some (path_text root), ws_worktree_path = Some (path_text p),
      ws_base_ref = Some sample_commit, ws_branch = Some (js ''benchhand/'' @ sample_key),
      ws_created_at = stamp sample_rw, ws_last_used_at = stamp sample_rw,
      ws_owner_instance = cfg_ownerInstance sample_registry, ws_status = js ''available'', ws_metadata_version = 1\<rparr>"
  by (simp add: row_valid_def path_text_not_Nil text_ok_def registry_checks_def)
    (simp add: sample_rw_def stamp_def new_id_def sample_registry_def sample_commit_def)

theorem worktree_created_witness:
  "\<exists>r rw'. registry_open sample_registry (js ''/w'') \<lparr>opt_mode = Some Worktree, opt_baseRef = Some (js ''HEAD'')\<rparr> sample_rw
       = (Inr r, rw')
     \<and> mode r = Worktree \<and> baseRef r = Some sample_commit \<and> canonicalPath r = path_text [js ''m'', sample_key]
     \<and> branch r = Some (js ''benchhand/'' @ sample_key)
     \<and> map (\<lambda>j. (jr_ownership_key j, jr_workspace_id j, jr_action j)) (journal_rows (rw_db rw')) =
         [(sample_key, None, js ''create-intent''), (sample_key, Some (workspaceId r), js ''created'')]"
proof -
  have db: "rw_db sample_rw = empty_registry" by (simp add: sample_rw_def)
  have key: "plain sample_key" by code_simp
  have slash_w: "path_text [js ''w''] = js ''/w''" by code_simp
  have ne: "js ''/w'' \<noteq> []" by simp
  have hash: "take 20 (cfg_sha256 sample_registry bs) = sample_key" for bs
    by (simp add: sample_registry_def sample_key_def)
  have new: "find_managed sample_key (rw_db sample_rw) = None"
    unfolding db by (simp add: find_managed_def empty_registry_def)
  have free: "body_at (reg_fs sample_rw) ([js ''m''] @ [sample_key]) = None"
    by (simp add: sample_calm_reg registry_fs_def body_at_def lookup_def)
  have git: "git_creates sample_registry [js ''w''] sample_key (js ''benchhand/'' @ sample_key) ([js ''m''] @ [sample_key])
      sample_commit (reg_fs sample_rw) worktree_fs"
    by (simp add: git_creates_def slash_w worktree_fs_dir)
      (simp add: sample_registry_def sample_git_def commit_query_def branch_query_def add_command_def)
  have un: "unclaimed w m (rw_db sample_rw)" for w m by (simp add: unclaimed_def db empty_registry_def)
  have none: "journal_rows (rw_db sample_rw) = []" by (simp add: db empty_registry_def)
  note created = worktree_created [OF sample_chk sample_source_ok ne, unfolded hash sample_commit_id(2),
      OF new key free git un sample_worktree_row]
  then show ?thesis by (elim exE conjE) (intro exI conjI, assumption, simp_all add: record_of_def none)
qed

end
