(* ===== verification/InstructionsText.thy ===== *)
theory InstructionsText
  imports FsText
begin

text \<open>
  \<open>packages/instructions/src/index.ts\<close>, the parts that compute without touching files: scope paths, the
  validation of providers and of what they return, and the frontmatter of skills. The YAML parser and
  SHA-256 are parameters; values of type \<open>unknown\<close> are \<open>json\<close> values, an absent one is \<open>None\<close>.
\<close>

definition MAX_SCOPE_DEPTH :: nat where "MAX_SCOPE_DEPTH = 128"
definition MAX_INSTRUCTION_BYTES :: nat where "MAX_INSTRUCTION_BYTES = 256 * 1024"
definition MAX_TOTAL_INSTRUCTION_BYTES :: nat where "MAX_TOTAL_INSTRUCTION_BYTES = 1024 * 1024"
definition MAX_STABLE_READ_ATTEMPTS :: nat where "MAX_STABLE_READ_ATTEMPTS = 3"
definition MAX_SKILL_FRONTMATTER_BYTES :: nat where "MAX_SKILL_FRONTMATTER_BYTES = 64 * 1024"

definition instr_error :: "string \<Rightarrow> jstr option \<Rightarrow> jstr \<Rightarrow> thrown" where
  "instr_error code path msg = InstructionsError (js code) path msg"

fun is_instructions_error :: "thrown \<Rightarrow> bool" where
  "is_instructions_error (InstructionsError _ _ _) \<longleftrightarrow> True"
| "is_instructions_error _ \<longleftrightarrow> False"

section \<open>Scopes\<close>

definition normalizeScopePath :: "jstr \<Rightarrow> jstr result" where
  "normalizeScopePath input =
     (if 0 \<in> set input then Inl (instr_error ''INVALID_PATH'' None (js ''scopePath must be a NUL-free string''))
      else if posix_isAbsolute input \<or> win32_isAbsolute input
      then Inl (instr_error ''PATH_OUTSIDE_WORKSPACE'' (Some input) (js ''absolute scope paths are not allowed''))
      else (let portable = map (\<lambda>u. if u = backslash then slash else u) input;
                segments = filter (\<lambda>segment. segment \<noteq> [] \<and> segment \<noteq> dot) (split_on slash portable) in
        if dotdot \<in> set segments
        then Inl (instr_error ''PATH_OUTSIDE_WORKSPACE'' (Some input) (js ''scope path traversal is not allowed''))
        else if MAX_SCOPE_DEPTH < length segments
        then Inl (instr_error ''SCOPE_TOO_DEEP'' (Some input)
               (js ''instruction scope exceeds '' @ js_nat MAX_SCOPE_DEPTH @ js '' directory levels''))
        else Inr (if segments = [] then dot else join_with slash segments)))"

definition buildScopeChain :: "jstr \<Rightarrow> jstr list" where
  "buildScopeChain scopePath =
     (if scopePath = dot then [dot]
      else (let segments = split_on slash scopePath in
        dot # map (\<lambda>index. join_with slash (take index segments)) [1..<Suc (length segments)]))"

definition portableJoin :: "jstr \<Rightarrow> jstr \<Rightarrow> jstr" where
  "portableJoin scopePath filename = (if scopePath = dot then filename else scopePath @ slash # filename)"

section \<open>Providers\<close>

record InstructionDocument =
  doc_providerId :: jstr
  doc_scopePath :: jstr
  doc_sourceId :: jstr
  doc_path :: "jstr option"
  doc_content :: jstr
  doc_sha256 :: jstr

record InstructionProviderContribution =
  con_sourceId :: json
  con_content :: json
  con_path :: json             \<comment> \<open>\<open>JNull\<close> also when the property is missing\<close>

record InstructionProviderContext =
  ctx_workspace :: WorkspaceRecord
  ctx_workspaceRoot :: abspath
  ctx_scopePath :: jstr
  ctx_absoluteScopePath :: abspath

record 'w InstructionProvider =
  prov_id :: jstr
  prov_precedence :: jsnum
  prov_resolveScope :: "InstructionProviderContext \<Rightarrow> ('w, InstructionProviderContribution list) io"

fun validate_from :: "jstr list \<Rightarrow> 'w InstructionProvider list \<Rightarrow> unit result" where
  "validate_from ids [] = Inr ()"
| "validate_from ids (p # ps) =
     (if prov_id p = [] \<or> 0 \<in> set (prov_id p) \<or> \<not> is_safe_integer (prov_precedence p)
      then Inl (TypeError (js ''instruction providers require a non-empty id and integer precedence''))
      else if prov_id p \<in> set ids
      then Inl (TypeError (js ''duplicate instruction provider id: '' @ prov_id p))
      else validate_from (prov_id p # ids) ps)"

definition validateProviders :: "'w InstructionProvider list \<Rightarrow> unit result" where
  "validateProviders ps = validate_from [] ps"

text \<open>The comparator \<open>a || b\<close>.\<close>

definition or_else :: "int \<Rightarrow> int \<Rightarrow> int" where
  "or_else a b = (if a \<noteq> 0 then a else b)"

definition compareProviders :: "'w InstructionProvider \<Rightarrow> 'w InstructionProvider \<Rightarrow> int" where
  "compareProviders left right =
     or_else (num_int (prov_precedence left) - num_int (prov_precedence right))
       (compareCodePoints (prov_id left) (prov_id right))"

fun json_text :: "json \<Rightarrow> jstr option" where
  "json_text (JStr s) = Some s"
| "json_text _ = None"

definition normalizeContribution ::
    "(bytes \<Rightarrow> jstr) \<Rightarrow> jstr \<Rightarrow> jstr \<Rightarrow> InstructionProviderContribution \<Rightarrow> InstructionDocument result" where
  "normalizeContribution sha256 providerId scopePath c =
     (case json_text (con_sourceId c) of
        None \<Rightarrow> Inl (instr_error ''INVALID_PROVIDER_OUTPUT'' (Some scopePath)
                  (js ''instruction provider '' @ providerId @ js '' returned an invalid sourceId''))
      | Some source \<Rightarrow>
      if source = [] \<or> 0 \<in> set source
      then Inl (instr_error ''INVALID_PROVIDER_OUTPUT'' (Some scopePath)
             (js ''instruction provider '' @ providerId @ js '' returned an invalid sourceId''))
      else (case json_text (con_content c) of
        None \<Rightarrow> Inl (instr_error ''INVALID_PROVIDER_OUTPUT'' (Some scopePath)
                  (js ''instruction provider '' @ providerId @ js '' returned invalid text content''))
      | Some content \<Rightarrow>
      if 0 \<in> set content
      then Inl (instr_error ''INVALID_PROVIDER_OUTPUT'' (Some scopePath)
             (js ''instruction provider '' @ providerId @ js '' returned invalid text content''))
      else if MAX_INSTRUCTION_BYTES < byteLength content
      then Inl (instr_error ''INSTRUCTION_TOO_LARGE'' (Some scopePath)
             (js ''instruction contribution exceeds '' @ js_nat MAX_INSTRUCTION_BYTES @ js '' UTF-8 bytes''))
      else if con_path c \<noteq> JNull \<and> (case json_text (con_path c) of None \<Rightarrow> True | Some p \<Rightarrow> p = [] \<or> 0 \<in> set p)
      then Inl (instr_error ''INVALID_PROVIDER_OUTPUT'' (Some scopePath)
             (js ''instruction provider '' @ providerId @ js '' returned an invalid path''))
      else Inr \<lparr>doc_providerId = providerId, doc_scopePath = scopePath, doc_sourceId = source,
             doc_path = json_text (con_path c), doc_content = content, doc_sha256 = sha256 (utf8_encode content)\<rparr>))"

definition compareDocumentsWithinProvider :: "InstructionDocument \<Rightarrow> InstructionDocument \<Rightarrow> int" where
  "compareDocumentsWithinProvider left right =
     or_else (compareCodePoints (doc_sourceId left) (doc_sourceId right))
       (or_else (compareCodePoints (case doc_path left of None \<Rightarrow> [] | Some p \<Rightarrow> p)
                   (case doc_path right of None \<Rightarrow> [] | Some p \<Rightarrow> p))
         (compareCodePoints (doc_sha256 left) (doc_sha256 right)))"

definition decodeInstructionText :: "bytes \<Rightarrow> jstr \<Rightarrow> jstr result" where
  "decodeInstructionText buffer path =
     (if 0 \<in> set buffer
      then Inl (instr_error ''INSTRUCTION_BINARY_UNSUPPORTED'' (Some path)
             (js ''instruction file contains binary content: '' @ path))
      else (case utf8_decode buffer of
          Some s \<Rightarrow> Inr s
        | None \<Rightarrow> Inl (instr_error ''INSTRUCTION_BINARY_UNSUPPORTED'' (Some path)
                    (js ''instruction file is not valid UTF-8 text: '' @ path))))"

definition mapReadError :: "jstr \<Rightarrow> thrown \<Rightarrow> thrown" where
  "mapReadError path error =
     (if is_instructions_error error then error
      else if hasErrnoCode error ENOENT
      then instr_error ''INSTRUCTION_CHANGED_DURING_READ'' (Some path)
             (js ''instruction file disappeared while being read: '' @ path)
      else instr_error ''INSTRUCTION_INACCESSIBLE'' (Some path) (js ''instruction file is inaccessible: '' @ path))"

section \<open>Skill metadata\<close>

text \<open>\<open>source.replaceAll('\r\n', '\n')\<close>\<close>

fun unify_newlines :: "jstr \<Rightarrow> jstr" where
  "unify_newlines (a # b # s) = (if a = 13 \<and> b = 10 then 10 # unify_newlines s else a # unify_newlines (b # s))"
| "unify_newlines s = s"

definition extractSkillFrontmatter :: "jstr \<Rightarrow> jstr \<Rightarrow> jstr result" where
  "extractSkillFrontmatter source path =
     (let normalized = unify_newlines source in
      if \<not> startsWith normalized (js ''---'' @ [10])
      then Inl (instr_error ''INVALID_SKILL_FRONTMATTER'' (Some path) (js ''SKILL.md must start with YAML frontmatter''))
      else (case indexOf normalized ([10] @ js ''---'' @ [10]) 4 of
          None \<Rightarrow> Inl (instr_error ''SKILL_FRONTMATTER_TOO_LARGE'' (Some path)
                    (js ''SKILL.md frontmatter must close within '' @ js_nat MAX_SKILL_FRONTMATTER_BYTES @ js '' bytes''))
        | Some closing \<Rightarrow> Inr (slice normalized 4 closing)))"

record ParsedSkillMetadata =
  meta_name :: jstr
  meta_description :: jstr
  meta_metadataSha256 :: jstr
  meta_license :: "jstr option"
  meta_compatibility :: "jstr option"
  meta_metadata :: "(jstr \<times> jstr) list"
  meta_allowedTools :: "jstr option"

definition readSkillString :: "json option \<Rightarrow> string \<Rightarrow> nat \<Rightarrow> nat \<Rightarrow> jstr \<Rightarrow> jstr result" where
  "readSkillString v field minimum maximum path =
     (let invalid = Inl (instr_error ''INVALID_SKILL_METADATA'' (Some path)
            (js ''skill '' @ js field @ js '' must be a string between '' @ js_nat minimum @ js '' and ''
              @ js_nat maximum @ js '' characters'')) in
      case v of
        Some (JStr s) \<Rightarrow> if length s < minimum \<or> maximum < length s then invalid else Inr s
      | _ \<Rightarrow> invalid)"

definition optionalSkillString :: "json option \<Rightarrow> string \<Rightarrow> nat \<Rightarrow> nat \<Rightarrow> jstr \<Rightarrow> jstr option result" where
  "optionalSkillString v field minimum maximum path =
     (case v of
        None \<Rightarrow> Inr None
      | Some _ \<Rightarrow> map_sum id Some (readSkillString v field minimum maximum path))"

text \<open>\<open>result[key] = item\<close> on a plain object: assigning a string to \<open>__proto__\<close> has no effect.\<close>

fun metadata_entries :: "(jstr \<times> json) list \<Rightarrow> jstr \<Rightarrow> (jstr \<times> jstr) list result" where
  "metadata_entries [] path = Inr []"
| "metadata_entries ((key, item) # rest) path =
     (case json_text item of
        None \<Rightarrow> Inl (instr_error ''INVALID_SKILL_METADATA'' (Some path) (js ''skill metadata values must be strings''))
      | Some s \<Rightarrow> map_sum id (\<lambda>kvs. if key = js ''__proto__'' then kvs else (key, s) # kvs) (metadata_entries rest path))"

definition readSkillMetadataMap :: "json option \<Rightarrow> jstr \<Rightarrow> (jstr \<times> jstr) list result" where
  "readSkillMetadataMap v path =
     (case v of
        None \<Rightarrow> Inr []
      | Some (JObj kvs) \<Rightarrow> metadata_entries kvs path
      | Some _ \<Rightarrow> Inl (instr_error ''INVALID_SKILL_METADATA'' (Some path)
                    (js ''skill metadata must be a map of string keys to string values'')))"

definition is_name_unit :: "code_unit \<Rightarrow> bool" where
  "is_name_unit u \<longleftrightarrow> is_digit u \<or> 97 \<le> unat u \<and> unat u \<le> 122"

text \<open>\<open>/^[a-z0-9]+(?:-[a-z0-9]+)*$/\<close>\<close>

definition is_skill_name :: "jstr \<Rightarrow> bool" where
  "is_skill_name s \<longleftrightarrow> list_all (\<lambda>part. part \<noteq> [] \<and> list_all is_name_unit part) (split_on (cu CHR ''-'') s)"

definition validateSkillMetadata ::
    "(bytes \<Rightarrow> jstr) \<Rightarrow> json \<Rightarrow> jstr \<Rightarrow> jstr \<Rightarrow> jstr \<Rightarrow> ParsedSkillMetadata result" where
  "validateSkillMetadata sha256 v parentDirectoryName rawFrontmatter path =
     (case v of
        JObj _ \<Rightarrow>
          (let field = (\<lambda>k. json_get (js k) v) in
           bind_res (readSkillString (field ''name'') ''name'' 1 64 path) (\<lambda>name.
           if \<not> is_skill_name name \<or> name \<noteq> parentDirectoryName
           then Inl (instr_error ''INVALID_SKILL_NAME'' (Some path)
             (js ''skill name must use lowercase letters, numbers, single hyphens, and match its parent directory''))
           else
           bind_res (readSkillString (field ''description'') ''description'' 1 1024 path) (\<lambda>description.
           bind_res (optionalSkillString (field ''license'') ''license'' 1 1024 path) (\<lambda>license.
           bind_res (optionalSkillString (field ''compatibility'') ''compatibility'' 1 500 path) (\<lambda>compatibility.
           bind_res (optionalSkillString (field ''allowed-tools'') ''allowed-tools'' 1 4096 path) (\<lambda>allowedTools.
           bind_res (readSkillMetadataMap (field ''metadata'') path) (\<lambda>metadata.
           Inr \<lparr>meta_name = name, meta_description = description,
                meta_metadataSha256 = sha256 (utf8_encode rawFrontmatter), meta_license = license,
                meta_compatibility = compatibility, meta_metadata = metadata, meta_allowedTools = allowedTools\<rparr>)))))))
      | _ \<Rightarrow> Inl (instr_error ''INVALID_SKILL_METADATA'' (Some path) (js ''SKILL.md frontmatter must be a map'')))"

section \<open>Paths shown to the client\<close>

definition toPortableRelative :: "abspath \<Rightarrow> abspath \<Rightarrow> jstr" where
  "toPortableRelative root candidate = (let v = relative_path root candidate in if v = [] then dot else v)"

definition displaySkillPath :: "abspath option \<Rightarrow> abspath \<Rightarrow> jstr" where
  "displaySkillPath base candidate =
     (case base of None \<Rightarrow> path_text candidate | Some b \<Rightarrow> toPortableRelative b candidate)"

section \<open>Lemmas\<close>

lemma normalizeScopePath_Inr:
  assumes "normalizeScopePath input = Inr s"
  shows "s = dot \<or> (\<exists>cs. cs \<noteq> [] \<and> list_all plain cs \<and> length cs \<le> MAX_SCOPE_DEPTH \<and> s = join_with slash cs)"
proof -
  let ?segs = "filter (\<lambda>s. s \<noteq> [] \<and> s \<noteq> dot) (split_on slash (map (\<lambda>u. if u = backslash then slash else u) input))"
  have "s = dot \<or> (?segs \<noteq> [] \<and> dotdot \<notin> set ?segs \<and> length ?segs \<le> MAX_SCOPE_DEPTH \<and> s = join_with slash ?segs)"
    using assms by (auto simp: normalizeScopePath_def Let_def split: if_splits)
  moreover have "\<forall>c \<in> set ?segs. slash \<notin> set c" using split_on_parts by fastforce
  ultimately show ?thesis by (auto simp: list_all_iff plain_def)
qed

lemma normalizeContribution_Inr:
  assumes "normalizeContribution sha provider scope c = Inr d"
  shows "doc_providerId d = provider \<and> doc_scopePath d = scope \<and> doc_sourceId d \<noteq> [] \<and> 0 \<notin> set (doc_content d)
     \<and> byteLength (doc_content d) \<le> MAX_INSTRUCTION_BYTES \<and> doc_sha256 d = sha (utf8_encode (doc_content d))"
  using assms by (auto simp: normalizeContribution_def split: option.splits if_splits)

lemma or_else_comparator: "comparator f \<Longrightarrow> comparator g \<Longrightarrow> comparator (\<lambda>x y. or_else (f x y) (g x y))"
  unfolding comparator_def or_else_def by (smt (verit))

text \<open>Both comparators are consistent, so the stable sort puts the elements in order.\<close>

lemma code_points_comparator: "comparator compareCodePoints"
  by (rule code_point_order.comparator_axioms)

lemma precedence_comparator: "comparator (\<lambda>(x::int) y. x - y)"
  by unfold_locales auto

interpretation provider_order: comparator "compareProviders :: 'w InstructionProvider \<Rightarrow> 'w InstructionProvider \<Rightarrow> int"
  unfolding compareProviders_def
  by (intro or_else_comparator comparator_key [OF precedence_comparator] comparator_key [OF code_points_comparator])

interpretation document_order: comparator compareDocumentsWithinProvider
  unfolding compareDocumentsWithinProvider_def
  by (intro or_else_comparator comparator_key [OF code_points_comparator])

end
