(* ===== verification/Instructions.thy ===== *)
theory Instructions
  imports InstructionsText
begin

text \<open>
  \<open>class InstructionsService\<close> of \<open>packages/instructions/src/index.ts\<close>, the operation \<open>resolve\<close>: the built-in
  file providers with their cache and the loop over scopes and providers. The state holds the operating
  system, the file cache, and what concurrent requests of the same service will do to the cache at each
  \<open>await\<close>. \<open>readFile\<close> takes the whole content at one moment. The workspace resolver, further providers,
  SHA-256, and the device and times of inodes are parameters.
\<close>

section \<open>State\<close>

record CachedInstructionFile =
  cached_realPath :: abspath
  cached_fingerprint :: jstr
  cached_content :: jstr
  cached_sha256 :: jstr

type_synonym file_cache = "(abspath \<times> CachedInstructionFile) list"

record iworld =
  iw_os :: world
  iw_cache :: file_cache
  iw_others :: "(file_cache \<Rightarrow> file_cache) list"

type_synonym 'a instr = "(iworld, 'a) io"

record instr_service =
  svc_resolveWorkspace :: "jstr \<Rightarrow> WorkspaceRecord option os"
  svc_custom :: "iworld InstructionProvider list"
  svc_homeDirectory :: abspath
  svc_sha256 :: "bytes \<Rightarrow> jstr"
  svc_times :: "fsys \<Rightarrow> nat \<Rightarrow> nat \<times> nat \<times> nat"      \<comment> \<open>device, modification and change time\<close>

definition cache_step :: "iworld \<Rightarrow> iworld" where
  "cache_step iw =
     (case iw_others iw of
        [] \<Rightarrow> iw
      | f # fs \<Rightarrow> iw\<lparr>iw_cache := f (iw_cache iw), iw_others := fs\<rparr>)"

definition wait_for :: "'a os \<Rightarrow> 'a instr" where
  "wait_for m iw = (case m (iw_os iw) of (x, w') \<Rightarrow> (x, cache_step (iw\<lparr>iw_os := w'\<rparr>)))"

definition cache_get :: "abspath \<Rightarrow> CachedInstructionFile option instr" where
  "cache_get p iw = (Inr (map_of (iw_cache iw) p), iw)"

definition cache_delete :: "abspath \<Rightarrow> unit instr" where
  "cache_delete p iw = (Inr (), iw\<lparr>iw_cache := filter (\<lambda>(q, c). q \<noteq> p) (iw_cache iw)\<rparr>)"

definition cache_set :: "abspath \<Rightarrow> CachedInstructionFile \<Rightarrow> unit instr" where
  "cache_set p c iw = (Inr (), iw\<lparr>iw_cache := (p, c) # filter (\<lambda>(q, c). q \<noteq> p) (iw_cache iw)\<rparr>)"

section \<open>Reading a file\<close>

definition os_readFileAt :: "abspath \<Rightarrow> bytes os" where
  "os_readFileAt p = observe (\<lambda>_ fs.
     bind_res (existing fs True p) (\<lambda>(q, b).
       if b = Directory then Inl EISDIR else Inr (case b of Regular bs \<Rightarrow> bs | _ \<Rightarrow> [])))"

record FileMetadata =
  fm_realPath :: abspath
  fm_fingerprint :: jstr
  fm_size :: nat

record FileStats =
  fst_body :: file_body
  fst_dev :: nat
  fst_ino :: nat
  fst_size :: nat
  fst_mtimeNs :: nat
  fst_ctimeNs :: nat

definition os_stat_times :: "(fsys \<Rightarrow> nat \<Rightarrow> nat \<times> nat \<times> nat) \<Rightarrow> abspath \<Rightarrow> FileStats os" where
  "os_stat_times tm p = observe (\<lambda>_ fs.
     bind_res (existing fs True p) (\<lambda>(q, b).
       let ino = (case map_of (names fs) q of Some i \<Rightarrow> i | None \<Rightarrow> 0);
           (dev, mtime, ctime) = tm fs ino in
       Inr \<lparr>fst_body = b, fst_dev = dev, fst_ino = ino, fst_size = (case b of Regular bs \<Rightarrow> length bs | _ \<Rightarrow> 0),
            fst_mtimeNs = mtime, fst_ctimeNs = ctime\<rparr>))"

definition file_fingerprint :: "FileStats \<Rightarrow> jstr" where
  "file_fingerprint st = join_with (cu CHR '':'')
     (map js_nat [fst_dev st, fst_ino st, fst_size st, fst_mtimeNs st, fst_ctimeNs st])"

definition instructionFileMetadata :: "instr_service \<Rightarrow> abspath \<Rightarrow> abspath \<Rightarrow> jstr \<Rightarrow> FileMetadata instr" where
  "instructionFileMetadata svc root candidate portablePath =
     io_bind (wait_for (os_lstat candidate)) (\<lambda>_.
     io_bind (wait_for (os_realpath candidate)) (\<lambda>realPath.
     if \<not> isSameOrDescendant root realPath
     then io_throw (instr_error ''INSTRUCTION_PATH_OUTSIDE_WORKSPACE'' (Some portablePath)
            (js ''instruction file resolves outside workspace: '' @ portablePath))
     else
     io_bind (wait_for (os_stat_times (svc_times svc) realPath)) (\<lambda>st.
     if \<not> isFile (fst_body st)
     then io_throw (instr_error ''INSTRUCTION_SOURCE_NOT_FILE'' (Some portablePath)
            (js ''instruction source is not a regular file: '' @ portablePath))
     else if MAX_SAFE_INTEGER < fst_size st
     then io_throw (instr_error ''INSTRUCTION_TOO_LARGE'' (Some portablePath)
            (js ''instruction file size exceeds safe integer range: '' @ portablePath))
     else io_return \<lparr>fm_realPath = realPath, fm_fingerprint = file_fingerprint st, fm_size = fst_size st\<rparr>)))"

definition too_large :: "jstr \<Rightarrow> thrown" where
  "too_large filename = instr_error ''INSTRUCTION_TOO_LARGE'' (Some filename)
     (js ''instruction file exceeds '' @ js_nat MAX_INSTRUCTION_BYTES @ js '' bytes: '' @ filename)"

text \<open>The decoded text is reused when the bytes have the hash of the cached entry.\<close>

definition content_for :: "CachedInstructionFile option \<Rightarrow> jstr \<Rightarrow> jstr \<Rightarrow> bytes \<Rightarrow> jstr result" where
  "content_for cached filename sha buffer =
     (case cached of
        Some c \<Rightarrow> if cached_sha256 c = sha then Inr (cached_content c) else decodeInstructionText buffer filename
      | None \<Rightarrow> decodeInstructionText buffer filename)"

text \<open>The stable-read loop; \<open>left\<close> attempts remain.\<close>

fun stable_read ::
    "instr_service \<Rightarrow> abspath \<Rightarrow> abspath \<Rightarrow> jstr \<Rightarrow> CachedInstructionFile option \<Rightarrow> nat \<Rightarrow> FileMetadata \<Rightarrow>
     CachedInstructionFile instr" where
  "stable_read svc root candidate filename cached 0 metadata =
     io_throw (instr_error ''INSTRUCTION_CHANGED_DURING_READ'' (Some filename)
       (js ''instruction file changed repeatedly while being read: '' @ filename))"
| "stable_read svc root candidate filename cached (Suc left) metadata =
     (if MAX_INSTRUCTION_BYTES < fm_size metadata then io_throw (too_large filename)
      else
      io_bind (io_map_error (mapReadError filename) (wait_for (os_readFileAt (fm_realPath metadata)))) (\<lambda>buffer.
      if MAX_INSTRUCTION_BYTES < length buffer then io_throw (too_large filename)
      else
      io_bind (io_map_error (mapReadError filename) (instructionFileMetadata svc root candidate filename)) (\<lambda>after.
      if fm_realPath after = fm_realPath metadata \<and> fm_fingerprint after = fm_fingerprint metadata
        \<and> fm_size after = length buffer
      then
        (let sha = svc_sha256 svc buffer in
         io_bind (io_result (content_for cached filename sha buffer)) (\<lambda>content.
         let stable = \<lparr>cached_realPath = fm_realPath metadata, cached_fingerprint = fm_fingerprint metadata,
                       cached_content = content, cached_sha256 = sha\<rparr> in
         io_bind (cache_set candidate stable) (\<lambda>_. io_return stable)))
      else stable_read svc root candidate filename cached left after)))"

definition readInstructionFile ::
    "instr_service \<Rightarrow> InstructionProviderContext \<Rightarrow> jstr \<Rightarrow> CachedInstructionFile option instr" where
  "readInstructionFile svc ctx filename =
     (let candidate = ctx_absoluteScopePath ctx @ [filename] in
      io_bind
        (io_try
          (io_bind (instructionFileMetadata svc (ctx_workspaceRoot ctx) candidate filename) (\<lambda>m. io_return (Some m)))
          (\<lambda>e. if hasErrnoCode e ENOENT
               then io_bind (cache_delete candidate) (\<lambda>_. io_return None)
               else io_throw e)) (\<lambda>found. case found of None \<Rightarrow> io_return None | Some metadata \<Rightarrow>
      io_bind (cache_get candidate) (\<lambda>cached.
      io_bind (stable_read svc (ctx_workspaceRoot ctx) candidate filename cached MAX_STABLE_READ_ATTEMPTS metadata)
        (\<lambda>f. io_return (Some f)))))"

definition fileProvider :: "instr_service \<Rightarrow> jstr \<Rightarrow> int \<Rightarrow> jstr \<Rightarrow> iworld InstructionProvider" where
  "fileProvider svc i precedence filename =
     \<lparr>prov_id = i, prov_precedence = JInt precedence,
      prov_resolveScope = (\<lambda>ctx.
        io_bind (readInstructionFile svc ctx filename) (\<lambda>document.
          io_return (case document of
              None \<Rightarrow> []
            | Some d \<Rightarrow> [\<lparr>con_sourceId = JStr filename, con_content = JStr (cached_content d),
                         con_path = JStr (portableJoin (ctx_scopePath ctx) filename)\<rparr>])))\<rparr>"

text \<open>The providers of the service before they are sorted, and as the constructor keeps them.\<close>

definition all_providers :: "instr_service \<Rightarrow> iworld InstructionProvider list" where
  "all_providers svc =
     [fileProvider svc (js ''builtin.claude'') 100 (js ''CLAUDE.md''),
      fileProvider svc (js ''builtin.agents'') 200 (js ''AGENTS.md'')] @ svc_custom svc"

definition sorted_providers :: "instr_service \<Rightarrow> iworld InstructionProvider list" where
  "sorted_providers svc = js_sort compareProviders (all_providers svc)"

text \<open>The constructor; \<open>svc\<close> holds the options with their defaults filled in.\<close>

definition newInstructionsService :: "instr_service \<Rightarrow> instr_service result" where
  "newInstructionsService svc = map_sum id (\<lambda>_. svc) (validateProviders (all_providers svc))"

section \<open>\<open>resolve\<close>\<close>

record InstructionsResolveRequest =
  irq_workspaceId :: jstr
  irq_scopePath :: "jstr option"

record InstructionsResolveResult =
  irs_workspaceId :: jstr
  irs_scopePath :: jstr
  irs_scopes :: "jstr list"
  irs_documents :: "InstructionDocument list"

definition requireWorkspace :: "instr_service \<Rightarrow> jstr \<Rightarrow> WorkspaceRecord os" where
  "requireWorkspace svc i =
     io_bind (svc_resolveWorkspace svc i) (\<lambda>workspace. case workspace of
       None \<Rightarrow> io_throw (instr_error ''WORKSPACE_NOT_FOUND'' None (js ''workspace '' @ i @ js '' was not found''))
     | Some w \<Rightarrow>
         if status w \<noteq> Available
         then io_throw (instr_error ''WORKSPACE_UNAVAILABLE'' (Some (canonicalPath w))
                (js ''workspace '' @ i @ js '' is '' @ workspace_status_text (status w)))
         else io_return w)"

definition canonicalWorkspaceRoot :: "WorkspaceRecord \<Rightarrow> abspath os" where
  "canonicalWorkspaceRoot w =
     io_map_error (\<lambda>_. instr_error ''WORKSPACE_UNAVAILABLE'' (Some (canonicalPath w))
         (js ''workspace path is unavailable: '' @ canonicalPath w))
       (os_realpath (components (canonicalPath w)))"

definition scope_inaccessible :: "jstr \<Rightarrow> thrown" where
  "scope_inaccessible portablePath = instr_error ''SCOPE_INACCESSIBLE'' (Some portablePath)
     (js ''instruction scope is inaccessible: '' @ portablePath)"

definition resolveScopeDirectory :: "instr_service \<Rightarrow> abspath \<Rightarrow> jstr \<Rightarrow> abspath instr" where
  "resolveScopeDirectory svc root portablePath =
     (let candidate = (if portablePath = dot then root
                       else resolve_segments root (filter (\<lambda>c. c \<noteq> []) (split_on slash portablePath))) in
      if \<not> isSameOrDescendant root candidate
      then io_throw (instr_error ''PATH_OUTSIDE_WORKSPACE'' (Some portablePath)
             (js ''scope escapes workspace: '' @ portablePath))
      else
      io_bind (io_map_error (\<lambda>e. if hasErrnoCode e ENOENT
            then instr_error ''SCOPE_NOT_FOUND'' (Some portablePath)
                   (js ''instruction scope does not exist: '' @ portablePath)
            else scope_inaccessible portablePath) (wait_for (os_realpath candidate))) (\<lambda>canonical.
      if \<not> isSameOrDescendant root canonical
      then io_throw (instr_error ''PATH_OUTSIDE_WORKSPACE'' (Some portablePath)
             (js ''scope resolves outside workspace: '' @ portablePath))
      else
      io_bind (io_map_error (\<lambda>_. scope_inaccessible portablePath)
                 (wait_for (os_stat_times (svc_times svc) canonical))) (\<lambda>st.
      if \<not> isDirectory (fst_body st)
      then io_throw (instr_error ''SCOPE_NOT_DIRECTORY'' (Some portablePath)
             (js ''instruction scope is not a directory: '' @ portablePath))
      else io_return canonical)))"

text \<open>The inner loop: \<open>totalBytes\<close> and \<open>documents\<close> so far.\<close>

type_synonym collected = "nat \<times> InstructionDocument list"

fun push_documents :: "jstr \<Rightarrow> InstructionDocument list \<Rightarrow> collected \<Rightarrow> collected result" where
  "push_documents scopePath [] acc = Inr acc"
| "push_documents scopePath (d # ds) (totalBytes, documents) =
     (let total = totalBytes + byteLength (doc_content d) in
      if MAX_TOTAL_INSTRUCTION_BYTES < total
      then Inl (instr_error ''INSTRUCTIONS_TOO_LARGE'' (Some scopePath)
             (js ''resolved instructions exceed '' @ js_nat MAX_TOTAL_INSTRUCTION_BYTES @ js '' UTF-8 bytes''))
      else push_documents scopePath ds (total, documents @ [d]))"

definition ask_provider ::
    "instr_service \<Rightarrow> InstructionProviderContext \<Rightarrow> iworld InstructionProvider \<Rightarrow> InstructionDocument list instr" where
  "ask_provider svc ctx p =
     io_bind (io_map_error (\<lambda>e. if is_instructions_error e then e
           else instr_error ''INSTRUCTION_PROVIDER_FAILED'' (Some (ctx_scopePath ctx))
                  (js ''instruction provider '' @ prov_id p @ js '' failed at scope '' @ ctx_scopePath ctx))
         (prov_resolveScope p ctx)) (\<lambda>contributions.
     io_result (map_sum id (js_sort compareDocumentsWithinProvider)
       (map_res (normalizeContribution (svc_sha256 svc) (prov_id p) (ctx_scopePath ctx)) contributions)))"

fun providers_loop ::
    "instr_service \<Rightarrow> jstr \<Rightarrow> InstructionProviderContext \<Rightarrow> iworld InstructionProvider list \<Rightarrow> collected \<Rightarrow> collected instr" where
  "providers_loop svc scopePath ctx [] acc = io_return acc"
| "providers_loop svc scopePath ctx (p # ps) acc =
     io_bind (ask_provider svc ctx p) (\<lambda>normalized.
     io_bind (io_result (push_documents scopePath normalized acc)) (\<lambda>acc'.
     providers_loop svc scopePath ctx ps acc'))"

fun scopes_loop ::
    "instr_service \<Rightarrow> WorkspaceRecord \<Rightarrow> abspath \<Rightarrow> jstr \<Rightarrow> jstr list \<Rightarrow> collected \<Rightarrow> collected instr" where
  "scopes_loop svc w root scopePath [] acc = io_return acc"
| "scopes_loop svc w root scopePath (scope # scopes) acc =
     io_bind (resolveScopeDirectory svc root scope) (\<lambda>absolute.
     io_bind (providers_loop svc scopePath
         \<lparr>ctx_workspace = w, ctx_workspaceRoot = root, ctx_scopePath = scope, ctx_absoluteScopePath = absolute\<rparr>
         (sorted_providers svc) acc) (\<lambda>acc'.
     scopes_loop svc w root scopePath scopes acc'))"

definition instructions_resolve ::
    "instr_service \<Rightarrow> InstructionsResolveRequest \<Rightarrow> InstructionsResolveResult instr" where
  "instructions_resolve svc request =
     io_bind (wait_for (requireWorkspace svc (irq_workspaceId request))) (\<lambda>w.
     io_bind (io_result (normalizeScopePath (case irq_scopePath request of None \<Rightarrow> dot | Some s \<Rightarrow> s))) (\<lambda>scopePath.
     io_bind (wait_for (canonicalWorkspaceRoot w)) (\<lambda>root.
     let scopes = buildScopeChain scopePath in
     io_bind (scopes_loop svc w root scopePath scopes (0, [])) (\<lambda>(totalBytes, documents).
     io_return \<lparr>irs_workspaceId = irq_workspaceId request, irs_scopePath = scopePath, irs_scopes = scopes,
                irs_documents = documents\<rparr>))))"

end
