(* ===== verification/Skills.thy ===== *)
theory Skills
  imports Instructions
begin

text \<open>
  \<open>class InstructionsService\<close> of \<open>packages/instructions/src/index.ts\<close>, the operations on skills:
  discovery under the five roots, \<open>listSkills\<close> and \<open>readSkill\<close>. The roots, which the code visits
  concurrently, are visited one after another: no visit changes anything, and at every call the rest of
  the system may act. \<open>parseDocument\<close> of the YAML library is a parameter: the first of its errors, if any,
  and the outcome of \<open>toJS\<close>.
\<close>

section \<open>Data\<close>

datatype SkillSourceKind = Project | BenchhandUser | AgentsUser | CodexUser | DevspaceCompat | Configured

record SkillSummary =
  skillId :: jstr
  sk_name :: jstr
  sk_description :: jstr
  sk_sourceId :: jstr
  sk_sourceKind :: SkillSourceKind
  sk_directoryPath :: jstr
  sk_filePath :: jstr
  sk_metadataSha256 :: jstr
  sk_license :: "jstr option"
  sk_compatibility :: "jstr option"
  sk_metadata :: "(jstr \<times> jstr) list"
  sk_allowedTools :: "jstr option"

record InvalidSkillEntry =
  bad_sourceId :: jstr
  bad_sourceKind :: SkillSourceKind
  bad_directoryPath :: jstr
  bad_filePath :: "jstr option"
  bad_errorCode :: jstr
  bad_message :: jstr

record SkillsListResult =
  slr_workspaceId :: jstr
  slr_skills :: "SkillSummary list"
  slr_shadowed :: "SkillSummary list"
  slr_invalid :: "InvalidSkillEntry list"

record SkillsReadResult =
  srr_workspaceId :: jstr
  srr_skill :: SkillSummary
  srr_content :: jstr
  srr_sha256 :: jstr

record SkillRootDescriptor =
  root_sourceId :: jstr
  root_sourceKind :: SkillSourceKind
  root_precedence :: int
  root_candidate :: abspath
  root_boundary :: "abspath option"
  root_displayBase :: "abspath option"

record DiscoveredSkill =
  found_precedence :: int
  found_summary :: SkillSummary
  found_file :: abspath

record SkillDiscoveryResult =
  disc_skills :: "DiscoveredSkill list"
  disc_invalid :: "InvalidSkillEntry list"

record skill_service =
  sks_service :: instr_service
  sks_parseDocument :: "jstr \<Rightarrow> jstr option \<times> json result"

section \<open>One skill\<close>

text \<open>What \<open>readSkillMetadata\<close> computes from the bytes read; paths appear in errors only.\<close>

definition skill_metadata_of :: "skill_service \<Rightarrow> jstr \<Rightarrow> jstr \<Rightarrow> bytes \<Rightarrow> ParsedSkillMetadata result" where
  "skill_metadata_of sks parentDirectoryName shown buffer =
     bind_res (decodeInstructionText buffer shown) (\<lambda>source.
     bind_res (extractSkillFrontmatter source shown) (\<lambda>frontmatter.
     case sks_parseDocument sks frontmatter of
       (Some message, _) \<Rightarrow> Inl (instr_error ''INVALID_SKILL_FRONTMATTER'' (Some shown)
           (js ''invalid SKILL.md YAML frontmatter: '' @ message))
     | (None, toJS) \<Rightarrow>
         bind_res toJS (\<lambda>v.
         validateSkillMetadata (svc_sha256 (sks_service sks)) v parentDirectoryName frontmatter shown)))"

definition readSkillMetadata :: "skill_service \<Rightarrow> abspath \<Rightarrow> jstr \<Rightarrow> ParsedSkillMetadata os" where
  "readSkillMetadata sks skillFile parentDirectoryName =
     io_bind (os_open_read skillFile) (\<lambda>handle.
     io_finally
       (io_bind (os_read handle (MAX_SKILL_FRONTMATTER_BYTES + 1) 0) (\<lambda>buffer.
        io_result (skill_metadata_of sks parentDirectoryName (path_text skillFile) buffer)))
       (os_close handle))"

text \<open>What one directory entry adds to a discovery.\<close>

datatype skill_entry = Skipped | Invalid InvalidSkillEntry | Found DiscoveredSkill

definition invalid_entry :: "SkillRootDescriptor \<Rightarrow> abspath \<Rightarrow> jstr \<Rightarrow> jstr \<Rightarrow> InvalidSkillEntry" where
  "invalid_entry descriptor skillDirectory code message =
     \<lparr>bad_sourceId = root_sourceId descriptor, bad_sourceKind = root_sourceKind descriptor,
      bad_directoryPath = displaySkillPath (root_displayBase descriptor) skillDirectory,
      bad_filePath = Some (displaySkillPath (root_displayBase descriptor) (skillDirectory @ [js ''SKILL.md''])),
      bad_errorCode = code, bad_message = message\<rparr>"

definition skill_summary :: "SkillRootDescriptor \<Rightarrow> abspath \<Rightarrow> ParsedSkillMetadata \<Rightarrow> SkillSummary" where
  "skill_summary descriptor skillDirectory m =
     \<lparr>skillId = root_sourceId descriptor @ js '':'' @ meta_name m, sk_name = meta_name m,
      sk_description = meta_description m, sk_sourceId = root_sourceId descriptor,
      sk_sourceKind = root_sourceKind descriptor,
      sk_directoryPath = displaySkillPath (root_displayBase descriptor) skillDirectory,
      sk_filePath = displaySkillPath (root_displayBase descriptor) (skillDirectory @ [js ''SKILL.md'']),
      sk_metadataSha256 = meta_metadataSha256 m, sk_license = meta_license m,
      sk_compatibility = meta_compatibility m, sk_metadata = meta_metadata m,
      sk_allowedTools = meta_allowedTools m\<rparr>"

definition read_entry :: "skill_service \<Rightarrow> SkillRootDescriptor \<Rightarrow> abspath \<Rightarrow> abspath \<Rightarrow> jstr \<Rightarrow> skill_entry os" where
  "read_entry sks descriptor skillDirectory canonicalSkillFile entry_name =
     io_try
       (io_bind (readSkillMetadata sks canonicalSkillFile entry_name) (\<lambda>metadata.
         io_return (Found \<lparr>found_precedence = root_precedence descriptor,
           found_summary = skill_summary descriptor skillDirectory metadata, found_file = canonicalSkillFile\<rparr>)))
       (\<lambda>e. if hasErrnoCode e ENOENT then io_return Skipped
            else (case e of
                InstructionsError code path message \<Rightarrow>
                  io_return (Invalid (invalid_entry descriptor skillDirectory code message))
              | _ \<Rightarrow> io_throw e))"

definition discover_entry :: "skill_service \<Rightarrow> SkillRootDescriptor \<Rightarrow> abspath \<Rightarrow> dirent \<Rightarrow> skill_entry os" where
  "discover_entry sks descriptor root entry =
     (if \<not> isDirectory (snd entry) \<and> \<not> isSymbolicLink (snd entry) then io_return Skipped
      else
      io_bind (io_try (io_bind (os_realpath (root @ [fst entry])) (\<lambda>p. io_return (Some p))) (\<lambda>_. io_return None))
        (\<lambda>directory. case directory of None \<Rightarrow> io_return Skipped | Some skillDirectory \<Rightarrow>
      if \<not> isSameOrDescendant root skillDirectory then io_return Skipped
      else (let skillFile = skillDirectory @ [js ''SKILL.md''];
                displayed = displaySkillPath (root_displayBase descriptor) skillFile in
      io_bind
        (io_try (io_bind (os_realpath skillFile) (\<lambda>p. io_return (Inr p)))
          (\<lambda>e. io_return (Inl
             (if hasErrnoCode e ENOENT then Skipped
              else Invalid (invalid_entry descriptor skillDirectory (js ''SKILL_FILE_INACCESSIBLE'')
                     (js ''SKILL.md is inaccessible: '' @ displayed)))))) (\<lambda>located.
      case located of
        Inl outcome \<Rightarrow> io_return outcome
      | Inr canonicalSkillFile \<Rightarrow>
          if \<not> isSameOrDescendant root canonicalSkillFile
          then io_return (Invalid (invalid_entry descriptor skillDirectory (js ''SKILL_FILE_OUTSIDE_ROOT'')
                 (js ''SKILL.md resolves outside skill root: '' @ displayed)))
          else read_entry sks descriptor skillDirectory canonicalSkillFile (fst entry)))))"

section \<open>Discovery\<close>

definition add_entry :: "skill_entry \<Rightarrow> SkillDiscoveryResult \<Rightarrow> SkillDiscoveryResult" where
  "add_entry outcome r =
     (case outcome of
        Skipped \<Rightarrow> r
      | Invalid b \<Rightarrow> r\<lparr>disc_invalid := disc_invalid r @ [b]\<rparr>
      | Found s \<Rightarrow> r\<lparr>disc_skills := disc_skills r @ [s]\<rparr>)"

fun discover_loop ::
    "skill_service \<Rightarrow> SkillRootDescriptor \<Rightarrow> abspath \<Rightarrow> dirent list \<Rightarrow> SkillDiscoveryResult \<Rightarrow> SkillDiscoveryResult os" where
  "discover_loop sks descriptor root [] r = io_return r"
| "discover_loop sks descriptor root (entry # entries) r =
     io_bind (discover_entry sks descriptor root entry) (\<lambda>outcome.
     discover_loop sks descriptor root entries (add_entry outcome r))"

definition no_skills :: SkillDiscoveryResult where
  "no_skills = \<lparr>disc_skills = [], disc_invalid = []\<rparr>"

definition discoverSkillRoot :: "skill_service \<Rightarrow> SkillRootDescriptor \<Rightarrow> SkillDiscoveryResult os" where
  "discoverSkillRoot sks descriptor =
     io_bind
       (io_try (io_bind (os_realpath (root_candidate descriptor)) (\<lambda>p. io_return (Some p)))
         (\<lambda>e. if hasErrnoCode e ENOENT then io_return None
              else io_throw (instr_error ''SKILL_ROOT_INACCESSIBLE'' (Some (path_text (root_candidate descriptor)))
                     (js ''skill root '' @ root_sourceId descriptor @ js '' is inaccessible'')))) (\<lambda>found.
     case found of
       None \<Rightarrow> io_return no_skills
     | Some root \<Rightarrow>
         if (case root_boundary descriptor of None \<Rightarrow> False | Some b \<Rightarrow> \<not> isSameOrDescendant b root)
         then io_throw (instr_error ''SKILL_ROOT_OUTSIDE_WORKSPACE'' (Some (path_text (root_candidate descriptor)))
                (js ''skill root '' @ root_sourceId descriptor @ js '' resolves outside its allowed boundary''))
         else
         io_bind (os_readdir root) (\<lambda>entries.
         discover_loop sks descriptor root (js_sort (\<lambda>l r. compareCodePoints (fst l) (fst r)) entries) no_skills))"

definition user_root :: "skill_service \<Rightarrow> string \<Rightarrow> SkillSourceKind \<Rightarrow> int \<Rightarrow> string \<Rightarrow> SkillRootDescriptor" where
  "user_root sks i kind precedence directory =
     \<lparr>root_sourceId = js i, root_sourceKind = kind, root_precedence = precedence,
      root_candidate = svc_homeDirectory (sks_service sks) @ [js directory, js ''skills''],
      root_boundary = None, root_displayBase = None\<rparr>"

definition skill_roots :: "skill_service \<Rightarrow> abspath \<Rightarrow> SkillRootDescriptor list" where
  "skill_roots sks workspaceRoot =
     [\<lparr>root_sourceId = js ''project'', root_sourceKind = Project, root_precedence = 0,
       root_candidate = workspaceRoot @ [js ''.agents'', js ''skills''],
       root_boundary = Some workspaceRoot, root_displayBase = Some workspaceRoot\<rparr>,
      user_root sks ''benchhand-user'' BenchhandUser 100 ''.benchhand'',
      user_root sks ''agents-user'' AgentsUser 200 ''.agents'',
      user_root sks ''codex-user'' CodexUser 300 ''.codex'',
      user_root sks ''devspace-compat'' DevspaceCompat 400 ''.devspace'']"

fun discover_roots :: "skill_service \<Rightarrow> SkillRootDescriptor list \<Rightarrow> SkillDiscoveryResult list os" where
  "discover_roots sks [] = io_return []"
| "discover_roots sks (d # ds) =
     io_bind (discoverSkillRoot sks d) (\<lambda>batch.
     io_bind (discover_roots sks ds) (\<lambda>batches. io_return (batch # batches)))"

definition compareDiscoveredSkills :: "DiscoveredSkill \<Rightarrow> DiscoveredSkill \<Rightarrow> int" where
  "compareDiscoveredSkills left right =
     or_else (found_precedence left - found_precedence right)
       (or_else (compareCodePoints (sk_name (found_summary left)) (sk_name (found_summary right)))
          (compareCodePoints (sk_sourceId (found_summary left)) (sk_sourceId (found_summary right))))"

definition discoverSkills :: "skill_service \<Rightarrow> abspath \<Rightarrow> SkillDiscoveryResult os" where
  "discoverSkills sks workspaceRoot =
     io_bind (discover_roots sks (skill_roots sks workspaceRoot)) (\<lambda>batches.
     io_return \<lparr>disc_skills = js_sort compareDiscoveredSkills (concat (map disc_skills batches)),
                disc_invalid = concat (map disc_invalid batches)\<rparr>)"

section \<open>\<open>listSkills\<close> and \<open>readSkill\<close>\<close>

text \<open>The first candidate of each name is selected, the others are shadowed.\<close>

fun select_skills :: "jstr list \<Rightarrow> SkillSummary list \<Rightarrow> SkillSummary list \<times> SkillSummary list" where
  "select_skills selectedNames [] = ([], [])"
| "select_skills selectedNames (s # ss) =
     (if sk_name s \<in> set selectedNames
      then (case select_skills selectedNames ss of (skills, shadowed) \<Rightarrow> (skills, s # shadowed))
      else (case select_skills (sk_name s # selectedNames) ss of (skills, shadowed) \<Rightarrow> (s # skills, shadowed)))"

definition listSkills :: "skill_service \<Rightarrow> jstr \<Rightarrow> SkillsListResult os" where
  "listSkills sks i =
     io_bind (requireWorkspace (sks_service sks) i) (\<lambda>w.
     io_bind (canonicalWorkspaceRoot w) (\<lambda>root.
     io_bind (discoverSkills sks root) (\<lambda>discovered.
     let (skills, shadowed) = select_skills [] (map found_summary (disc_skills discovered)) in
     io_return \<lparr>slr_workspaceId = i, slr_skills = skills, slr_shadowed = shadowed,
                slr_invalid = disc_invalid discovered\<rparr>)))"

definition read_skill_file :: "skill_service \<Rightarrow> jstr \<Rightarrow> jstr \<Rightarrow> DiscoveredSkill \<Rightarrow> SkillsReadResult os" where
  "read_skill_file sks i wanted candidate =
     (let shown = sk_filePath (found_summary candidate) in
      io_bind (io_map_error (\<lambda>_. instr_error ''SKILL_INACCESSIBLE'' (Some shown)
            (js ''skill '' @ wanted @ js '' is inaccessible'')) (os_readFileAt (found_file candidate))) (\<lambda>buffer.
      if MAX_INSTRUCTION_BYTES < length buffer
      then io_throw (instr_error ''SKILL_TOO_LARGE'' (Some shown)
             (js ''skill file exceeds '' @ js_nat MAX_INSTRUCTION_BYTES @ js '' bytes''))
      else
      io_bind (io_result (decodeInstructionText buffer shown)) (\<lambda>content.
      io_return \<lparr>srr_workspaceId = i, srr_skill = found_summary candidate, srr_content = content,
                 srr_sha256 = svc_sha256 (sks_service sks) buffer\<rparr>)))"

definition readSkill :: "skill_service \<Rightarrow> jstr \<Rightarrow> jstr \<Rightarrow> SkillsReadResult os" where
  "readSkill sks i wanted =
     (if wanted = [] \<or> 0 \<in> set wanted
      then io_throw (instr_error ''INVALID_SKILL_ID'' None (js ''skillId must be a non-empty NUL-free string''))
      else
      io_bind (requireWorkspace (sks_service sks) i) (\<lambda>w.
      io_bind (canonicalWorkspaceRoot w) (\<lambda>root.
      io_bind (discoverSkills sks root) (\<lambda>discovered.
      case find (\<lambda>s. skillId (found_summary s) = wanted) (disc_skills discovered) of
        None \<Rightarrow> io_throw (instr_error ''SKILL_NOT_FOUND'' (Some wanted) (js ''skill '' @ wanted @ js '' was not found''))
      | Some candidate \<Rightarrow> read_skill_file sks i wanted candidate))))"

interpretation skill_order: comparator compareDiscoveredSkills
  unfolding compareDiscoveredSkills_def
  by (intro or_else_comparator comparator_key [OF precedence_comparator] comparator_key [OF code_points_comparator])

end
