(* ===== verification/SkillsList.thy ===== *)
theory SkillsList
  imports Skills PathSafety
begin

text \<open>
  What the operations on skills return: the selection among skills of the same name, in every run, and
  the agreement of \<open>readSkill\<close> with \<open>listSkills\<close> while nothing else acts.
\<close>

section \<open>Metadata\<close>

lemma readSkillString_Inr:
  "readSkillString v field lo hi path = Inr s \<Longrightarrow> v = Some (JStr s) \<and> lo \<le> length s \<and> length s \<le> hi"
  by (auto simp: readSkillString_def Let_def split: option.splits json.splits if_splits)

definition metadata_ok :: "jstr \<Rightarrow> ParsedSkillMetadata \<Rightarrow> bool" where
  "metadata_ok directory m \<longleftrightarrow> meta_name m = directory \<and> is_skill_name directory \<and> length directory \<le> 64
     \<and> meta_description m \<noteq> [] \<and> length (meta_description m) \<le> 1024"

lemma validateSkillMetadata_ok: "validateSkillMetadata sha v directory raw path = Inr m \<Longrightarrow> metadata_ok directory m"
  by (auto simp: validateSkillMetadata_def Let_def metadata_ok_def bind_res_eq_Inr split: json.splits if_splits
      dest!: readSkillString_Inr)

lemma skill_metadata_of_ok: "skill_metadata_of sks directory shown buffer = Inr m \<Longrightarrow> metadata_ok directory m"
  unfolding skill_metadata_of_def bind_res_eq_Inr
  by (elim exE conjE) (auto simp: bind_res_eq_Inr split: prod.split_asm option.split_asm dest: validateSkillMetadata_ok)

lemma io_finally_Inr: "io_finally m f w = (Inr a, w') \<Longrightarrow> \<exists>w1. m w = (Inr a, w1)"
  by (auto simp: io_finally_def split: prod.splits sum.splits)

lemma readSkillMetadata_ok: "readSkillMetadata sks skillFile directory w = (Inr m, w') \<Longrightarrow> metadata_ok directory m"
  by (auto simp: readSkillMetadata_def io_bind_eq io_result_eq dest!: io_finally_Inr skill_metadata_of_ok)

section \<open>Discovery\<close>

text \<open>A property of the world that the calls of the discovery keep.\<close>

locale observer =
  fixes I :: "world \<Rightarrow> bool"
  assumes realpath_keeps: "I w \<Longrightarrow> os_realpath p w = (x, w') \<Longrightarrow> I w'"
    and readdir_keeps: "I w \<Longrightarrow> os_readdir p w = (es, w') \<Longrightarrow> I w'"
    and open_keeps: "I w \<Longrightarrow> os_open_read p w = (h, w') \<Longrightarrow> I w'"
    and read_keeps: "I w \<Longrightarrow> os_read handle len position w = (bs, w') \<Longrightarrow> I w'"
    and close_keeps: "I w \<Longrightarrow> os_close handle w = (u, w') \<Longrightarrow> I w'"

sublocale observer \<subseteq> kept: state_order "\<lambda>w w'. I w \<longrightarrow> I w'"
  by unfold_locales auto

text \<open>\<open>seen sks d I f\<close>: the skill \<open>f\<close> of root \<open>d\<close> is what \<open>readSkillMetadata\<close> made of the file that
  \<open>SKILL.md\<close> in some directory resolved to, both in worlds with \<open>I\<close>.\<close>

definition seen :: "skill_service \<Rightarrow> SkillRootDescriptor \<Rightarrow> (world \<Rightarrow> bool) \<Rightarrow> DiscoveredSkill \<Rightarrow> bool" where
  "seen sks d I f \<longleftrightarrow> (\<exists>directory m w1 w2 w3. I w1 \<and> I w2
     \<and> os_realpath (directory @ [js ''SKILL.md'']) w1 = (Inr (found_file f), w2)
     \<and> readSkillMetadata sks (found_file f) (meta_name m) w2 = (Inr m, w3)
     \<and> found_precedence f = root_precedence d \<and> found_summary f = skill_summary d directory m)"

abbreviation skill_name :: "DiscoveredSkill \<Rightarrow> jstr" where
  "skill_name f \<equiv> sk_name (found_summary f)"

text \<open>What the discovery of one root gives.\<close>

definition root_seen :: "skill_service \<Rightarrow> (world \<Rightarrow> bool) \<Rightarrow> SkillRootDescriptor \<Rightarrow> SkillDiscoveryResult \<Rightarrow> bool" where
  "root_seen sks I d r \<longleftrightarrow> list_all (seen sks d I) (disc_skills r)
     \<and> (disc_skills r = [] \<or> (\<exists>root entries w1 w2. I w1 \<and> os_readdir root w1 = (Inr entries, w2)
          \<and> subseq (map skill_name (disc_skills r)) (map fst (js_sort (\<lambda>l r. compareCodePoints (fst l) (fst r)) entries))))"

context observer begin

lemma calls_keep:
  "kept.stays (os_realpath p)" "kept.stays (os_readdir p)" "kept.stays (os_open_read p)"
  "kept.stays (os_read h len position)" "kept.stays (os_close h)"
  by (rule kept.staysI, blast intro: realpath_keeps readdir_keeps open_keeps read_keeps close_keeps)+

lemma readSkillMetadata_keeps: "kept.stays (readSkillMetadata sks p n)"
  unfolding readSkillMetadata_def by (intro kept.stays_intros calls_keep)

lemma read_entry_keeps: "kept.stays (read_entry sks d p q n)"
proof -
  have "kept.stays (case e of InstructionsError code path message \<Rightarrow> io_return (x code path message) | _ \<Rightarrow> io_throw e)"
    for e and x :: "jstr \<Rightarrow> jstr option \<Rightarrow> jstr \<Rightarrow> skill_entry" by (cases e) (simp_all add: kept.stays_intros)
  then show ?thesis
    unfolding read_entry_def by (intro kept.stays_intros readSkillMetadata_keeps) (simp add: kept.stays_intros)
qed

lemma discover_entry_keeps: "kept.stays (discover_entry sks d root e)"
proof -
  have "kept.stays (case x of Inl a \<Rightarrow> io_return a | Inr q \<Rightarrow> if b q then io_return (c q) else read_entry sks d p q n)"
    for x :: "skill_entry + abspath" and b c p n by (cases x) (auto intro: kept.stays_intros read_entry_keeps)
  then show ?thesis
    unfolding discover_entry_def Let_def by (intro kept.stays_intros calls_keep) simp
qed

lemma read_entry_seen:
  assumes "I w1" "os_realpath (directory @ [js ''SKILL.md'']) w1 = (Inr q, w2)"
    "read_entry sks d directory q n w2 = (Inr (Found f), w3)"
  shows "seen sks d I f \<and> skill_name f = n"
proof -
  from assms(3) obtain m w' where m: "readSkillMetadata sks q n w2 = (Inr m, w')"
    and f: "f = \<lparr>found_precedence = root_precedence d, found_summary = skill_summary d directory m, found_file = q\<rparr>"
    by (auto simp: read_entry_def io_eqs split: if_splits thrown.splits)
  have "meta_name m = n" using readSkillMetadata_ok [OF m] by (simp add: metadata_ok_def)
  moreover have "I w2" using realpath_keeps assms(1,2) .
  ultimately show ?thesis
    unfolding seen_def using assms(1,2) m
    by (intro conjI exI [of _ directory] exI [of _ m] exI [of _ w1] exI [of _ w2] exI [of _ w'])
       (simp_all add: f skill_summary_def)
qed

lemma discover_entry_seen:
  assumes "I w" "discover_entry sks d root e w = (Inr (Found f), w')"
  shows "seen sks d I f \<and> skill_name f = fst e"
proof -
  from assms(2) obtain directory q w1 w2 where "os_realpath (root @ [fst e]) w = (Inr directory, w1)"
    "os_realpath (directory @ [js ''SKILL.md'']) w1 = (Inr q, w2)" "read_entry sks d directory q (fst e) w2 = (Inr (Found f), w')"
    by (auto simp: discover_entry_def io_eqs Let_def split: if_splits)
  with read_entry_seen realpath_keeps assms(1) show ?thesis by blast
qed

lemma discover_loop_seen:
  assumes "discover_loop sks d root entries r w = (Inr r', w')" "I w"
  shows "I w' \<and> (\<exists>new. disc_skills r' = disc_skills r @ new \<and> list_all (seen sks d I) new
     \<and> subseq (map skill_name new) (map fst entries))"
  using assms
proof (induction entries arbitrary: r w)
  case Nil
  then show ?case by (auto simp: io_return_eq)
next
  case (Cons e entries)
  from Cons.prems(1) obtain outcome w1 where e: "discover_entry sks d root e w = (Inr outcome, w1)"
    and rest: "discover_loop sks d root entries (add_entry outcome r) w1 = (Inr r', w')" by (auto simp: io_bind_eq)
  have I: "I w1" using kept.staysD [OF discover_entry_keeps e] Cons.prems(2) by blast
  from Cons.IH [OF rest I] obtain new where new: "I w'" "disc_skills r' = disc_skills (add_entry outcome r) @ new"
    "list_all (seen sks d I) new" "subseq (map skill_name new) (map fst entries)" by blast
  show ?case
  proof (cases outcome)
    case (Found f)
    with discover_entry_seen [OF Cons.prems(2)] e have "seen sks d I f" "skill_name f = fst e" by blast+
    with new Found show ?thesis by (intro conjI exI [of _ "f # new"]) (auto simp: add_entry_def)
  next
    case Skipped
    with new show ?thesis by (auto simp: add_entry_def)
  next
    case (Invalid b)
    with new show ?thesis by (auto simp: add_entry_def)
  qed
qed

lemma discoverSkillRoot_seen:
  assumes "discoverSkillRoot sks d w = (Inr r, w')" "I w"
  shows "I w' \<and> root_seen sks I d r"
proof -
  have no: "disc_skills no_skills = []" by (simp add: no_skills_def)
  let ?find = "io_try (io_bind (os_realpath (root_candidate d)) (\<lambda>p. io_return (Some p)))
         (\<lambda>e. if hasErrnoCode e ENOENT then io_return None
              else io_throw (instr_error ''SKILL_ROOT_INACCESSIBLE'' (Some (path_text (root_candidate d)))
                     (js ''skill root '' @ root_sourceId d @ js '' is inaccessible'')))"
  have attempt: "kept.stays ?find" by (intro kept.stays_intros calls_keep)
  from assms(1) obtain found w1 where find: "?find w = (Inr found, w1)" and rest:
    "(case found of None \<Rightarrow> io_return no_skills
      | Some root \<Rightarrow>
         if (case root_boundary d of None \<Rightarrow> False | Some b \<Rightarrow> \<not> isSameOrDescendant b root)
         then io_throw (instr_error ''SKILL_ROOT_OUTSIDE_WORKSPACE'' (Some (path_text (root_candidate d)))
                (js ''skill root '' @ root_sourceId d @ js '' resolves outside its allowed boundary''))
         else
         io_bind (os_readdir root) (\<lambda>entries.
         discover_loop sks d root (js_sort (\<lambda>l r. compareCodePoints (fst l) (fst r)) entries) no_skills)) w1 = (Inr r, w')"
    unfolding discoverSkillRoot_def by (subst (asm) io_bind_eq) blast
  have found: "I w1" using kept.staysD [OF attempt find] assms(2) by blast
  show ?thesis
  proof (cases found)
    case None
    with rest found no show ?thesis by (simp add: io_return_def root_seen_def)
  next
    case (Some root)
    with rest obtain entries w2 where dir: "os_readdir root w1 = (Inr entries, w2)"
      and loop: "discover_loop sks d root (js_sort (\<lambda>l r. compareCodePoints (fst l) (fst r)) entries) no_skills w2 = (Inr r, w')"
      by (auto simp: io_bind_eq io_throw_eq split: if_splits)
    have "I w2" using readdir_keeps [OF found dir] .
    from discover_loop_seen [OF loop this] no found dir show ?thesis by (auto simp: root_seen_def)
  qed
qed

lemma discover_roots_seen:
  "discover_roots sks ds w = (Inr bs, w') \<Longrightarrow> I w \<Longrightarrow> I w' \<and> list_all2 (root_seen sks I) ds bs"
proof (induction ds arbitrary: w bs)
  case Nil
  then show ?case by (simp add: io_return_eq)
next
  case (Cons d ds)
  from Cons.prems(1) obtain b cs w1 where b: "discoverSkillRoot sks d w = (Inr b, w1)"
    and cs: "discover_roots sks ds w1 = (Inr cs, w')" and bs: "bs = b # cs" by (auto simp: io_bind_eq io_return_eq)
  with discoverSkillRoot_seen [OF b Cons.prems(2)] Cons.IH [OF cs] show ?case by simp
qed

lemma discoverSkills_seen:
  assumes "discoverSkills sks root w = (Inr r, w')" "I w"
  shows "I w' \<and> (\<exists>bs. list_all2 (root_seen sks I) (skill_roots sks root) bs
     \<and> disc_skills r = js_sort compareDiscoveredSkills (concat (map disc_skills bs)))"
proof -
  from assms(1) obtain bs where bs: "discover_roots sks (skill_roots sks root) w = (Inr bs, w')"
    and r: "disc_skills r = js_sort compareDiscoveredSkills (concat (map disc_skills bs))"
    by (auto simp: discoverSkills_def io_bind_eq io_return_eq)
  from discover_roots_seen [OF bs assms(2)] r show ?thesis by blast
qed

end

text \<open>Every run, and a run in which nothing else acts: then the world stays the same.\<close>

interpretation any_run: observer "\<lambda>_. True"
  by unfold_locales auto

lemma observe_same: "calm w \<Longrightarrow> observe f w = (x, w') \<Longrightarrow> w' = w"
  by (simp add: observe_calm split: sum.splits)

interpretation quiet: observer "\<lambda>v. v = w \<and> calm w" for w
  by unfold_locales
    (auto simp: os_realpath_def os_readdir_def os_open_read_def os_read_def os_close_def dest: observe_same)

section \<open>Selection\<close>

text \<open>The order of the roots, and the id under which each is listed.\<close>

fun precedence_of :: "SkillSourceKind \<Rightarrow> int" where
  "precedence_of Project = 0"
| "precedence_of BenchhandUser = 100"
| "precedence_of AgentsUser = 200"
| "precedence_of CodexUser = 300"
| "precedence_of DevspaceCompat = 400"
| "precedence_of Configured = 500"

fun source_text :: "SkillSourceKind \<Rightarrow> jstr" where
  "source_text Project = js ''project''"
| "source_text BenchhandUser = js ''benchhand-user''"
| "source_text AgentsUser = js ''agents-user''"
| "source_text CodexUser = js ''codex-user''"
| "source_text DevspaceCompat = js ''devspace-compat''"
| "source_text Configured = js ''configured''"

definition summary_order :: "SkillSummary \<Rightarrow> SkillSummary \<Rightarrow> int" where
  "summary_order a b =
     or_else (precedence_of (sk_sourceKind a) - precedence_of (sk_sourceKind b))
       (or_else (compareCodePoints (sk_name a) (sk_name b)) (compareCodePoints (sk_sourceId a) (sk_sourceId b)))"

definition summary_ok :: "SkillSummary \<Rightarrow> bool" where
  "summary_ok s \<longleftrightarrow> sk_sourceId s = source_text (sk_sourceKind s) \<and> skillId s = sk_sourceId s @ js '':'' @ sk_name s
     \<and> is_skill_name (sk_name s) \<and> length (sk_name s) \<le> 64
     \<and> sk_description s \<noteq> [] \<and> length (sk_description s) \<le> 1024"

lemma skill_roots_ok:
  "d \<in> set (skill_roots sks root) \<Longrightarrow>
     root_sourceId d = source_text (root_sourceKind d) \<and> root_precedence d = precedence_of (root_sourceKind d)"
  by (auto simp: skill_roots_def user_root_def)

lemma seen_summary:
  assumes "seen sks d I f" "d \<in> set (skill_roots sks root)"
  shows "summary_ok (found_summary f) \<and> found_precedence f = precedence_of (sk_sourceKind (found_summary f))
     \<and> sk_sourceKind (found_summary f) = root_sourceKind d"
  using assms(1) skill_roots_ok [OF assms(2)]
  by (auto simp: seen_def skill_summary_def summary_ok_def metadata_ok_def dest!: readSkillMetadata_ok)

lemma subseq_set: "subseq xs ys \<Longrightarrow> set xs \<subseteq> set ys"
  by (induction rule: list_emb.induct) auto

lemma sorted_subseq: "subseq xs ys \<Longrightarrow> sorted_wrt R ys \<Longrightarrow> sorted_wrt R xs"
  by (induction rule: list_emb.induct) (auto dest: subseq_set)

lemma select_skills_spec:
  "select_skills already ss = (selected, shadowed) \<Longrightarrow>
     mset ss = mset selected + mset shadowed \<and> subseq selected ss \<and> subseq shadowed ss
     \<and> distinct (map sk_name selected) \<and> sk_name ` set selected \<inter> set already = {}"
proof (induction already ss arbitrary: selected shadowed rule: select_skills.induct)
  case (2 already s ss)
  show ?case
  proof (cases "sk_name s \<in> set already")
    case True
    with 2 show ?thesis by (auto split: prod.splits)
  next
    case False
    then obtain sel where "select_skills (sk_name s # already) ss = (sel, shadowed)" and "selected = s # sel"
      using 2(3) by (auto split: prod.splits)
    with 2(2) [OF False] False show ?thesis by auto
  qed
qed simp

lemma select_skills_shadow:
  "select_skills already ss = (selected, shadowed) \<Longrightarrow> sorted_wrt R ss \<Longrightarrow> s \<in> set shadowed \<Longrightarrow>
     sk_name s \<in> set already \<or> (\<exists>t \<in> set selected. sk_name t = sk_name s \<and> R t s)"
proof (induction already ss arbitrary: selected shadowed rule: select_skills.induct)
  case (2 already s' ss)
  show ?case
  proof (cases "sk_name s' \<in> set already")
    case True
    with 2 show ?thesis by (auto split: prod.splits)
  next
    case False
    then obtain sel where rec: "select_skills (sk_name s' # already) ss = (sel, shadowed)" and sel: "selected = s' # sel"
      using 2(3) by (auto split: prod.splits)
    from rec have "set shadowed \<subseteq> set ss" using select_skills_spec subseq_set by blast
    with 2 False rec sel show ?thesis by fastforce
  qed
qed simp

lemma found_in_root:
  assumes "list_all2 (root_seen sks I) roots bs" "f \<in> set (js_sort compareDiscoveredSkills (concat (map disc_skills bs)))"
  shows "\<exists>d \<in> set roots. seen sks d I f"
proof -
  have "f \<in> set (concat (map disc_skills bs))" using assms(2) by (simp only: set_js_sort)
  then obtain b where b: "b \<in> set bs" "f \<in> set (disc_skills b)" by auto
  then obtain k where k: "k < length bs" "b = bs ! k" by (auto simp: in_set_conv_nth)
  with assms(1) have "root_seen sks I (roots ! k) b" "roots ! k \<in> set roots"
    by (simp_all add: list_all2_conv_all_nth)
  with b(2) show ?thesis by (auto simp: root_seen_def list_all_iff)
qed

lemma skills_found:
  assumes "discoverSkills sks root w = (Inr r, w')"
  shows "list_all (\<lambda>f. summary_ok (found_summary f)) (disc_skills r)
     \<and> sorted_wrt (\<lambda>a b. summary_order a b \<le> 0) (map found_summary (disc_skills r))"
proof -
  from any_run.discoverSkills_seen [OF assms] obtain bs where
    bs: "list_all2 (root_seen sks (\<lambda>_. True)) (skill_roots sks root) bs"
    and r: "disc_skills r = js_sort compareDiscoveredSkills (concat (map disc_skills bs))" by blast
  have ok: "summary_ok (found_summary f) \<and> found_precedence f = precedence_of (sk_sourceKind (found_summary f))"
    if "f \<in> set (disc_skills r)" for f
    using found_in_root [OF bs] that unfolding r by (blast dest: seen_summary)
  have "sorted_wrt (\<lambda>a b. compareDiscoveredSkills a b \<le> 0) (disc_skills r)"
    unfolding r by (rule skill_order.sorted_js_sort)
  then have "sorted_wrt (\<lambda>a b. summary_order (found_summary a) (found_summary b) \<le> 0) (disc_skills r)"
    by (rule sorted_wrt_mono_rel [rotated]) (simp add: compareDiscoveredSkills_def summary_order_def ok)
  with ok show ?thesis by (simp add: list_all_iff sorted_wrt_map)
qed

lemma listSkills_parts:
  assumes "listSkills sks i w = (Inr res, w')"
  obtains ws root r w1 w2 where "requireWorkspace (sks_service sks) i w = (Inr ws, w1)"
    "canonicalWorkspaceRoot ws w1 = (Inr root, w2)" "discoverSkills sks root w2 = (Inr r, w')"
    "select_skills [] (map found_summary (disc_skills r)) = (slr_skills res, slr_shadowed res)"
proof -
  from assms obtain ws root r w1 w2 w3 where "requireWorkspace (sks_service sks) i w = (Inr ws, w1)"
    "canonicalWorkspaceRoot ws w1 = (Inr root, w2)" "discoverSkills sks root w2 = (Inr r, w3)"
    and rest: "(let (skills, shadowed) = select_skills [] (map found_summary (disc_skills r)) in
      io_return \<lparr>slr_workspaceId = i, slr_skills = skills, slr_shadowed = shadowed,
                slr_invalid = disc_invalid r\<rparr>) w3 = (Inr res, w')"
    unfolding listSkills_def io_bind_eq by blast
  moreover from rest have "select_skills [] (map found_summary (disc_skills r)) = (slr_skills res, slr_shadowed res)" "w' = w3"
    by (auto simp: io_return_eq split: prod.splits)
  ultimately show ?thesis using that by blast
qed

text \<open>C32. \<open>listSkills\<close> selects among the skills it discovers, whatever else happens meanwhile: the selected
  ones have distinct names; every shadowed one has a selected one of the same name that comes no later in
  the order of roots (project, then the user's roots), names and ids; both lists are in that order; and
  every skill listed has a well-formed name of at most 64 characters, a description of 1 to 1024, the id
  of its root, and \<open>source:name\<close> as its id.\<close>

theorem skills_selected:
  assumes "listSkills sks i w = (Inr res, w')"
  shows "distinct (map sk_name (slr_skills res))
     \<and> (\<forall>s \<in> set (slr_shadowed res). \<exists>t \<in> set (slr_skills res). sk_name t = sk_name s \<and> summary_order t s \<le> 0)
     \<and> sorted_wrt (\<lambda>a b. summary_order a b \<le> 0) (slr_skills res)
     \<and> sorted_wrt (\<lambda>a b. summary_order a b \<le> 0) (slr_shadowed res)
     \<and> list_all summary_ok (slr_skills res @ slr_shadowed res)"
proof -
  obtain root r w1 where r: "discoverSkills sks root w1 = (Inr r, w')"
    and sel: "select_skills [] (map found_summary (disc_skills r)) = (slr_skills res, slr_shadowed res)"
    by (rule listSkills_parts [OF assms])
  note found = skills_found [OF r]
  note spec = select_skills_spec [OF sel]
  have "list_all summary_ok (slr_skills res @ slr_shadowed res)"
  proof -
    have "set (map found_summary (disc_skills r)) = set (slr_skills res @ slr_shadowed res)"
      using spec by (metis mset_append set_mset_mset)
    moreover have "list_all summary_ok (map found_summary (disc_skills r))" using found by (simp add: list_all_iff)
    ultimately show ?thesis by (simp only: list_all_iff)
  qed
  with found spec select_skills_shadow [OF sel] show ?thesis
    by (auto intro: sorted_subseq)
qed

section \<open>Reading a listed skill\<close>

lemma skill_name_no_colon: "is_skill_name s \<Longrightarrow> cu CHR '':'' \<notin> set s"
proof
  assume s: "is_skill_name s" and c: "cu CHR '':'' \<in> set s"
  have "set (join_with d ps) \<subseteq> insert d (\<Union> (set ` set ps))" for d and ps :: "jstr list"
    by (induction d ps rule: join_with.induct) auto
  from this [of "cu CHR ''-''" "split_on (cu CHR ''-'') s"] c obtain part where
    "part \<in> set (split_on (cu CHR ''-'') s)" "cu CHR '':'' \<in> set part" by (auto simp: cu_def)
  with s have "is_name_unit (cu CHR '':'')" by (auto simp: is_skill_name_def list_all_iff)
  then show False by (simp add: is_name_unit_def is_digit_def cu_def)
qed

lemma source_text_plain: "cu CHR '':'' \<notin> set (source_text k)" "0 \<notin> set (source_text k)" "source_text k \<noteq> []"
  by (cases k; simp add: js_def cu_def)+

lemma prefix_before_sep: "xs @ c # ys = xs' @ c # ys' \<Longrightarrow> c \<notin> set xs \<Longrightarrow> c \<notin> set xs' \<Longrightarrow> xs = xs' \<and> ys = ys'"
  by (induction xs arbitrary: xs') (auto simp: Cons_eq_append_conv append_eq_Cons_conv)

lemma js_colon: "js '':'' = [cu CHR '':'']"
  by (simp add: js_def cu_def)

lemma skillId_inj:
  assumes "summary_ok s" "summary_ok t" "skillId s = skillId t"
  shows "sk_sourceId s = sk_sourceId t \<and> sk_name s = sk_name t"
proof -
  have "sk_sourceId s @ cu CHR '':'' # sk_name s = sk_sourceId t @ cu CHR '':'' # sk_name t"
    using assms unfolding summary_ok_def js_colon by simp
  moreover have "cu CHR '':'' \<notin> set (sk_sourceId s)" "cu CHR '':'' \<notin> set (sk_sourceId t)"
    using assms source_text_plain(1) by (auto simp: summary_ok_def)
  ultimately show ?thesis by (rule prefix_before_sep)
qed

lemma distinct_children: "distinct (map fst (names fs)) \<Longrightarrow> distinct (map fst (children fs p))"
proof -
  assume d: "distinct (map fst (names fs))"
  let ?own = "filter (\<lambda>(q, i). q \<noteq> [] \<and> butlast q = p) (names fs)"
  have "inj_on last (set (map fst ?own))"
    by (rule inj_onI) (auto, metis append_butlast_last_id)
  moreover have "distinct (map fst ?own)" using d by (simp add: distinct_map_filter)
  moreover have "map fst (children fs p) = map last (map fst ?own)" by (simp add: children_def comp_def split_beta)
  ultimately show ?thesis by (simp only: distinct_map)
qed

lemma readdir_distinct:
  assumes "calm w" "distinct (map fst (names (w_fs w)))" "os_readdir root w = (Inr entries, w')"
  shows "distinct (map fst entries)"
proof -
  from assms(1,3) obtain q where "entries = children (w_fs w) q"
    by (auto simp: os_readdir_def observe_calm result_simps split: sum.splits if_splits)
  with distinct_children [OF assms(2)] show ?thesis by simp
qed

lemma distinct_subseq: "subseq xs ys \<Longrightarrow> distinct ys \<Longrightarrow> distinct xs"
  by (induction rule: list_emb.induct) (auto dest: subseq_set)

lemma quiet_batch_distinct:
  assumes "root_seen sks (\<lambda>v. v = w \<and> calm w) d b" "distinct (map fst (names (w_fs w)))"
  shows "distinct (map skill_name (disc_skills b))"
proof (cases "disc_skills b = []")
  case False
  with assms(1) obtain root entries w2 where dir: "calm w" "os_readdir root w = (Inr entries, w2)"
    and sub: "subseq (map skill_name (disc_skills b)) (map fst (js_sort (\<lambda>l r. compareCodePoints (fst l) (fst r)) entries))"
    unfolding root_seen_def by blast
  have "distinct (map fst entries)" using readdir_distinct [OF dir(1) assms(2) dir(2)] .
  then have "distinct (map fst (js_sort (\<lambda>l r. compareCodePoints (fst l) (fst r)) entries))"
    by (simp only: distinct_map_js_sort)
  with sub show ?thesis by (rule distinct_subseq)
qed simp

lemma distinct_ids:
  assumes "list_all2 (root_seen sks (\<lambda>v. v = w \<and> calm w)) roots bs" "distinct (map root_sourceKind roots)"
    "set roots \<subseteq> set (skill_roots sks root)" "distinct (map fst (names (w_fs w)))"
  shows "distinct (map (skillId \<circ> found_summary) (concat (map disc_skills bs)))"
  using assms
proof (induction rule: list_all2_induct)
  case (Cons d ds b bs)
  have own: "summary_ok (found_summary f) \<and> sk_sourceKind (found_summary f) = root_sourceKind d" if "f \<in> set (disc_skills b)" for f
    using that Cons.hyps(1) Cons.prems(2) seen_summary by (fastforce simp: root_seen_def list_all_iff)
  have other: "summary_ok (found_summary f) \<and> sk_sourceKind (found_summary f) \<in> root_sourceKind ` set ds"
    if "f \<in> set (concat (map disc_skills bs))" for f
  proof -
    have "f \<in> set (js_sort compareDiscoveredSkills (concat (map disc_skills bs)))"
      using that by (simp only: set_js_sort)
    from found_in_root [OF Cons.hyps(2) this] Cons.prems(2) show ?thesis using seen_summary by fastforce
  qed
  have kind: "sk_sourceKind s = sk_sourceKind t" if "summary_ok s" "summary_ok t" "sk_sourceId s = sk_sourceId t" for s t
    using that by (cases "sk_sourceKind s"; cases "sk_sourceKind t") (simp_all add: summary_ok_def js_def cu_def)
  with quiet_batch_distinct [OF Cons.hyps(1) Cons.prems(3)] own skillId_inj
  have "distinct (map (skillId \<circ> found_summary) (disc_skills b))" unfolding distinct_map inj_on_def comp_def by metis
  moreover have "skillId (found_summary f) \<noteq> skillId (found_summary g)"
    if "f \<in> set (disc_skills b)" "g \<in> set (concat (map disc_skills bs))" for f g
    using own [OF that(1)] other [OF that(2)] skillId_inj kind Cons.prems(1) by (metis distinct.simps(2) list.simps(9) set_map)
  moreover have "distinct (map (skillId \<circ> found_summary) (concat (map disc_skills bs)))" using Cons.IH Cons.prems by (simp add: comp_def)
  ultimately show ?case unfolding list.map concat.simps map_append distinct_append by fastforce
qed simp

lemma find_distinct: "x \<in> set xs \<Longrightarrow> distinct (map g xs) \<Longrightarrow> find (\<lambda>y. g y = g x) xs = Some x"
  by (induction xs) auto

lemma os_readFileAt_same: "calm w \<Longrightarrow> os_readFileAt p w = (x, w') \<Longrightarrow> w' = w"
  unfolding os_readFileAt_def by (rule observe_same)

lemma summary_ok_id: "summary_ok s \<Longrightarrow> skillId s \<noteq> [] \<and> 0 \<notin> set (skillId s)"
proof -
  assume ok: "summary_ok s"
  have "0 \<notin> set (sk_name s)"
  proof
    assume "0 \<in> set (sk_name s)"
    moreover have "set (join_with d ps) \<subseteq> insert d (\<Union> (set ` set ps))" for d and ps :: "jstr list"
      by (induction d ps rule: join_with.induct) auto
    from this [of "cu CHR ''-''" "split_on (cu CHR ''-'') (sk_name s)"] calculation obtain part where
      "part \<in> set (split_on (cu CHR ''-'') (sk_name s))" "0 \<in> set part" by (auto simp: cu_def)
    ultimately have "is_name_unit 0" using ok by (auto simp: summary_ok_def is_skill_name_def list_all_iff)
    then show False by (simp add: is_name_unit_def is_digit_def cu_def)
  qed
  with ok source_text_plain show ?thesis by (auto simp: summary_ok_def js_colon cu_def)
qed

text \<open>C33. A skill that \<open>listSkills\<close> returns, selected or shadowed, is the one \<open>readSkill\<close> returns for its id: ids
  are unique, the summary is the one listed, it was read from the \<open>SKILL.md\<close> its path names, and the
  content and hash are those of that file, unless the file is unreadable, larger than 256 KiB or not
  text. Nothing else acts between the two calls, and no directory holds a name twice.\<close>

theorem readSkill_agrees:
  assumes calm: "calm w" and unique: "distinct (map fst (names (w_fs w)))"
    and resolver: "\<exists>r. svc_resolveWorkspace (sks_service sks) i w = (r, w)"
    and listed: "listSkills sks i w = (Inr res, w')"
    and s: "s \<in> set (slr_skills res @ slr_shadowed res)"
  shows "\<exists>d directory file m. os_realpath (directory @ [js ''SKILL.md'']) w = (Inr file, w)
     \<and> readSkillMetadata sks file (meta_name m) w = (Inr m, w) \<and> s = skill_summary d directory m
     \<and> readSkill sks i (skillId s) w =
         (case fst (os_readFileAt file w) of
            Inl e \<Rightarrow> Inl (instr_error ''SKILL_INACCESSIBLE'' (Some (sk_filePath s))
                       (js ''skill '' @ skillId s @ js '' is inaccessible''))
          | Inr buffer \<Rightarrow>
              if MAX_INSTRUCTION_BYTES < length buffer
              then Inl (instr_error ''SKILL_TOO_LARGE'' (Some (sk_filePath s))
                     (js ''skill file exceeds '' @ js_nat MAX_INSTRUCTION_BYTES @ js '' bytes''))
              else map_sum id (\<lambda>content. \<lparr>srr_workspaceId = i, srr_skill = s, srr_content = content,
                       srr_sha256 = svc_sha256 (sks_service sks) buffer\<rparr>)
                     (decodeInstructionText buffer (sk_filePath s)), w)"
proof -
  from resolver have req: "requireWorkspace (sks_service sks) i w = (x, v) \<Longrightarrow> v = w" for x v
    by (auto simp: requireWorkspace_def io_eqs split: option.splits if_splits)
  have root: "canonicalWorkspaceRoot r w = (x, v) \<Longrightarrow> v = w" for r x v
    using calm by (auto simp: canonicalWorkspaceRoot_def io_map_error_def io_eqs os_realpath_def dest: observe_same)
  obtain ws root r w1 w2 where parts: "requireWorkspace (sks_service sks) i w = (Inr ws, w1)"
    "canonicalWorkspaceRoot ws w1 = (Inr root, w2)" and r2: "discoverSkills sks root w2 = (Inr r, w')"
    and sel: "select_skills [] (map found_summary (disc_skills r)) = (slr_skills res, slr_shadowed res)"
    by (rule listSkills_parts [OF listed])
  have ws: "requireWorkspace (sks_service sks) i w = (Inr ws, w)" using parts(1) req [OF parts(1)] by simp
  have canon: "canonicalWorkspaceRoot ws w = (Inr root, w)" and r0: "discoverSkills sks root w = (Inr r, w')"
    using parts(2) req [OF parts(1)] root r2 by auto
  have I: "w = w \<and> calm w" using calm by simp
  from quiet.discoverSkills_seen [OF r0 I] obtain bs where w1: "w' = w"
    and bs: "list_all2 (root_seen sks (\<lambda>v. v = w \<and> calm w)) (skill_roots sks root) bs"
    and disc: "disc_skills r = js_sort compareDiscoveredSkills (concat (map disc_skills bs))" by blast
  have ids: "distinct (map (skillId \<circ> found_summary) (disc_skills r))"
  proof -
    have "distinct (map (skillId \<circ> found_summary) (concat (map disc_skills bs)))"
      using distinct_ids [OF bs _ subset_refl unique] by (simp add: skill_roots_def user_root_def)
    then show ?thesis unfolding disc by (simp only: distinct_map_js_sort)
  qed
  obtain f where f: "f \<in> set (disc_skills r)" "found_summary f = s"
  proof -
    have "set (map found_summary (disc_skills r)) = set (slr_skills res @ slr_shadowed res)"
      using select_skills_spec [OF sel] by (metis mset_append set_mset_mset)
    with s have "s \<in> set (map found_summary (disc_skills r))" by simp
    with that show ?thesis by auto
  qed
  obtain d where d: "d \<in> set (skill_roots sks root)" "seen sks d (\<lambda>v. v = w \<and> calm w) f"
    using found_in_root [OF bs] f(1) unfolding disc by blast
  then obtain directory m w3 where there: "os_realpath (directory @ [js ''SKILL.md'']) w = (Inr (found_file f), w)"
    and meta: "readSkillMetadata sks (found_file f) (meta_name m) w = (Inr m, w3)"
    and summary: "found_summary f = skill_summary d directory m"
    unfolding seen_def by blast
  have w3: "w3 = w" using quiet.kept.staysD [OF quiet.readSkillMetadata_keeps meta] calm by blast
  have find: "find (\<lambda>g. skillId (found_summary g) = skillId s) (disc_skills r) = Some f"
    using find_distinct [OF f(1) ids] f(2) by simp
  have "summary_ok s" using seen_summary [OF d(2,1)] f(2) by simp
  from summary_ok_id [OF this] have "readSkill sks i (skillId s) w = read_skill_file sks i (skillId s) f w"
    using ws canon r0 w1 by (simp add: readSkill_def io_bind_def find)
  moreover obtain x where x: "os_readFileAt (found_file f) w = (x, w)"
    using os_readFileAt_same [OF calm] by (metis prod.exhaust)
  ultimately have "readSkill sks i (skillId s) w =
         (case fst (os_readFileAt (found_file f) w) of
            Inl e \<Rightarrow> Inl (instr_error ''SKILL_INACCESSIBLE'' (Some (sk_filePath s))
                       (js ''skill '' @ skillId s @ js '' is inaccessible''))
          | Inr buffer \<Rightarrow>
              if MAX_INSTRUCTION_BYTES < length buffer
              then Inl (instr_error ''SKILL_TOO_LARGE'' (Some (sk_filePath s))
                     (js ''skill file exceeds '' @ js_nat MAX_INSTRUCTION_BYTES @ js '' bytes''))
              else map_sum id (\<lambda>content. \<lparr>srr_workspaceId = i, srr_skill = s, srr_content = content,
                       srr_sha256 = svc_sha256 (sks_service sks) buffer\<rparr>)
                     (decodeInstructionText buffer (sk_filePath s)), w)"
    by (auto simp: read_skill_file_def Let_def io_defs f(2) split: sum.splits)
  with there meta [unfolded w3] summary f(2) show ?thesis by blast
qed

end
