(* ===== verification/InstructionsResolve.thy ===== *)
theory InstructionsResolve
  imports Instructions PathSafety
begin

text \<open>
  What \<open>resolve\<close> returns, in every run and for any providers: the scopes are the chain from the workspace
  root down to the requested one, the documents come scope by scope and provider by provider in the order
  of precedence, and the limits on their size hold.
\<close>

section \<open>The scope chain\<close>

definition scope_chain :: "jstr list \<Rightarrow> jstr list" where
  "scope_chain cs = map (\<lambda>n. if n = 0 then dot else join_with slash (take n cs)) [0..<Suc (length cs)]"

lemma join_plain_not_dot: "cs \<noteq> [] \<Longrightarrow> list_all plain cs \<Longrightarrow> join_with slash cs \<noteq> dot"
proof
  assume cs: "cs \<noteq> []" "list_all plain cs" and e: "join_with slash cs = dot"
  have "split_on slash dot = [dot]" by (rule split_on_no_sep) (simp add: dot_def slash_def js_def cu_def)
  with e split_join_plain [OF cs] have "cs = [dot]" by simp
  with cs(2) show False by (simp add: plain_def)
qed

lemma buildScopeChain_plain:
  assumes "list_all plain cs"
  shows "buildScopeChain (if cs = [] then dot else join_with slash cs) = scope_chain cs"
proof (cases "cs = []")
  case True
  then show ?thesis by (simp add: buildScopeChain_def scope_chain_def)
next
  case False
  note s = split_join_plain [OF False assms] join_plain_not_dot [OF False assms]
  have u: "[0..<Suc (length cs)] = 0 # [1..<Suc (length cs)]" by (simp add: upt_conv_Cons del: upt_Suc)
  have "map (\<lambda>n. if n = 0 then dot else join_with slash (take n cs)) [1..<Suc (length cs)]
      = map (\<lambda>n. join_with slash (take n cs)) [1..<Suc (length cs)]"
    by (rule map_cong) auto
  then show ?thesis using False s by (simp add: buildScopeChain_def scope_chain_def u del: upt_Suc)
qed

section \<open>Providers\<close>

lemma validate_from_ids:
  "validate_from ids ps = Inr u \<Longrightarrow> distinct (map prov_id ps) \<and> set (map prov_id ps) \<inter> set ids = {}"
  by (induction ids ps rule: validate_from.induct) (auto split: if_splits)

lemma strict_if_distinct:
  assumes "sorted_wrt (\<lambda>a b. cmp a b \<le> (0::int)) xs" "distinct (map key xs)" "\<And>a b. cmp a b = 0 \<Longrightarrow> key a = key b"
  shows "sorted_wrt (\<lambda>a b. cmp a b < 0) xs"
  using assms(1,2)
proof (induction xs)
  case (Cons x xs)
  have "cmp x y < 0" if "y \<in> set xs" for y
  proof -
    have "cmp x y \<le> 0" "key x \<noteq> key y" using Cons.prems that by auto
    with assms(3) [of x y] show ?thesis by linarith
  qed
  with Cons show ?case by simp
qed simp

lemma sorted_providers_strict:
  assumes "validateProviders (all_providers svc) = Inr u"
  shows "sorted_wrt (\<lambda>a b. compareProviders a b < 0) (sorted_providers svc)"
proof -
  have d: "distinct (map prov_id (all_providers svc))"
    using validate_from_ids assms by (auto simp: validateProviders_def)
  have "distinct (map prov_id (sorted_providers svc))"
  proof -
    have "mset (map prov_id (sorted_providers svc)) = mset (map prov_id (all_providers svc))"
      by (simp add: sorted_providers_def)
    with d show ?thesis using mset_eq_imp_distinct_iff by blast
  qed
  moreover have "sorted_wrt (\<lambda>a b. compareProviders a b \<le> 0) (sorted_providers svc)"
    unfolding sorted_providers_def by (rule provider_order.sorted_js_sort)
  moreover have "compareProviders a b = 0 \<Longrightarrow> prov_id a = prov_id b" for a b :: "iworld InstructionProvider"
    by (auto simp: compareProviders_def or_else_def compareCodePoints_eq split: if_splits)
  ultimately show ?thesis by (intro strict_if_distinct [where key = prov_id])
qed

section \<open>Documents\<close>

definition document_bytes :: "InstructionDocument list \<Rightarrow> nat" where
  "document_bytes ds = sum_list (map (\<lambda>d. byteLength (doc_content d)) ds)"

lemma document_bytes_simps [simp]:
  "document_bytes [] = 0" "document_bytes (d # ds) = byteLength (doc_content d) + document_bytes ds"
  "document_bytes (as @ bs) = document_bytes as + document_bytes bs"
  by (simp_all add: document_bytes_def)

text \<open>A document made of a contribution, and the documents made of what one provider returned for one scope.\<close>

definition document_of ::
    "(bytes \<Rightarrow> jstr) \<Rightarrow> jstr \<Rightarrow> jstr \<Rightarrow> InstructionProviderContribution \<Rightarrow> InstructionDocument \<Rightarrow> bool" where
  "document_of sha scope provider c d \<longleftrightarrow>
     con_sourceId c = JStr (doc_sourceId d) \<and> con_content c = JStr (doc_content d)
     \<and> con_path c = (case doc_path d of None \<Rightarrow> JNull | Some p \<Rightarrow> JStr p)
     \<and> doc_providerId d = provider \<and> doc_scopePath d = scope \<and> doc_sha256 d = sha (utf8_encode (doc_content d))"

definition document_before :: "InstructionDocument \<Rightarrow> InstructionDocument \<Rightarrow> bool" where
  "document_before a b \<longleftrightarrow>
     (let source = compareCodePoints (doc_sourceId a) (doc_sourceId b);
          path = compareCodePoints (case doc_path a of None \<Rightarrow> [] | Some p \<Rightarrow> p) (case doc_path b of None \<Rightarrow> [] | Some p \<Rightarrow> p) in
      source < 0 \<or> source = 0 \<and> (path < 0 \<or> path = 0 \<and> compareCodePoints (doc_sha256 a) (doc_sha256 b) \<le> 0))"

definition group_ok ::
    "(bytes \<Rightarrow> jstr) \<Rightarrow> jstr \<Rightarrow> jstr \<Rightarrow> InstructionProviderContribution list \<Rightarrow> InstructionDocument list \<Rightarrow> bool" where
  "group_ok sha scope provider contributions ds \<longleftrightarrow>
     (\<exists>ds0. list_all2 (document_of sha scope provider) contributions ds0 \<and> mset ds = mset ds0)
     \<and> sorted_wrt document_before ds
     \<and> (\<forall>d \<in> set ds. doc_sourceId d \<noteq> [] \<and> 0 \<notin> set (doc_sourceId d) \<and> 0 \<notin> set (doc_content d)
          \<and> byteLength (doc_content d) \<le> MAX_INSTRUCTION_BYTES)"

text \<open>The contributions the providers returned in a run: one list for each call, in the order of the calls, each
  call made in the state the previous one left.\<close>

fun providers_answer ::
    "InstructionProviderContext \<Rightarrow> iworld InstructionProvider list \<Rightarrow> iworld \<Rightarrow> InstructionProviderContribution list list
      \<Rightarrow> iworld \<Rightarrow> bool" where
  "providers_answer ctx [] iw calls iw' \<longleftrightarrow> calls = [] \<and> iw' = iw"
| "providers_answer ctx (p # ps) iw calls iw' \<longleftrightarrow>
     (\<exists>contributions rest iw1. calls = contributions # rest \<and> prov_resolveScope p ctx iw = (Inr contributions, iw1)
        \<and> providers_answer ctx ps iw1 rest iw')"

fun scopes_answer ::
    "instr_service \<Rightarrow> iworld InstructionProvider list \<Rightarrow> WorkspaceRecord \<Rightarrow> abspath \<Rightarrow> jstr list \<Rightarrow> iworld
      \<Rightarrow> InstructionProviderContribution list list \<Rightarrow> iworld \<Rightarrow> bool" where
  "scopes_answer svc ps w root [] iw calls iw' \<longleftrightarrow> calls = [] \<and> iw' = iw"
| "scopes_answer svc ps w root (scope # scopes) iw calls iw' \<longleftrightarrow>
     (\<exists>directory here rest iw1 iw2. calls = here @ rest
        \<and> resolveScopeDirectory svc root scope iw = (Inr directory, iw1)
        \<and> providers_answer \<lparr>ctx_workspace = w, ctx_workspaceRoot = root, ctx_scopePath = scope,
             ctx_absoluteScopePath = directory\<rparr> ps iw1 here iw2
        \<and> scopes_answer svc ps w root scopes iw2 rest iw')"

text \<open>Increasing precedence, then increasing id.\<close>

definition provider_before :: "iworld InstructionProvider \<Rightarrow> iworld InstructionProvider \<Rightarrow> bool" where
  "provider_before p q \<longleftrightarrow> num_int (prov_precedence p) < num_int (prov_precedence q)
     \<or> num_int (prov_precedence p) = num_int (prov_precedence q) \<and> compareCodePoints (prov_id p) (prov_id q) < 0"

lemma push_documents_Inr:
  "push_documents s ds (t, docs) = Inr (t', docs') \<Longrightarrow>
   docs' = docs @ ds \<and> t' = t + document_bytes ds \<and> (t \<le> MAX_TOTAL_INSTRUCTION_BYTES \<longrightarrow> t' \<le> MAX_TOTAL_INSTRUCTION_BYTES)"
proof (induction ds arbitrary: t docs)
  case (Cons d ds)
  have "\<not> MAX_TOTAL_INSTRUCTION_BYTES < t + byteLength (doc_content d)"
    and rec: "push_documents s ds (t + byteLength (doc_content d), docs @ [d]) = Inr (t', docs')"
    using Cons.prems by (simp_all add: Let_def split: if_splits)
  with Cons.IH [OF rec] show ?case by auto
qed simp

lemma normalized_document:
  "normalizeContribution sha provider scope c = Inr d \<Longrightarrow> document_of sha scope provider c d \<and> 0 \<notin> set (doc_sourceId d)"
  by (auto simp: normalizeContribution_def document_of_def split: option.splits if_splits elim!: json_text.elims)

lemma ask_provider_group:
  assumes "ask_provider svc ctx p iw = (Inr ds, iw')"
  shows "\<exists>contributions. prov_resolveScope p ctx iw = (Inr contributions, iw')
    \<and> group_ok (svc_sha256 svc) (ctx_scopePath ctx) (prov_id p) contributions ds"
proof -
  let ?norm = "normalizeContribution (svc_sha256 svc) (prov_id p) (ctx_scopePath ctx)"
  obtain contributions docs where run: "prov_resolveScope p ctx iw = (Inr contributions, iw')"
    and docs: "map_res ?norm contributions = Inr docs"
    and ds: "ds = js_sort compareDocumentsWithinProvider docs"
    using assms by (auto simp: ask_provider_def io_map_error_def io_eqs map_sum_Inr)
  from docs have r: "list_all2 (\<lambda>c d. ?norm c = Inr d) contributions docs" by (simp add: map_res_Inr_iff)
  then have "list_all2 (document_of (svc_sha256 svc) (ctx_scopePath ctx) (prov_id p)) contributions docs"
    by (rule list_all2_mono) (simp add: normalized_document)
  moreover have m: "mset ds = mset docs" unfolding ds by simp
  moreover have "\<exists>c. ?norm c = Inr d" if "d \<in> set ds" for d
    using r that mset_eq_setD [OF m] by (auto simp: in_set_conv_nth list_all2_conv_all_nth)
  moreover have "sorted_wrt document_before ds"
    using document_order.sorted_js_sort [of docs] unfolding ds
    by (rule sorted_wrt_mono_rel [rotated])
      (auto simp: document_before_def compareDocumentsWithinProvider_def or_else_def split: if_splits)
  ultimately have "group_ok (svc_sha256 svc) (ctx_scopePath ctx) (prov_id p) contributions ds"
    unfolding group_ok_def using normalizeContribution_Inr normalized_document by blast
  with run show ?thesis by blast
qed

lemma providers_loop_groups:
  assumes "providers_loop svc scopePath ctx ps (t, docs) iw = (Inr (t', docs'), iw')"
  shows "\<exists>calls gs. providers_answer ctx ps iw calls iw' \<and> length calls = length ps
     \<and> list_all2 (\<lambda>(p, c) g. group_ok (svc_sha256 svc) (ctx_scopePath ctx) (prov_id p) c g) (zip ps calls) gs
     \<and> docs' = docs @ concat gs \<and> t' = t + document_bytes (concat gs)
     \<and> (t \<le> MAX_TOTAL_INSTRUCTION_BYTES \<longrightarrow> t' \<le> MAX_TOTAL_INSTRUCTION_BYTES)"
  using assms
proof (induction ps arbitrary: t docs iw)
  case Nil
  then show ?case by (simp add: io_return_eq)
next
  case (Cons p ps)
  from Cons.prems obtain ds t1 docs1 iw1 where ask: "ask_provider svc ctx p iw = (Inr ds, iw1)"
    and push: "push_documents scopePath ds (t, docs) = Inr (t1, docs1)"
    and rest: "providers_loop svc scopePath ctx ps (t1, docs1) iw1 = (Inr (t', docs'), iw')"
    by (auto simp: io_bind_eq io_result_eq)
  from Cons.IH [OF rest] obtain calls gs where gs: "providers_answer ctx ps iw1 calls iw'" "length calls = length ps"
    "list_all2 (\<lambda>(p, c) g. group_ok (svc_sha256 svc) (ctx_scopePath ctx) (prov_id p) c g) (zip ps calls) gs"
    "docs' = docs1 @ concat gs" "t' = t1 + document_bytes (concat gs)"
    "t1 \<le> MAX_TOTAL_INSTRUCTION_BYTES \<longrightarrow> t' \<le> MAX_TOTAL_INSTRUCTION_BYTES" by blast
  from ask_provider_group [OF ask] obtain c where "prov_resolveScope p ctx iw = (Inr c, iw1)"
    "group_ok (svc_sha256 svc) (ctx_scopePath ctx) (prov_id p) c ds" by blast
  with gs push_documents_Inr [OF push] show ?case
    by (intro exI [of _ "c # calls"] exI [of _ "ds # gs"]) auto
qed

text \<open>The keys of the groups: scope by scope, provider by provider.\<close>

lemma scopes_loop_groups:
  assumes "scopes_loop svc w root scopePath scopes (t, docs) iw = (Inr (t', docs'), iw')"
  shows "\<exists>calls gs. scopes_answer svc (sorted_providers svc) w root scopes iw calls iw'
     \<and> map fst gs = List.product scopes (map prov_id (sorted_providers svc))
     \<and> list_all2 (\<lambda>contributions ((scope, provider), ds). group_ok (svc_sha256 svc) scope provider contributions ds) calls gs
     \<and> docs' = docs @ concat (map snd gs)
     \<and> (t = document_bytes docs \<and> t \<le> MAX_TOTAL_INSTRUCTION_BYTES \<longrightarrow> document_bytes docs' \<le> MAX_TOTAL_INSTRUCTION_BYTES)"
  using assms
proof (induction scopes arbitrary: t docs iw)
  case Nil
  then show ?case by (auto simp: io_return_eq)
next
  case (Cons scope scopes)
  let ?ps = "sorted_providers svc" and ?ok = "group_ok (svc_sha256 svc)"
  define ctx where "ctx p = \<lparr>ctx_workspace = w, ctx_workspaceRoot = root, ctx_scopePath = scope,
    ctx_absoluteScopePath = p\<rparr>" for p
  have ctx: "ctx_scopePath (ctx p) = scope" for p by (simp add: ctx_def)
  from Cons.prems obtain p t1 docs1 iw1 iw2 where dir: "resolveScopeDirectory svc root scope iw = (Inr p, iw1)" and
    inner: "providers_loop svc scopePath (ctx p) ?ps (t, docs) iw1 = (Inr (t1, docs1), iw2)"
    and rest: "scopes_loop svc w root scopePath scopes (t1, docs1) iw2 = (Inr (t', docs'), iw')"
    by (auto simp: io_bind_eq ctx_def)
  from providers_loop_groups [OF inner] obtain here hs where hs:
    "providers_answer (ctx p) ?ps iw1 here iw2" "length here = length ?ps"
    "list_all2 (\<lambda>(p, c) g. ?ok scope (prov_id p) c g) (zip ?ps here) hs"
    "docs1 = docs @ concat hs" "t1 = t + document_bytes (concat hs)"
    "t \<le> MAX_TOTAL_INSTRUCTION_BYTES \<longrightarrow> t1 \<le> MAX_TOTAL_INSTRUCTION_BYTES" unfolding ctx by blast
  from Cons.IH [OF rest] obtain calls gs where gs: "scopes_answer svc ?ps w root scopes iw2 calls iw'"
    "map fst gs = List.product scopes (map prov_id ?ps)"
    "list_all2 (\<lambda>contributions ((scope, provider), ds). ?ok scope provider contributions ds) calls gs"
    "docs' = docs1 @ concat (map snd gs)"
    "t1 = document_bytes docs1 \<and> t1 \<le> MAX_TOTAL_INSTRUCTION_BYTES \<longrightarrow> document_bytes docs' \<le> MAX_TOTAL_INSTRUCTION_BYTES"
    by blast
  let ?new = "zip (map (\<lambda>p. (scope, prov_id p)) ?ps) hs"
  have len: "length hs = length ?ps" using hs(2,3) by (simp add: list_all2_lengthD [symmetric])
  have "map fst ?new = map (Pair scope) (map prov_id ?ps)" using len by (simp add: comp_def)
  moreover have "map snd ?new = hs" using len by simp
  moreover have "list_all2 (\<lambda>contributions ((scope, provider), ds). ?ok scope provider contributions ds) here ?new"
    using hs(2,3) len by (auto simp: list_all2_conv_all_nth)
  moreover have "scopes_answer svc ?ps w root (scope # scopes) iw (here @ calls) iw'"
    using dir hs(1) gs(1) by (auto simp: ctx_def)
  ultimately show ?case
    using gs hs by (intro exI [of _ "here @ calls"] exI [of _ "?new @ gs"]) (auto intro: list_all2_appendI)
qed

text \<open>C30. \<open>resolve\<close> returns what the providers returned, in a fixed order and within its limits. The scopes are the
  workspace root and then every directory down to the requested one. The providers are the two built-in ones
  and those of the options, in strictly increasing order of precedence and id. For each scope in turn,
  once its directory has been found, each provider in turn was asked once, and the documents are, call by call,
  exactly those made of the contributions it returned (none lost, none added), sorted by source, path and hash
  and labelled with scope, provider and hash. No document exceeds 256 KiB or contains NUL, together they do not
  exceed 1 MiB. This holds for any providers and whatever happens to the files meanwhile.\<close>

theorem resolve_ordered_and_bounded:
  assumes "newInstructionsService svc0 = Inr svc" "instructions_resolve svc request iw = (Inr res, iw')"
  shows "\<exists>cs ps w root iw1 iw2 calls groups.
       normalizeScopePath (case irq_scopePath request of None \<Rightarrow> dot | Some s \<Rightarrow> s) = Inr (irs_scopePath res)
     \<and> list_all plain cs \<and> length cs \<le> MAX_SCOPE_DEPTH
     \<and> irs_scopePath res = (if cs = [] then dot else join_with slash cs) \<and> irs_scopes res = scope_chain cs
     \<and> mset ps = mset ([fileProvider svc (js ''builtin.claude'') 100 (js ''CLAUDE.md''),
                         fileProvider svc (js ''builtin.agents'') 200 (js ''AGENTS.md'')] @ svc_custom svc)
     \<and> sorted_wrt provider_before ps
     \<and> wait_for (requireWorkspace svc (irq_workspaceId request)) iw = (Inr w, iw1)
     \<and> wait_for (canonicalWorkspaceRoot w) iw1 = (Inr root, iw2)
     \<and> scopes_answer svc ps w root (scope_chain cs) iw2 calls iw'
     \<and> map fst groups = List.product (scope_chain cs) (map prov_id ps)
     \<and> list_all2 (\<lambda>contributions ((scope, provider), ds).
          group_ok (svc_sha256 svc) scope provider contributions ds) calls groups
     \<and> irs_documents res = concat (map snd groups)
     \<and> document_bytes (irs_documents res) \<le> MAX_TOTAL_INSTRUCTION_BYTES
     \<and> irs_workspaceId res = irq_workspaceId request"
proof -
  have valid: "validateProviders (all_providers svc) = Inr ()"
    using assms(1) by (cases "validateProviders (all_providers svc0)") (auto simp: newInstructionsService_def)
  let ?input = "case irq_scopePath request of None \<Rightarrow> dot | Some s \<Rightarrow> s" and ?ps = "sorted_providers svc"
  from assms(2) obtain s w root t iw1 iw2 where s: "normalizeScopePath ?input = Inr s"
    and start: "wait_for (requireWorkspace svc (irq_workspaceId request)) iw = (Inr w, iw1)"
      "wait_for (canonicalWorkspaceRoot w) iw1 = (Inr root, iw2)"
    and loop: "scopes_loop svc w root s (buildScopeChain s) (0, []) iw2 = (Inr (t, irs_documents res), iw')"
    and res: "irs_scopePath res = s" "irs_scopes res = buildScopeChain s" "irs_workspaceId res = irq_workspaceId request"
    by (auto simp: instructions_resolve_def io_bind_eq io_return_eq io_result_eq Let_def)
  obtain cs where cs: "list_all plain cs" "length cs \<le> MAX_SCOPE_DEPTH" "s = (if cs = [] then dot else join_with slash cs)"
  proof -
    from normalizeScopePath_Inr [OF s] consider "s = dot"
      | cs where "cs \<noteq> []" "list_all plain cs" "length cs \<le> MAX_SCOPE_DEPTH" "s = join_with slash cs" by blast
    then show ?thesis by cases (use that [of "[]"] that in \<open>auto\<close>)
  qed
  have chain: "buildScopeChain s = scope_chain cs" using buildScopeChain_plain [OF cs(1)] cs(3) by simp
  from scopes_loop_groups [OF loop] obtain calls gs where
    gs: "scopes_answer svc ?ps w root (scope_chain cs) iw2 calls iw'"
    "map fst gs = List.product (scope_chain cs) (map prov_id ?ps)"
    "list_all2 (\<lambda>contributions ((scope, provider), ds). group_ok (svc_sha256 svc) scope provider contributions ds) calls gs"
    "irs_documents res = concat (map snd gs)" "document_bytes (irs_documents res) \<le> MAX_TOTAL_INSTRUCTION_BYTES"
    unfolding chain by auto
  have ps: "mset ?ps = mset ([fileProvider svc (js ''builtin.claude'') 100 (js ''CLAUDE.md''),
                         fileProvider svc (js ''builtin.agents'') 200 (js ''AGENTS.md'')] @ svc_custom svc)"
    by (simp add: sorted_providers_def all_providers_def)
  have sorted: "sorted_wrt provider_before ?ps"
    using sorted_providers_strict [OF valid]
    by (rule sorted_wrt_mono_rel [rotated]) (auto simp: provider_before_def compareProviders_def or_else_def split: if_splits)
  show ?thesis
    by (rule exI [of _ cs], rule exI [of _ ?ps], rule exI [of _ w], rule exI [of _ root], rule exI [of _ iw1],
        rule exI [of _ iw2], rule exI [of _ calls], rule exI [of _ gs])
      (use s cs chain res start gs ps sorted in \<open>simp only: simp_thms\<close>)
qed

end
