(* ===== verification/InstructionsCache.thy ===== *)
theory InstructionsCache
  imports Instructions
begin

text \<open>
  The file cache of the instructions service: what is in it, and why reusing its decoded text cannot
  return the text of an earlier version of a file.
\<close>

definition entry_ok :: "instr_service \<Rightarrow> CachedInstructionFile \<Rightarrow> bool" where
  "entry_ok svc c \<longleftrightarrow> (\<exists>bs. 0 \<notin> set bs \<and> utf8_decode bs = Some (cached_content c) \<and> svc_sha256 svc bs = cached_sha256 c)"

definition entries_ok :: "instr_service \<Rightarrow> file_cache \<Rightarrow> bool" where
  "entries_ok svc cache \<longleftrightarrow> (\<forall>c \<in> snd ` set cache. entry_ok svc c)"

text \<open>The other requests of the service keep the same invariant.\<close>

definition cache_ok :: "instr_service \<Rightarrow> iworld \<Rightarrow> bool" where
  "cache_ok svc iw \<longleftrightarrow> entries_ok svc (iw_cache iw)
     \<and> (\<forall>f \<in> set (iw_others iw). \<forall>cache. entries_ok svc cache \<longrightarrow> entries_ok svc (f cache))"

interpretation cached: state_order "\<lambda>iw iw'. cache_ok svc iw \<longrightarrow> cache_ok svc iw'" for svc
  by unfold_locales auto

lemma wait_for_keeps: "cached.stays svc (wait_for m)"
  by (rule cached.staysI)
    (auto simp: wait_for_def cache_step_def cache_ok_def split: prod.splits list.splits)

lemma cache_get_keeps: "cached.stays svc (cache_get p)"
  by (rule cached.staysI) (simp add: cache_get_def)

lemma cache_delete_keeps: "cached.stays svc (cache_delete p)"
  by (rule cached.staysI) (auto simp: cache_delete_def cache_ok_def entries_ok_def)

lemma cache_set_keeps: "entry_ok svc c \<Longrightarrow> cached.stays svc (cache_set p c)"
  by (rule cached.staysI) (auto simp: cache_set_def cache_ok_def entries_ok_def)

lemma metadata_keeps: "cached.stays svc (instructionFileMetadata svc root candidate p)"
  unfolding instructionFileMetadata_def by (intro cached.stays_intros wait_for_keeps)

lemma cached_entry_ok: "cache_ok svc iw \<Longrightarrow> cache_get p iw = (Inr (Some c), iw') \<Longrightarrow> entry_ok svc c"
  by (force simp: cache_ok_def entries_ok_def cache_get_def dest: map_of_SomeD)

section \<open>The calls of one run\<close>

text \<open>The world in which a run of observing calls that starts in \<open>w\<close> makes its call number \<open>k\<close>: the first \<open>k\<close>
  disturbances of the schedule have happened.\<close>

definition at_call :: "world \<Rightarrow> nat \<Rightarrow> world" where
  "at_call w k = w\<lparr>w_fs := foldl (\<lambda>fs d. env_change d fs) (w_fs w) (take k (w_sched w)), w_sched := drop k (w_sched w)\<rparr>"

lemma at_call_0 [simp]: "at_call w 0 = w"
  by (simp add: at_call_def)

lemma at_call_add: "at_call (at_call w j) k = at_call w (j + k)"
  by (simp add: at_call_def take_add add.commute)

lemma observe_next: "observe f w = (x, w') \<Longrightarrow> w' = at_call w 1"
  by (auto simp: observe_def syscall_def at_call_def Let_def split: list.splits option.splits sum.splits)

text \<open>The service is at call \<open>k\<close> of a run that started in \<open>w\<close>.\<close>

definition reads_at :: "world \<Rightarrow> nat \<Rightarrow> iworld \<Rightarrow> bool" where
  "reads_at w k iw \<longleftrightarrow> iw_os iw = at_call w k"

lemma wait_observe:
  assumes "wait_for (observe f) iw = (x, iw')" "reads_at w k iw"
  shows "fst (observe f (at_call w k)) = x \<and> reads_at w (Suc k) iw'"
proof -
  obtain y w' where y: "observe f (iw_os iw) = (y, w')" by (meson surj_pair)
  have "iw_os (cache_step v) = iw_os v" for v by (simp add: cache_step_def split: list.splits)
  with assms y observe_next [OF y] show ?thesis
    by (auto simp: wait_for_def reads_at_def at_call_add)
qed

text \<open>What the run sees of a file in the two calls from number \<open>k\<close> on: where the path leads, and that there is
  a regular file of that fingerprint.\<close>

definition seen_file :: "instr_service \<Rightarrow> world \<Rightarrow> nat \<Rightarrow> abspath \<Rightarrow> abspath \<Rightarrow> jstr \<Rightarrow> nat \<Rightarrow> bool" where
  "seen_file svc w k candidate real fingerprint size' \<longleftrightarrow>
     fst (os_realpath candidate (at_call w k)) = Inr real
     \<and> (\<exists>st. fst (os_stat_times (svc_times svc) real (at_call w (Suc k))) = Inr st \<and> isFile (fst_body st)
          \<and> fst_size st = size' \<and> fingerprint = join_with (cu CHR '':'')
              (map js_nat [fst_dev st, fst_ino st, fst_size st, fst_mtimeNs st, fst_ctimeNs st]))"

text \<open>What a stable read returns: in six consecutive calls of the run the path led to a file, its bytes were
  read, and the path led to the same file, of the length of these bytes.\<close>

definition stably_read :: "instr_service \<Rightarrow> abspath \<Rightarrow> abspath \<Rightarrow> world \<Rightarrow> nat \<Rightarrow> CachedInstructionFile \<Rightarrow> bool" where
  "stably_read svc root candidate w k d \<longleftrightarrow> (\<exists>buffer.
     (\<exists>size'. seen_file svc w k candidate (cached_realPath d) (cached_fingerprint d) size')
     \<and> fst (os_readFileAt (cached_realPath d) (at_call w (k + 2))) = Inr buffer
     \<and> seen_file svc w (k + 4) candidate (cached_realPath d) (cached_fingerprint d) (length buffer)
     \<and> isSameOrDescendant root (cached_realPath d) \<and> length buffer \<le> MAX_INSTRUCTION_BYTES
     \<and> cached_sha256 d = svc_sha256 svc buffer
     \<and> (0 \<notin> set buffer \<and> utf8_decode buffer = Some (cached_content d)
        \<or> (\<exists>other. other \<noteq> buffer \<and> svc_sha256 svc other = svc_sha256 svc buffer)))"

lemma metadata_calls:
  assumes "instructionFileMetadata svc root candidate p iw = (Inr m, iw')" "reads_at w k iw"
  shows "seen_file svc w (Suc k) candidate (fm_realPath m) (fm_fingerprint m) (fm_size m)
    \<and> isSameOrDescendant root (fm_realPath m) \<and> reads_at w (k + 3) iw'"
proof -
  from assms(1) obtain l iw1 real iw2 st where
    l: "wait_for (os_lstat candidate) iw = (Inr l, iw1)" and r: "wait_for (os_realpath candidate) iw1 = (Inr real, iw2)"
    and st: "wait_for (os_stat_times (svc_times svc) real) iw2 = (Inr st, iw')"
    and m: "isSameOrDescendant root real" "isFile (fst_body st)"
      "m = \<lparr>fm_realPath = real, fm_fingerprint = file_fingerprint st, fm_size = fst_size st\<rparr>"
    by (auto simp: instructionFileMetadata_def io_bind_eq io_return_eq io_throw_eq split: if_splits)
  note c1 = wait_observe [OF l [unfolded os_lstat_def] assms(2)]
  note c2 = wait_observe [OF r [unfolded os_realpath_def] conjunct2 [OF c1], folded os_realpath_def]
  note c3 = wait_observe [OF st [unfolded os_stat_times_def] conjunct2 [OF c2], folded os_stat_times_def]
  from c2 c3 m show ?thesis
    by (auto simp: seen_file_def file_fingerprint_def numeral_3_eq_3)
qed

lemma decode_Inr: "decodeInstructionText buffer p = Inr s \<longleftrightarrow> 0 \<notin> set buffer \<and> utf8_decode buffer = Some s"
  by (auto simp: decodeInstructionText_def split: option.splits)

text \<open>Reused or decoded, the text belongs to some bytes of that hash.\<close>

lemma content_for_ok:
  assumes "content_for cached filename (svc_sha256 svc buffer) buffer = Inr content" "\<forall>c. cached = Some c \<longrightarrow> entry_ok svc c"
  shows "\<exists>bs. 0 \<notin> set bs \<and> utf8_decode bs = Some content \<and> svc_sha256 svc bs = svc_sha256 svc buffer"
  using assms by (auto simp: content_for_def entry_ok_def decode_Inr split: option.splits if_splits)

lemma bind_result: "io_bind (io_result r) f = (case r of Inl e \<Rightarrow> io_throw e | Inr a \<Rightarrow> f a)"
  by (auto simp: io_defs split: sum.split)

lemma stable_read_keeps:
  assumes "\<forall>c. cached = Some c \<longrightarrow> entry_ok svc c"
  shows "cached.stays svc (stable_read svc root candidate filename cached left metadata)"
proof (induction left arbitrary: metadata)
  case (Suc left)
  have store: "cached.stays svc (io_bind (io_result (content_for cached filename (svc_sha256 svc buffer) buffer)) (\<lambda>content.
      io_bind (cache_set candidate \<lparr>cached_realPath = p, cached_fingerprint = g, cached_content = content,
        cached_sha256 = svc_sha256 svc buffer\<rparr>) (\<lambda>_. io_return (h content))))"
    for buffer p g and h :: "jstr \<Rightarrow> CachedInstructionFile"
  proof (cases "content_for cached filename (svc_sha256 svc buffer) buffer")
    case (Inr content)
    from content_for_ok [OF Inr assms] have "entry_ok svc \<lparr>cached_realPath = p, cached_fingerprint = g,
      cached_content = content, cached_sha256 = svc_sha256 svc buffer\<rparr>" by (simp add: entry_ok_def)
    with Inr show ?thesis by (simp add: bind_result cached.stays_bind cache_set_keeps cached.stays_return)
  qed (simp add: bind_result cached.stays_throw)
  show ?case
    unfolding stable_read.simps Let_def
    by (intro cached.stays_if cached.stays_throw cached.stays_bind cached.stays_map_error wait_for_keeps metadata_keeps
        store Suc)
qed (simp add: cached.stays_throw)

text \<open>Attempt \<open>i\<close> of the loop reads at call \<open>3 + 4 * i\<close> of the run.\<close>

lemma stable_read_Inr:
  assumes "stable_read svc root candidate filename cached left metadata iw = (Inr d, iw')"
    "\<forall>c. cached = Some c \<longrightarrow> entry_ok svc c"
    "seen_file svc w (k + 1) candidate (fm_realPath metadata) (fm_fingerprint metadata) (fm_size metadata)"
    "isSameOrDescendant root (fm_realPath metadata)" "reads_at w (k + 3) iw"
  shows "\<exists>i < left. stably_read svc root candidate w (k + 1 + 4 * i) d"
  using assms(1,3-5)
proof (induction left arbitrary: metadata iw k)
  case (Suc left)
  from Suc.prems(1) obtain buffer iw1 "after" iw2 where
    read: "wait_for (os_readFileAt (fm_realPath metadata)) iw = (Inr buffer, iw1)" "length buffer \<le> MAX_INSTRUCTION_BYTES"
    and "after": "instructionFileMetadata svc root candidate filename iw1 = (Inr after, iw2)"
    and rest: "(if fm_realPath after = fm_realPath metadata \<and> fm_fingerprint after = fm_fingerprint metadata
        \<and> fm_size after = length buffer
      then io_bind (io_result (content_for cached filename (svc_sha256 svc buffer) buffer)) (\<lambda>content.
         io_bind (cache_set candidate \<lparr>cached_realPath = fm_realPath metadata, cached_fingerprint = fm_fingerprint metadata,
                       cached_content = content, cached_sha256 = svc_sha256 svc buffer\<rparr>)
           (\<lambda>_. io_return \<lparr>cached_realPath = fm_realPath metadata, cached_fingerprint = fm_fingerprint metadata,
                       cached_content = content, cached_sha256 = svc_sha256 svc buffer\<rparr>))
      else stable_read svc root candidate filename cached left after) iw2 = (Inr d, iw')"
    by (auto simp: io_map_error_def io_bind_eq [where m = "io_try _ _"] io_try_eq io_throw_eq Let_def split: if_split_asm)
  note bytes = wait_observe [OF read(1) [unfolded os_readFileAt_def] Suc.prems(4), folded os_readFileAt_def]
  have at: "fst (os_readFileAt (fm_realPath metadata) (at_call w (k + 3))) = Inr buffer"
    using bytes by simp
  have next_: "reads_at w (k + 4) iw1" using bytes by (simp add: eval_nat_numeral)
  note again = metadata_calls [OF after next_]
  show ?case
  proof (cases "fm_realPath after = fm_realPath metadata \<and> fm_fingerprint after = fm_fingerprint metadata
        \<and> fm_size after = length buffer")
    case False
    with rest have "stable_read svc root candidate filename cached left after iw2 = (Inr d, iw')" by simp
    from Suc.IH [OF this, of "k + 4"] again obtain i where "i < left" "stably_read svc root candidate w (k + 4 + 1 + 4 * i) d"
      by (auto simp: add.commute add.left_commute)
    then show ?thesis by (intro exI [of _ "Suc i"]) (simp add: algebra_simps)
  next
    case True
    with rest obtain content where c: "content_for cached filename (svc_sha256 svc buffer) buffer = Inr content"
      and d: "d = \<lparr>cached_realPath = fm_realPath metadata, cached_fingerprint = fm_fingerprint metadata,
                   cached_content = content, cached_sha256 = svc_sha256 svc buffer\<rparr>" by (auto simp: io_eqs)
    from content_for_ok [OF c assms(2)] obtain bs where
      "0 \<notin> set bs" "utf8_decode bs = Some content" "svc_sha256 svc bs = svc_sha256 svc buffer" by blast
    then have text': "0 \<notin> set buffer \<and> utf8_decode buffer = Some content
        \<or> (\<exists>other. other \<noteq> buffer \<and> svc_sha256 svc other = svc_sha256 svc buffer)" by (cases "bs = buffer") auto
    have "stably_read svc root candidate w (k + 1) d"
      unfolding stably_read_def
      by (rule exI [of _ buffer]) (use Suc.prems(2,3) at again True read(2) d text' in \<open>auto simp: eval_nat_numeral\<close>)
    then show ?thesis by (intro exI [of _ 0]) simp
  qed
qed (simp add: io_throw_eq)

text \<open>C31. The text of an instruction file that the service returns is the text of bytes it read in this very run:
  whatever the cache holds, and whatever other requests and other processes do meanwhile, in one of at most three
  attempts the path led to a regular file under the workspace root, the next call read the bytes of that file,
  and after that the path led to the same file, with the same device, inode, size and times and with the
  length of these bytes; they are at most 256 KiB, the hash is theirs and the text is their
  decoding, unless two different contents have the same SHA-256. The cache keeps only decodings of what
  was hashed. (The calls of a run are numbered, and the state of the files at each is what the
  schedule of the other processes has made of it by then.)\<close>

theorem instruction_file_fresh:
  assumes "readInstructionFile svc ctx filename iw = (r, iw')" "cache_ok svc iw"
  shows "cache_ok svc iw' \<and> (\<forall>d. r = Inr (Some d) \<longrightarrow>
    (\<exists>i < 3. stably_read svc (ctx_workspaceRoot ctx) (ctx_absoluteScopePath ctx @ [filename]) (iw_os iw) (1 + 4 * i) d))"
proof -
  let ?candidate = "ctx_absoluteScopePath ctx @ [filename]" and ?root = "ctx_workspaceRoot ctx"
  let ?find = "io_try (io_bind (instructionFileMetadata svc ?root ?candidate filename) (\<lambda>m. io_return (Some m)))
     (\<lambda>e. if hasErrnoCode e ENOENT then io_bind (cache_delete ?candidate) (\<lambda>_. io_return None) else io_throw e)"
  let ?read = "\<lambda>m. io_bind (cache_get ?candidate) (\<lambda>cached.
      io_bind (stable_read svc ?root ?candidate filename cached MAX_STABLE_READ_ATTEMPTS m) (\<lambda>f. io_return (Some f)))"
  have find: "cached.stays svc ?find"
    by (intro cached.stays_try cached.stays_bind cached.stays_if cached.stays_return cached.stays_throw metadata_keeps
        cache_delete_keeps)
  show ?thesis
  proof (cases "?find iw")
    case (Pair found iw1)
    have ok: "cache_ok svc iw1" using cached.staysD [OF find Pair] assms(2) by blast
    have split: "readInstructionFile svc ctx filename iw =
        (case found of Inl e \<Rightarrow> (Inl e, iw1) | Inr None \<Rightarrow> (Inr None, iw1) | Inr (Some m) \<Rightarrow> ?read m iw1)"
      using Pair by (simp add: readInstructionFile_def Let_def io_bind_def [where m = ?find] io_return_def
          split: sum.splits option.splits)
    show ?thesis
    proof (cases "\<exists>m. found = Inr (Some m)")
      case False
      then have "iw' = iw1 \<and> (\<forall>d. r \<noteq> Inr (Some d))"
        using assms(1) unfolding split by (auto split: sum.splits option.splits)
      with ok show ?thesis by blast
    next
      case True
      then obtain m where m: "found = Inr (Some m)" by blast
      have "instructionFileMetadata svc ?root ?candidate filename iw = (Inr m, iw1)"
        using Pair m by (auto simp: io_eqs split: if_splits)
      from metadata_calls [OF this, of "iw_os iw" 0]
      have first: "seen_file svc (iw_os iw) (0 + 1) ?candidate (fm_realPath m) (fm_fingerprint m) (fm_size m)"
        "isSameOrDescendant ?root (fm_realPath m)" "reads_at (iw_os iw) (0 + 3) iw1" by (simp_all add: reads_at_def)
      let ?cached = "map_of (iw_cache iw1) ?candidate"
      have entry: "\<forall>c. ?cached = Some c \<longrightarrow> entry_ok svc c"
        using cached_entry_ok [OF ok] by (simp add: cache_get_def)
      have run: "io_bind (stable_read svc ?root ?candidate filename ?cached MAX_STABLE_READ_ATTEMPTS m)
          (\<lambda>f. io_return (Some f)) iw1 = (r, iw')"
        using assms(1) unfolding split m by (simp add: cache_get_def io_bind_def [where m = "cache_get _"])
      have keep: "cached.stays svc (io_bind (stable_read svc ?root ?candidate filename ?cached MAX_STABLE_READ_ATTEMPTS m)
          (\<lambda>f. io_return (Some f)))" by (intro cached.stays_bind cached.stays_return stable_read_keeps [OF entry])
      have "\<exists>i < 3. stably_read svc ?root ?candidate (iw_os iw) (1 + 4 * i) d" if "r = Inr (Some d)" for d
      proof -
        from run that have "stable_read svc ?root ?candidate filename ?cached MAX_STABLE_READ_ATTEMPTS m iw1 = (Inr d, iw')"
          by (auto simp: io_eqs)
        from stable_read_Inr [OF this entry first] show ?thesis by (simp add: MAX_STABLE_READ_ATTEMPTS_def)
      qed
      with cached.staysD [OF keep run] ok show ?thesis by blast
    qed
  qed
qed

end
