(* ===== verification/InstructionsSamples.thy ===== *)
theory InstructionsSamples
  imports SkillsList InstructionsResolve InstructionsCache ReadCalm
begin

text \<open>
  A workspace \<open>/w\<close> with one skill, a service over it and a stand-in for the YAML parser; the witnesses of
  the properties of the instructions service run on it.
\<close>

definition skill_dir :: abspath where
  "skill_dir = [js ''w'', js ''.agents'', js ''skills'', js ''a'']"

definition skill_bytes :: bytes where
  "skill_bytes = [45, 45, 45, 10, 10, 45, 45, 45, 10]"

definition skill_fs :: fsys where
  "skill_fs = \<lparr>names = [([js ''w''], 1), ([js ''w'', js ''.agents''], 2), ([js ''w'', js ''.agents'', js ''skills''], 3),
      (skill_dir, 4), (skill_dir @ [js ''SKILL.md''], 5)],
     inodes = [(1, \<lparr>ino_body = Directory, ino_mode = 0x1ED\<rparr>), (2, \<lparr>ino_body = Directory, ino_mode = 0x1ED\<rparr>),
      (3, \<lparr>ino_body = Directory, ino_mode = 0x1ED\<rparr>), (4, \<lparr>ino_body = Directory, ino_mode = 0x1ED\<rparr>),
      (5, \<lparr>ino_body = Regular skill_bytes, ino_mode = 0x1A4\<rparr>)],
     next_inode = 6\<rparr>"

definition skill_world :: world where
  "skill_world = \<lparr>w_fs = skill_fs, w_sched = [], w_log = [], w_pid = 7, w_uuid = (\<lambda>n. js ''u'' @ js_nat n),
     w_uuids_used = 0, w_umask = 0x12\<rparr>"

definition sample_provider :: "iworld InstructionProvider" where
  "sample_provider = \<lparr>prov_id = js ''p'', prov_precedence = JInt 150,
     prov_resolveScope = (\<lambda>ctx. io_return [\<lparr>con_sourceId = JStr (js ''s''), con_content = JStr (js ''hi''), con_path = JNull\<rparr>])\<rparr>"

definition sample_instructions :: instr_service where
  "sample_instructions = \<lparr>svc_resolveWorkspace = sample_resolver, svc_custom = [sample_provider], svc_homeDirectory = [js ''h''],
     svc_sha256 = sample_sha, svc_times = (\<lambda>fs i. (1, 1, 1))\<rparr>"

definition sample_skills :: skill_service where
  "sample_skills = \<lparr>sks_service = sample_instructions,
     sks_parseDocument = (\<lambda>t. (None, Inr (JObj [(js ''name'', JStr (js ''a'')), (js ''description'', JStr (js ''d''))])))\<rparr>"

section \<open>The file system\<close>

lemma skill_calm: "calm skill_world"
  by (simp add: calm_def skill_world_def)

lemma skill_comps: "js ''w'' \<noteq> js ''h''" "js ''.agents'' \<noteq> js ''.benchhand''" "plain (js ''.agents'')" "plain (js ''skills'')"
  "plain (js ''a'')" "plain (js ''SKILL.md'')" "plain (js ''h'')" "plain (js ''CLAUDE.md'')" "plain (js ''AGENTS.md'')"
  by code_simp+

lemma skill_dirs: "is_dir_path skill_fs [js ''w'', js ''.agents'', js ''skills'']" "is_dir_path skill_fs skill_dir"
  "is_dir_path skill_fs [js ''w'']" "is_dir_path skill_fs []"
proof -
  show 0: "is_dir_path skill_fs []" by (rule is_dir_path_Nil)
  have b: "body_at skill_fs [js ''w''] = Some Directory" "body_at skill_fs [js ''w'', js ''.agents''] = Some Directory"
    "body_at skill_fs [js ''w'', js ''.agents'', js ''skills''] = Some Directory" "body_at skill_fs skill_dir = Some Directory"
    by (simp_all add: body_at_def lookup_def skill_fs_def skill_dir_def)
  show 1: "is_dir_path skill_fs [js ''w'']" using is_dir_path_snoc [of skill_fs "[]"] 0 b sample_plain by simp
  have 2: "is_dir_path skill_fs [js ''w'', js ''.agents'']"
    using is_dir_path_snoc [of skill_fs "[js ''w'']"] 1 b skill_comps by simp
  show 3: "is_dir_path skill_fs [js ''w'', js ''.agents'', js ''skills'']"
    using is_dir_path_snoc [of skill_fs "[js ''w'', js ''.agents'']"] 2 b skill_comps by simp
  show "is_dir_path skill_fs skill_dir"
    using is_dir_path_snoc [of skill_fs "[js ''w'', js ''.agents'', js ''skills'']"] 3 b skill_comps
    by (simp add: skill_dir_def)
qed

lemma skill_file: "lookup skill_fs (skill_dir @ [js ''SKILL.md'']) = Some \<lparr>ino_body = Regular skill_bytes, ino_mode = 0x1A4\<rparr>"
  by (simp add: lookup_def skill_fs_def skill_dir_def js_def)

lemma skill_fs_world: "w_fs skill_world = skill_fs"
  by (simp add: skill_world_def)

lemma skill_realpaths:
  "os_realpath [js ''w''] skill_world = (Inr [js ''w''], skill_world)"
  "os_realpath [js ''w'', js ''.agents'', js ''skills''] skill_world = (Inr [js ''w'', js ''.agents'', js ''skills''], skill_world)"
  "os_realpath skill_dir skill_world = (Inr skill_dir, skill_world)"
  "os_realpath (skill_dir @ [js ''SKILL.md'']) skill_world = (Inr (skill_dir @ [js ''SKILL.md'']), skill_world)"
  using realpath_dir [OF skill_calm] realpath_file [OF skill_calm, of skill_dir "js ''SKILL.md''"] skill_dirs skill_file skill_comps
  by (simp_all add: skill_fs_world isFile_def)

lemma skill_missing: "os_realpath (js ''h'' # js d # cs) skill_world = (Inl (sys_error ENOENT), skill_world)"
proof -
  have "body_at skill_fs [js ''h''] = None" by (simp add: body_at_def lookup_def skill_fs_def skill_dir_def js_def)
  moreover have "js ''h'' \<noteq> dot" "js ''h'' \<noteq> dotdot" using skill_comps by (simp_all add: plain_def)
  ultimately show ?thesis
    using skill_calm by (simp add: os_realpath_def observe_calm existing_def locate_def skill_fs_world)
qed

lemma skill_readdir:
  "os_readdir [js ''w'', js ''.agents'', js ''skills''] skill_world = (Inr [(js ''a'', Directory)], skill_world)"
proof -
  have "children skill_fs [js ''w'', js ''.agents'', js ''skills''] = [(js ''a'', Directory)]"
    by (simp add: children_def skill_fs_def skill_dir_def js_def)
  then show ?thesis
    using existing_dir [OF skill_dirs(1), of True] skill_calm by (simp add: os_readdir_def observe_calm skill_fs_world)
qed

lemma skill_text: "utf8_decode skill_bytes = Some [45, 45, 45, 10, 10, 45, 45, 45, 10]"
proof -
  have bytes: "skill_bytes = utf8_encode [45, 45, 45, 10, 10, 45, 45, 45, 10]"
    by (subst utf8_encode_ascii) (simp_all add: skill_bytes_def)
  show ?thesis unfolding bytes by (rule utf8_decode_ascii) simp
qed

definition sample_meta :: ParsedSkillMetadata where
  "sample_meta = \<lparr>meta_name = js ''a'', meta_description = js ''d'', meta_metadataSha256 = sample_sha [],
     meta_license = None, meta_compatibility = None, meta_metadata = [], meta_allowedTools = None\<rparr>"

lemma skill_frontmatter: "extractSkillFrontmatter [45, 45, 45, 10, 10, 45, 45, 45, 10] p = Inr []"
  by (simp add: extractSkillFrontmatter_def js_def startsWith_def indexOf_def occurs_at_def slice_def Let_def)

lemma sample_validated:
  "validateSkillMetadata sample_sha (JObj [(js ''name'', JStr (js ''a'')), (js ''description'', JStr (js ''d''))])
     (js ''a'') [] p = Inr sample_meta"
proof -
  have n: "is_skill_name (js ''a'')" by code_simp
  have k: "js ''name'' \<noteq> js ''description''" "js ''name'' \<noteq> js ''license''" "js ''name'' \<noteq> js ''compatibility''"
    "js ''name'' \<noteq> js ''allowed-tools''" "js ''name'' \<noteq> js ''metadata''" "js ''description'' \<noteq> js ''license''"
    "js ''description'' \<noteq> js ''compatibility''" "js ''description'' \<noteq> js ''allowed-tools''"
    "js ''description'' \<noteq> js ''metadata''" by (simp_all add: js_def)
  have l: "length (js ''a'') = 1" "length (js ''d'') = 1" "utf8_encode [] = []"
    by (simp_all add: js_def utf8_encode_def utf8_of_points_def)
  show ?thesis
    using n k k [symmetric]
    by (simp add: validateSkillMetadata_def Let_def readSkillString_def optionalSkillString_def readSkillMetadataMap_def
        l sample_meta_def)
qed

lemma skill_metadata: "readSkillMetadata sample_skills (skill_dir @ [js ''SKILL.md'']) (js ''a'') skill_world = (Inr sample_meta, skill_world)"
proof -
  from open_file [OF skill_calm _ skill_comps(6), of skill_dir] skill_dirs(2) skill_file obtain h where
    h: "os_open_read (skill_dir @ [js ''SKILL.md'']) skill_world = (Inr h, skill_world)"
      "map_of (inodes (w_fs skill_world)) h = Some \<lparr>ino_body = Regular skill_bytes, ino_mode = 0x1A4\<rparr>"
    by (auto simp: skill_fs_world isFile_def)
  have "os_read h (MAX_SKILL_FRONTMATTER_BYTES + 1) 0 skill_world = (Inr skill_bytes, skill_world)"
    using read_calm [OF skill_calm h(2), of skill_bytes] by (simp add: MAX_SKILL_FRONTMATTER_BYTES_def skill_bytes_def)
  moreover have "skill_metadata_of sample_skills (js ''a'') p skill_bytes = Inr sample_meta" for p
  proof -
    have "0 \<notin> set skill_bytes" by (simp add: skill_bytes_def)
    then show ?thesis
      using sample_validated
      by (simp add: skill_metadata_of_def decodeInstructionText_def skill_text skill_frontmatter sample_skills_def
          sample_instructions_def)
  qed
  ultimately show ?thesis
    using h(1) close_calm [OF skill_calm] by (simp add: readSkillMetadata_def io_defs)
qed

lemma plain_inside: "list_all plain root \<Longrightarrow> list_all plain cs \<Longrightarrow> isSameOrDescendant root (root @ cs)"
  using isSameOrDescendant_iff [of root "root @ cs"] by simp

definition sample_found :: DiscoveredSkill where
  "sample_found = \<lparr>found_precedence = 0,
     found_summary = skill_summary (hd (skill_roots sample_skills [js ''w''])) skill_dir sample_meta,
     found_file = skill_dir @ [js ''SKILL.md'']\<rparr>"

lemma skill_project:
  "discoverSkillRoot sample_skills (hd (skill_roots sample_skills [js ''w''])) skill_world
     = (Inr \<lparr>disc_skills = [sample_found], disc_invalid = []\<rparr>, skill_world)"
proof -
  let ?root = "[js ''w'', js ''.agents'', js ''skills'']" and ?d = "hd (skill_roots sample_skills [js ''w''])"
  have inside: "isSameOrDescendant [js ''w''] ?root" "isSameOrDescendant ?root skill_dir"
    "isSameOrDescendant ?root (skill_dir @ [js ''SKILL.md''])"
    using plain_inside [of "[js ''w'']" "[js ''.agents'', js ''skills'']"] plain_inside [of ?root "[js ''a'']"]
      plain_inside [of ?root "[js ''a'', js ''SKILL.md'']"] skill_comps sample_plain
    by (simp_all add: skill_dir_def)
  have d: "root_candidate ?d = ?root" "root_boundary ?d = Some [js ''w'']" "root_precedence ?d = 0"
    by (simp_all add: skill_roots_def)
  have "discover_entry sample_skills ?d ?root (js ''a'', Directory) skill_world = (Inr (Found sample_found), skill_world)"
    using skill_realpaths inside
    by (simp add: discover_entry_def isDirectory_def io_defs Let_def skill_dir_def [symmetric] read_entry_def skill_metadata
        sample_found_def d)
  then show ?thesis
    using skill_realpaths(2) skill_readdir inside
    by (simp add: discoverSkillRoot_def d io_defs no_skills_def add_entry_def)
qed

lemma skill_user_roots: "discoverSkillRoot sample_skills (user_root sample_skills i k p d) skill_world = (Inr no_skills, skill_world)"
  using skill_missing [of d]
  by (simp add: discoverSkillRoot_def user_root_def sample_skills_def sample_instructions_def io_defs sys_error_def)

lemma skill_listing:
  "listSkills sample_skills (js ''ws'') skill_world
     = (Inr \<lparr>slr_workspaceId = js ''ws'', slr_skills = [found_summary sample_found], slr_shadowed = [], slr_invalid = []\<rparr>,
        skill_world)"
proof -
  have req: "requireWorkspace (sks_service sample_skills) (js ''ws'') skill_world = (Inr sample_record, skill_world)"
    by (simp add: requireWorkspace_def sample_skills_def sample_instructions_def sample_resolver_def io_defs sample_record_def)
  have "components (canonicalPath sample_record) = [js ''w'']" by code_simp
  then have root: "canonicalWorkspaceRoot sample_record skill_world = (Inr [js ''w''], skill_world)"
    using skill_realpaths(1) by (simp add: canonicalWorkspaceRoot_def io_defs)
  have roots: "skill_roots sample_skills [js ''w''] = hd (skill_roots sample_skills [js ''w'']) #
      [user_root sample_skills ''benchhand-user'' BenchhandUser 100 ''.benchhand'',
       user_root sample_skills ''agents-user'' AgentsUser 200 ''.agents'',
       user_root sample_skills ''codex-user'' CodexUser 300 ''.codex'',
       user_root sample_skills ''devspace-compat'' DevspaceCompat 400 ''.devspace'']"
    by (simp add: skill_roots_def)
  have "discoverSkills sample_skills [js ''w''] skill_world = (Inr \<lparr>disc_skills = [sample_found], disc_invalid = []\<rparr>, skill_world)"
    unfolding discoverSkills_def
    by (subst roots) (simp add: io_defs skill_project skill_user_roots no_skills_def)
  with req root show ?thesis by (simp add: listSkills_def io_defs)
qed

theorem skills_selected_witness:
  "\<exists>res. listSkills sample_skills (js ''ws'') skill_world = (Inr res, skill_world)
     \<and> map sk_name (slr_skills res) = [js ''a''] \<and> distinct (map sk_name (slr_skills res)) \<and> list_all summary_ok (slr_skills res)"
  using skill_listing skills_selected [OF skill_listing]
  by (simp add: sample_found_def skill_summary_def sample_meta_def)

lemma skill_unique: "distinct (map fst (names skill_fs))"
  by (simp add: skill_fs_def skill_dir_def js_def)

theorem readSkill_agrees_witness:
  "\<exists>d directory file m. os_realpath (directory @ [js ''SKILL.md'']) skill_world = (Inr file, skill_world)
     \<and> readSkillMetadata sample_skills file (meta_name m) skill_world = (Inr m, skill_world)
     \<and> found_summary sample_found = skill_summary d directory m
     \<and> skillId (found_summary sample_found) = js ''project:a''
     \<and> (\<forall>r w'. readSkill sample_skills (js ''ws'') (js ''project:a'') skill_world = (Inr r, w') \<longrightarrow>
          srr_skill r = found_summary sample_found \<and> w' = skill_world)"
proof -
  have unique: "distinct (map fst (names (w_fs skill_world)))" using skill_unique by (simp add: skill_fs_world)
  have resolver: "\<exists>r. svc_resolveWorkspace (sks_service sample_skills) (js ''ws'') skill_world = (r, skill_world)"
    by (simp add: sample_skills_def sample_instructions_def sample_resolver_def io_return_def)
  have here: "found_summary sample_found \<in> set (slr_skills \<lparr>slr_workspaceId = js ''ws'', slr_skills = [found_summary sample_found],
      slr_shadowed = [], slr_invalid = []\<rparr> @ slr_shadowed \<lparr>slr_workspaceId = js ''ws'',
      slr_skills = [found_summary sample_found], slr_shadowed = [], slr_invalid = []\<rparr>)" by simp
  have i: "skillId (found_summary sample_found) = js ''project:a''"
    by (simp add: sample_found_def skill_summary_def skill_roots_def sample_meta_def js_def)
  from readSkill_agrees [OF skill_calm unique resolver skill_listing here] obtain d directory p m where
    "os_realpath (directory @ [js ''SKILL.md'']) skill_world = (Inr p, skill_world)"
    "readSkillMetadata sample_skills p (meta_name m) skill_world = (Inr m, skill_world)"
    "found_summary sample_found = skill_summary d directory m"
    and r: "readSkill sample_skills (js ''ws'') (js ''project:a'') skill_world =
         (case fst (os_readFileAt p skill_world) of
            Inl e \<Rightarrow> Inl (instr_error ''SKILL_INACCESSIBLE'' (Some (sk_filePath (found_summary sample_found)))
                       (js ''skill '' @ js ''project:a'' @ js '' is inaccessible''))
          | Inr buffer \<Rightarrow>
              if MAX_INSTRUCTION_BYTES < length buffer
              then Inl (instr_error ''SKILL_TOO_LARGE'' (Some (sk_filePath (found_summary sample_found)))
                     (js ''skill file exceeds '' @ js_nat MAX_INSTRUCTION_BYTES @ js '' bytes''))
              else map_sum id (\<lambda>content. \<lparr>srr_workspaceId = js ''ws'', srr_skill = found_summary sample_found,
                       srr_content = content, srr_sha256 = svc_sha256 (sks_service sample_skills) buffer\<rparr>)
                     (decodeInstructionText buffer (sk_filePath (found_summary sample_found))), skill_world)"
    unfolding i by blast
  moreover have "srr_skill r = found_summary sample_found \<and> w' = skill_world"
    if "readSkill sample_skills (js ''ws'') (js ''project:a'') skill_world = (Inr r, w')" for r w'
    using that unfolding r by (auto simp: map_sum_Inr split: sum.splits if_splits)
  ultimately show ?thesis using i by blast
qed

section \<open>Resolving instructions\<close>

definition sample_iworld :: iworld where
  "sample_iworld = \<lparr>iw_os = skill_world, iw_cache = [], iw_others = []\<rparr>"

definition sample_document :: InstructionDocument where
  "sample_document = \<lparr>doc_providerId = js ''p'', doc_scopePath = dot, doc_sourceId = js ''s'', doc_path = None,
     doc_content = js ''hi'', doc_sha256 = sample_sha (utf8_encode (js ''hi''))\<rparr>"

lemma sample_wait: "m skill_world = (x, skill_world) \<Longrightarrow> wait_for m sample_iworld = (x, sample_iworld)"
  by (simp add: wait_for_def sample_iworld_def cache_step_def)

lemma sample_providers: "newInstructionsService sample_instructions = Inr sample_instructions"
  "sorted_providers sample_instructions =
     [fileProvider sample_instructions (js ''builtin.claude'') 100 (js ''CLAUDE.md''), sample_provider,
      fileProvider sample_instructions (js ''builtin.agents'') 200 (js ''AGENTS.md'')]"
proof -
  show "newInstructionsService sample_instructions = Inr sample_instructions"
    by (simp add: newInstructionsService_def validateProviders_def all_providers_def sample_instructions_def fileProvider_def
        sample_provider_def js_def MAX_SAFE_INTEGER_def)
  show "sorted_providers sample_instructions =
     [fileProvider sample_instructions (js ''builtin.claude'') 100 (js ''CLAUDE.md''), sample_provider,
      fileProvider sample_instructions (js ''builtin.agents'') 200 (js ''AGENTS.md'')]"
    by (simp add: sorted_providers_def all_providers_def compareProviders_def or_else_def fileProvider_def sample_provider_def
        sample_instructions_def)
qed

lemma sample_no_document:
  assumes "c = js ''CLAUDE.md'' \<or> c = js ''AGENTS.md''"
  shows "prov_resolveScope (fileProvider sample_instructions i p c) \<lparr>ctx_workspace = w, ctx_workspaceRoot = [js ''w''],
     ctx_scopePath = dot, ctx_absoluteScopePath = [js ''w'']\<rparr> sample_iworld = (Inr [], sample_iworld)"
proof -
  have "lookup skill_fs ([js ''w''] @ [c]) = None"
    using assms by (auto simp: lookup_def skill_fs_def skill_dir_def js_def)
  then have "os_lstat ([js ''w''] @ [c]) skill_world = (Inl (sys_error ENOENT), skill_world)"
    using lstat_missing [OF skill_calm, of "[js ''w'']" c] skill_dirs skill_comps assms by (auto simp: skill_fs_world)
  from sample_wait [where m = "os_lstat ([js ''w''] @ [c])", OF this] show ?thesis
    by (simp add: fileProvider_def readInstructionFile_def instructionFileMetadata_def Let_def io_defs sys_error_def
        cache_delete_def sample_iworld_def)
qed

definition sample_resolve_request :: InstructionsResolveRequest where
  "sample_resolve_request = \<lparr>irq_workspaceId = js ''ws'', irq_scopePath = None\<rparr>"

lemma sample_scopes_loop:
  "scopes_loop sample_instructions sample_record [js ''w''] dot [dot] (0, []) sample_iworld
     = (Inr (2, [sample_document]), sample_iworld)"
proof -
  let ?ctx = "\<lparr>ctx_workspace = sample_record, ctx_workspaceRoot = [js ''w''], ctx_scopePath = dot,
    ctx_absoluteScopePath = [js ''w'']\<rparr>"
  have inside: "isSameOrDescendant [js ''w''] [js ''w'']" using plain_inside [of "[js ''w'']" "[]"] sample_plain by simp
  have stat: "os_stat_times tm [js ''w''] skill_world
      = (Inr \<lparr>fst_body = Directory, fst_dev = fst (tm skill_fs 1), fst_ino = 1, fst_size = 0,
             fst_mtimeNs = fst (snd (tm skill_fs 1)), fst_ctimeNs = snd (snd (tm skill_fs 1))\<rparr>, skill_world)" for tm
    using existing_dir [OF skill_dirs(3), of True] skill_calm
    by (simp add: os_stat_times_def observe_calm skill_fs_world skill_fs_def split_beta Let_def)
  have "resolveScopeDirectory sample_instructions [js ''w''] dot sample_iworld = (Inr [js ''w''], sample_iworld)"
    using sample_wait [where m = "os_realpath [js ''w'']", OF skill_realpaths(1)]
      sample_wait [where m = "os_stat_times (svc_times sample_instructions) [js ''w'']", OF stat] inside
    by (simp add: resolveScopeDirectory_def io_defs Let_def isDirectory_def)
  moreover have "ask_provider sample_instructions ?ctx sample_provider sample_iworld = (Inr [sample_document], sample_iworld)"
    by (simp add: ask_provider_def sample_provider_def io_defs normalizeContribution_def sample_document_def js_def
        byteLength_def utf8_encode_ascii MAX_INSTRUCTION_BYTES_def sample_instructions_def)
  moreover have "ask_provider sample_instructions ?ctx (fileProvider sample_instructions i p c) sample_iworld = (Inr [], sample_iworld)"
    if "c = js ''CLAUDE.md'' \<or> c = js ''AGENTS.md''" for i p c
    using sample_no_document [OF that] by (simp add: ask_provider_def io_defs)
  moreover have "byteLength (doc_content sample_document) = 2"
    by (simp add: sample_document_def byteLength_def js_def utf8_encode_ascii)
  ultimately show ?thesis
    by (simp add: sample_providers(2) io_defs MAX_TOTAL_INSTRUCTION_BYTES_def)
qed

lemma sample_resolved:
  "instructions_resolve sample_instructions sample_resolve_request sample_iworld
     = (Inr \<lparr>irs_workspaceId = js ''ws'', irs_scopePath = dot, irs_scopes = [dot], irs_documents = [sample_document]\<rparr>, sample_iworld)"
proof -
  have req: "requireWorkspace sample_instructions (js ''ws'') skill_world = (Inr sample_record, skill_world)"
    by (simp add: requireWorkspace_def sample_instructions_def sample_resolver_def io_defs sample_record_def)
  have "components (canonicalPath sample_record) = [js ''w'']" by code_simp
  then have root: "canonicalWorkspaceRoot sample_record skill_world = (Inr [js ''w''], skill_world)"
    using skill_realpaths(1) by (simp add: canonicalWorkspaceRoot_def io_defs)
  have norm: "normalizeScopePath dot = Inr dot" by code_simp
  show ?thesis
    using sample_wait [where m = "requireWorkspace sample_instructions (js ''ws'')", OF req]
      sample_wait [where m = "canonicalWorkspaceRoot sample_record", OF root] sample_scopes_loop
    by (simp add: instructions_resolve_def io_defs sample_resolve_request_def norm buildScopeChain_def)
qed

theorem resolve_ordered_and_bounded_witness:
  "\<exists>calls groups ps. mset ps = mset ([fileProvider sample_instructions (js ''builtin.claude'') 100 (js ''CLAUDE.md''),
         fileProvider sample_instructions (js ''builtin.agents'') 200 (js ''AGENTS.md''), sample_provider])
     \<and> sorted_wrt provider_before ps \<and> map fst groups = map (\<lambda>p. (dot, prov_id p)) ps
     \<and> list_all2 (\<lambda>contributions ((scope, provider), ds). group_ok sample_sha scope provider contributions ds) calls groups
     \<and> concat (map snd groups) = [sample_document]
     \<and> document_bytes [sample_document] \<le> MAX_TOTAL_INSTRUCTION_BYTES"
proof -
  have custom: "svc_custom sample_instructions = [sample_provider]" "svc_sha256 sample_instructions = sample_sha"
    by (simp_all add: sample_instructions_def)
  from resolve_ordered_and_bounded [OF sample_providers(1) sample_resolved] obtain cs ps calls groups where
    "[dot] = scope_chain cs"
    and r: "mset ps = mset ([fileProvider sample_instructions (js ''builtin.claude'') 100 (js ''CLAUDE.md''),
         fileProvider sample_instructions (js ''builtin.agents'') 200 (js ''AGENTS.md'')] @ [sample_provider])"
      "sorted_wrt provider_before ps"
      "map fst groups = List.product (scope_chain cs) (map prov_id ps)"
      "list_all2 (\<lambda>contributions ((scope, provider), ds). group_ok sample_sha scope provider contributions ds) calls groups"
      "[sample_document] = concat (map snd groups)" "document_bytes [sample_document] \<le> MAX_TOTAL_INSTRUCTION_BYTES"
    unfolding InstructionsResolveResult.select_convs custom by blast
  have "map fst groups = map (\<lambda>p. (dot, prov_id p)) ps" using r(3) unfolding \<open>[dot] = scope_chain cs\<close> [symmetric]
    by (simp add: comp_def)
  with r show ?thesis by (intro exI [of _ calls] exI [of _ groups] exI [of _ ps] conjI) simp_all
qed

section \<open>Reading a file through the cache\<close>

definition sample_context :: InstructionProviderContext where
  "sample_context = \<lparr>ctx_workspace = sample_record, ctx_workspaceRoot = [js ''w''], ctx_scopePath = dot,
     ctx_absoluteScopePath = skill_dir\<rparr>"

lemma sample_cache_ok: "cache_ok svc sample_iworld"
  by (simp add: cache_ok_def entries_ok_def sample_iworld_def)

lemma sample_read_file:
  "\<exists>d iw. readInstructionFile sample_instructions sample_context (js ''SKILL.md'') sample_iworld = (Inr (Some d), iw)
     \<and> cached_content d = [45, 45, 45, 10, 10, 45, 45, 45, 10]"
proof -
  let ?p = "skill_dir @ [js ''SKILL.md'']" and ?n = "\<lparr>ino_body = Regular skill_bytes, ino_mode = 0x1A4\<rparr>"
  have there: "existing skill_fs follow ?p = Inr (?p, Regular skill_bytes)" for follow
    using existing_child [OF skill_dirs(2) skill_comps(6) skill_file] by (simp add: isFile_def)
  have ls: "os_lstat ?p skill_world = (Inr \<lparr>st_body = Regular skill_bytes, st_mode = 0x1A4\<rparr>, skill_world)"
    using lstat_file [OF skill_calm _ skill_comps(6), of skill_dir] skill_dirs(2) skill_file
    by (simp add: skill_fs_world isFile_def)
  have st: "os_stat_times (\<lambda>fs i. (1, 1, 1)) ?p skill_world = (Inr \<lparr>fst_body = Regular skill_bytes, fst_dev = 1,
      fst_ino = 5, fst_size = 9, fst_mtimeNs = 1, fst_ctimeNs = 1\<rparr>, skill_world)"
    using there [of True] skill_calm
    by (simp add: os_stat_times_def observe_calm skill_fs_world skill_fs_def skill_dir_def skill_bytes_def js_def)
  have rd: "os_readFileAt ?p skill_world = (Inr skill_bytes, skill_world)"
    using there [of True] skill_calm by (simp add: os_readFileAt_def observe_calm skill_fs_world)
  let ?m = "\<lparr>fm_realPath = ?p, fm_fingerprint = join_with (cu CHR '':'') (map js_nat [1, 5, 9, 1, 1]), fm_size = 9\<rparr>"
  have meta: "instructionFileMetadata sample_instructions [js ''w''] ?p (js ''SKILL.md'') sample_iworld = (Inr ?m, sample_iworld)"
    using sample_wait [where m = "os_lstat ?p", OF ls] sample_wait [where m = "os_realpath ?p", OF skill_realpaths(4)]
      sample_wait [where m = "os_stat_times (\<lambda>fs i. (1, 1, 1)) ?p", OF st]
      plain_inside [of "[js ''w'']" "[js ''.agents'', js ''skills'', js ''a'', js ''SKILL.md'']"] sample_plain skill_comps
    by (simp add: instructionFileMetadata_def io_defs isFile_def sample_instructions_def file_fingerprint_def skill_dir_def
        MAX_SAFE_INTEGER_def)
  have text9: "decodeInstructionText skill_bytes q = Inr [45, 45, 45, 10, 10, 45, 45, 45, 10]" "length skill_bytes = 9" for q
    using skill_text by (simp_all add: decodeInstructionText_def skill_bytes_def)
  show ?thesis
    using sample_wait [where m = "os_readFileAt ?p", OF rd] meta text9
    by (simp add: readInstructionFile_def sample_context_def Let_def io_defs cache_get_def MAX_STABLE_READ_ATTEMPTS_def
        numeral_3_eq_3 MAX_INSTRUCTION_BYTES_def content_for_def cache_set_def sample_iworld_def)
qed

theorem instruction_file_fresh_witness:
  "\<exists>d iw i. readInstructionFile sample_instructions sample_context (js ''SKILL.md'') sample_iworld = (Inr (Some d), iw)
     \<and> i < 3 \<and> stably_read sample_instructions [js ''w''] (skill_dir @ [js ''SKILL.md'']) skill_world (1 + 4 * i) d
     \<and> cache_ok sample_instructions iw"
proof -
  obtain d iw where r: "readInstructionFile sample_instructions sample_context (js ''SKILL.md'') sample_iworld = (Inr (Some d), iw)"
    using sample_read_file by blast
  have here: "ctx_workspaceRoot sample_context = [js ''w'']" "ctx_absoluteScopePath sample_context = skill_dir"
    "iw_os sample_iworld = skill_world" by (simp_all add: sample_context_def sample_iworld_def)
  from instruction_file_fresh [OF r sample_cache_ok, unfolded here] r show ?thesis by blast
qed

end
