(* ===== verification/Rpc.thy ===== *)
theory Rpc
  imports Operations Codec "HOL-Library.AList"
begin

text \<open>
  \<open>packages/local-rpc/src/index.ts\<close>: the client of the daemon. A call is a state machine driven by what
  the caller, the timer and the HTTP request do; its promise settles at most once. What \<open>node:http\<close>
  does is not modelled: the events come in any order. The current time is a parameter, and so is the
  integer a numeral with a fraction or an exponent denotes, if any.
\<close>

definition MAX_RESPONSE_BYTES :: nat where "MAX_RESPONSE_BYTES = 1024 * 1024"

section \<open>Messages\<close>

type_synonym decimals = "jstr \<Rightarrow> int option"

fun num_value :: "decimals \<Rightarrow> jsnum \<Rightarrow> int option" where
  "num_value dec (JInt i) = Some i"
| "num_value dec (JDec t) = dec t"

definition text_field :: "string \<Rightarrow> json \<Rightarrow> jstr" where
  "text_field k v = (case json_get (js k) v of Some (JStr s) \<Rightarrow> s | _ \<Rightarrow> [])"

definition deadline_passed :: "decimals \<Rightarrow> int \<Rightarrow> json \<Rightarrow> bool" where
  "deadline_passed dec now request =
     (case json_get (js ''deadlineUnixMs'') request of
        Some (JNum n) \<Rightarrow> (case num_value dec n of Some d \<Rightarrow> d \<le> now | None \<Rightarrow> False)
      | _ \<Rightarrow> False)"

definition rpc_error :: "string \<Rightarrow> jstr \<Rightarrow> bool \<Rightarrow> RpcError" where
  "rpc_error code message retryable =
     \<lparr>rpc_code = js code, rpc_message = message, rpc_retryable = retryable, rpc_details = None\<rparr>"

definition rpc_error_of :: "json \<Rightarrow> RpcError" where
  "rpc_error_of e = \<lparr>rpc_code = text_field ''code'' e, rpc_message = text_field ''message'' e,
     rpc_retryable = (json_get (js ''retryable'') e = Some (JBool True)), rpc_details = json_get (js ''details'') e\<rparr>"

section \<open>\<open>call\<close> before transport\<close>

text \<open>\<open>{ ...request, schemaVersion }\<close>; the properties of \<open>request\<close> in order.\<close>

definition wire_request :: "(jstr \<times> json) list \<Rightarrow> json" where
  "wire_request request =
     JObj (AList.update (js ''schemaVersion'') (JNum (JInt RPC_SCHEMA_VERSION)) request)"

definition createLocalRpcClient :: "jstr \<Rightarrow> unit result" where
  "createLocalRpcClient socketPath =
     (if length socketPath = 0 then Inl (TypeError (js ''socketPath must not be empty'')) else Inr ())"

definition begin_call :: "checker \<Rightarrow> decimals \<Rightarrow> int \<Rightarrow> bool \<Rightarrow> (jstr \<times> json) list \<Rightarrow> json result" where
  "begin_call chk dec now aborted request =
     bind_res (parseRpcRequest chk (wire_request request)) (\<lambda>wireRequest.
     if deadline_passed dec now wireRequest
     then Inl (RpcCallError (rpc_error ''TIMEOUT'' (js ''RPC deadline exceeded before transport'') True))
     else if aborted
     then Inl (RpcCallError (rpc_error ''CANCELLED'' (js ''RPC call was cancelled before transport'') False))
     else Inr wireRequest)"

section \<open>\<open>requestOverIpc\<close>\<close>

definition rpc_payload :: "json \<Rightarrow> bytes" where
  "rpc_payload wireRequest = utf8_encode (JSON_stringify wireRequest)"

definition transport_failure :: "jstr \<Rightarrow> thrown" where
  "transport_failure message = RpcCallError (rpc_error ''TRANSPORT_FAILURE'' message True)"

text \<open>The handler of \<open>end\<close>.\<close>

definition decode_response :: "checker \<Rightarrow> json \<Rightarrow> bytes \<Rightarrow> json result" where
  "decode_response chk wireRequest body =
     bind_res (parse_json (utf8_toString body)) (\<lambda>decoded.
     bind_res (parseRpcResponse chk decoded) (\<lambda>wireResponse.
     if json_get (js ''requestId'') wireResponse \<noteq> json_get (js ''requestId'') wireRequest
     then Inl (RpcCallError (rpc_error ''TRANSPORT_FAILURE'' (js ''RPC response requestId does not match the request'') True))
     else if json_get (js ''ok'') wireResponse \<noteq> Some (JBool True)
     then Inl (RpcCallError (rpc_error_of (case json_get (js ''error'') wireResponse of Some e \<Rightarrow> e | None \<Rightarrow> JNull)))
     else Inr (case json_get (js ''result'') wireResponse of Some v \<Rightarrow> v | None \<Rightarrow> JNull)))"

definition read_response :: "checker \<Rightarrow> json \<Rightarrow> bytes \<Rightarrow> json result" where
  "read_response chk wireRequest body =
     (case decode_response chk wireRequest body of
        Inr v \<Rightarrow> Inr v
      | Inl (RpcCallError e) \<Rightarrow> Inl (RpcCallError e)
      | Inl e \<Rightarrow> Inl (transport_failure (if is_error e then error_message e else js ''Invalid RPC response'')))"

text \<open>The variables of a call; \<open>rc_timer\<close> and \<open>rc_listener\<close> hold while the deadline timer is armed and the
  abort listener registered, \<open>rc_promise\<close> is the outcome once settled.\<close>

record rpc_call =
  rc_timedOut :: bool
  rc_cancelled :: bool
  rc_aborted :: bool
  rc_timer :: bool
  rc_listener :: bool
  rc_chunks :: "bytes list"
  rc_bytes :: nat
  rc_destroyed :: "jstr option"
  rc_promise :: "json result option"

datatype client_event =
    CallerAborts
  | DeadlineFires
  | ResponseBegins
  | ResponseData bytes
  | ResponseEnds
  | ResponseFails jstr                 \<comment> \<open>\<open>error.message\<close>\<close>
  | RequestFails "jstr option" jstr    \<comment> \<open>\<open>error.code\<close>, \<open>error.message\<close>\<close>

definition start_request :: "json \<Rightarrow> bool \<Rightarrow> rpc_call" where
  "start_request wireRequest has_signal =
     \<lparr>rc_timedOut = False, rc_cancelled = False, rc_aborted = False,
      rc_timer = (json_get (js ''deadlineUnixMs'') wireRequest \<noteq> None), rc_listener = has_signal,
      rc_chunks = [], rc_bytes = 0, rc_destroyed = None, rc_promise = None\<rparr>"

text \<open>\<open>settleResolve\<close> and \<open>settleReject\<close>, with \<open>cleanup\<close>.\<close>

definition settle :: "json result \<Rightarrow> rpc_call \<Rightarrow> rpc_call" where
  "settle outcome c =
     (if rc_promise c \<noteq> None then c
      else c\<lparr>rc_promise := Some outcome, rc_timer := False, rc_listener := False\<rparr>)"

definition unavailable_codes :: "jstr list" where
  "unavailable_codes = map js [''ECONNREFUSED'', ''ENOENT'', ''EPIPE'', ''ECONNRESET'']"

definition request_error :: "rpc_call \<Rightarrow> jstr option \<Rightarrow> jstr \<Rightarrow> thrown" where
  "request_error c code message =
     (if rc_timedOut c then RpcCallError (rpc_error ''TIMEOUT'' (js ''RPC deadline exceeded'') True)
      else if rc_cancelled c then RpcCallError (rpc_error ''CANCELLED'' (js ''RPC call was cancelled'') False)
      else if (case code of None \<Rightarrow> False | Some k \<Rightarrow> k \<in> set unavailable_codes)
      then RpcCallError (rpc_error ''CORE_UNAVAILABLE'' (js ''Benchhand core daemon is unavailable'') True)
      else transport_failure message)"

fun client_step :: "checker \<Rightarrow> json \<Rightarrow> client_event \<Rightarrow> rpc_call \<Rightarrow> rpc_call" where
  "client_step chk sent CallerAborts c =
     (if rc_listener c then c\<lparr>rc_cancelled := True, rc_aborted := True, rc_listener := False\<rparr> else c)"
| "client_step chk sent DeadlineFires c =
     (if rc_timer c then c\<lparr>rc_timedOut := True, rc_aborted := True, rc_timer := False\<rparr> else c)"
| "client_step chk sent ResponseBegins c = c\<lparr>rc_chunks := [], rc_bytes := 0\<rparr>"
| "client_step chk sent (ResponseData chunk) c =
     (let c' = c\<lparr>rc_bytes := rc_bytes c + length chunk\<rparr> in
      if MAX_RESPONSE_BYTES < rc_bytes c' then c'\<lparr>rc_destroyed := Some (js ''RPC response exceeds maximum size'')\<rparr>
      else c'\<lparr>rc_chunks := rc_chunks c @ [chunk]\<rparr>)"
| "client_step chk sent ResponseEnds c = settle (read_response chk sent (concat (rc_chunks c))) c"
| "client_step chk sent (ResponseFails message) c = settle (Inl (transport_failure message)) c"
| "client_step chk sent (RequestFails code message) c = settle (Inl (request_error c code message)) c"

definition client_run :: "checker \<Rightarrow> json \<Rightarrow> client_event list \<Rightarrow> rpc_call \<Rightarrow> rpc_call" where
  "client_run chk sent events c = fold (client_step chk sent) events c"

section \<open>The promise of a call\<close>

fun terminal :: "client_event \<Rightarrow> bool" where
  "terminal ResponseEnds \<longleftrightarrow> True"
| "terminal (ResponseFails _) \<longleftrightarrow> True"
| "terminal (RequestFails _ _) \<longleftrightarrow> True"
| "terminal _ \<longleftrightarrow> False"

lemma client_run_simps [simp]:
  "client_run chk sent [] c = c" "client_run chk sent (e # es) c = client_run chk sent es (client_step chk sent e c)"
  "client_run chk sent (es @ fs) c = client_run chk sent fs (client_run chk sent es c)"
  by (simp_all add: client_run_def)

lemma settled_stays: "rc_promise c \<noteq> None \<Longrightarrow> rc_promise (client_run chk sent es c) = rc_promise c"
proof (induction es arbitrary: c)
  case (Cons e es)
  have "rc_promise (client_step chk sent e c) = rc_promise c"
    using Cons.prems by (cases e) (auto simp: settle_def Let_def)
  with Cons show ?case by simp
qed simp

text \<open>What holds of the variables at every moment.\<close>

definition call_ok :: "checker \<Rightarrow> json \<Rightarrow> rpc_call \<Rightarrow> bool" where
  "call_ok chk sent c \<longleftrightarrow>
     length (concat (rc_chunks c)) \<le> rc_bytes c \<and> length (concat (rc_chunks c)) \<le> MAX_RESPONSE_BYTES
     \<and> (rc_promise c \<noteq> None \<longrightarrow> \<not> rc_timer c \<and> \<not> rc_listener c)
     \<and> (\<forall>v. rc_promise c = Some (Inr v) \<longrightarrow> (\<exists>body. length body \<le> MAX_RESPONSE_BYTES \<and> decode_response chk sent body = Inr v))"

lemma read_response_Inr: "read_response chk sent body = Inr v \<longleftrightarrow> decode_response chk sent body = Inr v"
  by (auto simp: read_response_def split: sum.splits thrown.splits)

lemma call_ok_start: "call_ok chk sent (start_request sent has_signal)"
  by (simp add: call_ok_def start_request_def)

lemma call_ok_settle:
  assumes "call_ok chk sent c" "\<And>v. x = Inr v \<Longrightarrow> \<exists>body. length body \<le> MAX_RESPONSE_BYTES \<and> decode_response chk sent body = Inr v"
  shows "call_ok chk sent (settle x c)"
  using assms by (auto simp: call_ok_def settle_def)

lemma call_ok_step: "call_ok chk sent c \<Longrightarrow> call_ok chk sent (client_step chk sent e c)"
proof (cases e)
  case (ResponseData chunk)
  then show "call_ok chk sent c \<Longrightarrow> ?thesis" by (auto simp: call_ok_def Let_def)
next
  case ResponseEnds
  assume c: "call_ok chk sent c"
  then have "length (concat (rc_chunks c)) \<le> MAX_RESPONSE_BYTES" by (simp add: call_ok_def)
  with ResponseEnds c show ?thesis by (auto simp: read_response_Inr intro!: call_ok_settle)
qed (auto simp: call_ok_def settle_def)

lemma call_ok_run: "call_ok chk sent c \<Longrightarrow> call_ok chk sent (client_run chk sent es c)"
  by (induction es arbitrary: c) (auto intro: call_ok_step)

lemma client_step_settles:
  "rc_promise (client_step chk sent e c) \<noteq> None \<longleftrightarrow> rc_promise c \<noteq> None \<or> terminal e"
  by (cases e) (auto simp: settle_def Let_def)

lemma client_run_settles:
  "rc_promise (client_run chk sent es c) \<noteq> None \<longleftrightarrow> rc_promise c \<noteq> None \<or> list_ex terminal es"
proof (induction es arbitrary: c)
  case (Cons e es)
  have "list_ex terminal (e # es) \<longleftrightarrow> terminal e \<or> list_ex terminal es" by simp
  with Cons client_step_settles [of chk sent e c] show ?case unfolding client_run_simps by blast
qed simp

text \<open>C40. A call settles once, in whatever order its events come: its promise is settled as soon as the response
  ends or fails or the request fails, and never otherwise; no later event changes it; once it is settled
  the deadline timer is cleared and the abort listener removed; at most 1 MiB of the response is kept; and
  a value is returned only when a response of that size decodes to it.\<close>

theorem client_settles_once:
  "let c = client_run chk sent es (start_request sent has_signal) in
     (rc_promise c \<noteq> None \<longleftrightarrow> list_ex terminal es)
     \<and> (rc_promise c \<noteq> None \<longrightarrow> \<not> rc_timer c \<and> \<not> rc_listener c
          \<and> (\<forall>more. rc_promise (client_run chk sent more c) = rc_promise c))
     \<and> length (concat (rc_chunks c)) \<le> MAX_RESPONSE_BYTES
     \<and> (\<forall>v. rc_promise c = Some (Inr v) \<longrightarrow>
          (\<exists>body. length body \<le> MAX_RESPONSE_BYTES \<and> decode_response chk sent body = Inr v))"
proof -
  let ?c = "client_run chk sent es (start_request sent has_signal)"
  have ok: "call_ok chk sent ?c" by (rule call_ok_run [OF call_ok_start])
  have settled: "rc_promise ?c \<noteq> None \<longleftrightarrow> list_ex terminal es"
    unfolding client_run_settles by (simp add: start_request_def)
  show ?thesis
    unfolding Let_def using ok settled settled_stays [of ?c] unfolding call_ok_def by blast
qed

theorem client_settles_once_witness:
  "let c = client_run json_schema_check (JObj [(js ''deadlineUnixMs'', JNum (JInt 5))]) [ResponseBegins, DeadlineFires, ResponseFails (js ''aborted'')]
             (start_request (JObj [(js ''deadlineUnixMs'', JNum (JInt 5))]) True) in
     rc_promise c = Some (Inl (transport_failure (js ''aborted''))) \<and> \<not> rc_timer c \<and> \<not> rc_listener c
     \<and> rc_promise (client_run json_schema_check (JObj [(js ''deadlineUnixMs'', JNum (JInt 5))]) [RequestFails None []] c) = rc_promise c"
proof -
  let ?sent = "JObj [(js ''deadlineUnixMs'', JNum (JInt 5))]"
  let ?c = "client_run json_schema_check ?sent [ResponseBegins, DeadlineFires, ResponseFails (js ''aborted'')] (start_request ?sent True)"
  have p: "rc_promise ?c = Some (Inl (transport_failure (js ''aborted'')))"
    by (simp add: start_request_def settle_def)
  from client_settles_once [of json_schema_check ?sent "[ResponseBegins, DeadlineFires, ResponseFails (js ''aborted'')]" True] p
  show ?thesis unfolding Let_def by blast
qed

text \<open>A deadline that passes, or a caller that cancels, after the response began: the error of the response is
  reported as it comes, not as a timeout or a cancellation.\<close>

lemma deadline_during_response:
  assumes "e = DeadlineFires \<or> e = CallerAborts"
  shows "rc_promise (client_run chk sent [ResponseBegins, e, ResponseFails message] (start_request sent has_signal))
    = Some (Inl (RpcCallError (rpc_error ''TRANSPORT_FAILURE'' message True)))"
  using assms by (elim disjE) (simp_all add: start_request_def settle_def transport_failure_def)

end
