(* ===== verification/DaemonRequests.thy ===== *)
theory DaemonRequests
  imports Rpc AtomicWrite ReadList Search Worktrees Skills
begin

text \<open>
  \<open>packages/daemon/src/index.ts\<close>, the readers of request parameters: each turns the parameters of a method,
  an arbitrary JSON value, into a request of the service, or rejects them.
\<close>

definition dispatch_error :: "string \<Rightarrow> jstr \<Rightarrow> bool \<Rightarrow> thrown" where
  "dispatch_error code message retryable = DispatchError (rpc_error code message retryable)"

definition invalid_request :: "jstr \<Rightarrow> thrown" where
  "invalid_request message = dispatch_error ''INVALID_REQUEST'' message False"

section \<open>Fields\<close>

definition readParamsObject :: "json \<Rightarrow> string \<Rightarrow> json result" where
  "readParamsObject params method =
     (case params of
        JObj kvs \<Rightarrow> Inr params
      | _ \<Rightarrow> Inl (invalid_request (js method @ js '' requires object params'')))"

definition readWorkspaceIdValue :: "json option \<Rightarrow> string \<Rightarrow> jstr result" where
  "readWorkspaceIdValue v method =
     (case v of
        Some (JStr s) \<Rightarrow> parseEntityId Workspace s
      | _ \<Rightarrow> Inl (invalid_request (js method @ js '' requires params.workspaceId'')))"

definition readRequiredString :: "json option \<Rightarrow> string \<Rightarrow> jstr result" where
  "readRequiredString v label =
     (case v of
        Some (JStr s) \<Rightarrow> Inr s
      | _ \<Rightarrow> Inl (invalid_request (js label @ js '' must be a string'')))"

definition optionalString :: "json \<Rightarrow> string \<Rightarrow> jstr option result" where
  "optionalString v key =
     (case json_get (js key) v of
        None \<Rightarrow> Inr None
      | Some (JStr s) \<Rightarrow> Inr (Some s)
      | Some _ \<Rightarrow> Inl (invalid_request (js key @ js '' must be a string'')))"

definition optionalNumber :: "json \<Rightarrow> string \<Rightarrow> jsnum option result" where
  "optionalNumber v key =
     (case json_get (js key) v of
        None \<Rightarrow> Inr None
      | Some (JNum n) \<Rightarrow> Inr (Some n)
      | Some _ \<Rightarrow> Inl (invalid_request (js key @ js '' must be a number'')))"

section \<open>Files\<close>

definition readFileReadParams :: "json \<Rightarrow> FilesystemReadRequest result" where
  "readFileReadParams params =
     bind_res (readParamsObject params ''file.read'') (\<lambda>v.
     bind_res (readWorkspaceIdValue (json_get (js ''workspaceId'') v) ''file.read'') (\<lambda>workspace.
     bind_res (readRequiredString (json_get (js ''path'') v) ''file.read params.path'') (\<lambda>path.
     bind_res (optionalNumber v ''offset'') (\<lambda>offset.
     bind_res (optionalNumber v ''maxBytes'') (\<lambda>maxBytes.
     Inr \<lparr>rr_workspaceId = workspace, rr_path = path, rr_offset = offset, rr_maxBytes = maxBytes\<rparr>)))))"

definition readFileListParams :: "json \<Rightarrow> FilesystemListRequest result" where
  "readFileListParams params =
     bind_res (readParamsObject params ''file.list'') (\<lambda>v.
     bind_res (readWorkspaceIdValue (json_get (js ''workspaceId'') v) ''file.list'') (\<lambda>workspace.
     bind_res (optionalString v ''path'') (\<lambda>path.
     bind_res (optionalNumber v ''limit'') (\<lambda>limit.
     bind_res (optionalString v ''cursor'') (\<lambda>cursor.
     Inr \<lparr>lr_workspaceId = workspace, lr_path = path, lr_limit = limit, lr_cursor = cursor\<rparr>)))))"

definition readFileSearchParams :: "json \<Rightarrow> FilesystemSearchRequest result" where
  "readFileSearchParams params =
     bind_res (readParamsObject params ''file.search'') (\<lambda>v.
     bind_res (readWorkspaceIdValue (json_get (js ''workspaceId'') v) ''file.search'') (\<lambda>workspace.
     bind_res (optionalString v ''path'') (\<lambda>path.
     bind_res (optionalString v ''glob'') (\<lambda>glob.
     bind_res (optionalString v ''query'') (\<lambda>query.
     bind_res (optionalNumber v ''maxResults'') (\<lambda>maxResults.
     bind_res (optionalNumber v ''maxBytes'') (\<lambda>maxBytes.
     bind_res (optionalNumber v ''maxDepth'') (\<lambda>maxDepth.
     bind_res (optionalNumber v ''maxFileBytes'') (\<lambda>maxFileBytes.
     Inr \<lparr>sr_workspaceId = workspace, sr_path = path, sr_glob = glob, sr_query = query, sr_maxResults = maxResults,
          sr_maxBytes = maxBytes, sr_maxDepth = maxDepth, sr_maxFileBytes = maxFileBytes\<rparr>)))))))))"

text \<open>A missing digest is \<open>None\<close>, \<open>null\<close> is \<open>Some None\<close>.\<close>

definition readExpectedSha256 :: "json \<Rightarrow> jstr option option result" where
  "readExpectedSha256 v =
     (case json_get (js ''expectedSha256'') v of
        None \<Rightarrow> Inr None
      | Some JNull \<Rightarrow> Inr (Some None)
      | Some (JStr s) \<Rightarrow> Inr (Some (Some s))
      | Some _ \<Rightarrow> Inl (invalid_request (js ''file.write params.expectedSha256 must be a string or null'')))"

definition readFileWriteParams :: "json \<Rightarrow> FilesystemWriteRequest result" where
  "readFileWriteParams params =
     bind_res (readParamsObject params ''file.write'') (\<lambda>v.
     bind_res (readWorkspaceIdValue (json_get (js ''workspaceId'') v) ''file.write'') (\<lambda>workspace.
     bind_res (readRequiredString (json_get (js ''path'') v) ''file.write params.path'') (\<lambda>path.
     bind_res (readRequiredString (json_get (js ''content'') v) ''file.write params.content'') (\<lambda>content.
     bind_res (readExpectedSha256 v) (\<lambda>expectedSha256.
     Inr \<lparr>wr_workspaceId = workspace, wr_path = path, wr_content = JStr content, wr_expectedSha256 = expectedSha256\<rparr>)))))"

definition read_patch_edit :: "nat \<times> json \<Rightarrow> json result" where
  "read_patch_edit = (\<lambda>(index, edit).
     case (json_get (js ''oldText'') edit, json_get (js ''newText'') edit) of
       (Some (JStr old), Some (JStr new)) \<Rightarrow> Inr (JObj [(js ''oldText'', JStr old), (js ''newText'', JStr new)])
     | _ \<Rightarrow> Inl (invalid_request (js ''file.patch params.edits['' @ js_nat index
              @ js ''] must contain string oldText and newText'')))"

definition readFilePatchParams :: "json \<Rightarrow> FilesystemPatchRequest result" where
  "readFilePatchParams params =
     bind_res (readParamsObject params ''file.patch'') (\<lambda>v.
     bind_res (readWorkspaceIdValue (json_get (js ''workspaceId'') v) ''file.patch'') (\<lambda>workspace.
     bind_res (readRequiredString (json_get (js ''path'') v) ''file.patch params.path'') (\<lambda>path.
     bind_res (readRequiredString (json_get (js ''expectedSha256'') v) ''file.patch params.expectedSha256'') (\<lambda>expectedSha256.
     case json_get (js ''edits'') v of
       Some (JArr items) \<Rightarrow>
         bind_res (map_res read_patch_edit (enumerate 0 items)) (\<lambda>edits.
         Inr \<lparr>pr_workspaceId = workspace, pr_path = path, pr_expectedSha256 = JStr expectedSha256, pr_edits = JArr edits\<rparr>)
     | _ \<Rightarrow> Inl (invalid_request (js ''file.patch params.edits must be an array''))))))"

section \<open>Instructions and skills\<close>

definition readInstructionsResolveParams :: "json \<Rightarrow> InstructionsResolveRequest result" where
  "readInstructionsResolveParams params =
     bind_res (readParamsObject params ''instructions.resolve'') (\<lambda>v.
     bind_res (readWorkspaceIdValue (json_get (js ''workspaceId'') v) ''instructions.resolve'') (\<lambda>workspace.
     case json_get (js ''scopePath'') v of
       None \<Rightarrow> Inr \<lparr>irq_workspaceId = workspace, irq_scopePath = None\<rparr>
     | Some (JStr s) \<Rightarrow> Inr \<lparr>irq_workspaceId = workspace, irq_scopePath = Some s\<rparr>
     | Some _ \<Rightarrow> Inl (invalid_request (js ''instructions.resolve params.scopePath must be a string''))))"

definition readSkillsListParams :: "json \<Rightarrow> jstr result" where
  "readSkillsListParams params =
     bind_res (readParamsObject params ''skills.list'') (\<lambda>v.
     readWorkspaceIdValue (json_get (js ''workspaceId'') v) ''skills.list'')"

definition readSkillsReadParams :: "json \<Rightarrow> (jstr \<times> jstr) result" where
  "readSkillsReadParams params =
     bind_res (readParamsObject params ''skills.read'') (\<lambda>v.
     bind_res (readWorkspaceIdValue (json_get (js ''workspaceId'') v) ''skills.read'') (\<lambda>workspace.
     case json_get (js ''skillId'') v of
       Some (JStr s) \<Rightarrow> if length s = 0 then Inl (invalid_request (js ''skills.read requires params.skillId''))
                        else Inr (workspace, s)
     | _ \<Rightarrow> Inl (invalid_request (js ''skills.read requires params.skillId''))))"

section \<open>Workspaces and operations\<close>

definition readWorkspaceOpenParams :: "json \<Rightarrow> (jstr \<times> WorkspaceMode \<times> jstr option) result" where
  "readWorkspaceOpenParams params =
     (case json_get (js ''path'') params of
        Some (JStr path) \<Rightarrow>
          if length path = 0 then Inl (invalid_request (js ''workspace.open requires params.path''))
          else
          bind_res (case json_get (js ''mode'') params of
              None \<Rightarrow> Inr Checkout
            | Some m \<Rightarrow>
                if m = JStr (js ''checkout'') then Inr Checkout
                else if m = JStr (js ''worktree'') then Inr Worktree
                else Inl (invalid_request (js ''workspace.open params.mode must be checkout or worktree''))) (\<lambda>m.
          bind_res (case json_get (js ''baseRef'') params of
              None \<Rightarrow> Inr None
            | Some (JStr r) \<Rightarrow>
                if length r = 0 then Inl (invalid_request (js ''workspace.open params.baseRef must be a non-empty string''))
                else Inr (Some r)
            | Some _ \<Rightarrow> Inl (invalid_request (js ''workspace.open params.baseRef must be a non-empty string''))) (\<lambda>ref.
          if m \<noteq> Worktree \<and> ref \<noteq> None
          then Inl (invalid_request (js ''workspace.open params.baseRef requires worktree mode''))
          else Inr (path, m, ref)))
      | _ \<Rightarrow> Inl (invalid_request (js ''workspace.open requires params.path'')))"

definition readWorkspaceIdParam :: "json \<Rightarrow> jstr result" where
  "readWorkspaceIdParam params =
     (case json_get (js ''workspaceId'') params of
        Some (JStr s) \<Rightarrow> parseEntityId Workspace s
      | _ \<Rightarrow> Inl (invalid_request (js ''workspace.get requires params.workspaceId'')))"

definition readOperationIdParam :: "json \<Rightarrow> jstr result" where
  "readOperationIdParam params =
     (case json_get (js ''operationId'') params of
        Some (JStr s) \<Rightarrow> parseEntityId Operation s
      | _ \<Rightarrow> Inl (invalid_request (js ''operation.get requires params.operationId'')))"

end
