(* ===== verification/Daemon.thy ===== *)
theory Daemon
  imports DaemonRequests
begin

text \<open>
  \<open>packages/daemon/src/index.ts\<close>, the dispatch of requests: \<open>dispatchRpc\<close> with its mapping of errors, and
  \<open>handleHttpRequest\<close>, from the bytes of a request to the bytes of the response. The services are the
  components of the dispatch context, computations on a common state; the results they return are records,
  written to the wire as the objects of the source.
\<close>

section \<open>Results on the wire\<close>

definition json_nat :: "nat \<Rightarrow> json" where
  "json_nat n = JNum (JInt (int n))"

definition nullable_text :: "jstr option \<Rightarrow> json" where
  "nullable_text v = (case v of None \<Rightarrow> JNull | Some s \<Rightarrow> JStr s)"

definition nullable_nat :: "nat option \<Rightarrow> json" where
  "nullable_nat v = (case v of None \<Rightarrow> JNull | Some n \<Rightarrow> json_nat n)"

definition operation_record_json :: "OperationRecord \<Rightarrow> json" where
  "operation_record_json r = JObj
     ([(js ''operationId'', JStr (rec_operationId r)), (js ''kind'', JStr (rec_kind r)),
       (js ''fingerprint'', JStr (rec_fingerprint r)), (js ''state'', JStr (operation_state_text (rec_state r))),
       (js ''version'', json_nat (rec_version r))]
      @ (case rec_result r of None \<Rightarrow> [] | Some v \<Rightarrow> [(js ''result'', v)])
      @ (case rec_error r of None \<Rightarrow> [] | Some e \<Rightarrow> [(js ''error'', error_json e)]))"

definition workspace_record_json :: "WorkspaceRecord \<Rightarrow> json" where
  "workspace_record_json r = JObj
     [(js ''workspaceId'', JStr (workspaceId r)), (js ''canonicalPath'', JStr (canonicalPath r)),
      (js ''requestedPath'', JStr (requestedPath r)), (js ''mode'', JStr (mode_text (mode r))),
      (js ''repoRoot'', nullable_text (repoRoot r)), (js ''worktreePath'', nullable_text (worktreePath r)),
      (js ''baseRef'', nullable_text (baseRef r)), (js ''branch'', nullable_text (branch r)),
      (js ''createdAt'', JStr (createdAt r)), (js ''lastUsedAt'', JStr (lastUsedAt r)),
      (js ''ownerInstance'', nullable_text (ownerInstance r)), (js ''status'', JStr (workspace_status_text (status r))),
      (js ''metadataVersion'', json_nat (metadataVersion r))]"

definition read_result_json :: "FilesystemReadResult \<Rightarrow> json" where
  "read_result_json r = JObj
     [(js ''path'', JStr (read_path r)),
      (js ''classification'', JStr (case read_classification r of TextFile \<Rightarrow> js ''text'' | BinaryFile \<Rightarrow> js ''binary'')),
      (js ''size'', json_nat (read_size r)), (js ''offset'', json_nat (read_offset r)),
      (js ''bytesRead'', json_nat (read_bytesRead r)), (js ''eof'', JBool (read_eof r)),
      (js ''truncated'', JBool (read_truncated r)), (js ''content'', nullable_text (read_content r))]"

fun entry_type_text :: "FileEntryType \<Rightarrow> jstr" where
  "entry_type_text EntryFile = js ''file''"
| "entry_type_text EntryDirectory = js ''directory''"
| "entry_type_text EntrySymlink = js ''symlink''"
| "entry_type_text EntryOther = js ''other''"

definition list_result_json :: "FilesystemListResult \<Rightarrow> json" where
  "list_result_json r = JObj
     [(js ''path'', JStr (listed_path r)),
      (js ''entries'', JArr (map (\<lambda>e. JObj [(js ''name'', JStr (entry_name e)), (js ''path'', JStr (entry_path e)),
         (js ''type'', JStr (entry_type_text (entry_type e))), (js ''size'', nullable_nat (entry_size e))]) (listed_entries r))),
      (js ''nextCursor'', nullable_text (listed_nextCursor r))]"

definition search_result_json :: "FilesystemSearchResult \<Rightarrow> json" where
  "search_result_json r = JObj
     [(js ''path'', JStr (found_path r)), (js ''glob'', JStr (found_glob r)), (js ''query'', nullable_text (found_query r)),
      (js ''matches'', JArr (map (\<lambda>m. JObj [(js ''path'', JStr (match_path m)), (js ''line'', nullable_nat (match_line m)),
         (js ''column'', nullable_nat (match_column m)), (js ''preview'', nullable_text (match_preview m))]) (found_matches r))),
      (js ''truncated'', JBool (found_truncated r)), (js ''scannedFiles'', json_nat (found_scannedFiles r)),
      (js ''skippedBinary'', json_nat (found_skippedBinary r)), (js ''skippedOversized'', json_nat (found_skippedOversized r))]"

fun durability_text :: "durability \<Rightarrow> jstr" where
  "durability_text FileAndDirectory = js ''file-and-directory''"
| "durability_text FileOnly = js ''file-only''"

definition write_result_json :: "FilesystemWriteResult \<Rightarrow> json" where
  "write_result_json r = JObj
     [(js ''path'', JStr (written_path r)), (js ''created'', JBool (written_created r)),
      (js ''previousSha256'', nullable_text (written_previousSha256 r)), (js ''sha256'', JStr (written_sha256 r)),
      (js ''bytesWritten'', json_nat (written_bytes r)), (js ''durability'', JStr (durability_text (written_durability r)))]"

definition patch_result_json :: "FilesystemPatchResult \<Rightarrow> json" where
  "patch_result_json r = JObj
     [(js ''path'', JStr (patched_path r)), (js ''previousSha256'', JStr (patched_previousSha256 r)),
      (js ''sha256'', JStr (patched_sha256 r)), (js ''editsApplied'', json_nat (patched_edits r)),
      (js ''bytesWritten'', json_nat (patched_bytes r)), (js ''durability'', JStr (durability_text (patched_durability r)))]"

definition document_json :: "InstructionDocument \<Rightarrow> json" where
  "document_json d = JObj
     [(js ''providerId'', JStr (doc_providerId d)), (js ''scopePath'', JStr (doc_scopePath d)),
      (js ''sourceId'', JStr (doc_sourceId d)), (js ''path'', nullable_text (doc_path d)),
      (js ''content'', JStr (doc_content d)), (js ''sha256'', JStr (doc_sha256 d))]"

definition resolve_result_json :: "InstructionsResolveResult \<Rightarrow> json" where
  "resolve_result_json r = JObj
     [(js ''workspaceId'', JStr (irs_workspaceId r)), (js ''scopePath'', JStr (irs_scopePath r)),
      (js ''scopes'', JArr (map JStr (irs_scopes r))), (js ''documents'', JArr (map document_json (irs_documents r)))]"

fun source_kind_text :: "SkillSourceKind \<Rightarrow> jstr" where
  "source_kind_text Project = js ''project''"
| "source_kind_text BenchhandUser = js ''benchhand-user''"
| "source_kind_text AgentsUser = js ''agents-user''"
| "source_kind_text CodexUser = js ''codex-user''"
| "source_kind_text DevspaceCompat = js ''devspace-compat''"
| "source_kind_text Configured = js ''configured''"

definition skill_json :: "SkillSummary \<Rightarrow> json" where
  "skill_json s = JObj
     [(js ''skillId'', JStr (skillId s)), (js ''name'', JStr (sk_name s)), (js ''description'', JStr (sk_description s)),
      (js ''sourceId'', JStr (sk_sourceId s)), (js ''sourceKind'', JStr (source_kind_text (sk_sourceKind s))),
      (js ''skillDirectoryPath'', JStr (sk_directoryPath s)), (js ''skillFilePath'', JStr (sk_filePath s)),
      (js ''metadataSha256'', JStr (sk_metadataSha256 s)), (js ''license'', nullable_text (sk_license s)),
      (js ''compatibility'', nullable_text (sk_compatibility s)),
      (js ''metadata'', JObj (map (\<lambda>(k, v). (k, JStr v)) (sk_metadata s))),
      (js ''allowedTools'', nullable_text (sk_allowedTools s))]"

definition invalid_skill_json :: "InvalidSkillEntry \<Rightarrow> json" where
  "invalid_skill_json b = JObj
     [(js ''sourceId'', JStr (bad_sourceId b)), (js ''sourceKind'', JStr (source_kind_text (bad_sourceKind b))),
      (js ''skillDirectoryPath'', JStr (bad_directoryPath b)), (js ''skillFilePath'', nullable_text (bad_filePath b)),
      (js ''errorCode'', JStr (bad_errorCode b)), (js ''message'', JStr (bad_message b))]"

definition skills_list_json :: "SkillsListResult \<Rightarrow> json" where
  "skills_list_json r = JObj
     [(js ''workspaceId'', JStr (slr_workspaceId r)), (js ''skills'', JArr (map skill_json (slr_skills r))),
      (js ''shadowed'', JArr (map skill_json (slr_shadowed r))), (js ''invalid'', JArr (map invalid_skill_json (slr_invalid r)))]"

definition skill_read_json :: "SkillsReadResult \<Rightarrow> json" where
  "skill_read_json r = JObj
     [(js ''workspaceId'', JStr (srr_workspaceId r)), (js ''skill'', skill_json (srr_skill r)),
      (js ''content'', JStr (srr_content r)), (js ''sha256'', JStr (srr_sha256 r))]"

section \<open>Dispatch\<close>

text \<open>\<open>DispatchContext\<close>: the operations of the services it holds, on a common state.\<close>

record 's services =
  sv_isReady :: "'s \<Rightarrow> bool"
  sv_instanceId :: jstr
  sv_integrityCheck :: "('s, jstr) io"
  sv_operation_get :: "jstr \<Rightarrow> ('s, OperationRecord option) io"
  sv_workspace_open :: "jstr \<Rightarrow> WorkspaceOpenOptions \<Rightarrow> ('s, WorkspaceRecord) io"
  sv_workspace_get :: "jstr \<Rightarrow> ('s, WorkspaceRecord option) io"
  sv_file_read :: "FilesystemReadRequest \<Rightarrow> ('s, FilesystemReadResult) io"
  sv_file_list :: "FilesystemListRequest \<Rightarrow> ('s, FilesystemListResult) io"
  sv_file_search :: "FilesystemSearchRequest \<Rightarrow> ('s, FilesystemSearchResult) io"
  sv_file_write :: "FilesystemWriteRequest \<Rightarrow> ('s, FilesystemWriteResult) io"
  sv_file_patch :: "FilesystemPatchRequest \<Rightarrow> ('s, FilesystemPatchResult) io"
  sv_instructions_resolve :: "InstructionsResolveRequest \<Rightarrow> ('s, InstructionsResolveResult) io"
  sv_skills_list :: "jstr \<Rightarrow> ('s, SkillsListResult) io"
  sv_skills_read :: "jstr \<Rightarrow> jstr \<Rightarrow> ('s, SkillsReadResult) io"

text \<open>\<open>{ path, ...details }\<close>: a \<open>path\<close> among the details wins.\<close>

definition mergeFilesystemErrorDetails :: "jstr option \<Rightarrow> json option \<Rightarrow> json option" where
  "mergeFilesystemErrorDetails path details =
     (case path of
        None \<Rightarrow> details
      | Some p \<Rightarrow>
          (case details of
             Some (JObj kvs) \<Rightarrow> Some (JObj (fold (\<lambda>(k, v). AList.update k v) kvs [(js ''path'', JStr p)]))
           | Some d \<Rightarrow> Some (JObj [(js ''path'', JStr p), (js ''evidence'', d)])
           | None \<Rightarrow> Some (JObj [(js ''path'', JStr p)])))"

fun filesystem_error :: "thrown \<Rightarrow> thrown" where
  "filesystem_error (FilesystemError code path message details) = DispatchError
     \<lparr>rpc_code = code, rpc_message = message, rpc_retryable = (code = js ''PATH_INACCESSIBLE''),
      rpc_details = mergeFilesystemErrorDetails path details\<rparr>"
| "filesystem_error e = e"

definition dispatchFilesystem :: "('s, 'a) io \<Rightarrow> ('s, 'a) io" where
  "dispatchFilesystem operation = io_map_error filesystem_error operation"

definition retryable_instruction_codes :: "jstr list" where
  "retryable_instruction_codes =
     map js [''SCOPE_INACCESSIBLE'', ''INSTRUCTION_INACCESSIBLE'', ''INSTRUCTION_CHANGED_DURING_READ'', ''SKILL_INACCESSIBLE'']"

fun instructions_error :: "thrown \<Rightarrow> thrown" where
  "instructions_error (InstructionsError code path message) = DispatchError
     \<lparr>rpc_code = code, rpc_message = message, rpc_retryable = (code \<in> set retryable_instruction_codes),
      rpc_details = map_option (\<lambda>p. JObj [(js ''path'', JStr p)]) path\<rparr>"
| "instructions_error e = e"

definition dispatchInstructions :: "('s, 'a) io \<Rightarrow> ('s, 'a) io" where
  "dispatchInstructions operation = io_map_error instructions_error operation"

fun workspace_open_error :: "thrown \<Rightarrow> thrown" where
  "workspace_open_error (WorkspaceRegistryError code path message) = DispatchError
     \<lparr>rpc_code = code, rpc_message = message, rpc_retryable = (code = js ''WORKSPACE_PATH_INACCESSIBLE''),
      rpc_details = Some (JObj [(js ''path'', JStr path)])\<rparr>"
| "workspace_open_error e = e"

text \<open>\<open>parseResultEnvelope({ ok: true, result }).result\<close>\<close>

definition enveloped :: "checker \<Rightarrow> json \<Rightarrow> json result" where
  "enveloped chk result =
     map_sum id envelope_result (parseResultEnvelope chk (JObj [(js ''ok'', JBool True), (js ''result'', result)]))"

text \<open>Parameters are read, a service is called, its result is written.\<close>

definition call_service :: "'r result \<Rightarrow> ('r \<Rightarrow> ('s, 'a) io) \<Rightarrow> ('a \<Rightarrow> json) \<Rightarrow> ('s, json) io" where
  "call_service params service write = io_bind (io_result params) (\<lambda>r. io_bind (service r) (\<lambda>a. io_return (write a)))"

definition not_found :: "string \<Rightarrow> jstr \<Rightarrow> thrown" where
  "not_found what i = dispatch_error ''NOT_FOUND'' (js what @ js '' '' @ i @ js '' was not found'') False"

definition dispatch_health :: "'s services \<Rightarrow> ('s, json) io" where
  "dispatch_health sv s =
     io_bind (sv_integrityCheck sv) (\<lambda>integrity. io_return (JObj
       [(js ''live'', JBool True), (js ''ready'', JBool (sv_isReady sv s)),
        (js ''state'', JStr (if sv_isReady sv s then js ''healthy'' else js ''starting'')),
        (js ''instanceId'', JStr (sv_instanceId sv)), (js ''rpcSchemaVersion'', JNum (JInt RPC_SCHEMA_VERSION)),
        (js ''storageIntegrity'', JStr integrity)])) s"

definition dispatch_operation_get :: "checker \<Rightarrow> 's services \<Rightarrow> json \<Rightarrow> ('s, json) io" where
  "dispatch_operation_get chk sv params =
     io_bind (io_result (readOperationIdParam params)) (\<lambda>i.
     io_bind (sv_operation_get sv i) (\<lambda>found. case found of
       None \<Rightarrow> io_throw (not_found ''operation'' i)
     | Some r \<Rightarrow> io_result (enveloped chk (operation_record_json r))))"

definition dispatch_workspace_open :: "checker \<Rightarrow> 's services \<Rightarrow> json \<Rightarrow> ('s, json) io" where
  "dispatch_workspace_open chk sv params =
     io_bind (io_result (readWorkspaceOpenParams params)) (\<lambda>(path, m, ref).
     io_map_error workspace_open_error
       (io_bind (sv_workspace_open sv path \<lparr>opt_mode = Some m, opt_baseRef = ref\<rparr>) (\<lambda>r.
        io_result (enveloped chk (workspace_record_json r)))))"

definition dispatch_workspace_get :: "checker \<Rightarrow> 's services \<Rightarrow> json \<Rightarrow> ('s, json) io" where
  "dispatch_workspace_get chk sv params =
     io_bind (io_result (readWorkspaceIdParam params)) (\<lambda>i.
     io_bind (sv_workspace_get sv i) (\<lambda>found. case found of
       None \<Rightarrow> io_throw (not_found ''workspace'' i)
     | Some r \<Rightarrow> io_result (enveloped chk (workspace_record_json r))))"

definition dispatchRpc :: "checker \<Rightarrow> 's services \<Rightarrow> jstr \<Rightarrow> json \<Rightarrow> ('s, json) io" where
  "dispatchRpc chk sv method params =
     (if method = js ''system.health'' then dispatch_health sv
      else if method = js ''operation.get'' then dispatch_operation_get chk sv params
      else if method = js ''workspace.open'' then dispatch_workspace_open chk sv params
      else if method = js ''workspace.get'' then dispatch_workspace_get chk sv params
      else if method = js ''file.read''
      then dispatchFilesystem (call_service (readFileReadParams params) (sv_file_read sv) read_result_json)
      else if method = js ''file.list''
      then dispatchFilesystem (call_service (readFileListParams params) (sv_file_list sv) list_result_json)
      else if method = js ''file.search''
      then dispatchFilesystem (call_service (readFileSearchParams params) (sv_file_search sv) search_result_json)
      else if method = js ''file.write''
      then dispatchFilesystem (call_service (readFileWriteParams params) (sv_file_write sv) write_result_json)
      else if method = js ''file.patch''
      then dispatchFilesystem (call_service (readFilePatchParams params) (sv_file_patch sv) patch_result_json)
      else if method = js ''instructions.resolve''
      then dispatchInstructions (call_service (readInstructionsResolveParams params) (sv_instructions_resolve sv) resolve_result_json)
      else if method = js ''skills.list''
      then dispatchInstructions (call_service (readSkillsListParams params) (sv_skills_list sv) skills_list_json)
      else if method = js ''skills.read''
      then dispatchInstructions (call_service (readSkillsReadParams params) (\<lambda>(i, skill). sv_skills_read sv i skill) skill_read_json)
      else io_throw (dispatch_error ''METHOD_NOT_FOUND'' (js ''RPC method '' @ method @ js '' is not supported'') False))"

section \<open>\<open>handleHttpRequest\<close>\<close>

definition MAX_REQUEST_BYTES :: nat where "MAX_REQUEST_BYTES = 1024 * 1024"

text \<open>\<open>readRequestBody\<close>: the events of the request, in any order; the promise settles once.\<close>

datatype body_event = BodyData bytes | BodyEnds | BodyAborted | BodyFails thrown

record body_state =
  bs_chunks :: "bytes list"
  bs_bytes :: nat
  bs_destroyed :: bool
  bs_promise :: "jstr result option"

definition new_body :: body_state where
  "new_body = \<lparr>bs_chunks = [], bs_bytes = 0, bs_destroyed = False, bs_promise = None\<rparr>"

definition settle_body :: "jstr result \<Rightarrow> body_state \<Rightarrow> body_state" where
  "settle_body r b = (if bs_promise b = None then b\<lparr>bs_promise := Some r\<rparr> else b)"

fun body_step :: "body_event \<Rightarrow> body_state \<Rightarrow> body_state" where
  "body_step (BodyData chunk) b =
     (let b' = b\<lparr>bs_bytes := bs_bytes b + length chunk\<rparr> in
      if MAX_REQUEST_BYTES < bs_bytes b'
      then (settle_body (Inl (JsError (js ''RPC request exceeds maximum size''))) b')\<lparr>bs_destroyed := True\<rparr>
      else b'\<lparr>bs_chunks := bs_chunks b @ [chunk]\<rparr>)"
| "body_step BodyEnds b = settle_body (Inr (utf8_toString (concat (bs_chunks b)))) b"
| "body_step BodyAborted b = settle_body (Inl (JsError (js ''RPC request was aborted''))) b"
| "body_step (BodyFails e) b = settle_body (Inl e) b"

definition readRequestBody :: "body_event list \<Rightarrow> jstr result option" where
  "readRequestBody events = bs_promise (fold body_step events new_body)"

text \<open>Responses.\<close>

definition rpc_error_json :: "RpcError \<Rightarrow> json" where
  "rpc_error_json e = JObj
     ([(js ''code'', JStr (rpc_code e)), (js ''message'', JStr (rpc_message e)), (js ''retryable'', JBool (rpc_retryable e))]
      @ (case rpc_details e of None \<Rightarrow> [] | Some d \<Rightarrow> [(js ''details'', d)]))"

definition rpc_success :: "jstr \<Rightarrow> json \<Rightarrow> json" where
  "rpc_success i result = JObj
     [(js ''schemaVersion'', JNum (JInt RPC_SCHEMA_VERSION)), (js ''requestId'', JStr i),
      (js ''ok'', JBool True), (js ''result'', result)]"

definition rpc_failure :: "jstr \<Rightarrow> RpcError \<Rightarrow> json" where
  "rpc_failure i e = JObj
     [(js ''schemaVersion'', JNum (JInt RPC_SCHEMA_VERSION)), (js ''requestId'', JStr i),
      (js ''ok'', JBool False), (js ''error'', rpc_error_json e)]"

text \<open>The body of \<open>writeJson\<close>; nothing is written once the response has ended or its socket is gone.\<close>

definition writeJson :: "bool \<Rightarrow> json \<Rightarrow> bytes option" where
  "writeJson writable v = (if writable then Some (utf8_encode (JSON_stringify v)) else None)"

text \<open>The \<open>catch\<close> block.\<close>

definition caught_error :: "thrown \<Rightarrow> RpcError" where
  "caught_error e =
     (case e of
        DispatchError r \<Rightarrow> r
      | _ \<Rightarrow> rpc_error ''INVALID_REQUEST'' (if is_error e then error_message e else js ''Invalid RPC request'') False)"

definition unparsed :: jstr where "unparsed = js ''unparsed''"

definition request_id_of :: "json \<Rightarrow> jstr" where
  "request_id_of decoded =
     (case json_get (js ''requestId'') decoded of
        Some (JStr i) \<Rightarrow> if length i > 0 then i else unparsed
      | _ \<Rightarrow> unparsed)"

definition readRequestedSchemaVersion :: "decimals \<Rightarrow> json \<Rightarrow> int option" where
  "readRequestedSchemaVersion dec v =
     (case json_get (js ''schemaVersion'') v of
        Some (JNum n) \<Rightarrow> num_value dec n
      | _ \<Rightarrow> None)"

definition unsupported_version :: "int \<Rightarrow> RpcError" where
  "unsupported_version v =
     \<lparr>rpc_code = js ''UNSUPPORTED_SCHEMA_VERSION'', rpc_message = js ''RPC schema version '' @ js_int v @ js '' is not supported'',
      rpc_retryable = False, rpc_details = Some (JObj [(js ''requested'', JNum (JInt v)),
        (js ''supported'', JArr [JNum (JInt RPC_SCHEMA_VERSION)])])\<rparr>"

text \<open>A request that passed the schema: the deadline, then the dispatch.\<close>

definition answer_parsed :: "checker \<Rightarrow> decimals \<Rightarrow> int \<Rightarrow> 's services \<Rightarrow> json \<Rightarrow> ('s, json) io" where
  "answer_parsed chk dec clock sv rpcRequest =
     (let i = text_field ''requestId'' rpcRequest in
      if deadline_passed dec clock rpcRequest
      then io_return (rpc_failure i (rpc_error ''TIMEOUT'' (js ''RPC deadline exceeded before dispatch'') True))
      else
      io_try
        (io_bind (dispatchRpc chk sv (text_field ''method'' rpcRequest)
            (case json_get (js ''params'') rpcRequest of Some p \<Rightarrow> p | None \<Rightarrow> JNull))
          (\<lambda>result. io_return (rpc_success i result)))
        (\<lambda>e. io_return (rpc_failure i (caught_error e))))"

definition answer_body :: "checker \<Rightarrow> decimals \<Rightarrow> int \<Rightarrow> 's services \<Rightarrow> jstr result \<Rightarrow> ('s, json) io" where
  "answer_body chk dec clock sv body =
     (case bind_res body parse_json of
        Inl e \<Rightarrow> io_return (rpc_failure unparsed (caught_error e))
      | Inr decoded \<Rightarrow>
          (let i = request_id_of decoded in
           case readRequestedSchemaVersion dec decoded of
             Some v \<Rightarrow>
               if v \<noteq> RPC_SCHEMA_VERSION then io_return (rpc_failure i (unsupported_version v))
               else (case parseRpcRequest chk decoded of
                   Inl e \<Rightarrow> io_return (rpc_failure i (caught_error e))
                 | Inr rpcRequest \<Rightarrow> answer_parsed chk dec clock sv rpcRequest)
           | None \<Rightarrow>
               (case parseRpcRequest chk decoded of
                   Inl e \<Rightarrow> io_return (rpc_failure i (caught_error e))
                 | Inr rpcRequest \<Rightarrow> answer_parsed chk dec clock sv rpcRequest)))"

text \<open>The response value, once the body has been read.\<close>

definition handleHttpRequest ::
    "checker \<Rightarrow> decimals \<Rightarrow> int \<Rightarrow> 's services \<Rightarrow> jstr \<Rightarrow> jstr \<Rightarrow> jstr result \<Rightarrow> ('s, json) io" where
  "handleHttpRequest chk dec clock sv method url body =
     (if method \<noteq> js ''POST'' \<or> url \<noteq> js ''/rpc''
      then io_return (rpc_failure unparsed (rpc_error ''METHOD_NOT_FOUND'' (js ''Only POST /rpc is supported'') False))
      else answer_body chk dec clock sv body)"

end
