(* ===== verification/RpcEndToEnd.thy ===== *)
theory RpcEndToEnd
  imports Daemon
begin

text \<open>
  The client and the daemon together: what a call sends is what the daemon dispatches, and what the
  dispatch yields, a result or an error, is what the call settles with.
\<close>

section \<open>JSON over the wire\<close>












section \<open>The schemas of the messages\<close>



lemma any_text: "checks_schemas str_len chk \<Longrightarrow> t \<noteq> [] \<Longrightarrow> chk (TString 1 None) (JStr t)"
  unfolding checks_simps by (auto simp: checks_schemas_def Suc_le_eq)




lemma wf_success [simp]: "wf_json (rpc_success i v) \<longleftrightarrow> wf_json v"
  by (simp add: rpc_success_def)


lemma error_of_json [simp]: "rpc_error_of (rpc_error_json e) = e"
  by (cases "rpc_details e") (simp_all add: rpc_error_of_def rpc_error_json_def text_field_def)

section \<open>A call\<close>







text \<open>The error a failed dispatch is reported as: its own, or \<open>INVALID_REQUEST\<close> with the message of anything else.\<close>

definition reported :: "thrown \<Rightarrow> RpcError" where
  "reported e = (case e of DispatchError r \<Rightarrow> r
     | _ \<Rightarrow> \<lparr>rpc_code = js ''INVALID_REQUEST'', rpc_message = (if is_error e then error_message e else js ''Invalid RPC request''),
             rpc_retryable = False, rpc_details = None\<rparr>)"



definition response_json :: "jstr \<Rightarrow> json result \<Rightarrow> json" where
  "response_json i x = JObj ([(js ''schemaVersion'', JNum (JInt 1)), (js ''requestId'', JStr i)] @
     (case x of
        Inr v \<Rightarrow> [(js ''ok'', JBool True), (js ''result'', v)]
      | Inl e \<Rightarrow> [(js ''ok'', JBool False), (js ''error'', JObj
          ([(js ''code'', JStr (rpc_code (reported e))), (js ''message'', JStr (rpc_message (reported e))),
            (js ''retryable'', JBool (rpc_retryable (reported e)))]
           @ (case rpc_details (reported e) of None \<Rightarrow> [] | Some d \<Rightarrow> [(js ''details'', d)])))]))"




definition sample_call :: "(jstr \<times> json) list" where
  "sample_call = [(js ''requestId'', JStr (js ''r'')), (js ''method'', JStr (js ''operation.get'')),
     (js ''params'', JObj [(js ''operationId'', JStr (js ''o''))])]"


definition sample_operation :: OperationRecord where
  "sample_operation = \<lparr>rec_operationId = js ''o'', rec_kind = js ''k'', rec_fingerprint = js ''f'', rec_state = Running,
     rec_version = 1, rec_result = None, rec_error = None\<rparr>"









abbreviation "sample_response \<equiv> utf8_encode (JSON_stringify (response_json (text_field ''requestId'' (wire_request sample_call))
  (Inr (operation_record_json sample_operation))))"



end
