(* ===== verification/DaemonStart.thy ===== *)
theory DaemonStart
  imports Daemon RegistryInvariant
begin

text \<open>
  \<open>packages/daemon/src/index.ts\<close>, the life of the process: the endpoint is checked and a stale socket removed,
  the database opened and brought up to date, interrupted operations reconciled, then the server listens;
  \<open>close\<close> undoes it. Other processes may act on the endpoint before each system call. The platform, what
  SQLite answers and the texts of the migrations are parameters.
\<close>

section \<open>The host\<close>

datatype platform = Win32 | Darwin | Linux | OtherPlatform

text \<open>What is at the path of the socket; of a socket, whether a process listens on it.\<close>

datatype endpoint = NoEndpoint | NotASocket | SocketFile bool

datatype probe_event = ProbeConnects | ProbeFails thrown | ProbeTimesOut

datatype daemon_event =
    EvSeen endpoint        \<comment> \<open>by \<open>lstat\<close>\<close>
  | EvProbed bool
  | EvUnlinked endpoint
  | EvOpened
  | EvReconciled nat
  | EvListening
  | EvServerClosed
  | EvDatabaseClosed

record interference =
  act_endpoint :: "endpoint \<Rightarrow> endpoint"
  act_error :: "thrown option"
  act_probe :: "probe_event list"

type_synonym daemon_db = "(journal option \<times> registry_schema) sqlite"

record host =
  h_endpoint :: endpoint
  h_sched :: "interference list"
  h_conn :: "connection option"
  h_db :: daemon_db
  h_listening :: bool
  h_ready :: bool
  h_closed :: bool
  h_log :: "daemon_event list"

record daemon_env =
  env_platform :: platform
  env_newDatabase :: "connection result"        \<comment> \<open>\<open>new Database(path)\<close>\<close>
  env_answers :: pragmas
  env_integrity :: json                         \<comment> \<open>the answer of \<open>pragma integrity_check\<close>\<close>
  env_uuid :: jstr
  env_sha256 :: "jstr \<Rightarrow> jstr"
  env_sql_0001 :: jstr
  env_sql_0002 :: jstr
  env_sql_0003 :: jstr
  env_registry :: registry                      \<comment> \<open>the parameters of the registry\<close>

definition emit_event :: "daemon_event \<Rightarrow> host \<Rightarrow> host" where
  "emit_event ev h = h\<lparr>h_log := h_log h @ [ev]\<rparr>"

text \<open>A system call on the endpoint, after what others do; it may fail.\<close>

definition on_endpoint :: "(endpoint \<Rightarrow> 'a result \<times> endpoint \<times> daemon_event list) \<Rightarrow> (host, 'a) io" where
  "on_endpoint f h = (case f (h_endpoint h) of (x, ep, evs) \<Rightarrow> (x, h\<lparr>h_endpoint := ep, h_log := h_log h @ evs\<rparr>))"

definition endpoint_call :: "(endpoint \<Rightarrow> 'a result \<times> endpoint \<times> daemon_event list) \<Rightarrow> (host, 'a) io" where
  "endpoint_call f h =
     (case h_sched h of
        [] \<Rightarrow> on_endpoint f h
      | d # ds \<Rightarrow>
          (let h' = h\<lparr>h_sched := ds, h_endpoint := act_endpoint d (h_endpoint h)\<rparr> in
           case act_error d of Some e \<Rightarrow> (Inl e, h') | None \<Rightarrow> on_endpoint f h'))"

section \<open>The endpoint\<close>

definition unixSocketPathMaximumBytes :: "platform \<Rightarrow> nat" where
  "unixSocketPathMaximumBytes p = (if p = Darwin then 103 else if p = Linux then 107 else 100)"

definition os_lstat_endpoint :: "(host, endpoint) io" where
  "os_lstat_endpoint = endpoint_call (\<lambda>ep.
     if ep = NoEndpoint then (Inl (SysError ENOENT (js ''ENOENT'')), ep, []) else (Inr ep, ep, [EvSeen ep]))"

definition os_unlink_endpoint :: "(host, unit) io" where
  "os_unlink_endpoint = endpoint_call (\<lambda>ep.
     if ep = NoEndpoint then (Inl (SysError ENOENT (js ''ENOENT'')), ep, []) else (Inr (), NoEndpoint, [EvUnlinked ep]))"

text \<open>\<open>isUnixSocketActive\<close>: the promise settles with the first event of the socket.\<close>

definition probe_settle :: "bool result \<Rightarrow> bool result option \<Rightarrow> bool result option" where
  "probe_settle r p = (if p = None then Some r else p)"

definition ECONNREFUSED :: errno where
  "ECONNREFUSED = EOther (js ''ECONNREFUSED'')"

fun probe_step :: "jstr \<Rightarrow> probe_event \<Rightarrow> bool result option \<Rightarrow> bool result option" where
  "probe_step socketPath ProbeConnects = probe_settle (Inr True)"
| "probe_step socketPath (ProbeFails e) =
     probe_settle (if hasErrnoCode e ECONNREFUSED \<or> hasErrnoCode e ENOENT then Inr False else Inl e)"
| "probe_step socketPath ProbeTimesOut =
     probe_settle (Inl (DaemonStartError (js ''IPC_PROBE_TIMEOUT'')
       (js ''Timed out while checking existing IPC endpoint '' @ socketPath)))"

definition isUnixSocketActive :: "jstr \<Rightarrow> probe_event list \<Rightarrow> bool result option" where
  "isUnixSocketActive socketPath events = fold (probe_step socketPath) events None"

fun connect_event :: "endpoint \<Rightarrow> probe_event" where
  "connect_event (SocketFile True) = ProbeConnects"
| "connect_event NoEndpoint = ProbeFails (SysError ENOENT (js ''ENOENT''))"
| "connect_event _ = ProbeFails (SysError ECONNREFUSED (js ''ECONNREFUSED''))"

text \<open>The probe of the endpoint: the kernel answers, unless something comes first.\<close>

definition probe_now :: "jstr \<Rightarrow> probe_event list \<Rightarrow> (host, bool) io" where
  "probe_now socketPath early h =
     (case the (isUnixSocketActive socketPath (early @ [connect_event (h_endpoint h)])) of
        Inl e \<Rightarrow> (Inl e, h)
      | Inr active \<Rightarrow> (Inr active, emit_event (EvProbed active) h))"

definition probe_endpoint :: "jstr \<Rightarrow> (host, bool) io" where
  "probe_endpoint socketPath h =
     (case h_sched h of
        [] \<Rightarrow> probe_now socketPath [] h
      | d # ds \<Rightarrow> probe_now socketPath (act_probe d) (h\<lparr>h_sched := ds, h_endpoint := act_endpoint d (h_endpoint h)\<rparr>))"

definition start_error :: "string \<Rightarrow> jstr \<Rightarrow> thrown" where
  "start_error code message = DaemonStartError (js code) message"

definition path_too_long :: "platform \<Rightarrow> jstr \<Rightarrow> thrown" where
  "path_too_long p socketPath = start_error ''IPC_PATH_TOO_LONG''
     (js ''IPC path is '' @ js_nat (byteLength socketPath) @ js '' bytes; maximum supported length is ''
       @ js_nat (unixSocketPathMaximumBytes p) @ js '' bytes'')"

definition path_occupied :: "jstr \<Rightarrow> thrown" where
  "path_occupied socketPath = start_error ''IPC_PATH_OCCUPIED''
     (js ''IPC path '' @ socketPath @ js '' exists and is not a Unix socket'')"

definition endpoint_in_use :: "jstr \<Rightarrow> thrown" where
  "endpoint_in_use socketPath = start_error ''IPC_ENDPOINT_IN_USE''
     (js ''IPC endpoint '' @ socketPath @ js '' is already owned by an active process'')"

fun is_socket :: "endpoint \<Rightarrow> bool" where
  "is_socket (SocketFile _) \<longleftrightarrow> True"
| "is_socket _ \<longleftrightarrow> False"

definition remove_stale :: "jstr \<Rightarrow> endpoint \<Rightarrow> (host, unit) io" where
  "remove_stale socketPath stats =
     (if \<not> is_socket stats then io_throw (path_occupied socketPath)
      else
      io_bind (probe_endpoint socketPath) (\<lambda>active.
      if active then io_throw (endpoint_in_use socketPath)
      else io_try os_unlink_endpoint (\<lambda>e. if hasErrnoCode e ENOENT then io_return () else io_throw e)))"

definition prepareIpcEndpoint :: "platform \<Rightarrow> jstr \<Rightarrow> (host, unit) io" where
  "prepareIpcEndpoint p socketPath =
     (if p = Win32 then io_return ()
      else if unixSocketPathMaximumBytes p < byteLength socketPath then io_throw (path_too_long p socketPath)
      else
      io_bind (io_try (io_bind os_lstat_endpoint (\<lambda>stats. io_return (Some stats)))
                 (\<lambda>e. if hasErrnoCode e ENOENT then io_return None else io_throw e)) (\<lambda>found.
      case found of None \<Rightarrow> io_return () | Some stats \<Rightarrow> remove_stale socketPath stats))"

section \<open>The database\<close>

text \<open>Two groups of tables under one ledger of migrations.\<close>

definition on_journal :: "(journal option sqlite \<Rightarrow> 'r \<times> journal option sqlite) \<Rightarrow> daemon_db \<Rightarrow> 'r \<times> daemon_db" where
  "on_journal f db =
     (case f \<lparr>schema_migrations = schema_migrations db, tables = fst (tables db)\<rparr> of
        (r, d) \<Rightarrow> (r, \<lparr>schema_migrations = schema_migrations d, tables = (tables d, snd (tables db))\<rparr>))"

definition on_registry :: "(registry_schema sqlite \<Rightarrow> 'r \<times> registry_schema sqlite) \<Rightarrow> daemon_db \<Rightarrow> 'r \<times> daemon_db" where
  "on_registry f db =
     (case f \<lparr>schema_migrations = schema_migrations db, tables = snd (tables db)\<rparr> of
        (r, d) \<Rightarrow> (r, \<lparr>schema_migrations = schema_migrations d, tables = (fst (tables db), tables d)\<rparr>))"

definition OPERATION_JOURNAL_MIGRATION :: "jstr \<Rightarrow> SqliteMigration" where
  "OPERATION_JOURNAL_MIGRATION sql_0001 = \<lparr>migration_id = js ''0001-operation-journal'', migration_sql = sql_0001\<rparr>"

definition journal_exec :: "jstr \<Rightarrow> jstr \<Rightarrow> journal option \<Rightarrow> unit result \<times> journal option" where
  "journal_exec sql_0001 sql t =
     (if sql \<noteq> sql_0001 then (Inl (constraint_error ''unknown script''), t)
      else (case t of
          None \<Rightarrow> (Inr (), Some [])
        | Some _ \<Rightarrow> (Inl (constraint_error ''table operation_journal already exists''), t)))"

text \<open>The constructor of \<open>OperationJournal\<close>.\<close>

definition newOperationJournal :: "(jstr \<Rightarrow> jstr) \<Rightarrow> jstr \<Rightarrow> journal option sqlite \<Rightarrow> unit result \<times> journal option sqlite" where
  "newOperationJournal sha sql_0001 db =
     (case applyMigrations (journal_exec sql_0001) sha [OPERATION_JOURNAL_MIGRATION sql_0001] db of
        (Inl e, db') \<Rightarrow> (Inl e, db')
      | (Inr _, db') \<Rightarrow> (Inr (), db'))"

definition integrityCheck :: "json \<Rightarrow> jstr result" where
  "integrityCheck answer =
     (case answer of
        JStr s \<Rightarrow> Inr s
      | _ \<Rightarrow> Inl (JsError (js ''SQLite integrity_check returned an unexpected result'')))"

definition in_daemon_db :: "(daemon_db \<Rightarrow> 'a result \<times> daemon_db) \<Rightarrow> (host, 'a) io" where
  "in_daemon_db f h = (case f (h_db h) of (x, db) \<Rightarrow> (x, h\<lparr>h_db := db\<rparr>))"

text \<open>\<open>journal.reconcileInterrupted()\<close>\<close>

definition reconcile_journal :: "(host, unit) io" where
  "reconcile_journal h =
     (case fst (tables (h_db h)) of
        None \<Rightarrow> (Inl (constraint_error ''no such table: operation_journal''), h)
      | Some j \<Rightarrow>
          (case reconcileInterrupted j of
             (n, j') \<Rightarrow> (Inr (), emit_event (EvReconciled n) (h\<lparr>h_db := (h_db h)\<lparr>tables := (Some j', snd (tables (h_db h)))\<rparr>\<rparr>))))"

definition open_database :: "daemon_env \<Rightarrow> (host, unit) io" where
  "open_database env h =
     (case env_newDatabase env of
        Inl e \<Rightarrow> (Inl e, h)
      | Inr fresh \<Rightarrow>
          (case openSqliteDatabase None (env_answers env) fresh of
             (Inl e, c) \<Rightarrow> (Inl e, h\<lparr>h_conn := c\<rparr>)
           | (Inr c, _) \<Rightarrow> (Inr (), emit_event EvOpened (h\<lparr>h_conn := Some c\<rparr>))))"

definition close_database :: "(host, unit) io" where
  "close_database h = (Inr (), emit_event EvDatabaseClosed (h\<lparr>h_conn := map_option close (h_conn h)\<rparr>))"

section \<open>The server\<close>

text \<open>\<open>listenOnIpc\<close>: \<open>bind\<close> fails when something is at the path. Closing the server removes its socket.\<close>

definition listenOnIpc :: "(host, unit) io" where
  "listenOnIpc =
     io_bind (endpoint_call (\<lambda>ep.
        if ep = NoEndpoint then (Inr (), SocketFile True, [EvListening])
        else (Inl (SysError (EOther (js ''EADDRINUSE'')) (js ''listen EADDRINUSE'')), ep, []))) (\<lambda>_ h.
     (Inr (), h\<lparr>h_listening := True\<rparr>))"

definition closeHttpServer :: "(host, unit) io" where
  "closeHttpServer h =
     (if \<not> h_listening h then (Inr (), h)
      else io_bind (endpoint_call (\<lambda>ep. (Inr (), NoEndpoint, [EvServerClosed]))) (\<lambda>_ h'.
             (Inr (), h'\<lparr>h_listening := False\<rparr>)) h)"

section \<open>\<open>startDaemon\<close> and \<open>close\<close>\<close>

text \<open>\<open>join(dirname(resolve(databasePath)), 'worktrees')\<close>\<close>

definition default_worktreeRoot :: "registry \<Rightarrow> jstr \<Rightarrow> jstr" where
  "default_worktreeRoot base databasePath = path_text (butlast (resolve_path base databasePath) @ [js ''worktrees''])"

definition registry_options :: "daemon_env \<Rightarrow> jstr \<Rightarrow> jstr option \<Rightarrow> WorkspaceRegistryOptions" where
  "registry_options env databasePath worktreeRoot =
     \<lparr>opt_ownerInstance = Some (js ''daemon_'' @ env_uuid env),
      opt_worktreeRoot = Some (case worktreeRoot of
        Some root \<Rightarrow> root | None \<Rightarrow> default_worktreeRoot (env_registry env) databasePath)\<rparr>"

text \<open>The \<open>try\<close> block up to \<open>ready = true\<close>.\<close>

definition run_server :: "daemon_env \<Rightarrow> jstr \<Rightarrow> jstr option \<Rightarrow> (host, jstr) io" where
  "run_server env databasePath worktreeRoot =
     io_bind (in_daemon_db (on_journal (newOperationJournal (env_sha256 env) (env_sql_0001 env)))) (\<lambda>_.
     io_bind reconcile_journal (\<lambda>_.
     io_bind (in_daemon_db (on_registry (newWorkspaceRegistry (env_registry env)
        (registry_options env databasePath worktreeRoot) (env_sha256 env) (env_sql_0002 env) (env_sql_0003 env)))) (\<lambda>_.
     io_bind (io_result (integrityCheck (env_integrity env))) (\<lambda>storageIntegrity.
     io_bind (io_unless (storageIntegrity = js ''ok'') (JsError (js ''SQLite integrity check failed: '' @ storageIntegrity))) (\<lambda>_.
     io_bind listenOnIpc (\<lambda>_ h.
     (Inr (js ''daemon_'' @ env_uuid env), h\<lparr>h_ready := True\<rparr>)))))))"

definition startDaemon :: "daemon_env \<Rightarrow> jstr \<Rightarrow> jstr \<Rightarrow> jstr option \<Rightarrow> (host, jstr) io" where
  "startDaemon env databasePath socketPath worktreeRoot =
     (if length databasePath = 0 then io_throw (TypeError (js ''databasePath must not be empty''))
      else if length socketPath = 0 then io_throw (TypeError (js ''socketPath must not be empty''))
      else if worktreeRoot = Some [] then io_throw (TypeError (js ''worktreeRoot must not be empty''))
      else
      io_bind (prepareIpcEndpoint (env_platform env) socketPath) (\<lambda>_.
      io_bind (open_database env) (\<lambda>_.
      io_try (run_server env databasePath worktreeRoot) (\<lambda>e.
        io_bind closeHttpServer (\<lambda>_.
        io_bind close_database (\<lambda>_.
        io_throw e))))))"

definition daemon_close :: "(host, unit) io" where
  "daemon_close h =
     (if h_closed h then (Inr (), h)
      else io_bind closeHttpServer (\<lambda>_. close_database) (h\<lparr>h_closed := True, h_ready := False\<rparr>))"

section \<open>What a start leaves behind\<close>

text \<open>The step touched the endpoint only, and logged \<open>evs\<close>.\<close>

definition endpoint_step :: "host \<Rightarrow> daemon_event list \<Rightarrow> host \<Rightarrow> bool" where
  "endpoint_step h evs h' \<longleftrightarrow>
     h_conn h' = h_conn h \<and> h_db h' = h_db h \<and> h_listening h' = h_listening h \<and> h_ready h' = h_ready h
     \<and> h_closed h' = h_closed h \<and> h_log h' = h_log h @ evs"

lemma endpoint_step_trans: "endpoint_step h a h1 \<Longrightarrow> endpoint_step h1 b h2 \<Longrightarrow> endpoint_step h (a @ b) h2"
  by (simp add: endpoint_step_def)

lemma endpoint_step_refl [simp]: "endpoint_step h [] h"
  by (simp add: endpoint_step_def)

lemma endpoint_call_cases:
  assumes "endpoint_call f h = (x, h')"
  obtains e where "x = Inl e" "endpoint_step h [] h'"
  | ep ep' evs where "f ep = (x, ep', evs)" "endpoint_step h evs h'"
proof -
  have on: "\<exists>ep' evs. f (h_endpoint k) = (x, ep', evs) \<and> h' = k\<lparr>h_endpoint := ep', h_log := h_log k @ evs\<rparr>"
    if "on_endpoint f k = (x, h')" for k
    using that by (auto simp: on_endpoint_def split: prod.splits)
  show thesis
  proof (cases "h_sched h")
    case Nil
    with assms on [of h] obtain ep' evs where "f (h_endpoint h) = (x, ep', evs)"
        "h' = h\<lparr>h_endpoint := ep', h_log := h_log h @ evs\<rparr>" by (auto simp: endpoint_call_def)
    then show thesis using that(2) [of "h_endpoint h" ep' evs]
      by (simp add: endpoint_step_def)
  next
    case (Cons d ds)
    let ?k = "h\<lparr>h_sched := ds, h_endpoint := act_endpoint d (h_endpoint h)\<rparr>"
    show thesis
    proof (cases "act_error d")
      case None
      with assms Cons on [of ?k] obtain ep' evs where "f (h_endpoint ?k) = (x, ep', evs)"
          "h' = ?k\<lparr>h_endpoint := ep', h_log := h_log h @ evs\<rparr>" by (auto simp: endpoint_call_def Let_def)
      then show thesis using that(2) [of "h_endpoint ?k" ep' evs] by (auto simp: endpoint_step_def)
    next
      case (Some e)
      with assms Cons have "x = Inl e" "h' = ?k" by (auto simp: endpoint_call_def Let_def)
      then show thesis using that(1) [of e] by (auto simp: endpoint_step_def)
    qed
  qed
qed

text \<open>What the check of the endpoint can log: an unlink only after it saw a socket whose probe found no owner.\<close>

inductive endpoint_log :: "daemon_event list \<Rightarrow> bool" where
  "endpoint_log []"
| "endpoint_log [EvSeen ep]"
| "endpoint_log [EvSeen (SocketFile q), EvProbed a]"
| "endpoint_log [EvSeen (SocketFile q), EvProbed False, EvUnlinked ep]"

inductive_simps endpoint_log_simps: "endpoint_log evs"

lemma probe_now_logs:
  assumes "probe_now socketPath early h = (x, h')"
  shows "(\<exists>e. x = Inl e \<and> endpoint_step h [] h') \<or> (\<exists>a. x = Inr a \<and> endpoint_step h [EvProbed a] h')"
proof (cases "the (isUnixSocketActive socketPath (early @ [connect_event (h_endpoint h)]))")
  case (Inl e)
  with assms have "x = Inl e" "h' = h" by (simp_all add: probe_now_def)
  then show ?thesis by simp
next
  case (Inr a)
  with assms have "x = Inr a" "h' = emit_event (EvProbed a) h" by (simp_all add: probe_now_def)
  then show ?thesis by (simp add: endpoint_step_def emit_event_def)
qed

lemma probe_logs:
  assumes "probe_endpoint socketPath h = (x, h')"
  shows "(\<exists>e. x = Inl e \<and> endpoint_step h [] h') \<or> (\<exists>a. x = Inr a \<and> endpoint_step h [EvProbed a] h')"
proof (cases "h_sched h")
  case Nil
  with assms have "probe_now socketPath [] h = (x, h')" by (simp add: probe_endpoint_def)
  from probe_now_logs [OF this] show ?thesis .
next
  case (Cons d ds)
  with assms have "probe_now socketPath (act_probe d) (h\<lparr>h_sched := ds, h_endpoint := act_endpoint d (h_endpoint h)\<rparr>) = (x, h')"
    by (simp add: probe_endpoint_def)
  from probe_now_logs [OF this] show ?thesis by (simp add: endpoint_step_def)
qed

lemma lstat_logs:
  assumes "os_lstat_endpoint h = (x, h')"
  shows "(\<exists>e. x = Inl e \<and> endpoint_step h [] h') \<or> (\<exists>ep. x = Inr ep \<and> endpoint_step h [EvSeen ep] h')"
  using assms unfolding os_lstat_endpoint_def by (elim endpoint_call_cases) (auto split: if_splits)

lemma unlink_logs:
  assumes "os_unlink_endpoint h = (x, h')"
  shows "(\<exists>e. x = Inl e \<and> endpoint_step h [] h') \<or> (\<exists>ep. x = Inr () \<and> endpoint_step h [EvUnlinked ep] h')"
  using assms unfolding os_unlink_endpoint_def by (elim endpoint_call_cases) (auto split: if_splits)

lemma remove_stale_logs:
  assumes "remove_stale socketPath stats h = (x, h')" "endpoint_step h0 [EvSeen stats] h"
  shows "\<exists>evs. endpoint_log evs \<and> endpoint_step h0 evs h'"
proof (cases "is_socket stats")
  case False
  with assms show ?thesis by (auto simp: remove_stale_def io_defs intro: endpoint_log.intros)
next
  case True
  then obtain q where q: "stats = SocketFile q" by (cases stats) auto
  from assms(1) True obtain y h1 where p: "probe_endpoint socketPath h = (y, h1)"
    by (cases "probe_endpoint socketPath h")
  show ?thesis
  proof (cases "y = Inr False")
    case False
    with assms(1) True p have "h' = h1" by (auto simp: remove_stale_def io_defs split: sum.splits if_splits)
    with probe_logs [OF p] show ?thesis
      using endpoint_step_trans [OF assms(2)] endpoint_log.intros(2,3) q by fastforce
  next
    case y: True
    from probe_logs [OF p] y have step: "endpoint_step h0 [EvSeen (SocketFile q), EvProbed False] h1"
      using endpoint_step_trans [OF assms(2)] q by fastforce
    obtain z where "os_unlink_endpoint h1 = (z, h')"
      using assms(1) True p y by (auto simp: remove_stale_def io_defs split: sum.splits if_splits prod.splits)
    from unlink_logs [OF this] show ?thesis
      using endpoint_step_trans [OF step] endpoint_log.intros(3,4) step by fastforce
  qed
qed

lemma prepare_logs:
  assumes "prepareIpcEndpoint p socketPath h = (x, h')"
  shows "\<exists>evs. endpoint_log evs \<and> endpoint_step h evs h'"
proof -
  have none: "\<exists>evs. endpoint_log evs \<and> endpoint_step h evs h" using endpoint_log.intros(1) endpoint_step_refl by blast
  obtain y h1 where l: "os_lstat_endpoint h = (y, h1)" by (cases "os_lstat_endpoint h")
  show ?thesis
  proof (cases y)
    case (Inl e)
    with lstat_logs [OF l] have step: "endpoint_step h [] h1" by simp
    have "h' = h \<or> h' = h1"
      using assms l Inl by (auto simp: prepareIpcEndpoint_def io_defs split: if_splits)
    with step none show ?thesis using endpoint_log.intros(1) by blast
  next
    case (Inr stats)
    with lstat_logs [OF l] have step: "endpoint_step h [EvSeen stats] h1" by simp
    have "h' = h \<or> remove_stale socketPath stats h1 = (x, h')"
      using assms l Inr by (auto simp: prepareIpcEndpoint_def io_defs split: if_splits)
    with none remove_stale_logs [OF _ step] show ?thesis by blast
  qed
qed

lemma open_database_cases:
  assumes "open_database env h = (x, h')" "h_conn h = None"
  shows "h_listening h' = h_listening h" "h_ready h' = h_ready h" "h_db h' = h_db h"
    and "\<And>e. x = Inl e \<Longrightarrow> h_log h' = h_log h \<and> (\<forall>c. h_conn h' = Some c \<and> conn_open c \<longrightarrow> e = policy_error)"
    and "x = Inr () \<Longrightarrow> h_log h' = h_log h @ [EvOpened] \<and>
      (\<exists>c settings. h_conn h' = Some c \<and> getSettings (conn_pragmas c) = Inr settings)"
proof -
  show "h_listening h' = h_listening h" "h_ready h' = h_ready h" "h_db h' = h_db h"
    using assms by (auto simp: open_database_def emit_event_def split: sum.splits prod.splits)
  show "h_log h' = h_log h \<and> (\<forall>c. h_conn h' = Some c \<and> conn_open c \<longrightarrow> e = policy_error)" if "x = Inl e" for e
    using assms that
    by (auto simp: open_database_def openSqliteDatabase_def bootstrapWritableConnection_def getSettings_def close_def Let_def
        emit_event_def split: sum.splits prod.splits if_splits json.splits)
  show "h_log h' = h_log h @ [EvOpened] \<and> (\<exists>c settings. h_conn h' = Some c \<and> getSettings (conn_pragmas c) = Inr settings)" if "x = Inr ()"
  proof -
    from assms that obtain fresh c r where c: "openSqliteDatabase None (env_answers env) fresh = (Inr c, r)"
      "h_conn h' = Some c" "h_log h' = h_log h @ [EvOpened]"
      by (auto simp: open_database_def emit_event_def split: sum.splits prod.splits)
    with open_policy [OF c(1)] show ?thesis by blast
  qed
qed

definition interrupted :: "journal \<Rightarrow> bool" where
  "interrupted j \<longleftrightarrow> (\<exists>(i, row) \<in> set j. row_state row \<in> {js ''accepted'', js ''running''})"

lemma reconcile_clears: "reconcileInterrupted j = (n, j') \<Longrightarrow> \<not> interrupted j'"
  by (auto simp: reconcileInterrupted_def sql_update_def interrupted_def split: if_splits)

lemma listen_cases:
  assumes "listenOnIpc h = (x, h')"
  shows "(\<exists>e. x = Inl e \<and> endpoint_step h [] h') \<or>
     (x = Inr () \<and> h_listening h' \<and> h_conn h' = h_conn h \<and> h_db h' = h_db h \<and> h_ready h' = h_ready h \<and> h_log h' = h_log h @ [EvListening])"
proof -
  obtain y h1 where c: "endpoint_call (\<lambda>ep. if ep = NoEndpoint then (Inr (), SocketFile True, [EvListening])
        else (Inl (SysError (EOther (js ''EADDRINUSE'')) (js ''listen EADDRINUSE'')), ep, [])) h = (y, h1)"
    by fastforce
  then have "(\<exists>e. y = Inl e \<and> endpoint_step h [] h1) \<or> (y = Inr () \<and> endpoint_step h [EvListening] h1)"
    by (elim endpoint_call_cases) (auto split: if_splits)
  with assms c show ?thesis by (auto simp: listenOnIpc_def io_bind_def endpoint_step_def split: sum.splits)
qed

text \<open>The steps before the server listens change the tables and log the reconciliation.\<close>

definition table_step :: "host \<Rightarrow> daemon_event list \<Rightarrow> host \<Rightarrow> bool" where
  "table_step h evs h' \<longleftrightarrow> h_conn h' = h_conn h \<and> h_listening h' = h_listening h \<and> h_ready h' = h_ready h \<and> h_log h' = h_log h @ evs"

lemma in_daemon_db_step: "in_daemon_db f h = (x, h') \<Longrightarrow> table_step h [] h'"
  by (auto simp: in_daemon_db_def table_step_def split: prod.splits)

lemma reconcile_step:
  "reconcile_journal h = (x, h') \<Longrightarrow>
   (\<exists>e. x = Inl e \<and> table_step h [] h') \<or>
   (\<exists>n j. x = Inr () \<and> table_step h [EvReconciled n] h' \<and> fst (tables (h_db h')) = Some j \<and> \<not> interrupted j)"
  by (auto simp: reconcile_journal_def table_step_def emit_event_def reconcile_clears split: option.splits prod.splits)

lemma on_registry_journal: "in_daemon_db (on_registry f) h = (x, h') \<Longrightarrow> fst (tables (h_db h')) = fst (tables (h_db h))"
  by (auto simp: in_daemon_db_def on_registry_def split: prod.splits)

lemma table_step_trans: "table_step h a h1 \<Longrightarrow> table_step h1 b h2 \<Longrightarrow> table_step h (a @ b) h2"
  by (simp add: table_step_def)

lemma table_step_endpoint: "endpoint_step h evs h' \<Longrightarrow> table_step h evs h'"
  by (simp add: endpoint_step_def table_step_def)

lemma integrity_ok: "integrityCheck v = Inr s \<longleftrightarrow> v = JStr s"
  by (auto simp: integrityCheck_def split: json.splits)

definition failed_before_listening :: "host \<Rightarrow> host \<Rightarrow> bool" where
  "failed_before_listening h h' \<longleftrightarrow> (\<exists>evs. table_step h evs h' \<and> set evs \<subseteq> range EvReconciled)"

lemma failed_before_listeningI: "table_step h [] h' \<Longrightarrow> failed_before_listening h h'"
    "table_step h [EvReconciled n] h' \<Longrightarrow> failed_before_listening h h'"
  by (auto simp: failed_before_listening_def)

lemma run_server_cases:
  assumes "run_server env databasePath worktreeRoot h = (x, h')"
  shows "(\<exists>e. x = Inl e \<and> failed_before_listening h h') \<or>
    (\<exists>n j. x = Inr (js ''daemon_'' @ env_uuid env) \<and> env_integrity env = JStr (js ''ok'') \<and> h_listening h' \<and> h_ready h'
       \<and> h_conn h' = h_conn h \<and> h_log h' = h_log h @ [EvReconciled n, EvListening]
       \<and> fst (tables (h_db h')) = Some j \<and> \<not> interrupted j)"
proof -
  let ?new = "in_daemon_db (on_journal (newOperationJournal (env_sha256 env) (env_sql_0001 env)))"
  let ?reg = "in_daemon_db (on_registry (newWorkspaceRegistry (env_registry env) (registry_options env databasePath worktreeRoot)
      (env_sha256 env) (env_sql_0002 env) (env_sql_0003 env)))"
  from assms obtain y1 h1 where new: "?new h = (y1, h1)" by fastforce
  note s1 = in_daemon_db_step [OF new]
  show ?thesis
  proof (cases y1)
    case (Inl e)
    with assms new have "x = Inl e" "h' = h1" by (simp_all add: run_server_def io_bind_def)
    with s1 show ?thesis by (simp add: failed_before_listeningI)
  next
    case y1: (Inr u1)
    obtain y2 h2 where rec: "reconcile_journal h1 = (y2, h2)" by fastforce
    show ?thesis
    proof (cases y2)
      case (Inl e)
      with assms new rec y1 have "x = Inl e" "h' = h2" by (simp_all add: run_server_def io_bind_def)
      with Inl reconcile_step [OF rec] table_step_trans [OF s1] show ?thesis by (auto simp: failed_before_listeningI)
    next
      case y2: (Inr u2)
      with reconcile_step [OF rec] obtain n j where r: "table_step h1 [EvReconciled n] h2" "fst (tables (h_db h2)) = Some j" "\<not> interrupted j"
        by auto
      obtain y3 h3 where reg: "?reg h2 = (y3, h3)" by fastforce
      have s3: "table_step h [EvReconciled n] h3"
        using table_step_trans [OF table_step_trans [OF s1 r(1)] in_daemon_db_step [OF reg]] by simp
      have j3: "fst (tables (h_db h3)) = Some j" using on_registry_journal [OF reg] r(2) by simp
      show ?thesis
      proof (cases "(\<exists>cfg. y3 = Inr cfg) \<and> env_integrity env = JStr (js ''ok'')")
        case False
        with assms new rec reg y1 y2 have "\<exists>e. x = Inl e" "h' = h3"
          by (auto simp: run_server_def io_defs require_def integrityCheck_def split: sum.splits json.splits if_splits)
        with s3 show ?thesis by (auto simp: failed_before_listeningI)
      next
        case True
        obtain y4 h4 where l: "listenOnIpc h3 = (y4, h4)" by fastforce
        show ?thesis
          using listen_cases [OF l] assms new rec reg y1 y2 True l s3 j3 r(3) table_step_trans [OF s3 table_step_endpoint, of "[]"]
          by (auto simp: run_server_def io_defs require_def integrityCheck_def table_step_def failed_before_listeningI)
      qed
    qed
  qed
qed

definition fresh_host :: "host \<Rightarrow> bool" where
  "fresh_host h \<longleftrightarrow> h_conn h = None \<and> \<not> h_listening h \<and> \<not> h_ready h \<and> \<not> h_closed h \<and> h_log h = []"

text \<open>Every unlink follows an inactive probe of a socket.\<close>

definition unlinks_stale_only :: "daemon_event list \<Rightarrow> bool" where
  "unlinks_stale_only evs \<longleftrightarrow>
     (\<forall>before ep rest. evs = before @ EvUnlinked ep # rest \<longrightarrow> (\<exists>q. before = [EvSeen (SocketFile q), EvProbed False]))"

lemma unlinks_stale_onlyI:
  assumes "endpoint_log evs" "\<And>ep. EvUnlinked ep \<notin> set later"
  shows "unlinks_stale_only (evs @ later)"
  unfolding unlinks_stale_only_def
proof (intro allI impI)
  fix "before" ep rest assume e: "evs @ later = before @ EvUnlinked ep # rest"
  have "EvUnlinked ep \<notin> set later" by (rule assms(2))
  with e obtain us where "evs = before @ EvUnlinked ep # us"
    by (auto simp: append_eq_append_conv2) (metis append_Nil hd_append2 list.sel(1) list.set_intros(1) list.exhaust_sel)
  with assms(1) show "\<exists>q. before = [EvSeen (SocketFile q), EvProbed False]"
    by (auto simp: endpoint_log_simps Cons_eq_append_conv append_eq_Cons_conv)
qed

text \<open>The cleanup of a failed start closes the connection; the server never listened.\<close>

lemma cleanup_closes:
  assumes "io_bind closeHttpServer (\<lambda>_. io_bind close_database (\<lambda>_. io_throw e)) h = (x, h')" "\<not> h_listening h"
  shows "x = Inl e \<and> h' = emit_event EvDatabaseClosed (h\<lparr>h_conn := map_option close (h_conn h)\<rparr>)"
  using assms by (auto simp: io_defs closeHttpServer_def close_database_def)

lemma close_closes [simp]: "\<not> conn_open (close c)"
  by (simp add: close_def)

lemma map_option_close: "map_option close c = Some d \<Longrightarrow> \<not> conn_open d"
  by auto

text \<open>The part of a start after the endpoint has been prepared.\<close>

lemma started_after_prepare:
  assumes "io_bind (open_database env) (\<lambda>_. io_try (run_server env databasePath worktreeRoot) (\<lambda>e.
      io_bind closeHttpServer (\<lambda>_. io_bind close_database (\<lambda>_. io_throw e)))) h = (x, h')"
    and "h_conn h = None" "\<not> h_listening h" "\<not> h_ready h"
  shows "(\<exists>e later. x = Inl e \<and> \<not> h_listening h' \<and> \<not> h_ready h' \<and> h_log h' = h_log h @ later \<and> (\<forall>ep. EvUnlinked ep \<notin> set later)
       \<and> (\<forall>c. h_conn h' = Some c \<and> conn_open c \<longrightarrow> e = policy_error)) \<or>
    (\<exists>n j c settings. x = Inr (js ''daemon_'' @ env_uuid env) \<and> env_integrity env = JStr (js ''ok'') \<and> h_listening h' \<and> h_ready h'
       \<and> h_conn h' = Some c \<and> getSettings (conn_pragmas c) = Inr settings \<and> h_log h' = h_log h @ [EvOpened, EvReconciled n, EvListening]
       \<and> fst (tables (h_db h')) = Some j \<and> \<not> interrupted j)"
proof -
  obtain y h1 where o: "open_database env h = (y, h1)" by fastforce
  note o' = open_database_cases [OF o assms(2)]
  show ?thesis
  proof (cases y)
    case (Inl e)
    with assms(1) o have "x = Inl e" "h' = h1" by (simp_all add: io_bind_def)
    with o' Inl assms(3,4) show ?thesis by (intro disjI1 exI [of _ e] exI [of _ "[]"]) simp
  next
    case (Inr u)
    then have log: "h_log h1 = h_log h @ [EvOpened]" and conn: "\<exists>c settings. h_conn h1 = Some c \<and> getSettings (conn_pragmas c) = Inr settings"
      using o'(5) by auto
    obtain z h2 where r: "run_server env databasePath worktreeRoot h1 = (z, h2)" by fastforce
    show ?thesis
    proof (cases z)
      case z: (Inl e)
      with run_server_cases [OF r] obtain evs where t: "table_step h1 evs h2" "set evs \<subseteq> range EvReconciled"
        by (auto simp: failed_before_listening_def)
      have "\<not> h_listening h2" "\<not> h_ready h2" using t(1) o' assms(3,4) by (simp_all add: table_step_def)
      with assms(1) o Inr r z have "x = Inl e" "h' = emit_event EvDatabaseClosed (h2\<lparr>h_conn := map_option close (h_conn h2)\<rparr>)"
        using cleanup_closes [of e h2 x h'] by (simp_all add: io_bind_def io_try_def)
      then show ?thesis
        using t log \<open>\<not> h_listening h2\<close> \<open>\<not> h_ready h2\<close> map_option_close [of "h_conn h2"]
        by (intro disjI1 exI [of _ e] exI [of _ "EvOpened # evs @ [EvDatabaseClosed]"]) (auto simp: emit_event_def table_step_def)
    next
      case z: (Inr i)
      with assms(1) o Inr r have "x = Inr i" "h' = h2" by (simp_all add: io_bind_def io_try_def)
      from run_server_cases [OF r] z obtain n j where ok: "i = js ''daemon_'' @ env_uuid env" "env_integrity env = JStr (js ''ok'')"
        "h_listening h2" "h_ready h2" "h_conn h2 = h_conn h1" "h_log h2 = h_log h1 @ [EvReconciled n, EvListening]"
        "fst (tables (h_db h2)) = Some j" "\<not> interrupted j" by auto
      from conn obtain c settings where "h_conn h1 = Some c" "getSettings (conn_pragmas c) = Inr settings" by blast
      with ok log \<open>x = Inr i\<close> \<open>h' = h2\<close> show ?thesis
        by (intro disjI2 exI [of _ n] exI [of _ j] exI [of _ c] exI [of _ settings]) simp
    qed
  qed
qed

text \<open>C36. Whatever other processes do to the endpoint meanwhile: a start that succeeds returns the id of the
  instance with the server listening and ready on a connection that has the durability policy, the
  integrity check answered \<open>ok\<close>, and no operation of the journal is left accepted or running, which
  happened before the server listened. A start that fails leaves nothing listening and nothing ready, and
  the connection closed if one was opened, unless the durability policy itself was refused. In both cases
  the only thing removed from the path is what followed a socket that refused the probe.\<close>

theorem startDaemon_outcomes:
  assumes "startDaemon env databasePath socketPath worktreeRoot h = (x, h')" "fresh_host h"
  shows "unlinks_stale_only (h_log h') \<and>
    (case x of
       Inl e \<Rightarrow> \<not> h_listening h' \<and> \<not> h_ready h' \<and> (\<forall>c. h_conn h' = Some c \<and> conn_open c \<longrightarrow> e = policy_error)
     | Inr i \<Rightarrow> i = js ''daemon_'' @ env_uuid env \<and> h_listening h' \<and> h_ready h' \<and> env_integrity env = JStr (js ''ok'')
         \<and> (\<exists>c settings. h_conn h' = Some c \<and> getSettings (conn_pragmas c) = Inr settings)
         \<and> (\<exists>j. fst (tables (h_db h')) = Some j \<and> \<not> interrupted j)
         \<and> (\<exists>before n. h_log h' = before @ [EvOpened, EvReconciled n, EvListening]))"
proof (cases "databasePath = [] \<or> socketPath = [] \<or> worktreeRoot = Some []")
  case True
  then have "\<exists>e. x = Inl e" "h' = h" using assms(1) by (auto simp: startDaemon_def io_throw_def split: if_splits)
  with assms(2) show ?thesis by (auto simp: fresh_host_def unlinks_stale_only_def)
next
  case False
  obtain y h1 where p: "prepareIpcEndpoint (env_platform env) socketPath h = (y, h1)" by fastforce
  from prepare_logs [OF p] obtain evs where evs: "endpoint_log evs" "endpoint_step h evs h1" by blast
  note fresh = assms(2) [unfolded fresh_host_def]
  have log1: "h_log h1 = evs" using evs(2) fresh by (simp add: endpoint_step_def)
  show ?thesis
  proof (cases y)
    case (Inl e)
    with assms(1) False p have "x = Inl e" "h' = h1" by (simp_all add: startDaemon_def io_bind_def)
    then show ?thesis
      using unlinks_stale_onlyI [OF evs(1), of "[]"] evs(2) fresh log1 by (simp add: endpoint_step_def)
  next
    case (Inr u)
    with assms(1) False p have run: "io_bind (open_database env) (\<lambda>_. io_try (run_server env databasePath worktreeRoot) (\<lambda>e.
        io_bind closeHttpServer (\<lambda>_. io_bind close_database (\<lambda>_. io_throw e)))) h1 = (x, h')"
      by (simp add: startDaemon_def io_bind_def)
    from evs(2) fresh have "h_conn h1 = None" "\<not> h_listening h1" "\<not> h_ready h1" by (simp_all add: endpoint_step_def)
    from started_after_prepare [OF run this] show ?thesis
    proof (elim disjE exE conjE)
      fix e later
      assume "x = Inl e" "\<not> h_listening h'" "\<not> h_ready h'" "h_log h' = h_log h1 @ later" "\<forall>ep. EvUnlinked ep \<notin> set later"
        "\<forall>c. h_conn h' = Some c \<and> conn_open c \<longrightarrow> e = policy_error"
      then show ?thesis using unlinks_stale_onlyI [OF evs(1), of later] log1 by simp
    next
      fix n j c settings
      assume "x = Inr (js ''daemon_'' @ env_uuid env)" "env_integrity env = JStr (js ''ok'')" "h_listening h'" "h_ready h'"
        "h_conn h' = Some c" "getSettings (conn_pragmas c) = Inr settings"
        "h_log h' = h_log h1 @ [EvOpened, EvReconciled n, EvListening]" "fst (tables (h_db h')) = Some j" "\<not> interrupted j"
      then show ?thesis
        using unlinks_stale_onlyI [OF evs(1), of "[EvOpened, EvReconciled n, EvListening]"] log1 by simp
    qed
  qed
qed

section \<open>An endpoint left alone\<close>

lemma quiet_call: "h_sched h = [] \<Longrightarrow> endpoint_call f h = on_endpoint f h"
  by (simp add: endpoint_call_def)

text \<open>C37. When nothing else happens at the path, a start respects what it finds there: a path longer than the
  platform allows, something that is not a socket, or a socket another process listens on makes it fail
  with the error that names the reason, with the endpoint as it was, the database neither opened nor
  changed and nothing removed.\<close>

theorem endpoint_respected:
  assumes "h_sched h = []" "fresh_host h" "env_platform env \<noteq> Win32"
    and "databasePath \<noteq> []" "socketPath \<noteq> []" "worktreeRoot \<noteq> Some []"
    and "unixSocketPathMaximumBytes (env_platform env) < byteLength socketPath \<or> h_endpoint h = NotASocket \<or> h_endpoint h = SocketFile True"
  shows "\<exists>evs. startDaemon env databasePath socketPath worktreeRoot h =
     (Inl (if unixSocketPathMaximumBytes (env_platform env) < byteLength socketPath
           then path_too_long (env_platform env) socketPath
           else if h_endpoint h = NotASocket then path_occupied socketPath else endpoint_in_use socketPath),
      h\<lparr>h_log := evs\<rparr>)"
proof -
  let ?e = "if unixSocketPathMaximumBytes (env_platform env) < byteLength socketPath
      then path_too_long (env_platform env) socketPath
      else if h_endpoint h = NotASocket then path_occupied socketPath else endpoint_in_use socketPath"
  have lstat: "os_lstat_endpoint h = (Inr ep, emit_event (EvSeen ep) h)" if "h_endpoint h = ep" "ep \<noteq> NoEndpoint" for ep
    using that assms(1) by (simp add: os_lstat_endpoint_def quiet_call on_endpoint_def emit_event_def)
  have probe: "probe_endpoint socketPath (emit_event ev h) = (Inr True, emit_event (EvProbed True) (emit_event ev h))"
    if "h_endpoint h = SocketFile True" for ev
    using that assms(1) by (simp add: probe_endpoint_def probe_now_def isUnixSocketActive_def probe_settle_def emit_event_def)
  have "\<exists>evs. prepareIpcEndpoint (env_platform env) socketPath h = (Inl ?e, h\<lparr>h_log := evs\<rparr>)"
  proof (cases "unixSocketPathMaximumBytes (env_platform env) < byteLength socketPath")
    case True
    then show ?thesis using assms(3)
      by (intro exI [of _ "h_log h"]) (simp add: prepareIpcEndpoint_def io_throw_def)
  next
    case False
    with assms(7) consider "h_endpoint h = NotASocket" | "h_endpoint h = SocketFile True" by blast
    then show ?thesis
    proof cases
      case 1
      with False assms(3) lstat [OF 1] show ?thesis
        by (intro exI [of _ "h_log h @ [EvSeen NotASocket]"])
          (simp add: prepareIpcEndpoint_def remove_stale_def io_defs emit_event_def)
    next
      case 2
      with False assms(3) lstat [OF 2] probe [OF 2] show ?thesis
        by (intro exI [of _ "h_log h @ [EvSeen (SocketFile True), EvProbed True]"])
          (simp add: prepareIpcEndpoint_def remove_stale_def io_defs emit_event_def)
    qed
  qed
  then show ?thesis using assms(4-6) by (auto simp: startDaemon_def io_bind_def)
qed

section \<open>From start to close\<close>

text \<open>A free path or a stale socket becomes a listening one; \<open>close\<close> removes it and closes the connection, and
  closing again does nothing.\<close>

lemma quiet_prepare:
  assumes "h_sched h = []" "p \<noteq> Win32" "byteLength socketPath \<le> unixSocketPathMaximumBytes p"
    and "h_endpoint h \<in> {NoEndpoint, SocketFile False}"
  shows "\<exists>evs. prepareIpcEndpoint p socketPath h = (Inr (), h\<lparr>h_endpoint := NoEndpoint, h_log := evs\<rparr>)"
proof (cases "h_endpoint h = NoEndpoint")
  case True
  have "os_lstat_endpoint h = (Inl (SysError ENOENT (js ''ENOENT'')), h)"
    using True assms(1) by (simp add: os_lstat_endpoint_def quiet_call on_endpoint_def)
  then have "prepareIpcEndpoint p socketPath h = (Inr (), h)"
    using assms(2,3) by (simp add: prepareIpcEndpoint_def io_defs)
  moreover have "h = h\<lparr>h_endpoint := NoEndpoint, h_log := h_log h\<rparr>" using True by simp
  ultimately show ?thesis by metis
next
  case False
  with assms(4) have stale: "h_endpoint h = SocketFile False" by simp
  let ?h1 = "emit_event (EvSeen (SocketFile False)) h"
  have lstat: "os_lstat_endpoint h = (Inr (SocketFile False), ?h1)"
    using stale assms(1) by (simp add: os_lstat_endpoint_def quiet_call on_endpoint_def emit_event_def)
  have probe: "probe_endpoint socketPath ?h1 = (Inr False, emit_event (EvProbed False) ?h1)"
    using stale assms(1)
    by (simp add: probe_endpoint_def probe_now_def isUnixSocketActive_def probe_settle_def emit_event_def)
  have unlink: "os_unlink_endpoint (emit_event (EvProbed False) ?h1)
      = (Inr (), h\<lparr>h_endpoint := NoEndpoint, h_log := h_log h @ [EvSeen (SocketFile False), EvProbed False, EvUnlinked (SocketFile False)]\<rparr>)"
    using stale assms(1) by (simp add: os_unlink_endpoint_def quiet_call on_endpoint_def emit_event_def)
  from lstat probe unlink assms(2,3) show ?thesis
    by (intro exI [of _ "h_log h @ [EvSeen (SocketFile False), EvProbed False, EvUnlinked (SocketFile False)]"])
      (simp add: prepareIpcEndpoint_def remove_stale_def io_defs)
qed

lemma quiet_listen:
  "h_sched h = [] \<Longrightarrow> h_endpoint h = NoEndpoint \<Longrightarrow>
   listenOnIpc h = (Inr (), h\<lparr>h_endpoint := SocketFile True, h_log := h_log h @ [EvListening], h_listening := True\<rparr>)"
  by (simp add: listenOnIpc_def quiet_call on_endpoint_def io_defs)

definition host_ready_for :: "daemon_env \<Rightarrow> jstr \<Rightarrow> jstr option \<Rightarrow> daemon_db \<Rightarrow> bool" where
  "host_ready_for env databasePath worktreeRoot db \<longleftrightarrow>
     (\<exists>db1 j db2 cfg. on_journal (newOperationJournal (env_sha256 env) (env_sql_0001 env)) db = (Inr (), db1)
        \<and> fst (tables db1) = Some j
        \<and> on_registry (newWorkspaceRegistry (env_registry env) (registry_options env databasePath worktreeRoot)
             (env_sha256 env) (env_sql_0002 env) (env_sql_0003 env))
             (db1\<lparr>tables := (Some (snd (reconcileInterrupted j)), snd (tables db1))\<rparr>) = (Inr cfg, db2))"

lemma quiet_run:
  assumes "h_sched h = []" "h_endpoint h = NoEndpoint" "env_integrity env = JStr (js ''ok'')"
    and "host_ready_for env databasePath worktreeRoot (h_db h)"
  shows "\<exists>evs db. run_server env databasePath worktreeRoot h
    = (Inr (js ''daemon_'' @ env_uuid env),
       h\<lparr>h_db := db, h_endpoint := SocketFile True, h_log := evs, h_listening := True, h_ready := True\<rparr>)"
proof -
  from assms(4) obtain db1 j db2 cfg where
    new: "on_journal (newOperationJournal (env_sha256 env) (env_sql_0001 env)) (h_db h) = (Inr (), db1)" and
    j: "fst (tables db1) = Some j" and
    reg: "on_registry (newWorkspaceRegistry (env_registry env) (registry_options env databasePath worktreeRoot)
             (env_sha256 env) (env_sql_0002 env) (env_sql_0003 env))
             (db1\<lparr>tables := (Some (snd (reconcileInterrupted j)), snd (tables db1))\<rparr>) = (Inr cfg, db2)"
    unfolding host_ready_for_def by blast
  obtain n j' where rec: "reconcileInterrupted j = (n, j')" by fastforce
  show ?thesis
    using assms(1-3) new j reg rec
    by (intro exI [of _ "h_log h @ [EvReconciled n, EvListening]"] exI [of _ db2])
      (simp add: run_server_def io_bind_def io_result_def io_unless_def in_daemon_db_def reconcile_journal_def emit_event_def
        integrityCheck_def require_def quiet_listen)
qed

lemma lifecycle:
  assumes "h_sched h = []" "fresh_host h" "env_platform env \<noteq> Win32"
    and "byteLength socketPath \<le> unixSocketPathMaximumBytes (env_platform env)"
    and "databasePath \<noteq> []" "socketPath \<noteq> []" "worktreeRoot \<noteq> Some []"
    and "h_endpoint h \<in> {NoEndpoint, SocketFile False}"
    and "env_newDatabase env = Inr fresh" "openSqliteDatabase None (env_answers env) fresh = (Inr c, r)"
    and "env_integrity env = JStr (js ''ok'')" "host_ready_for env databasePath worktreeRoot (h_db h)"
  shows "\<exists>h1 h2. startDaemon env databasePath socketPath worktreeRoot h = (Inr (js ''daemon_'' @ env_uuid env), h1)
    \<and> h_endpoint h1 = SocketFile True \<and> h_conn h1 = Some c
    \<and> daemon_close h1 = (Inr (), h2) \<and> h_endpoint h2 = NoEndpoint \<and> h_conn h2 = Some (close c)
    \<and> \<not> h_listening h2 \<and> \<not> h_ready h2 \<and> daemon_close h2 = (Inr (), h2)"
proof -
  obtain evs where p: "prepareIpcEndpoint (env_platform env) socketPath h = (Inr (), h\<lparr>h_endpoint := NoEndpoint, h_log := evs\<rparr>)"
    using quiet_prepare [OF assms(1,3,4,8)] by blast
  let ?h = "emit_event EvOpened (h\<lparr>h_endpoint := NoEndpoint, h_log := evs, h_conn := Some c\<rparr>)"
  have "host_ready_for env databasePath worktreeRoot (h_db ?h)" using assms(12) by (simp add: emit_event_def)
  then obtain evs' db where run: "run_server env databasePath worktreeRoot ?h
    = (Inr (js ''daemon_'' @ env_uuid env), ?h\<lparr>h_db := db, h_endpoint := SocketFile True, h_log := evs', h_listening := True, h_ready := True\<rparr>)"
    using quiet_run [of ?h env databasePath worktreeRoot] assms(1,11) by (auto simp: emit_event_def)
  let ?h1 = "?h\<lparr>h_db := db, h_endpoint := SocketFile True, h_log := evs', h_listening := True, h_ready := True\<rparr>"
  let ?h2 = "?h1\<lparr>h_closed := True, h_ready := False, h_endpoint := NoEndpoint, h_listening := False, h_conn := Some (close c),
      h_log := evs' @ [EvServerClosed, EvDatabaseClosed]\<rparr>"
  have start: "startDaemon env databasePath socketPath worktreeRoot h = (Inr (js ''daemon_'' @ env_uuid env), ?h1)"
    using p run assms(5-7,9,10) by (simp add: startDaemon_def io_bind_def io_try_def open_database_def)
  have closed: "daemon_close ?h1 = (Inr (), ?h2)"
    using assms(1,2) by (simp add: daemon_close_def closeHttpServer_def close_database_def io_bind_def quiet_call on_endpoint_def
        emit_event_def fresh_host_def)
  have again: "daemon_close ?h2 = (Inr (), ?h2)" by (simp add: daemon_close_def)
  show ?thesis
    by (rule exI [of _ ?h1], rule exI [of _ ?h2]) (use start closed again in \<open>simp add: emit_event_def\<close>)
qed

section \<open>A concrete host\<close>

definition sample_pragmas :: pragmas where
  "sample_pragmas = \<lparr>pragma_journal_mode = JStr (js ''wal''), pragma_synchronous = JNum (JInt 2),
     pragma_foreign_keys = JNum (JInt 1), pragma_busy_timeout = JNum (JInt 5000)\<rparr>"

definition sample_connection :: connection where
  "sample_connection = \<lparr>conn_open = True, conn_pragmas = sample_pragmas\<rparr>"

definition sample_env :: daemon_env where
  "sample_env = \<lparr>env_platform = Linux, env_newDatabase = Inr sample_connection, env_answers = sample_pragmas,
     env_integrity = JStr (js ''ok''), env_uuid = js ''u'', env_sha256 = (\<lambda>s. js ''b''), env_sql_0001 = js ''1'',
     env_sql_0002 = js ''2'', env_sql_0003 = js ''3'', env_registry = bare_registry\<rparr>"

definition sample_row :: OperationRow where
  "sample_row = \<lparr>row_kind = js ''k'', row_fingerprint = js ''f'', row_state = js ''running'',
     row_result_json = None, row_error_json = None, row_version = 1\<rparr>"

text \<open>A database left by a daemon that was killed while an operation ran, with its socket still there.\<close>

definition sample_host :: "endpoint \<Rightarrow> interference list \<Rightarrow> host" where
  "sample_host ep sched = \<lparr>h_endpoint = ep, h_sched = sched, h_conn = None,
     h_db = \<lparr>schema_migrations = Some [(js ''0001-operation-journal'', js ''b'')], tables = (Some [(js ''o'', sample_row)], NoTables)\<rparr>,
     h_listening = False, h_ready = False, h_closed = False, h_log = []\<rparr>"

lemma sample_host_fresh [simp]: "fresh_host (sample_host ep sched)"
  by (simp add: fresh_host_def sample_host_def)

lemma started_open: "openSqliteDatabase None sample_pragmas sample_connection = (Inr sample_connection, Some sample_connection)"
  by (simp add: openSqliteDatabase_def bootstrapWritableConnection_def getSettings_def sample_pragmas_def
      sample_connection_def Let_def)

lemma sample_journal_open:
  "on_journal (newOperationJournal (\<lambda>s. js ''b'') (js ''1'')) (h_db (sample_host ep sched)) = (Inr (), h_db (sample_host ep sched))"
  by (simp add: on_journal_def newOperationJournal_def applyMigrations_def OPERATION_JOURNAL_MIGRATION_def sample_host_def
      create_ledger_def ledger_def)

lemma sample_registry_open:
  "\<exists>cfg db. on_registry (newWorkspaceRegistry bare_registry (registry_options sample_env databasePath worktreeRoot) (\<lambda>s. js ''b'') (js ''2'') (js ''3''))
     \<lparr>schema_migrations = Some [(js ''0001-operation-journal'', js ''b'')], tables = (j, NoTables)\<rparr> = (Inr cfg, db)"
proof -
  have "schema_state_ok (\<lambda>s. js ''b'') (js ''2'') (js ''3'')
      \<lparr>schema_migrations = Some [(js ''0001-operation-journal'', js ''b'')], tables = NoTables\<rparr>"
    by (simp add: schema_state_ok_def ledger_def)
  moreover have "opt_ownerInstance (registry_options sample_env databasePath worktreeRoot) \<noteq> Some []"
    by (simp add: registry_options_def js_def)
  ultimately obtain cfg db' where "newWorkspaceRegistry bare_registry (registry_options sample_env databasePath worktreeRoot) (\<lambda>s. js ''b'') (js ''2'') (js ''3'')
      \<lparr>schema_migrations = Some [(js ''0001-operation-journal'', js ''b'')], tables = NoTables\<rparr> = (Inr cfg, db')"
    using registry_upgrades [of "\<lambda>s. js ''b''" "js ''2''" "js ''3''" _ _ bare_registry] by (fastforce simp: js_def)
  then show ?thesis by (simp add: on_registry_def)
qed

lemma started_ready: "host_ready_for sample_env databasePath worktreeRoot (h_db (sample_host ep sched))"
proof -
  obtain cfg db where reg: "on_registry (newWorkspaceRegistry bare_registry (registry_options sample_env databasePath worktreeRoot) (\<lambda>s. js ''b'') (js ''2'') (js ''3''))
     \<lparr>schema_migrations = Some [(js ''0001-operation-journal'', js ''b'')],
       tables = (Some (snd (reconcileInterrupted [(js ''o'', sample_row)])), NoTables)\<rparr> = (Inr cfg, db)"
    using sample_registry_open by blast
  show ?thesis
    unfolding host_ready_for_def
    by (rule exI [of _ "h_db (sample_host ep sched)"], rule exI [of _ "[(js ''o'', sample_row)]"], rule exI [of _ db], rule exI [of _ cfg])
      (use sample_journal_open [of ep sched] reg in \<open>simp add: sample_env_def sample_host_def\<close>)
qed

lemma sample_path: "byteLength (js ''/s'') = 2"
  unfolding byteLength_def by (simp add: utf8_encode_def utf8_of_points_def js_def utf8_point_def replace_lone_def scalar_def is_high_def)

lemma sample_env_fields [simp]:
  "env_platform sample_env = Linux" "env_newDatabase sample_env = Inr sample_connection" "env_answers sample_env = sample_pragmas"
  "env_integrity sample_env = JStr (js ''ok'')" "env_uuid sample_env = js ''u''"
  by (simp_all add: sample_env_def)

lemma sample_started:
  "\<exists>h'. startDaemon sample_env (js ''/d'') (js ''/s'') None (sample_host (SocketFile False) []) = (Inr (js ''daemon_u''), h')"
proof -
  let ?h = "sample_host (SocketFile False) []"
  have h: "h_sched ?h = []" "h_endpoint ?h \<in> {NoEndpoint, SocketFile False}" by (simp_all add: sample_host_def)
  have o: "openSqliteDatabase None (env_answers sample_env) sample_connection = (Inr sample_connection, Some sample_connection)"
    by (simp add: started_open)
  have p: "byteLength (js ''/s'') \<le> unixSocketPathMaximumBytes (env_platform sample_env)" "js ''/d'' \<noteq> []" "js ''/s'' \<noteq> []"
    "env_platform sample_env \<noteq> Win32"
    by (simp_all add: sample_path unixSocketPathMaximumBytes_def)
  have id: "js ''daemon_'' @ env_uuid sample_env = js ''daemon_u''" by (simp add: js_def)
  from lifecycle [OF h(1) sample_host_fresh p(4,1,2,3) _ h(2) sample_env_fields(2) o sample_env_fields(4) started_ready, of None]
  show ?thesis unfolding id by blast
qed

theorem startDaemon_outcomes_witness:
  "\<exists>h'. startDaemon sample_env (js ''/d'') (js ''/s'') None (sample_host (SocketFile False) []) = (Inr (js ''daemon_u''), h')
    \<and> unlinks_stale_only (h_log h') \<and> h_ready h' \<and> (\<exists>j. fst (tables (h_db h')) = Some j \<and> \<not> interrupted j)"
proof -
  obtain h' where r: "startDaemon sample_env (js ''/d'') (js ''/s'') None (sample_host (SocketFile False) []) = (Inr (js ''daemon_u''), h')"
    using sample_started by blast
  from startDaemon_outcomes [OF r sample_host_fresh] r show ?thesis by auto
qed

theorem endpoint_respected_witness:
  "\<exists>evs. startDaemon sample_env (js ''/d'') (js ''/s'') None (sample_host (SocketFile True) [])
    = (Inl (endpoint_in_use (js ''/s'')), (sample_host (SocketFile True) [])\<lparr>h_log := evs\<rparr>)"
proof -
  have "h_sched (sample_host (SocketFile True) []) = []" "h_endpoint (sample_host (SocketFile True) []) = SocketFile True"
    by (simp_all add: sample_host_def)
  moreover have "js ''/d'' \<noteq> []" "js ''/s'' \<noteq> []" by (simp_all add: js_def)
  ultimately show ?thesis
    using endpoint_respected [of "sample_host (SocketFile True) []" sample_env "js ''/d''" "js ''/s''" None] sample_path
    by (simp add: unixSocketPathMaximumBytes_def)
qed

text \<open>Two daemons that start together: the one that loses the race for the path fails, but only after it has
  reconciled the journal of the one that won.\<close>

definition undisturbed :: interference where
  "undisturbed = \<lparr>act_endpoint = (\<lambda>ep. ep), act_error = None, act_probe = []\<rparr>"

definition other_listens :: interference where
  "other_listens = \<lparr>act_endpoint = (\<lambda>_. SocketFile True), act_error = None, act_probe = []\<rparr>"

lemma lost_race_reconciles:
  "\<exists>e h'. startDaemon sample_env (js ''/d'') (js ''/s'') None (sample_host NoEndpoint [undisturbed, other_listens]) = (Inl e, h')
    \<and> h_endpoint h' = SocketFile True \<and> EvReconciled 1 \<in> set (h_log h')"
proof -
  let ?h = "sample_host NoEndpoint [undisturbed, other_listens]"
  let ?h1 = "?h\<lparr>h_sched := [other_listens]\<rparr>"
  let ?h2 = "emit_event EvOpened (?h1\<lparr>h_conn := Some sample_connection\<rparr>)"
  obtain cfg db where reg: "on_registry (newWorkspaceRegistry bare_registry (registry_options sample_env (js ''/d'') None) (\<lambda>s. js ''b'') (js ''2'') (js ''3''))
     \<lparr>schema_migrations = Some [(js ''0001-operation-journal'', js ''b'')],
       tables = (Some (snd (reconcileInterrupted [(js ''o'', sample_row)])), NoTables)\<rparr> = (Inr cfg, db)"
    using sample_registry_open by blast
  have path: "\<not> unixSocketPathMaximumBytes Linux < byteLength (js ''/s'')" "js ''/d'' \<noteq> []" "js ''/s'' \<noteq> []"
    by (simp_all add: sample_path unixSocketPathMaximumBytes_def)
  have "os_lstat_endpoint ?h = (Inl (SysError ENOENT (js ''ENOENT'')), ?h1)"
    by (simp add: os_lstat_endpoint_def endpoint_call_def on_endpoint_def sample_host_def undisturbed_def)
  then have prep: "prepareIpcEndpoint Linux (js ''/s'') ?h = (Inr (), ?h1)"
    using path by (simp add: prepareIpcEndpoint_def io_defs)
  have one: "fst (reconcileInterrupted [(js ''o'', sample_row)]) = 1"
    by (simp add: reconcileInterrupted_def sql_update_def sample_row_def)
  obtain j where rec: "reconcileInterrupted [(js ''o'', sample_row)] = (1, j)"
    using one by (metis prod.collapse)
  have opened: "open_database sample_env ?h1 = (Inr (), ?h2)"
    by (simp add: open_database_def started_open)
  have run: "\<exists>e h3. run_server sample_env (js ''/d'') None ?h2 = (Inl e, h3) \<and> h_endpoint h3 = SocketFile True
      \<and> EvReconciled 1 \<in> set (h_log h3) \<and> \<not> h_listening h3"
    using reg rec sample_journal_open [of NoEndpoint "[]"]
    by (simp add: run_server_def io_bind_def io_result_def io_unless_def in_daemon_db_def reconcile_journal_def emit_event_def
        integrityCheck_def require_def listenOnIpc_def endpoint_call_def on_endpoint_def sample_host_def sample_env_def
        other_listens_def)
  then obtain e h3 where r: "run_server sample_env (js ''/d'') None ?h2 = (Inl e, h3)" "h_endpoint h3 = SocketFile True"
      "EvReconciled 1 \<in> set (h_log h3)" "\<not> h_listening h3" by blast
  then show ?thesis
    using prep path by (simp add: startDaemon_def io_bind_def io_try_def opened closeHttpServer_def close_database_def
        io_throw_def emit_event_def)
qed

end
