(* ===== verification/Mcp.thy ===== *)
theory Mcp
  imports DaemonRequests
begin

text \<open>
  \<open>packages/mcp-edge/src/index.ts\<close>: the tools of the MCP server, each with the schemas of its input and
  output, a call of the daemon and the output it makes of the answer. zod and the MCP SDK are not part of
  the repository: schemas are data, \<open>zod_documented\<close> states what the documentation of zod says of
  \<open>parse\<close>, and the SDK is left out (it checks the input with the schema, then runs the handler).
\<close>

section \<open>Schemas\<close>

text \<open>The zod constructors the tools use. \<open>ZObject\<close> lists name, optionality and schema of each property.\<close>

datatype zschema =
    ZString nat "nat option"           \<comment> \<open>\<open>min\<close>, \<open>max\<close>\<close>
  | ZDigest bool                       \<comment> \<open>64 hexadecimal digits, \<open>True\<close> when upper case is allowed\<close>
  | ZInteger int "int option"          \<comment> \<open>\<open>int()\<close> with its bounds\<close>
  | ZBoolean
  | ZLiteral json
  | ZEnum "jstr list"
  | ZNullable zschema
  | ZArray zschema nat "nat option"
  | ZRecord zschema
  | ZObject "(jstr \<times> bool \<times> zschema) list"
  | ZUnion "zschema list"
  | ZUnknown

definition zreq :: "string \<Rightarrow> zschema \<Rightarrow> jstr \<times> bool \<times> zschema" where
  "zreq k s = (js k, False, s)"

definition zopt :: "string \<Rightarrow> zschema \<Rightarrow> jstr \<times> bool \<times> zschema" where
  "zopt k s = (js k, True, s)"

definition up_to :: "nat option \<Rightarrow> nat \<Rightarrow> bool" where
  "up_to hi n = (case hi of None \<Rightarrow> True | Some m \<Rightarrow> n \<le> m)"

definition is_digest :: "bool \<Rightarrow> jstr \<Rightarrow> bool" where
  "is_digest upper s \<longleftrightarrow> length s = 64 \<and> list_all (\<lambda>u. is_hex_unit u \<and> (upper \<or> lower_unit u = u)) s"

definition safe_integer :: "int \<Rightarrow> bool" where
  "safe_integer i \<longleftrightarrow> \<bar>i\<bar> < 2 ^ 53"

text \<open>\<open>record()\<close> passes over the key \<open>__proto__\<close>.\<close>

definition own_entries :: "(jstr \<times> json) list \<Rightarrow> (jstr \<times> json) list" where
  "own_entries kvs = filter (\<lambda>kv. fst kv \<noteq> js ''__proto__'') kvs"

text \<open>What a schema makes of a value: the value with the properties the schema does not name removed, or
  nothing when it does not match.\<close>

fun zod :: "decimals \<Rightarrow> zschema \<Rightarrow> json \<Rightarrow> json option"
  and zod_fields :: "decimals \<Rightarrow> (jstr \<times> bool \<times> zschema) list \<Rightarrow> (jstr \<times> json) list \<Rightarrow> (jstr \<times> json) list option"
  and zod_first :: "decimals \<Rightarrow> zschema list \<Rightarrow> json \<Rightarrow> json option" where
  "zod dec (ZString lo hi) v = (case v of JStr s \<Rightarrow> if lo \<le> length s \<and> up_to hi (length s) then Some v else None | _ \<Rightarrow> None)"
| "zod dec (ZDigest upper) v = (case v of JStr s \<Rightarrow> if is_digest upper s then Some v else None | _ \<Rightarrow> None)"
| "zod dec (ZInteger lo hi) v =
     (case v of
        JNum n \<Rightarrow> (case num_value dec n of
            Some i \<Rightarrow> if safe_integer i \<and> lo \<le> i \<and> (case hi of None \<Rightarrow> True | Some m \<Rightarrow> i \<le> m) then Some v else None
          | None \<Rightarrow> None)
      | _ \<Rightarrow> None)"
| "zod dec ZBoolean v = (case v of JBool _ \<Rightarrow> Some v | _ \<Rightarrow> None)"
| "zod dec (ZLiteral l) v = (if v = l then Some v else None)"
| "zod dec (ZEnum ts) v = (case v of JStr s \<Rightarrow> if s \<in> set ts then Some v else None | _ \<Rightarrow> None)"
| "zod dec (ZNullable s) v = (if v = JNull then Some JNull else zod dec s v)"
| "zod dec (ZArray s lo hi) v =
     (case v of
        JArr vs \<Rightarrow> if lo \<le> length vs \<and> up_to hi (length vs) then map_option JArr (those (map (zod dec s) vs)) else None
      | _ \<Rightarrow> None)"
| "zod dec (ZRecord s) v =
     (case v of
        JObj kvs \<Rightarrow> map_option (\<lambda>ws. JObj (zip (map fst (own_entries kvs)) ws)) (those (map (\<lambda>kv. zod dec s (snd kv)) (own_entries kvs)))
      | _ \<Rightarrow> None)"
| "zod dec (ZObject ps) v = (case v of JObj kvs \<Rightarrow> map_option JObj (zod_fields dec ps kvs) | _ \<Rightarrow> None)"
| "zod dec (ZUnion ss) v = zod_first dec ss v"
| "zod dec ZUnknown v = Some v"
| "zod_fields dec [] kvs = Some []"
| "zod_fields dec ((k, optional, s) # ps) kvs =
     (case map_of kvs k of
        None \<Rightarrow> if optional then zod_fields dec ps kvs else None
      | Some v \<Rightarrow>
          (case zod dec s v of
             None \<Rightarrow> None
           | Some w \<Rightarrow> map_option ((#) (k, w)) (zod_fields dec ps kvs)))"
| "zod_first dec [] v = None"
| "zod_first dec (s # ss) v = (case zod dec s v of Some w \<Rightarrow> Some w | None \<Rightarrow> zod_first dec ss v)"

type_synonym zod_parse = "zschema \<Rightarrow> json \<Rightarrow> json result"

definition zod_documented :: "decimals \<Rightarrow> zod_parse \<Rightarrow> bool" where
  "zod_documented dec parse \<longleftrightarrow>
     (\<forall>s v. case parse s v of
        Inr w \<Rightarrow> zod dec s v = Some w
      | Inl e \<Rightarrow> zod dec s v = None \<and> (\<exists>name message. e = PlainError name message \<and> message \<noteq> []))"

abbreviation ZText :: zschema where "ZText \<equiv> ZString 0 None"
abbreviation ZName :: zschema where "ZName \<equiv> ZString 1 None"
abbreviation ZCount :: zschema where "ZCount \<equiv> ZInteger 0 None"

definition daemonHealthSchema :: zschema where
  "daemonHealthSchema = ZObject
     [zreq ''live'' (ZLiteral (JBool True)), zreq ''ready'' (ZLiteral (JBool True)),
      zreq ''state'' (ZLiteral (JStr (js ''healthy''))), zreq ''rpcSchemaVersion'' ZCount, zreq ''storageIntegrity'' ZText]"

definition healthToolOutputSchema :: zschema where
  "healthToolOutputSchema = ZUnion
     [ZObject [zreq ''status'' (ZLiteral (JStr (js ''healthy''))), zreq ''live'' (ZLiteral (JBool True)),
        zreq ''ready'' (ZLiteral (JBool True)), zreq ''rpcSchemaVersion'' ZCount, zreq ''storageIntegrity'' ZText],
      ZObject [zreq ''status'' (ZLiteral (JStr (js ''unavailable''))), zreq ''errorCode'' ZText, zreq ''retryable'' ZBoolean]]"

definition capabilitiesOutputSchema :: zschema where
  "capabilitiesOutputSchema = ZObject
     [zreq ''protocolVersions'' (ZArray ZText 0 None),
      zreq ''protocolEras'' (ZArray (ZEnum [js ''legacy'', js ''modern'']) 0 None),
      zreq ''durableOperations'' (ZLiteral (JBool True)), zreq ''localRpcSchemaVersion'' (ZLiteral (JNum (JInt 1)))]"

definition systemInfoOutputSchema :: zschema where
  "systemInfoOutputSchema = ZObject
     [zreq ''edgeVersion'' ZText, zreq ''nodeVersion'' ZText, zreq ''platform'' ZText, zreq ''architecture'' ZText]"

definition workspaceRecordOutputSchema :: zschema where
  "workspaceRecordOutputSchema = ZObject
     [zreq ''workspaceId'' ZName, zreq ''canonicalPath'' ZName, zreq ''requestedPath'' ZName,
      zreq ''mode'' (ZEnum [js ''checkout'', js ''worktree'']), zreq ''repoRoot'' (ZNullable ZName),
      zreq ''worktreePath'' (ZNullable ZName), zreq ''baseRef'' (ZNullable ZName), zreq ''branch'' (ZNullable ZName),
      zreq ''createdAt'' ZName, zreq ''lastUsedAt'' ZName, zreq ''ownerInstance'' (ZNullable ZName),
      zreq ''status'' (ZEnum [js ''available'', js ''missing'', js ''inaccessible'', js ''invalid'']),
      zreq ''metadataVersion'' (ZInteger 1 None)]"

definition workspaceToolOutputSchema :: zschema where
  "workspaceToolOutputSchema = ZUnion
     [ZObject [zreq ''ok'' (ZLiteral (JBool True)), zreq ''workspace'' workspaceRecordOutputSchema],
      ZObject [zreq ''ok'' (ZLiteral (JBool False)), zreq ''errorCode'' ZName, zreq ''message'' ZName, zreq ''retryable'' ZBoolean]]"

definition fileReadResultSchema :: zschema where
  "fileReadResultSchema = ZObject
     [zreq ''path'' ZName, zreq ''classification'' (ZEnum [js ''text'', js ''binary'']), zreq ''size'' ZCount,
      zreq ''offset'' ZCount, zreq ''bytesRead'' ZCount, zreq ''eof'' ZBoolean, zreq ''truncated'' ZBoolean,
      zreq ''content'' (ZNullable ZText)]"

definition fileListResultSchema :: zschema where
  "fileListResultSchema = ZObject
     [zreq ''path'' ZName,
      zreq ''entries'' (ZArray (ZObject
        [zreq ''name'' ZText, zreq ''path'' ZName,
         zreq ''type'' (ZEnum [js ''file'', js ''directory'', js ''symlink'', js ''other'']),
         zreq ''size'' (ZNullable ZCount)]) 0 None),
      zreq ''nextCursor'' (ZNullable ZName)]"

definition fileSearchResultSchema :: zschema where
  "fileSearchResultSchema = ZObject
     [zreq ''path'' ZName, zreq ''glob'' ZName, zreq ''query'' (ZNullable ZName),
      zreq ''matches'' (ZArray (ZObject
        [zreq ''path'' ZName, zreq ''line'' (ZNullable (ZInteger 1 None)), zreq ''column'' (ZNullable (ZInteger 1 None)),
         zreq ''preview'' (ZNullable ZText)]) 0 None),
      zreq ''truncated'' ZBoolean, zreq ''scannedFiles'' ZCount, zreq ''skippedBinary'' ZCount, zreq ''skippedOversized'' ZCount]"

definition durabilitySchema :: zschema where
  "durabilitySchema = ZEnum [js ''file-and-directory'', js ''file-only'']"

definition fileWriteResultSchema :: zschema where
  "fileWriteResultSchema = ZObject
     [zreq ''path'' ZName, zreq ''created'' ZBoolean, zreq ''previousSha256'' (ZNullable (ZDigest False)),
      zreq ''sha256'' (ZDigest False), zreq ''bytesWritten'' ZCount, zreq ''durability'' durabilitySchema]"

definition filePatchResultSchema :: zschema where
  "filePatchResultSchema = ZObject
     [zreq ''path'' ZName, zreq ''previousSha256'' (ZDigest False), zreq ''sha256'' (ZDigest False),
      zreq ''editsApplied'' ZCount, zreq ''bytesWritten'' ZCount, zreq ''durability'' durabilitySchema]"

definition instructionDocumentSchema :: zschema where
  "instructionDocumentSchema = ZObject
     [zreq ''providerId'' ZName, zreq ''scopePath'' ZName, zreq ''sourceId'' ZName, zreq ''path'' (ZNullable ZName),
      zreq ''content'' ZText, zreq ''sha256'' (ZDigest False)]"

definition instructionsResolveResultSchema :: zschema where
  "instructionsResolveResultSchema = ZObject
     [zreq ''workspaceId'' ZName, zreq ''scopePath'' ZName, zreq ''scopes'' (ZArray ZName 0 None),
      zreq ''documents'' (ZArray instructionDocumentSchema 0 None)]"

definition skillSourceKindSchema :: zschema where
  "skillSourceKindSchema = ZEnum
     (map js [''project'', ''benchhand-user'', ''agents-user'', ''codex-user'', ''devspace-compat'', ''configured''])"

definition skillSummarySchema :: zschema where
  "skillSummarySchema = ZObject
     [zreq ''skillId'' ZName, zreq ''name'' ZName, zreq ''description'' ZName, zreq ''sourceId'' ZName,
      zreq ''sourceKind'' skillSourceKindSchema, zreq ''skillDirectoryPath'' ZName, zreq ''skillFilePath'' ZName,
      zreq ''metadataSha256'' (ZDigest False), zreq ''license'' (ZNullable ZText), zreq ''compatibility'' (ZNullable ZText),
      zreq ''metadata'' (ZRecord ZText), zreq ''allowedTools'' (ZNullable ZText)]"

definition invalidSkillEntrySchema :: zschema where
  "invalidSkillEntrySchema = ZObject
     [zreq ''sourceId'' ZName, zreq ''sourceKind'' skillSourceKindSchema, zreq ''skillDirectoryPath'' ZName,
      zreq ''skillFilePath'' (ZNullable ZName), zreq ''errorCode'' ZName, zreq ''message'' ZName]"

definition skillsListResultSchema :: zschema where
  "skillsListResultSchema = ZObject
     [zreq ''workspaceId'' ZName, zreq ''skills'' (ZArray skillSummarySchema 0 None),
      zreq ''shadowed'' (ZArray skillSummarySchema 0 None), zreq ''invalid'' (ZArray invalidSkillEntrySchema 0 None)]"

definition skillReadResultSchema :: zschema where
  "skillReadResultSchema = ZObject
     [zreq ''workspaceId'' ZName, zreq ''skill'' skillSummarySchema, zreq ''content'' ZText, zreq ''sha256'' (ZDigest False)]"

definition filesystemErrorOutputSchema :: zschema where
  "filesystemErrorOutputSchema = ZObject
     [zreq ''ok'' (ZLiteral (JBool False)), zreq ''errorCode'' ZName, zreq ''message'' ZName, zreq ''retryable'' ZBoolean,
      zopt ''details'' ZUnknown]"

text \<open>\<open>discriminatedUnion('ok', [{ ok: true, [key]: schema }, filesystemErrorOutputSchema])\<close>\<close>

definition tool_output :: "string \<Rightarrow> zschema \<Rightarrow> zschema" where
  "tool_output key schema =
     ZUnion [ZObject [zreq ''ok'' (ZLiteral (JBool True)), zreq key schema], filesystemErrorOutputSchema]"

section \<open>Answers\<close>

record tool_result =
  tr_text :: jstr
  tr_structured :: json
  tr_isError :: bool

definition toolSuccess :: "json \<Rightarrow> tool_result" where
  "toolSuccess output = \<lparr>tr_text = JSON_stringify output, tr_structured = output, tr_isError = False\<rparr>"

definition tool_failure :: "json \<Rightarrow> tool_result" where
  "tool_failure output = (toolSuccess output)\<lparr>tr_isError := True\<rparr>"

text \<open>What the handlers use: the RPC client on the state of the world, a fresh id, the clock, zod and TypeBox.\<close>

record 's edge =
  ed_call :: "(jstr \<times> json) list \<Rightarrow> ('s, json) io"
  ed_uuid :: jstr
  ed_now :: int
  ed_parse :: zod_parse
  ed_chk :: checker

definition edge_request :: "'s edge \<Rightarrow> string \<Rightarrow> string \<Rightarrow> json \<Rightarrow> (jstr \<times> json) list" where
  "edge_request edge tag method params =
     [(js ''requestId'', JStr (js tag @ ed_uuid edge)), (js ''method'', JStr (js method)), (js ''params'', params),
      (js ''deadlineUnixMs'', JNum (JInt (ed_now edge + 5000)))]"

definition failure_output :: "bool \<Rightarrow> string \<Rightarrow> thrown \<Rightarrow> json" where
  "failure_output with_details fallback e =
     (case e of
        RpcCallError r \<Rightarrow> JObj
          ([(js ''ok'', JBool False), (js ''errorCode'', JStr (rpc_code r)), (js ''message'', JStr (rpc_message r)),
            (js ''retryable'', JBool (rpc_retryable r))]
           @ (if with_details then (case rpc_details r of None \<Rightarrow> [] | Some d \<Rightarrow> [(js ''details'', d)]) else []))
      | _ \<Rightarrow> JObj
          [(js ''ok'', JBool False), (js ''errorCode'', JStr (js ''CORE_FAILURE'')),
           (js ''message'', JStr (if is_error e then error_message e else js fallback)), (js ''retryable'', JBool False)])"

text \<open>The body the \<open>call*Rpc\<close> functions share.\<close>

definition call_daemon ::
    "'s edge \<Rightarrow> string \<Rightarrow> string \<Rightarrow> json \<Rightarrow> (json \<Rightarrow> json result) \<Rightarrow> string \<Rightarrow> bool \<Rightarrow> string \<Rightarrow> ('s, tool_result) io" where
  "call_daemon edge tag method params parse resultKey with_details fallback =
     io_try
       (io_bind (ed_call edge (edge_request edge tag method params)) (\<lambda>raw.
        io_bind (io_result (parse raw)) (\<lambda>result.
        io_return (toolSuccess (JObj [(js ''ok'', JBool True), (js resultKey, result)])))))
       (\<lambda>e. io_return (tool_failure (failure_output with_details fallback e)))"

definition callInstructionsRpc :: "'s edge \<Rightarrow> json \<Rightarrow> ('s, tool_result) io" where
  "callInstructionsRpc edge params =
     call_daemon edge ''edge_instructions_'' ''instructions.resolve'' params (ed_parse edge instructionsResolveResultSchema)
       ''resolution'' True ''Instructions RPC failed''"

definition callSkillsListRpc :: "'s edge \<Rightarrow> json \<Rightarrow> ('s, tool_result) io" where
  "callSkillsListRpc edge params =
     call_daemon edge ''edge_skills_list_'' ''skills.list'' params (ed_parse edge skillsListResultSchema)
       ''catalog'' True ''Skills list RPC failed''"

definition callSkillReadRpc :: "'s edge \<Rightarrow> json \<Rightarrow> ('s, tool_result) io" where
  "callSkillReadRpc edge params =
     call_daemon edge ''edge_skill_read_'' ''skills.read'' params (ed_parse edge skillReadResultSchema)
       ''skill'' True ''Skill read RPC failed''"

definition callFilesystemRpc :: "'s edge \<Rightarrow> string \<Rightarrow> json \<Rightarrow> zschema \<Rightarrow> string \<Rightarrow> ('s, tool_result) io" where
  "callFilesystemRpc edge method params schema resultKey =
     call_daemon edge ''edge_filesystem_'' method params (ed_parse edge schema) resultKey True ''Filesystem RPC failed''"

definition callWorkspaceRpc :: "'s edge \<Rightarrow> string \<Rightarrow> json \<Rightarrow> ('s, tool_result) io" where
  "callWorkspaceRpc edge method params =
     call_daemon edge ''edge_workspace_'' method params (parseWorkspaceRecord (ed_chk edge)) ''workspace'' False ''Workspace RPC failed''"

fun primitive :: "json \<Rightarrow> bool" where
  "primitive (JArr _) \<longleftrightarrow> False"
| "primitive (JObj _) \<longleftrightarrow> False"
| "primitive _ \<longleftrightarrow> True"

fun defined_entries :: "(jstr \<times> json) list \<Rightarrow> (jstr \<times> json) list result" where
  "defined_entries [] = Inr []"
| "defined_entries ((key, item) # kvs) =
     (if primitive item then map_sum id ((#) (key, item)) (defined_entries kvs)
      else Inl (TypeError (js ''MCP tool parameter '' @ key @ js '' is not a JSON primitive'')))"

definition definedParams :: "json \<Rightarrow> json result" where
  "definedParams v = map_sum id JObj (defined_entries (case v of JObj kvs \<Rightarrow> kvs | _ \<Rightarrow> []))"

text \<open>An object of the named properties of \<open>v\<close>; those that are \<open>undefined\<close> are left out.\<close>

definition picked :: "string list \<Rightarrow> json \<Rightarrow> json" where
  "picked keys v = JObj (List.map_filter (\<lambda>k. map_option (Pair (js k)) (json_get (js k) v)) keys)"

section \<open>The tools\<close>

datatype annotations = ReadOnlyAnnotations | WorkspaceOpenAnnotations

text \<open>A registered tool: its schemas, its annotations and its handler, given the parsed parameters.\<close>

record 's tool =
  tool_name :: string
  tool_inputSchema :: zschema
  tool_outputSchema :: zschema
  tool_annotations :: annotations
  tool_handler :: "'s edge \<Rightarrow> json \<Rightarrow> ('s, tool_result) io"

definition annotations_json :: "annotations \<Rightarrow> json" where
  "annotations_json a = JObj
     [(js ''readOnlyHint'', JBool (a = ReadOnlyAnnotations)), (js ''destructiveHint'', JBool False),
      (js ''idempotentHint'', JBool (a = ReadOnlyAnnotations)), (js ''openWorldHint'', JBool False)]"

definition capabilities_tool :: "'s tool" where
  "capabilities_tool = \<lparr>tool_name = ''capabilities'', tool_inputSchema = ZObject [], tool_outputSchema = capabilitiesOutputSchema,
     tool_annotations = ReadOnlyAnnotations,
     tool_handler = (\<lambda>edge params. io_return (toolSuccess (JObj
       [(js ''protocolVersions'', JArr [JStr (js ''2026-07-28'')]), (js ''protocolEras'', JArr [JStr (js ''legacy''), JStr (js ''modern'')]),
        (js ''durableOperations'', JBool True), (js ''localRpcSchemaVersion'', JNum (JInt 1))])))\<rparr>"

text \<open>\<open>health\<close>: the fields the parsed answer is known to have.\<close>

definition healthy_output :: "json \<Rightarrow> json" where
  "healthy_output health = JObj ((js ''status'', JStr (js ''healthy'')) #
     List.map_filter (\<lambda>k. map_option (Pair (js k)) (json_get (js k) health))
       [''live'', ''ready'', ''rpcSchemaVersion'', ''storageIntegrity''])"

definition unavailable_output :: "thrown \<Rightarrow> json" where
  "unavailable_output e =
     (case e of
        RpcCallError r \<Rightarrow> JObj [(js ''status'', JStr (js ''unavailable'')), (js ''errorCode'', JStr (rpc_code r)),
          (js ''retryable'', JBool (rpc_retryable r))]
      | _ \<Rightarrow> JObj [(js ''status'', JStr (js ''unavailable'')), (js ''errorCode'', JStr (js ''CORE_FAILURE'')),
          (js ''retryable'', JBool False)])"

definition health_handler :: "'s edge \<Rightarrow> json \<Rightarrow> ('s, tool_result) io" where
  "health_handler edge params =
     io_try
       (io_bind (ed_call edge (edge_request edge ''edge_health_'' ''system.health'' (JObj []))) (\<lambda>raw.
        io_bind (io_result (ed_parse edge daemonHealthSchema raw)) (\<lambda>health.
        io_return (toolSuccess (healthy_output health)))))
       (\<lambda>e. io_return (tool_failure (unavailable_output e)))"

definition health_tool :: "'s tool" where
  "health_tool = \<lparr>tool_name = ''health'', tool_inputSchema = ZObject [], tool_outputSchema = healthToolOutputSchema,
     tool_annotations = ReadOnlyAnnotations, tool_handler = health_handler\<rparr>"

text \<open>The versions of the runtime are parameters.\<close>

definition system_info_tool :: "jstr \<Rightarrow> jstr \<Rightarrow> jstr \<Rightarrow> 's tool" where
  "system_info_tool nodeVersion platform architecture =
     \<lparr>tool_name = ''system_info'', tool_inputSchema = ZObject [], tool_outputSchema = systemInfoOutputSchema,
      tool_annotations = ReadOnlyAnnotations,
      tool_handler = (\<lambda>edge params. io_return (toolSuccess (JObj
        [(js ''edgeVersion'', JStr (js ''0.0.0-dev'')), (js ''nodeVersion'', JStr nodeVersion),
         (js ''platform'', JStr platform), (js ''architecture'', JStr architecture)])))\<rparr>"

definition with_defined :: "json \<Rightarrow> (json \<Rightarrow> ('s, tool_result) io) \<Rightarrow> ('s, tool_result) io" where
  "with_defined params f = io_bind (io_result (definedParams params)) f"

definition file_read_tool :: "'s tool" where
  "file_read_tool = \<lparr>tool_name = ''file_read'',
     tool_inputSchema = ZObject [zreq ''workspaceId'' ZName, zreq ''path'' ZName, zopt ''offset'' ZCount,
       zopt ''maxBytes'' (ZInteger 1 (Some (1024 * 1024)))],
     tool_outputSchema = tool_output ''file'' fileReadResultSchema, tool_annotations = ReadOnlyAnnotations,
     tool_handler = (\<lambda>edge params. with_defined params (\<lambda>p. callFilesystemRpc edge ''file.read'' p fileReadResultSchema ''file''))\<rparr>"

definition file_list_tool :: "'s tool" where
  "file_list_tool = \<lparr>tool_name = ''file_list'',
     tool_inputSchema = ZObject [zreq ''workspaceId'' ZName, zopt ''path'' ZText, zopt ''limit'' (ZInteger 1 (Some 1000)),
       zopt ''cursor'' ZName],
     tool_outputSchema = tool_output ''listing'' fileListResultSchema, tool_annotations = ReadOnlyAnnotations,
     tool_handler = (\<lambda>edge params. with_defined params (\<lambda>p. callFilesystemRpc edge ''file.list'' p fileListResultSchema ''listing''))\<rparr>"

definition file_search_tool :: "'s tool" where
  "file_search_tool = \<lparr>tool_name = ''file_search'',
     tool_inputSchema = ZObject [zreq ''workspaceId'' ZName, zopt ''path'' ZText, zopt ''glob'' (ZString 1 (Some 1024)),
       zopt ''query'' (ZString 1 (Some 4096)), zopt ''maxResults'' (ZInteger 1 (Some 1000)),
       zopt ''maxBytes'' (ZInteger 1 (Some (1024 * 1024))), zopt ''maxDepth'' (ZInteger 0 (Some 100)),
       zopt ''maxFileBytes'' (ZInteger 1 (Some (8 * 1024 * 1024)))],
     tool_outputSchema = tool_output ''search'' fileSearchResultSchema, tool_annotations = ReadOnlyAnnotations,
     tool_handler = (\<lambda>edge params. with_defined params (\<lambda>p. callFilesystemRpc edge ''file.search'' p fileSearchResultSchema ''search''))\<rparr>"

definition file_write_tool :: "'s tool" where
  "file_write_tool = \<lparr>tool_name = ''file_write'',
     tool_inputSchema = ZObject [zreq ''workspaceId'' ZName, zreq ''path'' ZName, zreq ''content'' ZText,
       zopt ''expectedSha256'' (ZNullable (ZDigest True))],
     tool_outputSchema = tool_output ''write'' fileWriteResultSchema, tool_annotations = WorkspaceOpenAnnotations,
     tool_handler = (\<lambda>edge params. with_defined params (\<lambda>p. callFilesystemRpc edge ''file.write'' p fileWriteResultSchema ''write''))\<rparr>"

definition file_patch_tool :: "'s tool" where
  "file_patch_tool = \<lparr>tool_name = ''file_patch'',
     tool_inputSchema = ZObject [zreq ''workspaceId'' ZName, zreq ''path'' ZName, zreq ''expectedSha256'' (ZDigest True),
       zreq ''edits'' (ZArray (ZObject [zreq ''oldText'' ZName, zreq ''newText'' ZText]) 1 (Some 256))],
     tool_outputSchema = tool_output ''patch'' filePatchResultSchema, tool_annotations = WorkspaceOpenAnnotations,
     tool_handler = (\<lambda>edge params. callFilesystemRpc edge ''file.patch'' (picked [''workspaceId'', ''path'', ''expectedSha256'', ''edits''] params)
       filePatchResultSchema ''patch'')\<rparr>"

definition instructions_resolve_tool :: "'s tool" where
  "instructions_resolve_tool = \<lparr>tool_name = ''instructions_resolve'',
     tool_inputSchema = ZObject [zreq ''workspaceId'' ZName, zopt ''scopePath'' (ZString 0 (Some 4096))],
     tool_outputSchema = tool_output ''resolution'' instructionsResolveResultSchema, tool_annotations = ReadOnlyAnnotations,
     tool_handler = (\<lambda>edge params. with_defined params (callInstructionsRpc edge))\<rparr>"

definition skills_list_tool :: "'s tool" where
  "skills_list_tool = \<lparr>tool_name = ''skills_list'', tool_inputSchema = ZObject [zreq ''workspaceId'' ZName],
     tool_outputSchema = tool_output ''catalog'' skillsListResultSchema, tool_annotations = ReadOnlyAnnotations,
     tool_handler = (\<lambda>edge params. callSkillsListRpc edge (picked [''workspaceId''] params))\<rparr>"

definition skill_read_tool :: "'s tool" where
  "skill_read_tool = \<lparr>tool_name = ''skill_read'', tool_inputSchema = ZObject [zreq ''workspaceId'' ZName, zreq ''skillId'' ZName],
     tool_outputSchema = tool_output ''skill'' skillReadResultSchema, tool_annotations = ReadOnlyAnnotations,
     tool_handler = (\<lambda>edge params. callSkillReadRpc edge (picked [''workspaceId'', ''skillId''] params))\<rparr>"

definition workspace_get_tool :: "'s tool" where
  "workspace_get_tool = \<lparr>tool_name = ''workspace_get'', tool_inputSchema = ZObject [zreq ''workspaceId'' ZName],
     tool_outputSchema = workspaceToolOutputSchema, tool_annotations = ReadOnlyAnnotations,
     tool_handler = (\<lambda>edge params. callWorkspaceRpc edge ''workspace.get'' (picked [''workspaceId''] params))\<rparr>"

definition workspace_open_tool :: "'s tool" where
  "workspace_open_tool = \<lparr>tool_name = ''workspace_open'',
     tool_inputSchema = ZObject [zreq ''path'' ZName, zopt ''mode'' (ZEnum [js ''checkout'', js ''worktree'']), zopt ''baseRef'' ZName],
     tool_outputSchema = workspaceToolOutputSchema, tool_annotations = WorkspaceOpenAnnotations,
     tool_handler = (\<lambda>edge params. callWorkspaceRpc edge ''workspace.open'' (picked [''path'', ''mode'', ''baseRef''] params))\<rparr>"

definition buildMcpServer :: "jstr \<Rightarrow> jstr \<Rightarrow> jstr \<Rightarrow> 's tool list" where
  "buildMcpServer nodeVersion platform architecture =
     [capabilities_tool, health_tool, system_info_tool nodeVersion platform architecture,
      file_read_tool, file_list_tool, file_search_tool, file_write_tool, file_patch_tool,
      instructions_resolve_tool, skills_list_tool, skill_read_tool, workspace_get_tool, workspace_open_tool]"

section \<open>The HTTP server\<close>

text \<open>\<open>startMcpEdge\<close>. What the checks of host and origin answer is given, as is what \<open>listen\<close>, \<open>address\<close> and
  \<open>close\<close> of the server do.\<close>

datatype route = NotFound | RejectedRequest | Forwarded

definition route_request :: "jstr \<Rightarrow> bool \<Rightarrow> bool \<Rightarrow> route" where
  "route_request url validHost validOrigin =
     (if url \<noteq> js ''/mcp'' then NotFound
      else if \<not> validHost \<or> \<not> validOrigin then RejectedRequest
      else Forwarded)"

datatype server_address = NoAddress | PipeAddress jstr | InetAddress jstr jstr nat   \<comment> \<open>family, address, port\<close>

record edge_server =
  es_handler_open :: bool
  es_listening :: bool
  es_closed :: bool

text \<open>\<open>handle_url\<close> is the text given to the constructor of \<open>URL\<close>.\<close>

record edge_handle =
  handle_url :: jstr
  handle_host :: jstr
  handle_port :: nat

definition handler_close :: "(edge_server, unit) io" where
  "handler_close st = (Inr (), st\<lparr>es_handler_open := False\<rparr>)"

definition closeServer :: "(edge_server, unit) io" where
  "closeServer st = (Inr (), if es_listening st then st\<lparr>es_listening := False\<rparr> else st)"

definition edge_listen :: "unit result \<Rightarrow> (edge_server, unit) io" where
  "edge_listen outcome st = (case outcome of Inl e \<Rightarrow> (Inl e, st) | Inr _ \<Rightarrow> (Inr (), st\<lparr>es_listening := True\<rparr>))"

definition valid_port :: "decimals \<Rightarrow> jsnum option \<Rightarrow> bool" where
  "valid_port dec port =
     (case port of
        None \<Rightarrow> True
      | Some n \<Rightarrow> (case num_value dec n of Some i \<Rightarrow> 0 \<le> i \<and> i \<le> 65535 | None \<Rightarrow> False))"

definition startMcpEdge ::
    "decimals \<Rightarrow> jstr \<Rightarrow> jsnum option \<Rightarrow> unit result \<Rightarrow> server_address \<Rightarrow> (edge_server, edge_handle) io" where
  "startMcpEdge dec daemonSocketPath port listening address =
     (if length daemonSocketPath = 0 then io_throw (TypeError (js ''daemonSocketPath must not be empty''))
      else if \<not> valid_port dec port then io_throw (TypeError (js ''port must be an integer between 0 and 65535''))
      else
      io_bind (io_result (createLocalRpcClient daemonSocketPath)) (\<lambda>_.
      io_bind (\<lambda>st. (Inr (), st\<lparr>es_handler_open := True\<rparr>)) (\<lambda>_.
      io_bind (io_try (edge_listen listening) (\<lambda>e. io_bind handler_close (\<lambda>_. io_throw e))) (\<lambda>_.
      case address of
        InetAddress family bound_address bound_port \<Rightarrow>
          (let urlHost = (if family = js ''IPv6'' then js ''['' @ bound_address @ js '']'' else bound_address) in
           io_return \<lparr>handle_url = js ''http://'' @ urlHost @ js '':'' @ js_nat bound_port @ js ''/mcp'',
             handle_host = bound_address, handle_port = bound_port\<rparr>)
      | _ \<Rightarrow>
          io_bind handler_close (\<lambda>_.
          io_bind closeServer (\<lambda>_.
          io_throw (JsError (js ''MCP edge did not expose a TCP listening address''))))))))"

definition edge_close :: "(edge_server, unit) io" where
  "edge_close st =
     (if es_closed st then (Inr (), st)
      else io_bind handler_close (\<lambda>_. closeServer) (st\<lparr>es_closed := True\<rparr>))"

end
