(* ===== verification/McpEdge.thy ===== *)
theory McpEdge
  imports Mcp
begin

text \<open>
  What the tools promise: an input that passes its schema becomes a request the daemon does not reject, and
  whatever the daemon answers, the output has the shape the tool declares.
\<close>

section \<open>Parsing\<close>

text \<open>Schemas whose parse can be read off the schema: distinct properties and no union.\<close>

fun plain_schema :: "zschema \<Rightarrow> bool" where
  "plain_schema (ZNullable s) \<longleftrightarrow> plain_schema s"
| "plain_schema (ZArray s _ _) \<longleftrightarrow> plain_schema s"
| "plain_schema (ZRecord s) \<longleftrightarrow> plain_schema s"
| "plain_schema (ZObject ps) \<longleftrightarrow> distinct (map fst ps) \<and> list_all (\<lambda>p. plain_schema (snd (snd p))) ps"
| "plain_schema (ZUnion _) \<longleftrightarrow> False"
| "plain_schema _ \<longleftrightarrow> True"

lemma those_length: "those xs = Some ys \<Longrightarrow> length ys = length xs"
  by (induction xs arbitrary: ys) (auto split: option.splits)

lemma those_nth: "those xs = Some ys \<Longrightarrow> i < length xs \<Longrightarrow> xs ! i = Some (ys ! i)"
  by (induction xs arbitrary: ys i) (auto simp: nth_Cons split: option.splits nat.splits)

lemma those_mapI: "length ys = length xs \<Longrightarrow> (\<And>i. i < length xs \<Longrightarrow> f (xs ! i) = Some (ys ! i)) \<Longrightarrow> those (map f xs) = Some ys"
proof (induction xs arbitrary: ys)
  case (Cons x xs)
  then obtain y ys' where "ys = y # ys'" by (cases ys) auto
  with Cons.prems Cons.IH [of ys'] show ?case by (fastforce simp: nth_Cons split: nat.splits)
qed simp

lemma zod_fields_keys: "zod_fields dec ps kvs = Some ws \<Longrightarrow> fst ` set ws \<subseteq> fst ` set ps"
proof (induction ps arbitrary: ws)
  case (Cons p ps)
  obtain k optional s where p: "p = (k, optional, s)" by (cases p)
  show ?case
  proof (cases "map_of kvs k")
    case None
    with Cons.prems p Cons.IH [of ws] show ?thesis by (auto split: if_splits)
  next
    case (Some v)
    with Cons.prems p obtain w ws' where "zod_fields dec ps kvs = Some ws'" "ws = (k, w) # ws'"
      by (auto split: option.splits)
    with p Cons.IH [of ws'] show ?thesis by auto
  qed
qed simp

text \<open>A parsed value parses to itself.\<close>

definition parses_again :: "decimals \<Rightarrow> zschema \<Rightarrow> bool" where
  "parses_again dec s \<longleftrightarrow> (\<forall>v w. zod dec s v = Some w \<longrightarrow> zod dec s w = Some w)"

lemma zod_fields_idem:
  assumes "\<forall>p \<in> set ps. parses_again dec (snd (snd p))" "distinct (map fst ps)" "zod_fields dec ps kvs = Some ws"
    and "\<forall>k \<in> fst ` set ps. map_of us k = map_of ws k"
  shows "zod_fields dec ps us = Some ws"
  using assms
proof (induction ps arbitrary: ws)
  case (Cons p ps)
  obtain k optional s where p: "p = (k, optional, s)" by (cases p)
  show ?case
  proof (cases "map_of kvs k")
    case None
    with Cons.prems(3) p have ws: "zod_fields dec ps kvs = Some ws" "optional" by (auto split: if_splits)
    with zod_fields_keys [OF ws(1)] Cons.prems(2) p have "map_of ws k = None" by (auto simp: map_of_eq_None_iff)
    with Cons.prems p ws Cons.IH [OF _ _ ws(1)] show ?thesis by simp
  next
    case (Some v)
    with Cons.prems(3) p obtain w ws' where ws: "zod_fields dec ps kvs = Some ws'" "ws = (k, w) # ws'" "zod dec s v = Some w"
      by (auto split: option.splits)
    have "\<forall>k' \<in> fst ` set ps. map_of us k' = map_of ws' k'" using Cons.prems(2,4) p ws by auto
    with Cons.prems p ws Cons.IH [OF _ _ ws(1)] show ?thesis by (auto simp: parses_again_def)
  qed
qed simp

lemma zod_again: "plain_schema s \<Longrightarrow> parses_again dec s"
proof (induction s)
  case (ZArray s lo hi)
  have "those (map (zod dec s) ws) = Some ws" if "those (map (zod dec s) vs) = Some ws" for vs ws
  proof (rule those_mapI)
    fix i assume i: "i < length ws"
    with that those_length [OF that] have "zod dec s (vs ! i) = Some (ws ! i)" using those_nth [OF that, of i] by simp
    with ZArray show "zod dec s (ws ! i) = Some (ws ! i)" by (auto simp: parses_again_def)
  qed simp
  moreover have "length ws = length vs" if "those (map (zod dec s) vs) = Some ws" for vs ws
    using those_length [OF that] by simp
  ultimately have again: "zod dec (ZArray s lo hi) w = Some w" if "zod dec (ZArray s lo hi) (JArr vs) = Some w" for vs w
    using that by (cases "those (map (zod dec s) vs)") (auto split: if_splits)
  show ?case
    unfolding parses_again_def
  proof (intro allI impI)
    fix v w assume "zod dec (ZArray s lo hi) v = Some w"
    then show "zod dec (ZArray s lo hi) w = Some w" using again by (cases v) auto
  qed
next
  case (ZRecord s)
  have "those (map (\<lambda>kv. zod dec s (snd kv)) (zip (map fst kvs) ws)) = Some ws \<and> map fst (zip (map fst kvs) ws) = map fst kvs"
    if "those (map (\<lambda>kv. zod dec s (snd kv)) kvs) = Some ws" for kvs :: "(jstr \<times> json) list" and ws
  proof -
    note l = those_length [OF that, simplified]
    have "those (map (\<lambda>kv. zod dec s (snd kv)) (zip (map fst kvs) ws)) = Some ws"
    proof (rule those_mapI)
      fix i assume "i < length (zip (map fst kvs) ws)"
      with l have i: "i < length kvs" "i < length ws" by simp_all
      then have "zod dec s (snd (kvs ! i)) = Some (ws ! i)" using those_nth [OF that, of i] by simp
      with ZRecord i show "zod dec s (snd (zip (map fst kvs) ws ! i)) = Some (ws ! i)" by (auto simp: parses_again_def)
    qed (simp add: l)
    with l show ?thesis by simp
  qed
  moreover have "own_entries (zip (map fst (own_entries kvs)) ws) = zip (map fst (own_entries kvs)) ws" for kvs ws
    by (auto simp: own_entries_def filter_id_conv dest!: set_zip_leftD)
  ultimately have again: "zod dec (ZRecord s) w = Some w" if "zod dec (ZRecord s) (JObj kvs) = Some w" for kvs w
    using that by (cases "those (map (\<lambda>kv. zod dec s (snd kv)) (own_entries kvs))") auto
  show ?case
    unfolding parses_again_def
  proof (intro allI impI)
    fix v w assume "zod dec (ZRecord s) v = Some w"
    then show "zod dec (ZRecord s) w = Some w" using again by (cases v) auto
  qed
next
  case (ZObject ps)
  have "\<forall>p \<in> set ps. parses_again dec (snd (snd p))"
    using ZObject by (fastforce simp: list_all_iff)
  then have again: "zod dec (ZObject ps) w = Some w" if "zod dec (ZObject ps) (JObj kvs) = Some w" for kvs w
    using that ZObject.prems zod_fields_idem [of ps dec kvs] by (cases "zod_fields dec ps kvs") auto
  show ?case
    unfolding parses_again_def
  proof (intro allI impI)
    fix v w assume "zod dec (ZObject ps) v = Some w"
    then show "zod dec (ZObject ps) w = Some w" using again by (cases v) auto
  qed
next
  case (ZNullable s)
  then show ?case by (auto simp: parses_again_def)
qed (auto simp: parses_again_def split: json.splits if_splits option.splits)

section \<open>Outputs\<close>

text \<open>An error that a client can be told about.\<close>

definition tellable :: "thrown \<Rightarrow> bool" where
  "tellable e \<longleftrightarrow>
     (case e of
        RpcCallError r \<Rightarrow> rpc_code r \<noteq> [] \<and> rpc_message r \<noteq> []
      | _ \<Rightarrow> is_error e \<and> error_message e \<noteq> [])"

definition calls_tell :: "'s edge \<Rightarrow> bool" where
  "calls_tell edge \<longleftrightarrow> (\<forall>request s e s'. ed_call edge request s = (Inl e, s') \<longrightarrow> tellable e)"

lemma zod_error_tellable:
  "zod_documented dec parse \<Longrightarrow> parse s v = Inl e \<Longrightarrow> tellable e"
  by (auto simp: zod_documented_def tellable_def dest!: spec [of _ s] spec [of _ v])

lemma zod_parsed: "zod_documented dec parse \<Longrightarrow> parse s v = Inr w \<Longrightarrow> zod dec s v = Some w"
  by (auto simp: zod_documented_def dest!: spec [of _ s] spec [of _ v])

text \<open>An answer the SDK passes on as it is; \<open>isError\<close> says whether the output reports a failure.\<close>

definition reports_failure :: "json \<Rightarrow> bool" where
  "reports_failure output \<longleftrightarrow>
     json_get (js ''ok'') output = Some (JBool False) \<or> json_get (js ''status'') output = Some (JStr (js ''unavailable''))"

definition well_formed_answer :: "decimals \<Rightarrow> zschema \<Rightarrow> tool_result \<Rightarrow> bool" where
  "well_formed_answer dec schema r \<longleftrightarrow>
     zod dec schema (tr_structured r) = Some (tr_structured r) \<and> tr_text r = JSON_stringify (tr_structured r)
     \<and> (tr_isError r \<longleftrightarrow> reports_failure (tr_structured r))"

lemma failure_reports: "reports_failure (failure_output details fallback e)"
  by (cases e) (simp_all add: reports_failure_def failure_output_def)

lemma success_reports: "js key \<noteq> js ''status'' \<Longrightarrow> \<not> reports_failure (JObj [(js ''ok'', JBool True), (js key, w)])"
  by (simp add: reports_failure_def)

lemma failure_conforms:
  assumes "tellable e"
  shows "zod dec (tool_output key schema) (failure_output True fallback e) = Some (failure_output True fallback e)"
proof (cases e)
  case (RpcCallError r)
  with assms show ?thesis
    by (cases "rpc_details r") (simp_all add: failure_output_def tool_output_def filesystemErrorOutputSchema_def zreq_def zopt_def
        tellable_def up_to_def Suc_le_eq)
qed (use assms in \<open>simp_all add: failure_output_def tool_output_def filesystemErrorOutputSchema_def zreq_def zopt_def
    tellable_def up_to_def Suc_le_eq js_def\<close>)

lemma success_conforms:
  assumes "zod dec schema v = Some w" "plain_schema schema" "js key \<noteq> js ''ok''"
  shows "zod dec (tool_output key schema) (JObj [(js ''ok'', JBool True), (js key, w)])
    = Some (JObj [(js ''ok'', JBool True), (js key, w)])"
  using assms zod_again [OF assms(2), of dec] by (auto simp: tool_output_def zreq_def parses_again_def)

lemma call_conforms:
  assumes "zod_documented dec (ed_parse edge)" "calls_tell edge" "plain_schema schema" "js key \<noteq> js ''ok''"
    and "js key \<noteq> js ''status''"
  shows "\<exists>r s'. call_daemon edge tag method params (ed_parse edge schema) key True fallback s = (Inr r, s')
    \<and> well_formed_answer dec (tool_output key schema) r"
proof -
  obtain x s1 where x: "ed_call edge (edge_request edge tag method params) s = (x, s1)" by fastforce
  have failed: ?thesis if "call_daemon edge tag method params (ed_parse edge schema) key True fallback s
      = (Inr (tool_failure (failure_output True fallback e)), s1)" "tellable e" for e
    using that failure_conforms [OF that(2)] by (simp add: well_formed_answer_def tool_failure_def toolSuccess_def failure_reports)
  show ?thesis
  proof (cases x)
    case (Inl e)
    with x assms(2) have "tellable e" by (auto simp: calls_tell_def)
    with failed x Inl show ?thesis by (simp add: call_daemon_def io_defs)
  next
    case x': (Inr raw)
    show ?thesis
    proof (cases "ed_parse edge schema raw")
      case (Inl e)
      with failed [of e] x x' zod_error_tellable [OF assms(1) Inl] show ?thesis by (simp add: call_daemon_def io_defs)
    next
      case (Inr w)
      with x x' success_conforms [OF zod_parsed [OF assms(1) Inr] assms(3,4)] show ?thesis
        by (simp add: call_daemon_def io_defs well_formed_answer_def toolSuccess_def success_reports [OF assms(5)])
    qed
  qed
qed

text \<open>The result schemas are plain.\<close>

lemmas result_schema_defs = fileReadResultSchema_def fileListResultSchema_def fileSearchResultSchema_def fileWriteResultSchema_def
  filePatchResultSchema_def instructionsResolveResultSchema_def instructionDocumentSchema_def skillsListResultSchema_def
  skillSummarySchema_def invalidSkillEntrySchema_def skillReadResultSchema_def skillSourceKindSchema_def durabilitySchema_def
  zreq_def zopt_def

lemma plain_results [simp]:
  "plain_schema fileReadResultSchema" "plain_schema fileListResultSchema" "plain_schema fileSearchResultSchema"
  "plain_schema fileWriteResultSchema" "plain_schema filePatchResultSchema" "plain_schema instructionsResolveResultSchema"
  "plain_schema skillsListResultSchema" "plain_schema skillReadResultSchema"
  by (simp_all add: result_schema_defs)

lemma health_conforms:
  assumes "zod dec daemonHealthSchema raw = Some health"
  shows "zod dec healthToolOutputSchema (healthy_output health) = Some (healthy_output health)"
proof -
  from assms obtain kvs where "raw = JObj kvs" by (cases raw) (auto simp: daemonHealthSchema_def)
  with assms obtain n t where "health = JObj [(js ''live'', JBool True), (js ''ready'', JBool True), (js ''state'', JStr (js ''healthy'')),
      (js ''rpcSchemaVersion'', n), (js ''storageIntegrity'', t)]" "zod dec ZCount n = Some n" "zod dec ZText t = Some t"
    using zod_again [of ZCount dec] zod_again [of ZText dec]
    by (auto simp: daemonHealthSchema_def zreq_def parses_again_def simp del: zod.simps(1,3) split: option.splits if_splits)
  then show ?thesis
    by (simp add: healthy_output_def healthToolOutputSchema_def zreq_def List.map_filter_def del: zod.simps(1,3))
qed

section \<open>Inputs\<close>

text \<open>What a parsed object is known to hold: each value matches the schema of its property.\<close>

definition matches_field :: "decimals \<Rightarrow> json \<Rightarrow> jstr \<times> bool \<times> zschema \<Rightarrow> bool" where
  "matches_field dec p = (\<lambda>(k, optional, s). case json_get k p of None \<Rightarrow> optional | Some w \<Rightarrow> zod dec s w = Some w)"

lemma zod_fields_match:
  assumes "zod_fields dec ps kvs = Some ws" "distinct (map fst ps)" "\<forall>p \<in> set ps. parses_again dec (snd (snd p))"
  shows "list_all (matches_field dec (JObj ws)) ps"
  using assms
proof (induction ps arbitrary: ws)
  case (Cons p ps)
  obtain k optional s where p: "p = (k, optional, s)" by (cases p)
  have fresh: "k \<notin> fst ` set ps" using Cons.prems(2) p by auto
  show ?case
  proof (cases "map_of kvs k")
    case None
    with Cons.prems(1) p have ws: "zod_fields dec ps kvs = Some ws" "optional" by (auto split: if_splits)
    with zod_fields_keys [OF ws(1)] fresh have "map_of ws k = None" by (auto simp: map_of_eq_None_iff)
    with Cons p ws show ?thesis by (simp add: matches_field_def)
  next
    case (Some v)
    with Cons.prems(1) p obtain w ws' where ws: "zod_fields dec ps kvs = Some ws'" "ws = (k, w) # ws'" "zod dec s v = Some w"
      by (auto split: option.splits)
    have "list_all (matches_field dec (JObj ws')) ps" using Cons ws(1) by simp
    moreover have "matches_field dec (JObj ws) q = matches_field dec (JObj ws') q" if "q \<in> set ps" for q
      using that fresh ws(2) by (auto simp: matches_field_def image_iff split: prod.splits)
    ultimately have "list_all (matches_field dec (JObj ws)) ps" by (simp add: list_all_iff)
    with Cons.prems(3) p ws show ?thesis by (auto simp: matches_field_def parses_again_def)
  qed
qed simp

lemma input_fields:
  assumes "zod dec (ZObject ps) v = Some p" "plain_schema (ZObject ps)"
  obtains ws where "p = JObj ws" "list_all (matches_field dec p) ps" "fst ` set ws \<subseteq> fst ` set ps"
proof -
  from assms(1) obtain kvs ws where w: "zod_fields dec ps kvs = Some ws" "p = JObj ws" by (cases v) auto
  have "\<forall>p \<in> set ps. parses_again dec (snd (snd p))" using assms(2) zod_again by (auto simp: list_all_iff)
  with zod_fields_match [OF w(1)] assms(2) w(2) have "list_all (matches_field dec p) ps" by simp
  then show thesis using that w zod_fields_keys [OF w(1)] by blast
qed

text \<open>The kinds of parameters.\<close>

definition has_text :: "string \<Rightarrow> json \<Rightarrow> bool" where
  "has_text k p \<longleftrightarrow> (\<exists>s. json_get (js k) p = Some (JStr s))"

definition has_name :: "string \<Rightarrow> json \<Rightarrow> bool" where
  "has_name k p \<longleftrightarrow> (\<exists>s. json_get (js k) p = Some (JStr s) \<and> s \<noteq> [])"

definition maybe :: "(string \<Rightarrow> json \<Rightarrow> bool) \<Rightarrow> string \<Rightarrow> json \<Rightarrow> bool" where
  "maybe P k p \<longleftrightarrow> json_get (js k) p = None \<or> P k p"

definition has_number :: "string \<Rightarrow> json \<Rightarrow> bool" where
  "has_number k p \<longleftrightarrow> (\<exists>n. json_get (js k) p = Some (JNum n))"

lemma matches_string: "zod dec (ZString lo hi) w = Some w \<longleftrightarrow> (\<exists>s. w = JStr s \<and> lo \<le> length s \<and> up_to hi (length s))"
  by (auto split: json.splits)

lemma matches_text: "zod dec (ZString lo hi) w = Some w \<Longrightarrow> \<exists>s. w = JStr s"
  unfolding matches_string by blast

lemma matches_name: "zod dec (ZString (Suc lo) hi) w = Some w \<Longrightarrow> \<exists>s. w = JStr s \<and> s \<noteq> []"
  unfolding matches_string by fastforce

lemma matches_digest: "zod dec (ZDigest upper) w = Some w \<Longrightarrow> \<exists>s. w = JStr s"
  by (auto split: json.splits)

lemma matches_integer: "zod dec (ZInteger lo hi) w = Some w \<Longrightarrow> \<exists>n. w = JNum n"
  by (auto split: json.splits)

lemma field_text: "matches_field dec p (zreq k (ZString lo hi)) \<Longrightarrow> has_text k p"
  unfolding matches_field_def zreq_def has_text_def
  by (cases "json_get (js k) p") (auto dest!: matches_text simp del: zod.simps)

lemma field_name: "matches_field dec p (zreq k (ZString (Suc lo) hi)) \<Longrightarrow> has_name k p"
  unfolding matches_field_def zreq_def has_name_def
  by (cases "json_get (js k) p") (auto dest!: matches_name simp del: zod.simps)

lemma field_digest: "matches_field dec p (zreq k (ZDigest upper)) \<Longrightarrow> has_text k p"
  by (auto simp: matches_field_def zreq_def has_text_def simp del: zod.simps dest!: matches_digest split: option.splits)

lemma field_maybe_text: "matches_field dec p (zopt k (ZString lo hi)) \<Longrightarrow> maybe has_text k p"
  unfolding matches_field_def zopt_def maybe_def has_text_def
  by (cases "json_get (js k) p") (auto dest!: matches_text simp del: zod.simps)

lemma field_maybe_name: "matches_field dec p (zopt k (ZString (Suc lo) hi)) \<Longrightarrow> maybe has_name k p"
  unfolding matches_field_def zopt_def maybe_def has_name_def
  by (cases "json_get (js k) p") (auto dest!: matches_name simp del: zod.simps)

lemma field_maybe_number: "matches_field dec p (zopt k (ZInteger lo hi)) \<Longrightarrow> maybe has_number k p"
  by (auto simp: matches_field_def zopt_def maybe_def has_number_def simp del: zod.simps dest!: matches_integer split: option.splits)

lemmas field_facts = field_text field_name field_digest field_maybe_text field_maybe_name field_maybe_number

section \<open>The readers of the daemon\<close>

definition accepts :: "'a result \<Rightarrow> bool" where
  "accepts r = (case r of Inl _ \<Rightarrow> False | Inr _ \<Rightarrow> True)"

lemma accepts_iff: "accepts r \<longleftrightarrow> (\<exists>a. r = Inr a)"
  by (cases r) (simp_all add: accepts_def)

definition holds_object :: "json \<Rightarrow> bool" where
  "holds_object p \<longleftrightarrow> (\<exists>kvs. p = JObj kvs)"

lemma accepts_bind: "accepts r \<Longrightarrow> (\<And>a. accepts (f a)) \<Longrightarrow> accepts (bind_res r f)"
  by (auto simp: accepts_iff)

lemma accepts_bind': "r = Inr a \<Longrightarrow> accepts (f a) \<Longrightarrow> accepts (bind_res r f)"
  by simp

lemma accepts_Inr [simp]: "accepts (Inr a)"
  by (simp add: accepts_iff)

lemma accepts_object: "holds_object p \<Longrightarrow> readParamsObject p method = Inr p"
  by (auto simp: holds_object_def readParamsObject_def)

lemma accepts_workspace: "has_name ''workspaceId'' p \<Longrightarrow> accepts (readWorkspaceIdValue (json_get (js ''workspaceId'') p) method)"
  by (auto simp: has_name_def readWorkspaceIdValue_def parseEntityId_def)

lemma accepts_required: "has_text k p \<Longrightarrow> accepts (readRequiredString (json_get (js k) p) label)"
  by (auto simp: has_text_def readRequiredString_def)

lemma accepts_string: "maybe has_text k p \<Longrightarrow> accepts (optionalString p k)"
  by (auto simp: maybe_def has_text_def optionalString_def)

lemma accepts_number: "maybe has_number k p \<Longrightarrow> accepts (optionalNumber p k)"
  by (auto simp: maybe_def has_number_def optionalNumber_def)

lemma name_text: "has_name k p \<Longrightarrow> has_text k p" "maybe has_name k p \<Longrightarrow> maybe has_text k p"
  by (auto simp: has_name_def has_text_def maybe_def)

lemmas accepts_fields = accepts_bind' [OF accepts_object] accepts_bind [OF accepts_workspace] accepts_bind [OF accepts_required]
  accepts_bind [OF accepts_string] accepts_bind [OF accepts_number] accepts_Inr

lemma accepts_read:
  "holds_object p \<Longrightarrow> has_name ''workspaceId'' p \<Longrightarrow> has_text ''path'' p \<Longrightarrow> maybe has_number ''offset'' p \<Longrightarrow>
   maybe has_number ''maxBytes'' p \<Longrightarrow> accepts (readFileReadParams p)"
  unfolding readFileReadParams_def by (intro accepts_fields)

lemma accepts_list:
  "holds_object p \<Longrightarrow> has_name ''workspaceId'' p \<Longrightarrow> maybe has_text ''path'' p \<Longrightarrow> maybe has_number ''limit'' p \<Longrightarrow>
   maybe has_text ''cursor'' p \<Longrightarrow> accepts (readFileListParams p)"
  unfolding readFileListParams_def by (intro accepts_fields)

lemma accepts_search:
  "holds_object p \<Longrightarrow> has_name ''workspaceId'' p \<Longrightarrow> maybe has_text ''path'' p \<Longrightarrow> maybe has_text ''glob'' p \<Longrightarrow>
   maybe has_text ''query'' p \<Longrightarrow> maybe has_number ''maxResults'' p \<Longrightarrow> maybe has_number ''maxBytes'' p \<Longrightarrow>
   maybe has_number ''maxDepth'' p \<Longrightarrow> maybe has_number ''maxFileBytes'' p \<Longrightarrow> accepts (readFileSearchParams p)"
  unfolding readFileSearchParams_def by (intro accepts_fields)

definition digest_or_null :: "string \<Rightarrow> json \<Rightarrow> bool" where
  "digest_or_null k p \<longleftrightarrow> json_get (js k) p = Some JNull \<or> has_text k p"

lemma field_digest_or_null:
  assumes "matches_field dec p (zopt k (ZNullable (ZDigest upper)))"
  shows "maybe digest_or_null k p"
proof (cases "json_get (js k) p")
  case None
  then show ?thesis by (simp add: maybe_def)
next
  case (Some w)
  with assms have "w = JNull \<or> zod dec (ZDigest upper) w = Some w"
    unfolding matches_field_def zopt_def by (cases "w = JNull") (simp_all del: zod.simps(2))
  then show ?thesis using Some matches_digest [of dec upper w] by (auto simp: maybe_def digest_or_null_def has_text_def)
qed

lemma accepts_write:
  "holds_object p \<Longrightarrow> has_name ''workspaceId'' p \<Longrightarrow> has_text ''path'' p \<Longrightarrow> has_text ''content'' p \<Longrightarrow>
   maybe digest_or_null ''expectedSha256'' p \<Longrightarrow> accepts (readFileWriteParams p)"
  unfolding readFileWriteParams_def
  by (intro accepts_fields, assumption+, rule accepts_bind)
    (auto simp: readExpectedSha256_def maybe_def digest_or_null_def has_text_def)

definition edit_object :: "json \<Rightarrow> bool" where
  "edit_object edit \<longleftrightarrow> has_text ''oldText'' edit \<and> has_text ''newText'' edit"

definition has_edits :: "string \<Rightarrow> json \<Rightarrow> bool" where
  "has_edits k p \<longleftrightarrow> (\<exists>items. json_get (js k) p = Some (JArr items) \<and> list_all edit_object items)"

lemma accepts_edits: "list_all edit_object items \<Longrightarrow> accepts (map_res read_patch_edit (enumerate n items))"
proof (induction items arbitrary: n)
  case (Cons edit items)
  then obtain old new where "json_get (js ''oldText'') edit = Some (JStr old)" "json_get (js ''newText'') edit = Some (JStr new)"
    by (auto simp: edit_object_def has_text_def)
  with Cons.prems Cons.IH [of "Suc n"] show ?case by (auto simp: accepts_iff read_patch_edit_def)
qed (simp add: accepts_iff)

lemma accepts_patch:
  assumes "holds_object p" "has_name ''workspaceId'' p" "has_text ''path'' p" "has_text ''expectedSha256'' p" "has_edits ''edits'' p"
  shows "accepts (readFilePatchParams p)"
proof -
  obtain items where "json_get (js ''edits'') p = Some (JArr items)" "list_all edit_object items"
    using assms(5) by (auto simp: has_edits_def)
  then show ?thesis
    unfolding readFilePatchParams_def
    by (intro accepts_fields assms(1-4)) (auto intro: accepts_bind [OF accepts_edits])
qed

lemma accepts_resolve:
  assumes "holds_object p" "has_name ''workspaceId'' p" "maybe has_text ''scopePath'' p"
  shows "accepts (readInstructionsResolveParams p)"
proof -
  from assms(3) consider "json_get (js ''scopePath'') p = None" | s where "json_get (js ''scopePath'') p = Some (JStr s)"
    by (auto simp: maybe_def has_text_def)
  then show ?thesis
    unfolding readInstructionsResolveParams_def by cases (intro accepts_fields assms(1,2); simp)+
qed

lemma accepts_skills:
  assumes "holds_object p" "has_name ''workspaceId'' p"
  shows "accepts (readSkillsListParams p)"
  unfolding readSkillsListParams_def accepts_object [OF assms(1)] bind_res.simps by (rule accepts_workspace [OF assms(2)])

lemma accepts_skill_read:
  assumes "holds_object p" "has_name ''workspaceId'' p" "has_name ''skillId'' p"
  shows "accepts (readSkillsReadParams p)"
proof -
  from assms(3) obtain s where "json_get (js ''skillId'') p = Some (JStr s)" "s \<noteq> []" by (auto simp: has_name_def)
  then show ?thesis unfolding readSkillsReadParams_def by (intro accepts_fields assms(1,2)) simp
qed

lemma accepts_workspace_get: "has_name ''workspaceId'' p \<Longrightarrow> accepts (readWorkspaceIdParam p)"
  by (auto simp: readWorkspaceIdParam_def has_name_def parseEntityId_def)

definition has_mode :: "string \<Rightarrow> json \<Rightarrow> bool" where
  "has_mode k p \<longleftrightarrow> json_get (js k) p \<in> {Some (JStr (js ''checkout'')), Some (JStr (js ''worktree''))}"

lemma field_mode: "matches_field dec p (zopt k (ZEnum [js ''checkout'', js ''worktree''])) \<Longrightarrow> maybe has_mode k p"
  unfolding matches_field_def zopt_def maybe_def has_mode_def
  by (cases "json_get (js k) p") (auto split: json.splits if_splits)

lemma accepts_open:
  assumes "has_name ''path'' p" "maybe has_mode ''mode'' p" "maybe has_name ''baseRef'' p"
    and "json_get (js ''baseRef'') p = None \<or> json_get (js ''mode'') p = Some (JStr (js ''worktree''))"
  shows "accepts (readWorkspaceOpenParams p)"
  using assms by (auto simp: readWorkspaceOpenParams_def has_name_def has_mode_def maybe_def)

end
