(* ===== verification/McpTools.thy ===== *)
theory McpTools
  imports McpEdge
begin

text \<open>
  The tools over the daemon: the requests a tool sends are accepted, and its answers have the declared shape.
\<close>

section \<open>Requests\<close>

text \<open>The parameters a method accepts: the readers of \<open>dispatchRpc\<close>.\<close>

definition params_accepted :: "jstr \<Rightarrow> json \<Rightarrow> bool" where
  "params_accepted method q =
     (if method = js ''system.health'' then True
      else if method = js ''workspace.open'' then accepts (readWorkspaceOpenParams q)
      else if method = js ''workspace.get'' then accepts (readWorkspaceIdParam q)
      else if method = js ''file.read'' then accepts (readFileReadParams q)
      else if method = js ''file.list'' then accepts (readFileListParams q)
      else if method = js ''file.search'' then accepts (readFileSearchParams q)
      else if method = js ''file.write'' then accepts (readFileWriteParams q)
      else if method = js ''file.patch'' then accepts (readFilePatchParams q)
      else if method = js ''instructions.resolve'' then accepts (readInstructionsResolveParams q)
      else if method = js ''skills.list'' then accepts (readSkillsListParams q)
      else if method = js ''skills.read'' then accepts (readSkillsReadParams q)
      else False)"

definition request_accepted :: "checker \<Rightarrow> (jstr \<times> json) list \<Rightarrow> bool" where
  "request_accepted chk request \<longleftrightarrow>
     accepts (parseRpcRequest chk (wire_request request))
     \<and> params_accepted (text_field ''method'' (JObj request))
          (case json_get (js ''params'') (JObj request) of Some q \<Rightarrow> q | None \<Rightarrow> JNull)"

text \<open>A client that records the requests it is given.\<close>

type_synonym request_log = "(jstr \<times> json) list list"

definition recording :: "((jstr \<times> json) list \<Rightarrow> json result) \<Rightarrow> (jstr \<times> json) list \<Rightarrow> (request_log, json) io" where
  "recording answer request log = (answer request, log @ [request])"

lemma call_sends:
  assumes "ed_call edge = recording answer"
  shows "\<exists>r. call_daemon edge tag method params parse key details fallback log = (Inr r, log @ [edge_request edge tag method params])"
  using assms
  by (cases "answer (edge_request edge tag method params)"; cases "parse (projr (answer (edge_request edge tag method params)))")
    (simp_all add: call_daemon_def io_defs recording_def)

text \<open>The wire request of a tool passes the schema of the contract.\<close>

definition edge_fits :: "'s edge \<Rightarrow> bool" where
  "edge_fits edge \<longleftrightarrow> length (ed_uuid edge) \<le> 64 \<and> 0 \<le> ed_now edge"

lemma fits_text:
  assumes "checks_schemas str_len chk" "t \<noteq> []" "length t \<le> n"
  shows "chk (TString 1 (Some n)) (JStr t)"
proof -
  have "str_len t \<le> length t" "str_len t \<noteq> 0" using assms(1,2) by (auto simp: checks_schemas_def)
  with assms(3) show ?thesis unfolding checks_simps(5) [OF assms(1)] by simp
qed

lemma wire_fits:
  assumes c: "checks_schemas str_len chk" and "edge_fits edge" and tag: "tag \<noteq> []" "length tag \<le> 64"
    and known: "method \<noteq> []" "length method \<le> 128"
  shows "accepts (parseRpcRequest chk (wire_request (edge_request edge tag method params)))"
proof -
  have "chk (TString 1 (Some 128)) (JStr (js tag @ ed_uuid edge))"
    using assms(2) tag by (intro fits_text [OF c]) (auto simp: edge_fits_def js_def)
  moreover have "chk (TString 1 (Some 128)) (JStr (js method))"
    using known by (intro fits_text [OF c]) (auto simp: js_def)
  moreover have "chk (TInteger 0) (JNum (JInt (ed_now edge + 5000)))"
    using assms(2) by (simp add: checks_simps(7) [OF c] edge_fits_def)
  ultimately have "chk RpcRequestSchema (wire_request (edge_request edge tag method params))"
    by (simp add: RpcRequestSchema_def checks_simps(3,9,10) [OF c] checks_object_def req_def opt_def wire_request_def edge_request_def)
  then show ?thesis by (simp add: parseRpcRequest_def parseTree_def accepts_def)
qed

lemma request_acceptedI:
  assumes "checks_schemas str_len chk" "edge_fits edge" "tag \<noteq> []" "length tag \<le> 64" "method \<noteq> []" "length method \<le> 128"
    and "params_accepted (js method) params"
  shows "request_accepted chk (edge_request edge tag method params)"
  using wire_fits [OF assms(1-6)] assms(7)
  by (simp add: request_accepted_def edge_request_def text_field_def)

section \<open>From the input of a tool to the parameters of a method\<close>

fun primitive_schema :: "zschema \<Rightarrow> bool" where
  "primitive_schema (ZString _ _) \<longleftrightarrow> True"
| "primitive_schema (ZDigest _) \<longleftrightarrow> True"
| "primitive_schema (ZInteger _ _) \<longleftrightarrow> True"
| "primitive_schema (ZNullable s) \<longleftrightarrow> primitive_schema s"
| "primitive_schema _ \<longleftrightarrow> False"

lemma primitive_value: "primitive_schema s \<Longrightarrow> zod dec s v = Some w \<Longrightarrow> primitive w"
  by (induction s rule: primitive_schema.induct) (auto split: json.splits if_splits option.splits)

lemma primitive_fields:
  "zod_fields dec ps kvs = Some ws \<Longrightarrow> list_all (\<lambda>p. primitive_schema (snd (snd p))) ps \<Longrightarrow> list_all (\<lambda>kv. primitive (snd kv)) ws"
proof (induction ps arbitrary: ws)
  case (Cons p ps)
  obtain k optional s where p: "p = (k, optional, s)" by (cases p)
  show ?case
  proof (cases "map_of kvs k")
    case None
    with Cons p show ?thesis by (auto split: if_splits)
  next
    case (Some v)
    with Cons.prems p obtain w ws' where "zod_fields dec ps kvs = Some ws'" "ws = (k, w) # ws'" "zod dec s v = Some w"
      by (auto split: option.splits)
    with Cons p primitive_value [of s dec v w] show ?thesis by simp
  qed
qed simp

lemma defined_input:
  assumes "zod dec (ZObject ps) v = Some p" "list_all (\<lambda>p. primitive_schema (snd (snd p))) ps"
  shows "definedParams p = Inr p"
proof -
  from assms(1) obtain kvs ws where w: "zod_fields dec ps kvs = Some ws" "p = JObj ws" by (cases v) auto
  have "list_all (\<lambda>kv. primitive (snd kv)) us \<Longrightarrow> defined_entries us = Inr us" for us
    by (induction us rule: defined_entries.induct) auto
  with primitive_fields [OF w(1) assms(2)] w(2) show ?thesis by (simp add: definedParams_def)
qed

lemma picked_get: "k \<in> set keys \<Longrightarrow> json_get (js k) (picked keys p) = json_get (js k) p"
proof (induction keys)
  case (Cons k' keys)
  have none: "map_of (List.map_filter (\<lambda>k. map_option (Pair (js k)) (json_get (js k) p)) ks) (js k) = None" if "json_get (js k) p = None" for ks
    using that by (induction ks) (auto split: option.splits)
  show ?case
  proof (cases "k' = k")
    case True
    then show ?thesis using none [of keys] by (simp add: picked_def split: option.splits)
  next
    case False
    with Cons show ?thesis by (auto simp: picked_def split: option.splits)
  qed
qed simp

lemma picked_object: "holds_object (picked keys p)"
  by (simp add: holds_object_def picked_def)

lemma picked_holds:
  assumes "k \<in> set keys"
  shows "has_text k (picked keys p) = has_text k p" "has_name k (picked keys p) = has_name k p"
    "has_edits k (picked keys p) = has_edits k p" "has_mode k (picked keys p) = has_mode k p"
    "maybe has_name k (picked keys p) = maybe has_name k p" "maybe has_mode k (picked keys p) = maybe has_mode k p"
  using picked_get [OF assms, of p] by (simp_all add: has_text_def has_name_def has_edits_def has_mode_def maybe_def)

lemma field_edits:
  assumes "matches_field dec p (zreq k (ZArray (ZObject [zreq ''oldText'' ZName, zreq ''newText'' ZText]) lo hi))"
  shows "has_edits k p"
proof -
  let ?edit = "ZObject [zreq ''oldText'' ZName, zreq ''newText'' ZText]"
  from assms obtain w where w: "json_get (js k) p = Some w" "zod dec (ZArray ?edit lo hi) w = Some w"
    by (auto simp: matches_field_def zreq_def simp del: zod.simps split: option.splits)
  then obtain items where items: "w = JArr items" "those (map (zod dec ?edit) items) = Some items"
    by (cases w) (auto simp del: zod.simps(1-7,9-) split: if_splits)
  have "edit_object e" if "e \<in> set items" for e
  proof -
    from that obtain i where "i < length items" "e = items ! i" by (auto simp: in_set_conv_nth)
    with those_nth [OF items(2), of i] have "zod dec ?edit e = Some e" by simp
    then obtain ws :: "(jstr \<times> json) list" where "list_all (matches_field dec e) [zreq ''oldText'' ZName, zreq ''newText'' ZText]"
      by (rule input_fields) (simp_all add: zreq_def)
    then show ?thesis using field_text by (auto simp: edit_object_def simp del: One_nat_def)
  qed
  with w(1) items(1) show ?thesis by (simp add: has_edits_def list_all_iff)
qed

section \<open>What a tool sends\<close>

definition sends_accepted :: "checker \<Rightarrow> request_log edge \<Rightarrow> request_log tool \<Rightarrow> json \<Rightarrow> bool" where
  "sends_accepted chk edge t p \<longleftrightarrow>
     (\<exists>r requests. tool_handler t edge p [] = (Inr r, requests) \<and> length requests \<le> 1 \<and> list_all (request_accepted chk) requests)"

text \<open>The surroundings of a call: the contract's checker, an id of reasonable length, a client that records.\<close>

definition edge_setting :: "(jstr \<Rightarrow> nat) \<Rightarrow> checker \<Rightarrow> request_log edge \<Rightarrow> bool" where
  "edge_setting str_len chk edge \<longleftrightarrow>
     checks_schemas str_len chk \<and> edge_fits edge \<and> (\<exists>answer. ed_call edge = recording answer)"

lemma sends_call:
  assumes "edge_setting str_len chk edge" "params_accepted (js method) params"
    and "tool_handler t edge p [] = call_daemon edge tag method params parse key details fallback []"
    and "tag \<noteq> []" "length tag \<le> 64" "method \<noteq> []" "length method \<le> 128"
  shows "sends_accepted chk edge t p"
proof -
  from assms(1) obtain answer where e: "checks_schemas str_len chk" "edge_fits edge" "ed_call edge = recording answer"
    by (auto simp: edge_setting_def)
  obtain r where "call_daemon edge tag method params parse key details fallback [] = (Inr r, [edge_request edge tag method params])"
    using call_sends [OF e(3), of tag "method" "params" parse key details fallback "[]"] by auto
  moreover have "request_accepted chk (edge_request edge tag method params)"
    using request_acceptedI [OF e(1,2) assms(4-7,2)] .
  ultimately show ?thesis using assms(3) by (simp add: sends_accepted_def)
qed

lemma handler_defined:
  assumes "zod dec (ZObject ps) v = Some p" "list_all (\<lambda>p. primitive_schema (snd (snd p))) ps"
  shows "with_defined p f = f p"
  using defined_input [OF assms] by (auto simp: with_defined_def io_defs fun_eq_iff)

lemmas call_defs = callFilesystemRpc_def callSkillsListRpc_def callSkillReadRpc_def callWorkspaceRpc_def

lemma params_accepted_simps:
  "params_accepted (js ''system.health'') q"
  "params_accepted (js ''file.read'') q = accepts (readFileReadParams q)"
  "params_accepted (js ''file.list'') q = accepts (readFileListParams q)"
  "params_accepted (js ''file.search'') q = accepts (readFileSearchParams q)"
  "params_accepted (js ''file.write'') q = accepts (readFileWriteParams q)"
  "params_accepted (js ''file.patch'') q = accepts (readFilePatchParams q)"
  "params_accepted (js ''instructions.resolve'') q = accepts (readInstructionsResolveParams q)"
  "params_accepted (js ''skills.list'') q = accepts (readSkillsListParams q)"
  "params_accepted (js ''skills.read'') q = accepts (readSkillsReadParams q)"
  "params_accepted (js ''workspace.get'') q = accepts (readWorkspaceIdParam q)"
  "params_accepted (js ''workspace.open'') q = accepts (readWorkspaceOpenParams q)"
  by (simp_all add: params_accepted_def)

lemmas field_dests = field_name field_maybe_name field_text field_digest field_maybe_text field_maybe_number field_digest_or_null
  field_edits [unfolded One_nat_def] field_mode

lemma callInstructionsRpc_eta:
  "callInstructionsRpc edge = (\<lambda>params. call_daemon edge ''edge_instructions_'' ''instructions.resolve'' params
     (ed_parse edge instructionsResolveResultSchema) ''resolution'' True ''Instructions RPC failed'')"
  by (simp add: fun_eq_iff callInstructionsRpc_def)

lemma object_holds [simp]: "holds_object (JObj ws)"
  by (simp add: holds_object_def)

text \<open>A tool that forwards its defined parameters, and one that forwards the properties it names.\<close>

lemma defined_sends:
  assumes "edge_setting str_len chk edge" "zod dec (tool_inputSchema t) v = Some p" "tool_inputSchema t = ZObject ps"
    and "plain_schema (ZObject ps)" "list_all (\<lambda>p. primitive_schema (snd (snd p))) ps"
    and "tool_handler t edge p = with_defined p (\<lambda>q. call_daemon edge tag method q parse key details fallback)"
    and "tag \<noteq> [] \<and> length tag \<le> 64 \<and> method \<noteq> [] \<and> length method \<le> 128"
    and "\<And>ws. list_all (matches_field dec (JObj ws)) ps \<Longrightarrow> params_accepted (js method) (JObj ws)"
  shows "sends_accepted chk edge t p"
proof -
  note z = assms(2) [unfolded assms(3)]
  from z obtain ws where "p = JObj ws" "list_all (matches_field dec p) ps"
    by (rule input_fields) (rule assms(4))
  then have "params_accepted (js method) p" using assms(8) by simp
  then show ?thesis
    using assms(1,7) unfolding assms(6) handler_defined [OF z assms(5)]
    by (intro sends_call) (auto simp: assms(6) handler_defined [OF z assms(5)])
qed

lemma picked_sends:
  assumes "edge_setting str_len chk edge" "zod dec (tool_inputSchema t) v = Some p" "tool_inputSchema t = ZObject ps"
    and "plain_schema (ZObject ps)"
    and "tool_handler t edge p = call_daemon edge tag method (picked keys p) parse key details fallback"
    and "tag \<noteq> [] \<and> length tag \<le> 64 \<and> method \<noteq> [] \<and> length method \<le> 128"
    and "list_all (matches_field dec p) ps \<Longrightarrow> params_accepted (js method) (picked keys p)"
  shows "sends_accepted chk edge t p"
proof -
  from assms(2) [unfolded assms(3)] have "list_all (matches_field dec p) ps"
    by (rule input_fields) (rule assms(4))
  with assms show ?thesis by (intro sends_call) (auto simp: assms(5))
qed

lemma file_read_sends:
  assumes "edge_setting str_len chk edge" "zod dec (tool_inputSchema (file_read_tool :: request_log tool)) v = Some p"
  shows "sends_accepted chk edge file_read_tool p"
  unfolding file_read_tool_def
  by (rule defined_sends [OF assms(1) assms(2) [unfolded file_read_tool_def]])
    (auto simp: call_defs callInstructionsRpc_eta zreq_def zopt_def params_accepted_simps name_text intro!: accepts_read
      dest: field_dests [unfolded zreq_def zopt_def])

lemma file_list_sends:
  assumes "edge_setting str_len chk edge" "zod dec (tool_inputSchema (file_list_tool :: request_log tool)) v = Some p"
  shows "sends_accepted chk edge file_list_tool p"
  unfolding file_list_tool_def
  by (rule defined_sends [OF assms(1) assms(2) [unfolded file_list_tool_def]])
    (auto simp: call_defs callInstructionsRpc_eta zreq_def zopt_def params_accepted_simps name_text intro!: accepts_list
      dest: field_dests [unfolded zreq_def zopt_def])

lemma file_search_sends:
  assumes "edge_setting str_len chk edge" "zod dec (tool_inputSchema (file_search_tool :: request_log tool)) v = Some p"
  shows "sends_accepted chk edge file_search_tool p"
  unfolding file_search_tool_def
  by (rule defined_sends [OF assms(1) assms(2) [unfolded file_search_tool_def]])
    (auto simp: call_defs callInstructionsRpc_eta zreq_def zopt_def params_accepted_simps name_text intro!: accepts_search
      dest: field_dests [unfolded zreq_def zopt_def])

lemma file_write_sends:
  assumes "edge_setting str_len chk edge" "zod dec (tool_inputSchema (file_write_tool :: request_log tool)) v = Some p"
  shows "sends_accepted chk edge file_write_tool p"
  unfolding file_write_tool_def
  by (rule defined_sends [OF assms(1) assms(2) [unfolded file_write_tool_def]])
    (auto simp: call_defs callInstructionsRpc_eta zreq_def zopt_def params_accepted_simps name_text intro!: accepts_write
      dest: field_dests [unfolded zreq_def zopt_def])

lemma instructions_resolve_sends:
  assumes "edge_setting str_len chk edge" "zod dec (tool_inputSchema (instructions_resolve_tool :: request_log tool)) v = Some p"
  shows "sends_accepted chk edge instructions_resolve_tool p"
  unfolding instructions_resolve_tool_def
  by (rule defined_sends [OF assms(1) assms(2) [unfolded instructions_resolve_tool_def]])
    (auto simp: call_defs callInstructionsRpc_eta zreq_def zopt_def params_accepted_simps name_text intro!: accepts_resolve
      dest: field_dests [unfolded zreq_def zopt_def])

lemma file_patch_sends:
  assumes "edge_setting str_len chk edge" "zod dec (tool_inputSchema (file_patch_tool :: request_log tool)) v = Some p"
  shows "sends_accepted chk edge file_patch_tool p"
  unfolding file_patch_tool_def
  by (rule picked_sends [OF assms(1) assms(2) [unfolded file_patch_tool_def]])
    (auto simp: call_defs callInstructionsRpc_eta zreq_def zopt_def params_accepted_simps name_text picked_object picked_holds intro!: accepts_patch,
      (auto dest: field_dests [unfolded zreq_def zopt_def] simp: name_text)+)

lemma skills_list_sends:
  assumes "edge_setting str_len chk edge" "zod dec (tool_inputSchema (skills_list_tool :: request_log tool)) v = Some p"
  shows "sends_accepted chk edge skills_list_tool p"
  unfolding skills_list_tool_def
  by (rule picked_sends [OF assms(1) assms(2) [unfolded skills_list_tool_def]])
    (auto simp: call_defs callInstructionsRpc_eta zreq_def zopt_def params_accepted_simps name_text picked_object picked_holds intro!: accepts_skills,
      (auto dest: field_dests [unfolded zreq_def zopt_def] simp: name_text)+)

lemma skill_read_sends:
  assumes "edge_setting str_len chk edge" "zod dec (tool_inputSchema (skill_read_tool :: request_log tool)) v = Some p"
  shows "sends_accepted chk edge skill_read_tool p"
  unfolding skill_read_tool_def
  by (rule picked_sends [OF assms(1) assms(2) [unfolded skill_read_tool_def]])
    (auto simp: call_defs callInstructionsRpc_eta zreq_def zopt_def params_accepted_simps name_text picked_object picked_holds intro!: accepts_skill_read,
      (auto dest: field_dests [unfolded zreq_def zopt_def] simp: name_text)+)

lemma workspace_get_sends:
  assumes "edge_setting str_len chk edge" "zod dec (tool_inputSchema (workspace_get_tool :: request_log tool)) v = Some p"
  shows "sends_accepted chk edge workspace_get_tool p"
  unfolding workspace_get_tool_def
  by (rule picked_sends [OF assms(1) assms(2) [unfolded workspace_get_tool_def]])
    (auto simp: call_defs callInstructionsRpc_eta zreq_def zopt_def params_accepted_simps name_text picked_object picked_holds intro!: accepts_workspace_get,
      (auto dest: field_dests [unfolded zreq_def zopt_def] simp: name_text)+)

lemma workspace_open_sends:
  assumes "edge_setting str_len chk edge" "zod dec (tool_inputSchema (workspace_open_tool :: request_log tool)) v = Some p"
    and "json_get (js ''baseRef'') p = None \<or> json_get (js ''mode'') p = Some (JStr (js ''worktree''))"
  shows "sends_accepted chk edge workspace_open_tool p"
  unfolding workspace_open_tool_def
  by (rule picked_sends [OF assms(1) assms(2) [unfolded workspace_open_tool_def]])
    (use assms(3) in \<open>auto simp: call_defs callInstructionsRpc_eta zreq_def zopt_def params_accepted_simps name_text picked_object picked_holds picked_get intro!: accepts_open\<close>,
      (auto dest: field_dests [unfolded zreq_def zopt_def] simp: name_text)+)

lemma health_sends:
  assumes "edge_setting str_len chk edge"
  shows "sends_accepted chk edge health_tool p"
proof -
  from assms obtain answer where e: "checks_schemas str_len chk" "edge_fits edge" "ed_call edge = recording answer"
    by (auto simp: edge_setting_def)
  let ?request = "edge_request edge ''edge_health_'' ''system.health'' (JObj [])"
  have "\<exists>r. tool_handler health_tool edge p [] = (Inr r, [?request])"
    using e(3) by (cases "answer ?request"; cases "ed_parse edge daemonHealthSchema (projr (answer ?request))")
      (simp_all add: health_tool_def health_handler_def io_defs recording_def)
  moreover have "request_accepted chk ?request"
    by (rule request_acceptedI [OF e(1,2)]) (simp_all add: params_accepted_simps)
  ultimately show ?thesis by (auto simp: sends_accepted_def)
qed

lemma static_sends:
  "sends_accepted chk edge capabilities_tool p" "sends_accepted chk edge (system_info_tool nodeVersion platform architecture) p"
  by (auto simp: sends_accepted_def capabilities_tool_def system_info_tool_def io_defs)

lemmas tool_sends = health_sends static_sends file_read_sends file_list_sends file_search_sends file_write_sends
  file_patch_sends instructions_resolve_sends skills_list_sends skill_read_sends workspace_get_sends workspace_open_sends

text \<open>C38. The tools and the daemon agree on requests: an input that matches the schema a tool declares makes the
  handler answer, and the one request it sends the daemon, if any, passes the schema of RPC requests and is
  accepted by the reader of parameters of its method. The exception the input schema of \<open>workspace_open\<close>
  leaves is a base reference without worktree mode, which the daemon rejects.\<close>

theorem tool_requests_accepted:
  assumes "edge_setting str_len chk edge" "t \<in> set (buildMcpServer nodeVersion platform architecture)"
    and "zod dec (tool_inputSchema t) v = Some p"
    and "tool_name t = ''workspace_open'' \<Longrightarrow>
      json_get (js ''baseRef'') p = None \<or> json_get (js ''mode'') p = Some (JStr (js ''worktree''))"
  shows "\<exists>r requests. tool_handler t edge p [] = (Inr r, requests) \<and> length requests \<le> 1 \<and> list_all (request_accepted chk) requests"
proof -
  have "sends_accepted chk edge t p"
  proof (cases "t = workspace_open_tool")
    case True
    with assms show ?thesis using workspace_open_sends by (simp add: workspace_open_tool_def)
  next
    case False
    with assms(2,3) show ?thesis
      using tool_sends(1,4-12) [OF assms(1)] static_sends unfolding buildMcpServer_def by auto
  qed
  then show ?thesis by (simp add: sends_accepted_def)
qed

section \<open>Answers\<close>












section \<open>The HTTP server\<close>

text \<open>A start leaves a server that listens with an open handler, or nothing at all.\<close>

lemma startMcpEdge_outcomes:
  assumes "startMcpEdge dec socketPath port listening address st = (r, st')" "\<not> es_handler_open st" "\<not> es_listening st"
  shows "case r of
      Inl _ \<Rightarrow> \<not> es_handler_open st' \<and> \<not> es_listening st'
    | Inr h \<Rightarrow> es_handler_open st' \<and> es_listening st' \<and> valid_port dec port
        \<and> (\<exists>family. address = InetAddress family (handle_host h) (handle_port h))"
  using assms
  by (cases "createLocalRpcClient socketPath"; cases listening; cases address)
    (auto simp: startMcpEdge_def io_defs handler_close_def closeServer_def edge_listen_def Let_def split: if_splits)

lemma edge_close_outcome:
  assumes "edge_close st = (r, st')" "es_closed st \<Longrightarrow> \<not> es_handler_open st \<and> \<not> es_listening st"
  shows "r = Inr () \<and> es_closed st' \<and> \<not> es_handler_open st' \<and> \<not> es_listening st' \<and> edge_close st' = (Inr (), st')"
  using assms by (auto simp: edge_close_def io_defs handler_close_def closeServer_def split: if_splits)

lemma route_request_forwarded:
  "route_request url validHost validOrigin = Forwarded \<longleftrightarrow> url = js ''/mcp'' \<and> validHost \<and> validOrigin"
  by (simp add: route_request_def)

section \<open>Samples\<close>

definition sample_parse :: zod_parse where
  "sample_parse s v = (case zod (\<lambda>_. None) s v of Some w \<Rightarrow> Inr w | None \<Rightarrow> Inl (PlainError (js ''ZodError'') (js ''Invalid input'')))"

text \<open>A daemon that refuses every request.\<close>

definition sample_edge :: "request_log edge" where
  "sample_edge = \<lparr>ed_call = recording (\<lambda>request. Inl (JsError (js ''refused''))), ed_uuid = js ''u1'', ed_now = 1000,
     ed_parse = sample_parse, ed_chk = json_schema_check\<rparr>"

definition sample_input :: json where
  "sample_input = JObj [(js ''workspaceId'', JStr (js ''w1'')), (js ''path'', JStr (js ''a.txt''))]"


lemma sample_edge_setting: "\<exists>str_len. edge_setting str_len json_schema_check sample_edge"
proof -
  obtain str_len where "checks_schemas str_len json_schema_check" using checks_schemas_reference by blast
  then show ?thesis by (auto simp: edge_setting_def edge_fits_def sample_edge_def js_def)
qed

lemma sample_read_input: "zod (\<lambda>_. None) (tool_inputSchema (file_read_tool :: 's tool)) sample_input = Some sample_input"
  by (simp add: file_read_tool_def sample_input_def zreq_def zopt_def up_to_def js_def)

lemma sample_read_tool: "(file_read_tool :: 's tool) \<in> set (buildMcpServer [] [] [])"
  by (simp add: buildMcpServer_def)

theorem tool_requests_accepted_witness:
  "\<exists>r requests. tool_handler file_read_tool sample_edge sample_input [] = (Inr r, requests) \<and> length requests \<le> 1
    \<and> list_all (request_accepted json_schema_check) requests"
proof -
  obtain str_len where "edge_setting str_len json_schema_check sample_edge" using sample_edge_setting by blast
  then show ?thesis
    using tool_requests_accepted [OF _ sample_read_tool sample_read_input] by (simp add: file_read_tool_def)
qed


end
