(* ===== verification/Spec2Isabelle.thy ===== *)
theory Spec2Isabelle
  imports ExecuteOnce WriteCalm ReadCalm SearchComplete WriteQueue RegistrySamples InstructionsSamples RpcEndToEnd DaemonStart McpTools
begin

text \<open>
  A verification library for Benchhand, a local workspace service written in TypeScript (\<open>packages/*/src\<close>).

  \<^bold>\<open>The program.\<close> An agent speaks MCP to the edge (\<open>mcp-edge\<close>), an HTTP server whose tools call the
  daemon. A call goes through the client of \<open>local-rpc\<close> over a Unix socket to \<open>daemon\<close>, which checks the
  request against the schemas of \<open>contracts\<close>, dispatches it and maps errors to the wire. Behind the dispatch
  are the services: \<open>filesystem\<close> (bounded read, list and search, atomic write, exact patch), \<open>instructions\<close>
  (instruction files along a scope chain, skills), \<open>workspace\<close> (durable workspace handles and managed git
  worktrees) and \<open>operations\<close> (the journal that makes an operation run at most once). Journal and registry
  are tables of one SQLite database, opened and migrated by \<open>storage\<close>.

  \<^bold>\<open>How it is modelled.\<close> A throwing function returns \<open>Inl\<close> of a value of \<open>thrown\<close> (\<open>Errors\<close>). An asynchronous
  function is a computation on the state that can change while it is suspended (\<open>Io\<close>). Strings are lists of
  16-bit code units (\<open>JsStrings\<close>), bytes are 8-bit words, JSON values a datatype with the text of
  \<open>JSON.stringify\<close> and \<open>JSON.parse\<close> (\<open>Json\<close>). Names are those of the code; a definition whose name is not in
  the code is a loop body, a closure or an SQL statement of the function it is next to.

  \<^item> \<open>Prelude\<close>, \<open>Traces\<close>, \<open>Io\<close>: results, the stable sort with its locales \<open>comparator\<close> and
    \<open>strict_comparator\<close>, runs of step relations with the locales \<open>step_invariant\<close> and \<open>milestone\<close>,
    computations and the locale \<open>state_order\<close> for relations that every step of a computation keeps.
  \<^item> \<open>JsStrings\<close>, \<open>Utf8\<close>, \<open>Json\<close>, \<open>JsonRoundtrip\<close>, \<open>Codec\<close>: strings, UTF-8, JSON text and base64url, with
    their round trips.
  \<^item> \<open>Contracts\<close> (\<open>contracts.ts\<close>, \<open>ids.ts\<close>): schemas as data, \<open>isJsonValue\<close> over object graphs (shared and
    cyclic references), every parse function.
  \<^item> \<open>Storage\<close> (\<open>storage\<close>): bootstrap of a connection, transactions, \<open>applyMigrations\<close>.
  \<^item> \<open>Operations\<close>, \<open>Journal\<close>, \<open>ExecuteOnce\<close> (\<open>operations\<close>): the table and every operation; the abstract map
    \<open>jspec\<close> it refines; \<open>execute\<close> runs an effect once, replays results and errors, and does not resume what a
    crash interrupted.
  \<^item> \<open>World\<close>: a POSIX file system of names and inodes and the calls the code makes on it. Before each call the
    rest of the system may act as an arbitrary schedule says. \<open>calm\<close> is the empty schedule.
  \<^item> \<open>FsText\<close>, \<open>PathSafety\<close>, \<open>PatchPlan\<close>, \<open>ReadList\<close>, \<open>ReadCalm\<close>, \<open>Search\<close>, \<open>SearchBounds\<close>,
    \<open>SearchComplete\<close>, \<open>AtomicWrite\<close>, \<open>WriteGuarantees\<close>, \<open>WriteCalm\<close>, \<open>WriteQueue\<close> (\<open>filesystem\<close>): the pure
    parts, confinement of paths, planning and applying patches, the operations, what they keep under any
    interference (\<open>WriteGuarantees\<close>, \<open>SearchBounds\<close>), what they compute without it (\<open>*Calm\<close>,
    \<open>SearchComplete\<close>), and the queue \<open>#serializeWrite\<close> as a transition system.
  \<^item> \<open>GitWorktree\<close>, \<open>RegistryTables\<close>, \<open>Registry\<close>, \<open>Worktrees\<close>, \<open>RegistryInvariant\<close>, \<open>RegistryCalm\<close>,
    \<open>WorktreeProtocol\<close>, \<open>WorktreeCalm\<close>, \<open>RegistrySamples\<close> (\<open>workspace\<close>): git commands and the porcelain
    parser, the three tables with constraints and migrations, \<open>open\<close> and \<open>get\<close>, the invariant of the tables in
    every reachable state, the protocol between journal, git and registrations, results without interference.
  \<^item> \<open>InstructionsText\<close>, \<open>Instructions\<close>, \<open>InstructionsCache\<close>, \<open>InstructionsResolve\<close>, \<open>Skills\<close>, \<open>SkillsList\<close>,
    \<open>InstructionsSamples\<close> (\<open>instructions\<close>): scope chains, front matter and ordering, \<open>resolve\<close> with providers
    and cache, the freshness of cached text, discovery, \<open>listSkills\<close> and \<open>readSkill\<close>.
  \<^item> \<open>Rpc\<close> (\<open>local-rpc\<close>): the checks before transport and the promise of a call as a machine of events.
  \<^item> \<open>DaemonRequests\<close>, \<open>Daemon\<close>, \<open>DaemonStart\<close> (\<open>daemon\<close>): the readers of parameters, the dispatch and
    \<open>handleHttpRequest\<close> from bytes to bytes, \<open>startDaemon\<close> and \<open>close\<close>. \<open>RpcEndToEnd\<close> composes client and
    daemon.
  \<^item> \<open>Mcp\<close>, \<open>McpEdge\<close>, \<open>McpTools\<close> (\<open>mcp-edge\<close>): schemas, tools and handlers, \<open>startMcpEdge\<close>; the answers of
    the tools have the declared shape, and their requests are accepted by the readers of the daemon.

  \<open>Samples\<close> and the \<open>sample_\<close> definitions are concrete states; the witnesses apply the properties to them.

  \<^bold>\<open>Loops and bounds.\<close> Loops over data are structural or have a measure; the search for occurrences and the
  reading of lines are partial functions whose return is proved. Resolution of a path follows at most 40
  symbolic links, as Linux does (\<open>locate\<close>). \<open>JSON_parse\<close> has one unit of depth for each character of its
  text, which the round trip shows to be enough. A client that follows cursors has fuel for the pages
  (\<open>list_pages\<close>); the property says from which amount on it suffices. The waits for a worktree in flight
  (40), the attempts at a stable read (3), the depth and the counters of a search, and the sizes of messages
  (1 MiB) are the constants of the code.

  \<^bold>\<open>Parameters.\<close> SHA-256, minimatch, the YAML parser, git, the resolver of workspaces, further instruction
  providers, TypeBox (\<open>checks_schemas\<close>), zod (\<open>zod_documented\<close>), the device, birth time and times of inodes,
  the integers decimal numerals denote, clock, random ids, platform, what SQLite answers to pragmas and to an
  integrity check, and the texts of SQL scripts. Hypotheses about them state documented behaviour, and each
  property that has one has a witness with a concrete function.

  \<^bold>\<open>Bounds of faithfulness.\<close> SQLite statements fail only by constraints; text is stored exactly, lone
  surrogates included. Numbers with a fraction or exponent are carried as
  their text. Paths are POSIX paths except where the code computes with Windows forms. \<open>readFile\<close> takes the
  content at one moment. The write queue is modelled apart from the operations it runs, which appear there as
  the steps begin and end. A git command acts on the file system, and anything else may act on it at the same call. Skill
  roots, which the code visits concurrently, are visited in sequence. The options \<open>now\<close> and
  \<open>createWorkspaceId\<close> of the registry have their defaults. Timestamps of the journal, which nothing reads, are
  left out. The services behind the dispatch are a record of computations on a common state. The events of
  \<open>node:http\<close> arrive in any order. The MCP SDK is taken to check the input against the schema and then run the
  handler; its checks of host and origin are given answers.

  \<^bold>\<open>Not modelled.\<close> The statement calls of \<open>SqliteDatabase\<close> (\<open>exec\<close>, \<open>run\<close>, \<open>get\<close>, \<open>all\<close>) only forward to
  better-sqlite3: each statement the code runs through them is a function on the tables instead. The
  transport and the protocol eras of the MCP SDK, the parsing of HTTP by node, titles and descriptions of
  tools, the limits \<open>maxHeadersCount\<close>, \<open>requestTimeout\<close> and \<open>headersTimeout\<close>, TypeScript declarations without
  a value at run time and re-exports have no behaviour of the repository's own.
\<close>

end
